(* ===== verification/Prelude.thy ===== *)
theory Prelude
  imports Complex_Main "HOL-Library.AList" "HOL-Library.Sublist"
begin

text \<open>
  What the components share: strings and their Python operations, dictionaries with insertion
  order, decimal numerals, and the locales of the interfaces that several components state.

  Python strings are sequences of code points. The model's \<open>string\<close> is a list of the code
  points 0 to 255, and the operations below (\<open>strip\<close>, \<open>lower\<close>, \<open>isspace\<close>) are what Python
  computes on those code points. Nothing here is about code points above 255.
\<close>

named_theorems machine_defs \<open>definitions of the operations of a component, to unfold in a step\<close>
named_theorems strip_simps \<open>facts about Python's strip and blank tests\<close>

type_synonym pystr = string

section \<open>Strings\<close>

text \<open>\<open>str.isspace\<close> of one code point below 256: tab to carriage return, the four information
  separators, space, next line and no-break space.\<close>

definition py_isspace :: "char \<Rightarrow> bool" where
  "py_isspace c \<longleftrightarrow>
     (let n = (of_char c :: nat)
      in (9 \<le> n \<and> n \<le> 13) \<or> (28 \<le> n \<and> n \<le> 32) \<or> n = 133 \<or> n = 160)"

definition py_lstrip :: "pystr \<Rightarrow> pystr" where
  "py_lstrip s = dropWhile py_isspace s"

definition py_rstrip :: "pystr \<Rightarrow> pystr" where
  "py_rstrip s = rev (dropWhile py_isspace (rev s))"

definition py_strip :: "pystr \<Rightarrow> pystr" where
  "py_strip s = py_rstrip (py_lstrip s)"

text \<open>The guard \<open>not value.strip()\<close>, which many operations of the program start with.\<close>

definition blank :: "pystr \<Rightarrow> bool" where
  "blank s \<longleftrightarrow> py_strip s = []"

definition py_lower_char :: "char \<Rightarrow> char" where
  "py_lower_char c =
     (let n = (of_char c :: nat)
      in if (65 \<le> n \<and> n \<le> 90) \<or> (192 \<le> n \<and> n \<le> 222 \<and> n \<noteq> 215)
         then char_of (n + 32) else c)"

definition py_lower :: "pystr \<Rightarrow> pystr" where
  "py_lower s = map py_lower_char s"

lemma dropWhile_idem [simp]: "dropWhile P (dropWhile P xs) = dropWhile P xs"
  by (induction xs) auto

lemma py_lstrip_idem [strip_simps]: "py_lstrip (py_lstrip s) = py_lstrip s"
  by (simp add: py_lstrip_def)

lemma py_rstrip_idem [strip_simps]: "py_rstrip (py_rstrip s) = py_rstrip s"
  by (simp add: py_rstrip_def)

lemma blank_all_space: "blank s \<longleftrightarrow> (\<forall>c \<in> set s. py_isspace c)"
  by (auto simp: blank_def py_strip_def py_rstrip_def py_lstrip_def dropWhile_eq_Nil_conv
      dest: set_dropWhileD)
     (metis hd_dropWhile hd_in_set dropWhile_eq_Nil_conv)

lemma blank_Nil [simp]: "blank []"
  by (simp add: blank_all_space)

lemma lstrip_head: "py_lstrip s = [] \<or> \<not> py_isspace (hd (py_lstrip s))"
  using hd_dropWhile [of py_isspace s] by (auto simp: py_lstrip_def)

lemma rstrip_prefix: "prefix (py_rstrip s) s"
proof -
  have "suffix (dropWhile py_isspace (rev s)) (rev s)" by (rule suffix_dropWhile)
  then show ?thesis by (simp add: py_rstrip_def suffix_to_prefix)
qed

lemma lstrip_rstrip: 
  assumes "t = [] \<or> \<not> py_isspace (hd t)" and "prefix u t"
  shows "py_lstrip u = u"
  using assms by (cases u) (auto simp: py_lstrip_def prefix_def)

lemma py_strip_idem [strip_simps, simp]: "py_strip (py_strip s) = py_strip s"
proof -
  have "py_lstrip (py_rstrip (py_lstrip s)) = py_rstrip (py_lstrip s)"
    by (rule lstrip_rstrip [OF lstrip_head rstrip_prefix])
  then show ?thesis by (simp add: py_strip_def strip_simps)
qed

lemma py_strip_length: "length (py_strip s) \<le> length s"
proof -
  have "length (py_rstrip (py_lstrip s)) \<le> length (py_lstrip s)"
    by (rule prefix_length_le [OF rstrip_prefix])
  also have "\<dots> \<le> length s" by (simp add: py_lstrip_def length_dropWhile_le)
  finally show ?thesis by (simp add: py_strip_def)
qed

lemma strip_no_space: "s \<noteq> [] \<Longrightarrow> \<forall>c \<in> set s. \<not> py_isspace c \<Longrightarrow> py_strip s = s"
proof -
  assume s: "s \<noteq> []" "\<forall>c \<in> set s. \<not> py_isspace c"
  have "dropWhile py_isspace s = s" using s by (cases s) auto
  moreover have "dropWhile py_isspace (rev s) = rev s" using s by (cases "rev s") auto
  ultimately show ?thesis by (simp add: py_strip_def py_lstrip_def py_rstrip_def)
qed

lemma not_blank_strip [strip_simps]: "py_strip s \<noteq> [] \<Longrightarrow> \<not> blank s"
  by (simp add: blank_def)

section \<open>Decimal numerals\<close>

text \<open>\<open>str(n)\<close> of a non-negative integer, as an f-string writes it.\<close>

fun nat_str :: "nat \<Rightarrow> string" where
  "nat_str n =
     (if n < 10 then [char_of (48 + n)] else nat_str (n div 10) @ [char_of (48 + n mod 10)])"

declare nat_str.simps [simp del]

definition int_str :: "int \<Rightarrow> string" where
  "int_str i = (if i < 0 then CHR ''-'' # nat_str (nat (- i)) else nat_str (nat i))"

section \<open>Exceptions and guards\<close>

text \<open>The builtin exceptions the components raise, with their message. A message that shows a
  value with \<open>!r\<close> carries the value here without Python's quoting.\<close>

datatype py_exc =
    ValueError string
  | TypeError string
  | KeyError string
  | RuntimeError string

text \<open>
  An operation that starts with a row of \<open>if ...: raise ...\<close> statements: the guards in the order
  of the source, each with what it raises. The first one that holds decides.
\<close>

fun first_error :: "(bool \<times> 'e) list \<Rightarrow> 'e option" where
  "first_error [] = None"
| "first_error ((b, e) # gs) = (if b then Some e else first_error gs)"

definition guarded :: "(bool \<times> 'e) list \<Rightarrow> 's \<Rightarrow> ('e + 'a) \<times> 's \<Rightarrow> ('e + 'a) \<times> 's" where
  "guarded gs s k = (case first_error gs of Some e \<Rightarrow> (Inl e, s) | None \<Rightarrow> k)"

definition checked :: "(bool \<times> 'e) list \<Rightarrow> 'e + 'a \<Rightarrow> 'e + 'a" where
  "checked gs k = (case first_error gs of Some e \<Rightarrow> Inl e | None \<Rightarrow> k)"

definition try_res :: "'e + 'a \<Rightarrow> 's \<Rightarrow> ('a \<Rightarrow> ('e + 'b) \<times> 's) \<Rightarrow> ('e + 'b) \<times> 's" where
  "try_res r s k = (case r of Inl e \<Rightarrow> (Inl e, s) | Inr a \<Rightarrow> k a)"

lemma first_error_None: "first_error gs = None \<longleftrightarrow> (\<forall>(b, e) \<in> set gs. \<not> b)"
  by (induction gs rule: first_error.induct) auto

lemma first_error_Some: "first_error gs = Some e \<Longrightarrow> \<exists>b. b \<and> (b, e) \<in> set gs"
  by (induction gs rule: first_error.induct) (auto split: if_splits)

lemma guarded_Inr:
  "guarded gs s k = (Inr a, t) \<longleftrightarrow> (\<forall>(b, e) \<in> set gs. \<not> b) \<and> k = (Inr a, t)"
  by (auto simp: guarded_def first_error_None split: option.splits)
     (metis first_error_None case_prodD not_None_eq option.simps(3))+

lemma guarded_state:
  "snd (guarded gs s k) = s \<or> snd (guarded gs s k) = snd k"
  by (auto simp: guarded_def split: option.splits)

lemma guarded_inv: "I s \<Longrightarrow> (first_error gs = None \<Longrightarrow> I (snd k)) \<Longrightarrow> I (snd (guarded gs s k))"
  by (auto simp: guarded_def split: option.splits)

lemma try_res_inv: "I s \<Longrightarrow> (\<And>a. r = Inr a \<Longrightarrow> I (snd (k a))) \<Longrightarrow> I (snd (try_res r s k))"
  by (auto simp: try_res_def split: sum.splits)

lemma if_inv: "(b \<Longrightarrow> I (snd x)) \<Longrightarrow> (\<not> b \<Longrightarrow> I (snd y)) \<Longrightarrow> I (snd (if b then x else y))"
  by simp

lemma checked_Inr: "checked gs k = Inr a \<longleftrightarrow> (\<forall>(b, e) \<in> set gs. \<not> b) \<and> k = Inr a"
  by (auto simp: checked_def first_error_None split: option.splits)
     (metis first_error_None case_prodD not_None_eq option.simps(3))+

lemma map_sum_Inr [simp]: "map_sum f g x = Inr u \<longleftrightarrow> (\<exists>a. x = Inr a \<and> u = g a)"
  by (cases x) auto

lemma map_sum_Inl [simp]: "map_sum f g x = Inl u \<longleftrightarrow> (\<exists>a. x = Inl a \<and> u = f a)"
  by (cases x) auto

section \<open>Dictionaries in insertion order\<close>

text \<open>
  A Python dictionary whose order or size matters is an association list with distinct keys.
  \<open>AList.update\<close> keeps the place of a key that is there and appends a new one, \<open>AList.delete\<close>
  removes a key, as \<open>d[k] = v\<close> and \<open>d.pop(k, None)\<close> do.
\<close>

type_synonym ('k, 'v) dict = "('k \<times> 'v) list"

abbreviation dict_wf :: "('k, 'v) dict \<Rightarrow> bool" where
  "dict_wf d \<equiv> distinct (map fst d)"

lemma dict_get_put [simp]: "map_of (AList.update k v d) = (map_of d)(k \<mapsto> v)"
  by (rule ext) (simp add: update_conv')

lemma dict_get_del [simp]: "map_of (AList.delete k d) = (map_of d)(k := None)"
  by (rule ext) (simp add: delete_conv')

lemma dict_wf_put [simp, intro]: "dict_wf d \<Longrightarrow> dict_wf (AList.update k v d)"
  by (rule distinct_update)

lemma dict_wf_del [simp, intro]: "dict_wf d \<Longrightarrow> dict_wf (AList.delete k d)"
  by (rule distinct_delete)

lemma dict_put_new: "k \<notin> fst ` set d \<Longrightarrow> AList.update k v d = d @ [(k, v)]"
  by (induction d) auto

lemma set_update_in: "set (AList.update k v d) \<subseteq> insert (k, v) (set d)"
  by (induction d) auto

text \<open>A predicate that does not look at what \<open>m\<close> blanks is the same on states that agree apart from
  it.\<close>

lemma mask_inv: "m d = m c \<Longrightarrow> (\<And>x. I x = I (m x)) \<Longrightarrow> I d = I c"
  by metis

lemma find_append: "find P (xs @ ys) = (case find P xs of None \<Rightarrow> find P ys | Some x \<Rightarrow> Some x)"
  by (induction xs) auto

lemma find_map_same:
  "(\<And>x. Q (h x) = Q x) \<Longrightarrow> find Q (map h xs) = map_option h (find Q xs)"
  by (induction xs) auto

section \<open>Subsequences\<close>

lemma subseq_set: "subseq xs ys \<Longrightarrow> set xs \<subseteq> set ys"
  by (metis notin_set_nthsI subseq_conv_nths subsetI)

lemma sorted_subseq: "subseq xs ys \<Longrightarrow> sorted_wrt P ys \<Longrightarrow> sorted_wrt P xs"
proof (induction rule: list_emb.induct)
  case (list_emb_Cons2 x y xs ys)
  then show ?case using subseq_set [OF list_emb_Cons2.hyps(2)] by auto
qed auto

section \<open>Tables\<close>

text \<open>\<open>UPDATE ... SET ... WHERE\<close>, \<open>DELETE ... WHERE\<close> and the count of the rows that a statement names.\<close>

definition update_where :: "('r \<Rightarrow> bool) \<Rightarrow> ('r \<Rightarrow> 'r) \<Rightarrow> 'r list \<Rightarrow> 'r list" where
  "update_where P f rows = map (\<lambda>r. if P r then f r else r) rows"

definition delete_where :: "('r \<Rightarrow> bool) \<Rightarrow> 'r list \<Rightarrow> 'r list" where
  "delete_where P rows = filter (\<lambda>r. \<not> P r) rows"

definition rowcount :: "('r \<Rightarrow> bool) \<Rightarrow> 'r list \<Rightarrow> nat" where
  "rowcount P rows = length (filter P rows)"

section \<open>Machines: operations, invariants, one-way conditions\<close>

text \<open>
  A component with state is a function from an operation and a state to the next state. The
  locale proves, once for every component, that what each operation keeps every run keeps.
\<close>

locale machine =
  fixes step :: "'op \<Rightarrow> 's \<Rightarrow> 's"
begin

definition run :: "'op list \<Rightarrow> 's \<Rightarrow> 's" where
  "run ops s = fold step ops s"

lemma run_Nil [simp]: "run [] s = s"
  by (simp add: run_def)

lemma run_Cons [simp]: "run (a # ops) s = run ops (step a s)"
  by (simp add: run_def)

lemma run_append: "run (as @ bs) s = run bs (run as s)"
  by (simp add: run_def)

lemma run_invariant:
  assumes "I s" and "\<And>a s. I s \<Longrightarrow> I (step a s)"
  shows "I (run ops s)"
  using assms(1) by (induction ops arbitrary: s) (auto intro: assms(2))

lemma run_relation:
  assumes "\<And>s. R s s" and "\<And>s t u. R s t \<Longrightarrow> R t u \<Longrightarrow> R s u" and "\<And>a s. R s (step a s)"
  shows "R s (run ops s)"
proof (induction ops arbitrary: s)
  case Nil
  show ?case using assms(1) by simp
next
  case (Cons a ops)
  show ?case using assms(2) [OF assms(3) Cons.IH] by simp
qed

end

text \<open>A machine with an invariant that holds at the start.\<close>

locale invariant_machine = machine step
  for step :: "'op \<Rightarrow> 's \<Rightarrow> 's" +
  fixes start :: "'s \<Rightarrow> bool" and inv :: "'s \<Rightarrow> bool"
  assumes inv_start: "start s \<Longrightarrow> inv s"
    and inv_step: "inv s \<Longrightarrow> inv (step a s)"
begin

lemma inv_run: "inv s \<Longrightarrow> inv (run ops s)"
  by (rule run_invariant) (auto intro: inv_step)

lemma inv_reachable: "start s \<Longrightarrow> inv (run ops s)"
  by (rule inv_run [OF inv_start])

lemma inv_prefix: "start s \<Longrightarrow> inv (run as s) \<and> inv (run (as @ bs) s)"
  by (blast intro: inv_reachable)

end

text \<open>A condition that, once true, no operation takes back (closed, terminal, exhausted).\<close>

locale one_way = machine step
  for step :: "'op \<Rightarrow> 's \<Rightarrow> 's" +
  fixes gone :: "'s \<Rightarrow> bool"
  assumes gone_step: "gone s \<Longrightarrow> gone (step a s)"
begin

lemma gone_run: "gone s \<Longrightarrow> gone (run ops s)"
  by (rule run_invariant) (auto intro: gone_step)

lemma gone_later: "gone (run as s) \<Longrightarrow> gone (run (as @ bs) s)"
  by (simp add: run_append gone_run)

end

text \<open>A count that no operation lowers (a sequence number, an epoch, a revision).\<close>

locale counting = machine step
  for step :: "'op \<Rightarrow> 's \<Rightarrow> 's" +
  fixes count :: "'s \<Rightarrow> 'n::preorder"
  assumes count_step: "count s \<le> count (step a s)"
begin

lemma count_run: "count s \<le> count (run ops s)"
  by (rule run_relation [where R = "\<lambda>s t. count s \<le> count t"])
     (auto intro: order_trans count_step)

end

end
