(* ===== verification/Turn_Data.thy ===== *)
theory Turn_Data
  imports Prelude
begin

text \<open>
  The data of one turn (\<open>src/opensquilla/contracts/turn_execution.py\<close>): the roles that may own a
  provider call, the turn's identity, the lease and the attempt ledger of a call, the frozen
  recovery snapshots, the publication ledger and the tool buffers, with their validation.

  A value the code types as \<open>Any\<close> (evidence, an outcome, a draft, an event) is a \<open>pyval\<close>: the JSON
  shapes, and \<open>PObj i c\<close> for any other object \<open>i\<close>, whose deep copy succeeds iff \<open>c\<close>. A parameter
  that the code annotates with a type is taken at that type: the \<open>isinstance\<close> tests on it have one
  outcome and are not written out.
\<close>

datatype role =
    PROPOSER
  | PRIMARY_AGGREGATOR
  | FIXED_AGGREGATOR
  | FIXED_DIRECT
  | TERMINAL

datatype turn_exc =
    Py py_exc
  | TurnExecutionError string
  | ProviderAdmissionError string

fun role_value :: "role \<Rightarrow> string" where
  "role_value PROPOSER = ''proposer''"
| "role_value PRIMARY_AGGREGATOR = ''primary_aggregator''"
| "role_value FIXED_AGGREGATOR = ''fixed_aggregator''"
| "role_value FIXED_DIRECT = ''fixed_direct''"
| "role_value TERMINAL = ''terminal''"

text \<open>An argument of type \<open>StickyExecutionRole | str\<close>, and \<open>_role\<close>, which looks a string up among
  the enumeration's values.\<close>

datatype role_arg = Role role | RoleStr string

definition roles :: "role list" where
  "roles = [PROPOSER, PRIMARY_AGGREGATOR, FIXED_AGGREGATOR, FIXED_DIRECT, TERMINAL]"

fun role_of :: "role_arg \<Rightarrow> turn_exc + role" where
  "role_of (Role r) = Inr r"
| "role_of (RoleStr s) =
     (case find (\<lambda>r. role_value r = s) roles of
        Some r \<Rightarrow> Inr r
      | None \<Rightarrow> Inl (Py (ValueError (''unknown execution role: '' @ s))))"

definition is_fixed :: "role \<Rightarrow> bool" where
  "is_fixed r \<longleftrightarrow> r = FIXED_AGGREGATOR \<or> r = FIXED_DIRECT"

record turn_identity =
  ti_turn_id :: string
  ti_assistant_message_id :: string
  ti_session_key :: string
  ti_channel_id :: "string option"
  ti_turn_start_sequence :: int

definition turn_identity_post_init :: "turn_identity \<Rightarrow> turn_exc + turn_identity" where
  "turn_identity_post_init i =
     checked
       [(blank (ti_turn_id i), Py (ValueError ''turn_id must be a non-empty string'')),
        (blank (ti_assistant_message_id i),
           Py (ValueError ''assistant_message_id must be a non-empty string'')),
        (blank (ti_session_key i), Py (ValueError ''session_key must be a non-empty string'')),
        (ti_turn_start_sequence i < 0,
           Py (ValueError ''turn_start_sequence must be non-negative''))]
       (Inr i)"

section \<open>Frozen snapshots\<close>

datatype pykey = KStr string | KInt int | KBool bool | KNone

datatype pyval =
    PNone
  | PBool bool
  | PInt int
  | PStr string
  | PObj nat bool
  | PDict "(pykey \<times> pyval) list"
  | PProxy "(pykey \<times> pyval) list"
  | PList "pyval list"
  | PTuple "pyval list"
  | PSet "pyval list"
  | PFrozenSet "pyval list"

fun key_str :: "pykey \<Rightarrow> string" where
  "key_str (KStr s) = s"
| "key_str (KInt i) = int_str i"
| "key_str (KBool b) = (if b then ''True'' else ''False'')"
| "key_str KNone = ''None''"

definition uncopyable :: turn_exc where
  "uncopyable = Py (TypeError ''recovery snapshot value is not safely copyable'')"

text \<open>
  \<open>_freeze\<close>. A mapping becomes a read-only proxy of a new dictionary whose keys are \<open>str(key)\<close> (two
  keys with the same text collapse, the later value wins), a list or tuple a tuple, a set a frozen
  set, and anything else is deep-copied, which is the identity on values or raises.
\<close>

fun freeze :: "pyval \<Rightarrow> turn_exc + pyval"
and freeze_list :: "pyval list \<Rightarrow> turn_exc + pyval list"
and freeze_items ::
  "(pykey \<times> pyval) list \<Rightarrow> (pykey, pyval) dict \<Rightarrow> turn_exc + (pykey, pyval) dict" where
  "freeze (PDict kvs) = map_sum id PProxy (freeze_items kvs [])"
| "freeze (PProxy kvs) = map_sum id PProxy (freeze_items kvs [])"
| "freeze (PList vs) = map_sum id PTuple (freeze_list vs)"
| "freeze (PTuple vs) = map_sum id PTuple (freeze_list vs)"
| "freeze (PSet vs) = map_sum id (\<lambda>us. PFrozenSet (remdups us)) (freeze_list vs)"
| "freeze (PFrozenSet vs) = map_sum id (\<lambda>us. PFrozenSet (remdups us)) (freeze_list vs)"
| "freeze (PObj i c) = (if c then Inr (PObj i c) else Inl uncopyable)"
| "freeze v = Inr v"
| "freeze_list [] = Inr []"
| "freeze_list (v # vs) =
     (case freeze v of Inl e \<Rightarrow> Inl e
      | Inr u \<Rightarrow> (case freeze_list vs of Inl e \<Rightarrow> Inl e | Inr us \<Rightarrow> Inr (u # us)))"
| "freeze_items [] d = Inr d"
| "freeze_items ((k, v) # kvs) d =
     (case freeze v of Inl e \<Rightarrow> Inl e
      | Inr u \<Rightarrow> freeze_items kvs (AList.update (KStr (key_str k)) u d))"

text \<open>What a frozen value is: no dictionary, list or set that its holder could change, and every
  mapping's keys are strings.\<close>

fun frozen :: "pyval \<Rightarrow> bool" where
  "frozen (PDict _) = False"
| "frozen (PList _) = False"
| "frozen (PSet _) = False"
| "frozen (PProxy kvs) = (\<forall>(k, v) \<in> set kvs. (\<exists>s. k = KStr s) \<and> frozen v)"
| "frozen (PTuple vs) = (\<forall>v \<in> set vs. frozen v)"
| "frozen (PFrozenSet vs) = (\<forall>v \<in> set vs. frozen v)"
| "frozen (PObj _ c) = c"
| "frozen _ = True"

record recovery_context =
  rc_successful_drafts :: "pyval list"
  rc_tool_schemas :: "pyval list"
  rc_attachment_boundary :: pyval
  rc_conversation :: "pyval list"
  rc_metadata :: "(pykey, pyval) dict"

definition recovery_post_init :: "recovery_context \<Rightarrow> turn_exc + recovery_context" where
  "recovery_post_init r =
     (case freeze_list (rc_successful_drafts r) of Inl e \<Rightarrow> Inl e | Inr drafts \<Rightarrow>
      case freeze_list (rc_tool_schemas r) of Inl e \<Rightarrow> Inl e | Inr schemas \<Rightarrow>
      case freeze (rc_attachment_boundary r) of Inl e \<Rightarrow> Inl e | Inr boundary \<Rightarrow>
      case freeze_list (rc_conversation r) of Inl e \<Rightarrow> Inl e | Inr conversation \<Rightarrow>
      case freeze_items (rc_metadata r) [] of Inl e \<Rightarrow> Inl e | Inr metadata \<Rightarrow>
        Inr \<lparr>rc_successful_drafts = drafts, rc_tool_schemas = schemas,
             rc_attachment_boundary = boundary, rc_conversation = conversation,
             rc_metadata = metadata\<rparr>)"

record ensemble_snapshot =
  es_role :: role
  es_successful_drafts :: "pyval list"
  es_candidate_bundle :: "pyval list"
  es_all_candidates :: "pyval list"
  es_base_messages :: "pyval list"
  es_prior_rows :: "pyval list"
  es_missing_cost_entries :: int
  es_ensemble_trace :: "(pykey, pyval) dict"
  es_physical_request_count :: int
  es_request_started :: bool

definition ensemble_post_init ::
  "role_arg \<Rightarrow> ensemble_snapshot \<Rightarrow> turn_exc + ensemble_snapshot" where
  "ensemble_post_init r s =
     (case role_of r of Inl e \<Rightarrow> Inl e | Inr nr \<Rightarrow>
      case freeze_list (es_successful_drafts s) of Inl e \<Rightarrow> Inl e | Inr drafts \<Rightarrow>
      case freeze_list (es_candidate_bundle s) of Inl e \<Rightarrow> Inl e | Inr bundle \<Rightarrow>
      case freeze_list (es_all_candidates s) of Inl e \<Rightarrow> Inl e | Inr candidates \<Rightarrow>
      case freeze_list (es_base_messages s) of Inl e \<Rightarrow> Inl e | Inr messages \<Rightarrow>
      case freeze_list (es_prior_rows s) of Inl e \<Rightarrow> Inl e | Inr rows \<Rightarrow>
      case freeze_items (es_ensemble_trace s) [] of Inl e \<Rightarrow> Inl e | Inr trace \<Rightarrow>
        Inr \<lparr>es_role = nr, es_successful_drafts = drafts, es_candidate_bundle = bundle,
             es_all_candidates = candidates, es_base_messages = messages,
             es_prior_rows = rows,
             es_missing_cost_entries = max 0 (es_missing_cost_entries s),
             es_ensemble_trace = trace,
             es_physical_request_count = max 0 (es_physical_request_count s),
             es_request_started = es_request_started s\<rparr>)"

section \<open>Leases, ledgers, buffers\<close>

record lease =
  ls_lease_id :: string
  ls_turn_id :: string
  ls_role :: role
  ls_logical_call_index :: int
  ls_attempt_index :: int
  ls_owner :: string
  ls_adapter_request_budget :: int

record attempt_ledger =
  al_role :: role
  al_logical_call_index :: int
  al_attempt_indices :: "int list"
  al_request_starts :: nat
  al_request_start_evidence :: "pyval list"
  al_outcomes :: "pyval list"

definition new_ledger :: "role \<Rightarrow> int \<Rightarrow> attempt_ledger" where
  "new_ledger r i = \<lparr>al_role = r, al_logical_call_index = i, al_attempt_indices = [],
     al_request_starts = 0, al_request_start_evidence = [], al_outcomes = []\<rparr>"

record completed_tool =
  ct_call_id :: string
  ct_events :: "pyval list"
  ct_done_event :: pyval
  ct_sequence :: int

record usage_leg =
  ul_execution_id :: string
  ul_role :: role
  ul_logical_call_index :: int
  ul_attempt_index :: int
  ul_input_tokens :: int
  ul_output_tokens :: int

record surface =
  sf_streaming :: bool
  sf_edit :: bool
  sf_generation_reset :: bool
  sf_provider_call_reset :: bool

record generation_state =
  gs_epoch :: int
  gs_owner :: role
  gs_text_snapshot :: string
  gs_reasoning_snapshot :: string
  gs_last_sequence :: int
  gs_terminal :: bool

record publication_ledger =
  pl_generation_epoch :: int
  pl_last_sequence :: int
  pl_reserved :: bool
  pl_published :: bool
  pl_visible_output :: bool
  pl_terminal :: bool
  pl_released :: bool
  pl_text_snapshot :: string
  pl_reasoning_snapshot :: string
  pl_seen_sequences :: "(int \<times> int) set"

text \<open>\<open>TurnPublicationLedger.accept\<close>: the result and the ledger after the call. The ledger's three
  identity fields never change and are those of the turn's identity.\<close>

definition pl_accept ::
  "int \<Rightarrow> int \<Rightarrow> string \<Rightarrow> string \<Rightarrow> bool \<Rightarrow> publication_ledger \<Rightarrow> bool \<times> publication_ledger" where
  "pl_accept epoch sequence text reasoning terminal p =
     (if pl_released p \<or> epoch < pl_generation_epoch p then (False, p)
      else if sequence \<le> pl_last_sequence p then (False, p)
      else if (epoch, sequence) \<in> pl_seen_sequences p then (False, p)
      else (True, p\<lparr>pl_seen_sequences := insert (epoch, sequence) (pl_seen_sequences p),
                    pl_generation_epoch := epoch,
                    pl_last_sequence := sequence,
                    pl_text_snapshot := text,
                    pl_reasoning_snapshot := reasoning,
                    pl_published := True,
                    pl_visible_output := True,
                    pl_terminal := (pl_terminal p \<or> terminal)\<rparr>))"

record tool_buffer =
  tb_call_id :: string
  tb_events :: "pyval list"
  tb_closed :: bool

definition tb_append :: "pyval \<Rightarrow> tool_buffer \<Rightarrow> (turn_exc + unit) \<times> tool_buffer" where
  "tb_append ev b =
     (if tb_closed b then (Inl (TurnExecutionError (''tool buffer is closed: '' @ tb_call_id b)), b)
      else (Inr (), b\<lparr>tb_events := tb_events b @ [ev]\<rparr>))"

definition tb_close :: "tool_buffer \<Rightarrow> tool_buffer" where
  "tb_close b = b\<lparr>tb_closed := True\<rparr>"

section \<open>Facts\<close>

lemma role_of_value [simp]: "role_of (RoleStr (role_value r)) = Inr r"
  by (cases r) (simp_all add: roles_def)

lemma role_of_RoleStr_Inr: "role_of (RoleStr s) = Inr r \<longleftrightarrow> s = role_value r"
  by (cases r) (auto simp: roles_def split: if_splits)

lemma find_roles: "find P roles = Some r \<Longrightarrow> P r"
  by (auto simp: find_Some_iff)

text \<open>The values that \<open>freeze\<close> returns are frozen, and freezing them again changes nothing.\<close>

lemma frozen_update:
  assumes "\<forall>(k, v) \<in> set d. (\<exists>s. k = KStr s) \<and> frozen v" and "frozen u"
  shows "\<forall>(k, v) \<in> set (AList.update (KStr s) u d). (\<exists>s. k = KStr s) \<and> frozen v"
  using assms by (induction d) auto

lemma freeze_frozen:
  "freeze v = Inr u \<Longrightarrow> frozen u"
  "freeze_list vs = Inr us \<Longrightarrow> \<forall>u \<in> set us. frozen u"
  "freeze_items kvs d = Inr d' \<Longrightarrow> \<forall>(k, v) \<in> set d. (\<exists>s. k = KStr s) \<and> frozen v \<Longrightarrow>
     \<forall>(k, v) \<in> set d'. (\<exists>s. k = KStr s) \<and> frozen v"
proof (induction v and vs and kvs d arbitrary: u and us and d' rule: freeze_freeze_list_freeze_items.induct)
  case (12 k v kvs d)
  show ?case
  proof (cases "freeze v")
    case (Inl e)
    with 12 show ?thesis by simp
  next
    case (Inr w)
    then have w: "frozen w" by (rule 12)
    from 12(3) Inr have "freeze_items kvs (AList.update (KStr (key_str k)) w d) = Inr d'"
      by simp
    then show ?thesis by (rule 12(2) [OF Inr]) (rule frozen_update [OF 12(4) w])
  qed
qed (auto split: sum.splits if_splits)

end
