(* ===== verification/Turn_Context.thy ===== *)
theory Turn_Context
  imports Turn_Data
begin

text \<open>
  \<open>TurnExecutionContext\<close> of \<open>src/opensquilla/contracts/turn_execution.py\<close>: the single-owner ledger of
  one turn, its state as a record and each method as a function from the state to a result and the
  next state. A raise is \<open>Inl\<close>, with the state as the code leaves it at that point (a method that
  raises after a mutation keeps the mutation).

  What the code reads from outside is an argument: the monotonic clock and the control object's
  answer (\<open>turn_env\<close>), and the value of \<open>uuid.uuid4().hex\<close> where an identifier is made. The asyncio
  lock makes each method one step.

  A \<open>PendingToolBuffer\<close> is a mutable object that its opener keeps a reference to, so the buffers
  live in a store \<open>tc_heap\<close> from addresses, and \<open>tc_tools\<close> maps a call id to an address.
\<close>

datatype control = NoControl | CallableControl | FlagControl

record turn_env =
  te_now :: real
  te_control_call :: bool
  te_cancelled :: bool
  te_is_cancelled :: bool
  te_shutdown :: bool
  te_closed :: bool

record turn_ctx =
  tc_identity :: turn_identity
  tc_control :: control
  tc_deadline :: "real option"
  tc_surface :: surface
  tc_closed :: bool
  tc_terminalized :: bool
  tc_sequence :: int
  tc_last_event_sequence :: int
  tc_last_meaningful_progress_at :: "real option"
  tc_current_role :: role
  tc_fallback_activation_count :: nat
  tc_fallback_started :: bool
  tc_fixed_started :: bool
  tc_recovery_terminal :: bool
  tc_suppress_selector_fallback :: bool
  tc_successful_drafts :: "pyval list"
  tc_recovery_context :: "recovery_context option"
  tc_ensemble_snapshot :: "ensemble_snapshot option"
  tc_usage_legs :: "usage_leg list"
  tc_generation :: generation_state
  tc_publication :: publication_ledger
  tc_attempt_ledgers :: "role \<times> int \<rightharpoonup> attempt_ledger"
  tc_active_leases :: "string \<rightharpoonup> lease"
  tc_lease_started :: "string set"
  tc_lease_finished :: "string \<rightharpoonup> pyval"
  tc_tools :: "(string, nat) dict"
  tc_heap :: "nat \<rightharpoonup> tool_buffer"
  tc_next_address :: nat
  tc_completed_tools :: "completed_tool list"
  tc_checkpoint :: "(string \<times> string \<times> string) option"
  tc_cleanup_tasks :: "(string, nat) dict"
  tc_cleanup_handles :: "(string, string) dict"
  tc_proposer_tasks :: nat
  tc_proposer_admissions :: nat
  tc_proposer_request_starts :: nat
  tc_primary_index :: int
  tc_fixed_index :: int
  tc_selector_hops :: nat

type_synonym 'a turn_res = "(turn_exc + 'a) \<times> turn_ctx"

definition new_context :: "turn_identity \<Rightarrow> control \<Rightarrow> real option \<Rightarrow> surface \<Rightarrow> turn_ctx" where
  "new_context i control deadline surface =
     (let start = ti_turn_start_sequence i in
      \<lparr>tc_identity = i, tc_control = control, tc_deadline = deadline, tc_surface = surface,
       tc_closed = False, tc_terminalized = False,
       tc_sequence = start, tc_last_event_sequence = start - 1,
       tc_last_meaningful_progress_at = None,
       tc_current_role = PRIMARY_AGGREGATOR,
       tc_fallback_activation_count = 0, tc_fallback_started = False, tc_fixed_started = False,
       tc_recovery_terminal = False, tc_suppress_selector_fallback = False,
       tc_successful_drafts = [], tc_recovery_context = None, tc_ensemble_snapshot = None,
       tc_usage_legs = [],
       tc_generation = \<lparr>gs_epoch = 0, gs_owner = PRIMARY_AGGREGATOR, gs_text_snapshot = [],
          gs_reasoning_snapshot = [], gs_last_sequence = start, gs_terminal = False\<rparr>,
       tc_publication = \<lparr>pl_generation_epoch = 0, pl_last_sequence = start - 1,
          pl_reserved = True, pl_published = False, pl_visible_output = False,
          pl_terminal = False, pl_released = False, pl_text_snapshot = [],
          pl_reasoning_snapshot = [], pl_seen_sequences = {}\<rparr>,
       tc_attempt_ledgers = Map.empty, tc_active_leases = Map.empty, tc_lease_started = {},
       tc_lease_finished = Map.empty, tc_tools = [], tc_heap = Map.empty, tc_next_address = 0,
       tc_completed_tools = [], tc_checkpoint = None, tc_cleanup_tasks = [],
       tc_cleanup_handles = [], tc_proposer_tasks = 0, tc_proposer_admissions = 0,
       tc_proposer_request_starts = 0, tc_primary_index = -1, tc_fixed_index = -1,
       tc_selector_hops = 0\<rparr>)"

definition turn_terminal :: "turn_ctx \<Rightarrow> bool" where
  "turn_terminal c \<longleftrightarrow> tc_terminalized c \<or> gs_terminal (tc_generation c)"

definition set_deadline_if_missing :: "real option \<Rightarrow> turn_ctx \<Rightarrow> bool turn_res" where
  "set_deadline_if_missing d c =
     (if d = None \<or> tc_closed c \<or> tc_deadline c \<noteq> None then (Inr False, c)
      else (Inr True, c\<lparr>tc_deadline := d\<rparr>))"

definition next_sequence :: "turn_ctx \<Rightarrow> int \<times> turn_ctx" where
  "next_sequence c = (tc_sequence c + 1, c\<lparr>tc_sequence := tc_sequence c + 1\<rparr>)"

text \<open>\<open>_ensure_open\<close> and \<open>_ensure_admission_allowed\<close> as rows of guards.\<close>

definition ensure_open :: "turn_ctx \<Rightarrow> (bool \<times> turn_exc) list" where
  "ensure_open c = [(tc_closed c, TurnExecutionError ''turn context is closed'')]"

definition control_blocked :: "turn_env \<Rightarrow> turn_ctx \<Rightarrow> bool" where
  "control_blocked env c =
     (case tc_control c of
        NoControl \<Rightarrow> False
      | CallableControl \<Rightarrow> te_control_call env
      | FlagControl \<Rightarrow> te_cancelled env \<or> te_is_cancelled env \<or> te_shutdown env \<or> te_closed env)"

definition deadline_passed :: "turn_env \<Rightarrow> turn_ctx \<Rightarrow> bool" where
  "deadline_passed env c =
     (case tc_deadline c of None \<Rightarrow> False | Some d \<Rightarrow> d \<le> te_now env)"

definition ensure_admission_allowed :: "turn_env \<Rightarrow> turn_ctx \<Rightarrow> (bool \<times> turn_exc) list" where
  "ensure_admission_allowed env c =
     [(deadline_passed env c, ProviderAdmissionError ''turn deadline has elapsed''),
      (control_blocked env c,
         ProviderAdmissionError ''turn control state rejects provider admission'')]"

section \<open>Drafts, snapshots, usage\<close>

definition record_proposer_logical_task :: "turn_ctx \<Rightarrow> nat turn_res" where
  "record_proposer_logical_task c =
     guarded (ensure_open c) c
       (let n = tc_proposer_tasks c + 1 in (Inr n, c\<lparr>tc_proposer_tasks := n\<rparr>))"

text \<open>The argument is a value: text is refused, a list, tuple or set is iterated.\<close>

definition record_successful_drafts :: "pyval \<Rightarrow> turn_ctx \<Rightarrow> unit turn_res" where
  "record_successful_drafts drafts c =
     guarded (ensure_open c) c
       (case drafts of
          PStr _ \<Rightarrow> (Inl (Py (TypeError ''successful drafts must be a collection'')), c)
        | PList vs \<Rightarrow> try_res (freeze_list vs) c (\<lambda>us. (Inr (), c\<lparr>tc_successful_drafts := us\<rparr>))
        | PTuple vs \<Rightarrow> try_res (freeze_list vs) c (\<lambda>us. (Inr (), c\<lparr>tc_successful_drafts := us\<rparr>))
        | PSet vs \<Rightarrow> try_res (freeze_list vs) c (\<lambda>us. (Inr (), c\<lparr>tc_successful_drafts := us\<rparr>))
        | PFrozenSet vs \<Rightarrow> try_res (freeze_list vs) c (\<lambda>us. (Inr (), c\<lparr>tc_successful_drafts := us\<rparr>))
        | _ \<Rightarrow> (Inl (Py (TypeError ''object is not iterable'')), c))"

definition record_ensemble_continuation_snapshot ::
  "ensemble_snapshot \<Rightarrow> turn_ctx \<Rightarrow> unit turn_res" where
  "record_ensemble_continuation_snapshot s c =
     guarded (ensure_open c) c (Inr (), c\<lparr>tc_ensemble_snapshot := Some s\<rparr>)"

definition record_usage_leg :: "usage_leg \<Rightarrow> turn_ctx \<Rightarrow> unit turn_res" where
  "record_usage_leg leg c =
     guarded (ensure_open c) c (Inr (), c\<lparr>tc_usage_legs := tc_usage_legs c @ [leg]\<rparr>)"

section \<open>Provider calls: admit, start, finish\<close>

definition admit_arguments :: "int \<Rightarrow> int \<Rightarrow> string \<Rightarrow> (bool \<times> turn_exc) list" where
  "admit_arguments logical attempt owner =
     [(logical < 0, Py (ValueError ''logical_call_index must be non-negative'')),
      (attempt \<noteq> 0 \<and> attempt \<noteq> 1, Py (ValueError ''attempt_index must be 0 or 1'')),
      (blank owner, Py (ValueError ''owner must be a non-empty string''))]"

definition admit_role_guards :: "role \<Rightarrow> turn_ctx \<Rightarrow> (bool \<times> turn_exc) list" where
  "admit_role_guards r c =
     [(turn_terminal c, ProviderAdmissionError ''terminal turns cannot admit provider calls''),
      (r = TERMINAL, ProviderAdmissionError ''terminal turns cannot admit provider calls''),
      (tc_current_role c = TERMINAL, ProviderAdmissionError ''turn is terminal''),
      (r = PROPOSER \<and> is_fixed (tc_current_role c),
         ProviderAdmissionError ''proposer admission is closed after fixed activation''),
      (r \<noteq> PROPOSER \<and> r \<noteq> tc_current_role c,
         ProviderAdmissionError (''role '' @ role_value r @ '' is not sticky role ''
            @ role_value (tc_current_role c)))]"

definition attempt_finished :: "role \<Rightarrow> int \<Rightarrow> int \<Rightarrow> turn_ctx \<Rightarrow> bool" where
  "attempt_finished r logical attempt c =
     (case tc_attempt_ledgers c (r, logical) of
        None \<Rightarrow> False
      | Some l \<Rightarrow> 0 \<le> attempt \<and> attempt < int (length (al_outcomes l)))"

definition attempt_guards ::
  "role \<Rightarrow> int \<Rightarrow> int \<Rightarrow> attempt_ledger \<Rightarrow> turn_ctx \<Rightarrow> (bool \<times> turn_exc) list" where
  "attempt_guards r logical attempt l c =
     [(attempt \<in> set (al_attempt_indices l),
         ProviderAdmissionError ''the logical call attempt was already admitted''),
      (attempt = 1 \<and> 0 \<notin> set (al_attempt_indices l),
         ProviderAdmissionError ''attempt 1 requires an admitted attempt 0''),
      (attempt = 1 \<and> \<not> attempt_finished r logical 0 c,
         ProviderAdmissionError ''attempt 1 requires a finished attempt 0''),
      (2 \<le> length (al_attempt_indices l),
         ProviderAdmissionError ''logical call has exhausted its attempts'')]"

definition count_admission :: "role \<Rightarrow> int \<Rightarrow> turn_ctx \<Rightarrow> turn_ctx" where
  "count_admission r logical c =
     (if r = PROPOSER then c\<lparr>tc_proposer_admissions := tc_proposer_admissions c + 1\<rparr>
      else if r = PRIMARY_AGGREGATOR
      then c\<lparr>tc_primary_index := max (tc_primary_index c) logical\<rparr>
      else if is_fixed r then c\<lparr>tc_fixed_index := max (tc_fixed_index c) logical\<rparr>
      else c)"

text \<open>\<open>setdefault\<close> stores the empty ledger of a new logical call before the attempt's own guards.\<close>

definition setdefault_ledger :: "role \<Rightarrow> int \<Rightarrow> turn_ctx \<Rightarrow> attempt_ledger \<times> turn_ctx" where
  "setdefault_ledger r logical c =
     (case tc_attempt_ledgers c (r, logical) of
        Some l \<Rightarrow> (l, c)
      | None \<Rightarrow> (new_ledger r logical,
          c\<lparr>tc_attempt_ledgers := (tc_attempt_ledgers c)((r, logical) \<mapsto> new_ledger r logical)\<rparr>))"

definition admit_commit ::
  "string \<Rightarrow> role \<Rightarrow> int \<Rightarrow> int \<Rightarrow> string \<Rightarrow> attempt_ledger \<Rightarrow> turn_ctx \<Rightarrow> lease turn_res" where
  "admit_commit uuid r logical attempt owner l c =
     (let lease = \<lparr>ls_lease_id = uuid, ls_turn_id = ti_turn_id (tc_identity c), ls_role = r,
            ls_logical_call_index = logical, ls_attempt_index = attempt, ls_owner = owner,
            ls_adapter_request_budget = 1\<rparr>
      in (Inr lease,
          count_admission r logical
            (c\<lparr>tc_attempt_ledgers := (tc_attempt_ledgers c)((r, logical) \<mapsto>
                  l\<lparr>al_attempt_indices := al_attempt_indices l @ [attempt]\<rparr>),
               tc_active_leases := (tc_active_leases c)(uuid \<mapsto> lease)\<rparr>)))"

definition admit_provider_call ::
  "turn_env \<Rightarrow> string \<Rightarrow> role_arg \<Rightarrow> int \<Rightarrow> int \<Rightarrow> string \<Rightarrow> turn_ctx \<Rightarrow> lease turn_res" where
  "admit_provider_call env uuid role logical attempt owner c =
     try_res (role_of role) c (\<lambda>r.
     guarded (admit_arguments logical attempt owner @ ensure_open c
              @ ensure_admission_allowed env c @ admit_role_guards r c) c
       (let (l, c') = setdefault_ledger r logical c in
        guarded (attempt_guards r logical attempt l c') c'
          (admit_commit uuid r logical attempt owner l c')))"

definition require_active_lease :: "lease \<Rightarrow> turn_ctx \<Rightarrow> turn_exc + lease" where
  "require_active_lease l c =
     (case tc_active_leases c (ls_lease_id l) of
        None \<Rightarrow> Inl (ProviderAdmissionError ''provider lease is not active'')
      | Some active \<Rightarrow>
          if active \<noteq> l then Inl (ProviderAdmissionError ''provider lease identity mismatch'')
          else Inr active)"

definition record_request_start :: "lease \<Rightarrow> pyval \<Rightarrow> turn_ctx \<Rightarrow> unit turn_res" where
  "record_request_start l evidence c =
     guarded (ensure_open c) c
       (try_res (require_active_lease l c) c (\<lambda>active.
        guarded [(ls_lease_id l \<in> tc_lease_started c,
            ProviderAdmissionError ''provider lease already recorded a request start'')] c
          (let key = (ls_role active, ls_logical_call_index active);
               c' = c\<lparr>tc_lease_started := insert (ls_lease_id l) (tc_lease_started c)\<rparr>
           in case tc_attempt_ledgers c' key of
                None \<Rightarrow> (Inl (Py (KeyError ''attempt ledger'')), c')
              | Some led \<Rightarrow>
                  let c'' = c'\<lparr>tc_attempt_ledgers := (tc_attempt_ledgers c')(key \<mapsto>
                        led\<lparr>al_request_starts := al_request_starts led + 1,
                            al_request_start_evidence :=
                              al_request_start_evidence led @ [evidence]\<rparr>)\<rparr>
                  in (Inr (),
                      if ls_role active = PROPOSER
                      then c''\<lparr>tc_proposer_request_starts := tc_proposer_request_starts c'' + 1\<rparr>
                      else c''))))"

definition finish_provider_call :: "lease \<Rightarrow> pyval \<Rightarrow> turn_ctx \<Rightarrow> unit turn_res" where
  "finish_provider_call l outcome c =
     (case tc_active_leases c (ls_lease_id l) of
        None \<Rightarrow> (Inr (), c)
      | Some active \<Rightarrow>
          let key = (ls_role active, ls_logical_call_index active);
              c' = c\<lparr>tc_active_leases := (tc_active_leases c)(ls_lease_id l := None),
                     tc_lease_finished :=
                       (tc_lease_finished c)(ls_lease_id active \<mapsto> outcome)\<rparr>
          in case tc_attempt_ledgers c' key of
               None \<Rightarrow> (Inl (Py (KeyError ''attempt ledger'')), c')
             | Some led \<Rightarrow> (Inr (), c'\<lparr>tc_attempt_ledgers := (tc_attempt_ledgers c')(key \<mapsto>
                   led\<lparr>al_outcomes := al_outcomes led @ [outcome]\<rparr>)\<rparr>))"

end
