(* ===== verification/Turn_Generation.thy ===== *)
theory Turn_Generation
  imports Turn_Context
begin

text \<open>
  The second half of \<open>TurnExecutionContext\<close>: the one fixed-role activation, event acceptance, tool
  buffers, provider-attempt checkpoints, generation resets, publication, cleanup and close.
\<close>

section \<open>The fixed-role transaction\<close>

definition default_recovery ::
  "(pykey, pyval) dict \<Rightarrow> turn_ctx \<Rightarrow> turn_exc + recovery_context" where
  "default_recovery metadata c =
     recovery_post_init \<lparr>rc_successful_drafts = tc_successful_drafts c, rc_tool_schemas = [],
       rc_attachment_boundary = PNone, rc_conversation = [], rc_metadata = metadata\<rparr>"

definition recovery_or ::
  "recovery_context option \<Rightarrow> (pykey, pyval) dict \<Rightarrow> turn_ctx \<Rightarrow> turn_exc + recovery_context" where
  "recovery_or given metadata c =
     (case given of Some r \<Rightarrow> Inr r | None \<Rightarrow> default_recovery metadata c)"

record activation =
  ra_activated :: bool
  ra_role :: role
  ra_reason :: string
  ra_fallback_activation_count :: nat
  ra_generation_epoch :: int
  ra_sequence :: "int option"

definition activate_fixed ::
  "turn_env \<Rightarrow> role_arg \<Rightarrow> string \<Rightarrow> recovery_context option \<Rightarrow> turn_ctx \<Rightarrow> activation turn_res" where
  "activate_fixed env role reason given c =
     try_res (role_of role) c (\<lambda>r.
     guarded
       ([(\<not> is_fixed r, Py (ValueError ''fixed activation requires a fixed role'')),
         (blank reason, Py (ValueError ''reason must be a non-empty string''))]
        @ ensure_open c @ ensure_admission_allowed env c) c
       (if tc_current_role c = r
        then (Inr \<lparr>ra_activated = False, ra_role = r, ra_reason = reason,
                   ra_fallback_activation_count = tc_fallback_activation_count c,
                   ra_generation_epoch = gs_epoch (tc_generation c), ra_sequence = None\<rparr>, c)
        else guarded
          [(tc_fallback_activation_count c \<noteq> 0,
              ProviderAdmissionError ''fixed activation was already consumed''),
           (tc_current_role c = TERMINAL,
              ProviderAdmissionError ''terminal turn cannot activate fixed role'')] c
          (let c' = c\<lparr>tc_fallback_activation_count := 1, tc_fallback_started := True,
                      tc_fixed_started := True, tc_suppress_selector_fallback := True,
                      tc_current_role := r\<rparr>
           in try_res (recovery_or given [] c') c' (\<lambda>rc.
              let (sequence, c'') = next_sequence
                    (c'\<lparr>tc_recovery_context := Some rc,
                        tc_successful_drafts := rc_successful_drafts rc\<rparr>)
              in (Inr \<lparr>ra_activated = True, ra_role = r, ra_reason = reason,
                       ra_fallback_activation_count = 1,
                       ra_generation_epoch = gs_epoch (tc_generation c''),
                       ra_sequence = Some sequence\<rparr>, c'')))))"

definition begin_failed_fixed_recovery ::
  "turn_env \<Rightarrow> role_arg \<Rightarrow> string \<Rightarrow> recovery_context option \<Rightarrow> turn_ctx \<Rightarrow> unit turn_res" where
  "begin_failed_fixed_recovery env role reason given c =
     try_res (role_of role) c (\<lambda>r.
     guarded
       ([(\<not> is_fixed r, Py (ValueError ''failed fixed recovery requires a fixed role'')),
         (blank reason, Py (ValueError ''reason must be a non-empty string''))]
        @ ensure_open c @ ensure_admission_allowed env c
        @ [(tc_fallback_activation_count c \<noteq> 0,
              ProviderAdmissionError ''fixed activation was already consumed''),
           (turn_terminal c,
              ProviderAdmissionError ''terminal turn cannot start fixed recovery'')]) c
       (let c' = c\<lparr>tc_fallback_activation_count := 1, tc_fallback_started := True,
                   tc_fixed_started := False, tc_recovery_terminal := True,
                   tc_suppress_selector_fallback := True\<rparr>
        in try_res (recovery_or given
                      [(KStr ''reason'', PStr reason), (KStr ''fixed_role'', PStr (role_value r))] c')
             c' (\<lambda>rc. (Inr (), c'\<lparr>tc_recovery_context := Some rc\<rparr>))))"

section \<open>Events\<close>

fun truthy :: "pyval option \<Rightarrow> bool" where
  "truthy None = False"
| "truthy (Some PNone) = False"
| "truthy (Some (PBool b)) = b"
| "truthy (Some (PInt i)) = (i \<noteq> 0)"
| "truthy (Some (PStr s)) = (s \<noteq> [])"
| "truthy (Some (PObj _ _)) = True"
| "truthy (Some (PDict d)) = (d \<noteq> [])"
| "truthy (Some (PProxy d)) = (d \<noteq> [])"
| "truthy (Some (PList vs)) = (vs \<noteq> [])"
| "truthy (Some (PTuple vs)) = (vs \<noteq> [])"
| "truthy (Some (PSet vs)) = (vs \<noteq> [])"
| "truthy (Some (PFrozenSet vs)) = (vs \<noteq> [])"

definition upstream_mapping :: "(pykey, pyval) dict \<Rightarrow> bool" where
  "upstream_mapping d \<longleftrightarrow> truthy (map_of d (KStr ''upstream_activity''))
     \<and> \<not> truthy (map_of d (KStr ''synthetic''))"

fun is_real_upstream :: "pyval \<Rightarrow> bool" where
  "is_real_upstream (PBool b) = b"
| "is_real_upstream (PStr s) =
     (py_lower (py_strip s) \<in>
        {''upstream'', ''upstream_activity'', ''provider'', ''provider_event''})"
| "is_real_upstream (PDict d) = upstream_mapping d"
| "is_real_upstream (PProxy d) = upstream_mapping d"
| "is_real_upstream _ = False"

definition accept_event ::
  "turn_env \<Rightarrow> int \<Rightarrow> int \<Rightarrow> bool \<Rightarrow> pyval \<Rightarrow> turn_ctx \<Rightarrow> bool \<times> turn_ctx" where
  "accept_event env epoch sequence meaningful provenance c =
     (if tc_closed c then (False, c)
      else if turn_terminal c then (False, c)
      else if epoch \<noteq> gs_epoch (tc_generation c) then (False, c)
      else if sequence \<le> tc_last_event_sequence c then (False, c)
      else (True,
        c\<lparr>tc_last_event_sequence := sequence,
          tc_sequence := max (tc_sequence c) sequence,
          tc_generation := (tc_generation c)\<lparr>gs_last_sequence := sequence\<rparr>,
          tc_last_meaningful_progress_at :=
            (if meaningful \<and> is_real_upstream provenance then Some (te_now env)
             else tc_last_meaningful_progress_at c)\<rparr>))"

section \<open>Tool buffers\<close>

definition open_tool_buffer :: "string \<Rightarrow> turn_ctx \<Rightarrow> nat turn_res" where
  "open_tool_buffer call_id c =
     guarded ((blank call_id, Py (ValueError ''call_id must be a non-empty string''))
              # ensure_open c) c
       (case map_of (tc_tools c) call_id of
          Some a \<Rightarrow> (Inr a, c)
        | None \<Rightarrow>
            let a = tc_next_address c in
            (Inr a, c\<lparr>tc_tools := AList.update call_id a (tc_tools c),
                      tc_heap := (tc_heap c)(a \<mapsto>
                        \<lparr>tb_call_id = call_id, tb_events = [], tb_closed = False\<rparr>),
                      tc_next_address := a + 1\<rparr>))"

text \<open>An append through a reference that \<open>open_tool_buffer\<close> returned. \<open>None\<close> is an address that it
  never returned.\<close>

definition buffer_append :: "nat \<Rightarrow> pyval \<Rightarrow> turn_ctx \<Rightarrow> unit turn_res option" where
  "buffer_append a ev c =
     map_option (\<lambda>b. let (r, b') = tb_append ev b in (r, c\<lparr>tc_heap := (tc_heap c)(a \<mapsto> b')\<rparr>))
       (tc_heap c a)"

definition close_at :: "nat \<Rightarrow> (nat \<rightharpoonup> tool_buffer) \<Rightarrow> (nat \<rightharpoonup> tool_buffer)" where
  "close_at a h = h(a := map_option tb_close (h a))"

definition events_at :: "nat \<Rightarrow> turn_ctx \<Rightarrow> pyval list" where
  "events_at a c = (case tc_heap c a of None \<Rightarrow> [] | Some b \<Rightarrow> tb_events b)"

definition commit_tool_round :: "string \<Rightarrow> pyval \<Rightarrow> turn_ctx \<Rightarrow> completed_tool turn_res" where
  "commit_tool_round call_id done_event c =
     guarded ([(blank call_id, Py (ValueError ''call_id must be a non-empty string'')),
               (done_event = PNone, Py (ValueError ''done_event is required''))]
              @ ensure_open c) c
       (case map_of (tc_tools c) call_id of
          None \<Rightarrow> (Inl (TurnExecutionError (''no pending tool buffer: '' @ call_id)), c)
        | Some a \<Rightarrow>
            let (sequence, c') = next_sequence
                  (c\<lparr>tc_tools := AList.delete call_id (tc_tools c),
                     tc_heap := close_at a (tc_heap c)\<rparr>);
                record = \<lparr>ct_call_id = call_id, ct_events = events_at a c,
                          ct_done_event = done_event, ct_sequence = sequence\<rparr>
            in (Inr record, c'\<lparr>tc_completed_tools := tc_completed_tools c' @ [record]\<rparr>))"

definition drop_tool_buffer :: "string \<Rightarrow> turn_ctx \<Rightarrow> turn_ctx" where
  "drop_tool_buffer call_id c = c\<lparr>tc_tools := AList.delete call_id (tc_tools c)\<rparr>"

definition drop_pending_tool_buffers :: "turn_ctx \<Rightarrow> nat \<times> turn_ctx" where
  "drop_pending_tool_buffers c =
     (length (tc_tools c),
      c\<lparr>tc_heap := fold close_at (map snd (tc_tools c)) (tc_heap c), tc_tools := []\<rparr>)"

section \<open>Attempt checkpoints and generation resets\<close>

definition begin_provider_attempt ::
  "string \<Rightarrow> string option \<Rightarrow> string option \<Rightarrow> turn_ctx \<Rightarrow> unit turn_res" where
  "begin_provider_attempt model_call_id text reasoning c =
     guarded (ensure_open c
              @ [(turn_terminal c,
                    TurnExecutionError ''terminal generation cannot start a provider attempt''),
                 (blank model_call_id,
                    Py (ValueError ''model_call_id must be a non-empty string''))]) c
       (Inr (), c\<lparr>tc_checkpoint := Some (model_call_id,
           (case text of None \<Rightarrow> pl_text_snapshot (tc_publication c) | Some t \<Rightarrow> t),
           (case reasoning of None \<Rightarrow> pl_reasoning_snapshot (tc_publication c) | Some t \<Rightarrow> t))\<rparr>)"

definition commit_provider_attempt :: "string \<Rightarrow> turn_ctx \<Rightarrow> unit turn_res" where
  "commit_provider_attempt model_call_id c =
     (case tc_checkpoint c of
        None \<Rightarrow> (Inr (), c)
      | Some (m, _, _) \<Rightarrow>
          if m \<noteq> model_call_id
          then (Inl (TurnExecutionError ''provider attempt checkpoint does not match''), c)
          else (Inr (), c\<lparr>tc_checkpoint := None\<rparr>))"

record reset_event =
  re_turn_id :: string
  re_assistant_message_id :: string
  re_old_generation_epoch :: int
  re_new_generation_epoch :: int
  re_from_role :: role
  re_to_role :: role
  re_safe_reason :: string
  re_sequence :: int
  re_terminal :: bool
  re_terminal_text_snapshot :: "string option"
  re_terminal_error_message :: string
  re_terminal_error_code :: string
  re_terminal_failure_kind :: string
  re_terminal_http_status :: "int option"
  re_reset_scope :: string
  re_rollback_model_call_id :: string
  re_authoritative_text_snapshot :: string
  re_authoritative_reasoning_snapshot :: string

text \<open>The arguments of \<open>begin_generation_reset\<close>.\<close>

record reset_args =
  rs_from_role :: role_arg
  rs_to_role :: role_arg
  rs_safe_reason :: string
  rs_terminal :: bool
  rs_terminal_text :: "string option"
  rs_error_message :: string
  rs_error_code :: string
  rs_failure_kind :: string
  rs_http_status :: "int option"
  rs_scope :: string
  rs_rollback_id :: string

text \<open>The prefix that the reset restores: the checkpoint's, for a provider call, whose role must
  not change; nothing for a whole answer.\<close>

definition reset_prefix :: "reset_args \<Rightarrow> turn_ctx \<Rightarrow> turn_exc + string \<times> string" where
  "reset_prefix a c =
     (if rs_scope a = ''provider_call''
      then (case tc_checkpoint c of
              None \<Rightarrow> Inl (TurnExecutionError ''provider call reset requires its attempt checkpoint'')
            | Some (m, text, reasoning) \<Rightarrow>
                if m \<noteq> rs_rollback_id a
                then Inl (TurnExecutionError ''provider call reset requires its attempt checkpoint'')
                else (case role_of (rs_from_role a) of Inl e \<Rightarrow> Inl e | Inr f \<Rightarrow>
                      case role_of (rs_to_role a) of Inl e \<Rightarrow> Inl e | Inr t \<Rightarrow>
                        if f \<noteq> t
                        then Inl (TurnExecutionError
                               ''provider call reset cannot change execution role'')
                        else Inr (text, reasoning)))
      else Inr ([], []))"

text \<open>The state after the reset, once \<open>_role(to_role)\<close> has answered: buffers dropped, a fresh
  generation at \<open>sequence\<close>, the ledger rewritten to the prefix (or, for a terminal reset that has a
  text, to that text).\<close>

definition reset_publication ::
  "reset_args \<Rightarrow> int \<Rightarrow> int \<Rightarrow> string \<Rightarrow> string \<Rightarrow> publication_ledger \<Rightarrow> publication_ledger" where
  "reset_publication a epoch sequence text reasoning p =
     (let p' = p\<lparr>pl_generation_epoch := epoch, pl_last_sequence := sequence,
                 pl_text_snapshot := text, pl_reasoning_snapshot := reasoning,
                 pl_terminal := rs_terminal a\<rparr>
      in case rs_terminal_text a of
           Some (ch # s) \<Rightarrow>
             if rs_terminal a
             then p'\<lparr>pl_text_snapshot := ch # s, pl_published := True, pl_visible_output := True\<rparr>
             else p'
         | _ \<Rightarrow> p')"

definition reset_state ::
  "reset_args \<Rightarrow> role \<Rightarrow> int \<Rightarrow> string \<Rightarrow> string \<Rightarrow> turn_ctx \<Rightarrow> turn_ctx" where
  "reset_state a to_role sequence text reasoning c =
     (let epoch = gs_epoch (tc_generation c) + 1;
          c' = snd (drop_pending_tool_buffers c)
      in c'\<lparr>tc_generation := \<lparr>gs_epoch = epoch, gs_owner = to_role, gs_text_snapshot = text,
               gs_reasoning_snapshot = reasoning, gs_last_sequence = sequence,
               gs_terminal = rs_terminal a\<rparr>,
            tc_checkpoint := None,
            tc_terminalized := (rs_terminal a \<or> tc_terminalized c'),
            tc_suppress_selector_fallback :=
              (rs_terminal a \<or> tc_suppress_selector_fallback c'),
            tc_recovery_terminal :=
              (rs_terminal a \<and> tc_fallback_started c' \<or> tc_recovery_terminal c'),
            tc_last_event_sequence := sequence,
            tc_publication :=
              reset_publication a epoch sequence text reasoning (tc_publication c')\<rparr>)"

definition begin_generation_reset :: "reset_args \<Rightarrow> turn_ctx \<Rightarrow> reset_event turn_res" where
  "begin_generation_reset a c =
     guarded
       [(blank (rs_safe_reason a), Py (ValueError ''safe_reason must be a non-empty string'')),
        (tc_closed c, TurnExecutionError ''turn context is closed''),
        (turn_terminal c, TurnExecutionError ''terminal generation is already closed''),
        (rs_scope a \<noteq> ''answer'' \<and> rs_scope a \<noteq> ''provider_call'',
           Py (ValueError ''invalid generation reset scope''))] c
       (try_res (reset_prefix a c) c (\<lambda>(text, reasoning).
        let (sequence, c') = next_sequence c in
        try_res (role_of (rs_to_role a)) c' (\<lambda>to_role.
        let c'' = reset_state a to_role sequence text reasoning c' in
        try_res (role_of (rs_from_role a)) c'' (\<lambda>from_role.
          (Inr \<lparr>re_turn_id = ti_turn_id (tc_identity c''),
                re_assistant_message_id = ti_assistant_message_id (tc_identity c''),
                re_old_generation_epoch = gs_epoch (tc_generation c),
                re_new_generation_epoch = gs_epoch (tc_generation c) + 1,
                re_from_role = from_role, re_to_role = to_role,
                re_safe_reason = rs_safe_reason a, re_sequence = sequence,
                re_terminal = rs_terminal a, re_terminal_text_snapshot = rs_terminal_text a,
                re_terminal_error_message = rs_error_message a,
                re_terminal_error_code = rs_error_code a,
                re_terminal_failure_kind = rs_failure_kind a,
                re_terminal_http_status = rs_http_status a,
                re_reset_scope = rs_scope a, re_rollback_model_call_id = rs_rollback_id a,
                re_authoritative_text_snapshot = text,
                re_authoritative_reasoning_snapshot = reasoning\<rparr>, c'')))))"

definition release_publication :: "turn_ctx \<Rightarrow> turn_ctx" where
  "release_publication c =
     (if pl_visible_output (tc_publication c) then c
      else c\<lparr>tc_publication := (tc_publication c)\<lparr>pl_released := True, pl_reserved := False\<rparr>\<rparr>)"

definition begin_control_terminal :: "string \<Rightarrow> turn_ctx \<Rightarrow> int option turn_res" where
  "begin_control_terminal reason c =
     guarded [(blank reason, Py (ValueError ''reason must be a non-empty string''))] c
       (if tc_closed c \<or> turn_terminal c then (Inr None, c)
        else
          let (sequence, c') = next_sequence (snd (drop_pending_tool_buffers c))
          in (Inr (Some sequence),
              release_publication
                (c'\<lparr>tc_terminalized := True, tc_suppress_selector_fallback := True,
                    tc_last_event_sequence := sequence,
                    tc_generation := (tc_generation c')
                      \<lparr>gs_last_sequence := sequence, gs_terminal := True\<rparr>,
                    tc_publication := (tc_publication c')
                      \<lparr>pl_last_sequence := sequence, pl_terminal := True\<rparr>\<rparr>)))"

section \<open>Publication, cleanup, close\<close>

definition publish_visible ::
  "turn_env \<Rightarrow> string \<Rightarrow> string \<Rightarrow> int option \<Rightarrow> int option \<Rightarrow> bool \<Rightarrow> turn_ctx \<Rightarrow> bool \<times> turn_ctx" where
  "publish_visible env text reasoning epoch_arg sequence_arg terminal c =
     (if text = [] \<and> reasoning = [] then (False, c)
      else
        let epoch = (case epoch_arg of None \<Rightarrow> gs_epoch (tc_generation c) | Some e \<Rightarrow> e) in
        if epoch \<noteq> gs_epoch (tc_generation c) \<or> tc_closed c then (False, c)
        else
          let (sequence, c') = (case sequence_arg of None \<Rightarrow> next_sequence c | Some s \<Rightarrow> (s, c));
              (ok, c'') = accept_event env epoch sequence True (PStr ''upstream'') c'
          in if \<not> ok then (False, c'')
             else let (ok', p) = pl_accept epoch sequence text reasoning terminal (tc_publication c'')
                  in (ok', c''\<lparr>tc_publication := p\<rparr>))"

definition release_reserved_unpublished :: "turn_ctx \<Rightarrow> bool \<times> turn_ctx" where
  "release_reserved_unpublished c =
     (if pl_visible_output (tc_publication c) then (False, c)
      else if pl_released (tc_publication c) then (False, c)
      else (True,
        c\<lparr>tc_publication := (tc_publication c)\<lparr>pl_released := True, pl_reserved := False\<rparr>\<rparr>))"

definition reserve_cleanup :: "string \<Rightarrow> nat \<Rightarrow> string \<Rightarrow> turn_ctx \<Rightarrow> (string \<times> string) turn_res" where
  "reserve_cleanup uuid task owner c =
     guarded (ensure_open c @ [(blank owner, Py (ValueError ''owner must be a non-empty string''))]) c
       (Inr (uuid, owner),
        c\<lparr>tc_cleanup_tasks := AList.update uuid task (tc_cleanup_tasks c),
          tc_cleanup_handles := AList.update uuid owner (tc_cleanup_handles c)\<rparr>)"

definition release_cleanup :: "string \<Rightarrow> turn_ctx \<Rightarrow> bool \<times> turn_ctx" where
  "release_cleanup handle_id c =
     (map_of (tc_cleanup_tasks c) handle_id \<noteq> None,
      c\<lparr>tc_cleanup_tasks := AList.delete handle_id (tc_cleanup_tasks c),
        tc_cleanup_handles := AList.delete handle_id (tc_cleanup_handles c)\<rparr>)"

text \<open>\<open>close\<close> returns the tasks that the code then joins with \<open>asyncio.gather\<close>.\<close>

definition close_context :: "turn_ctx \<Rightarrow> nat list \<times> turn_ctx" where
  "close_context c =
     (if tc_closed c then ([], c)
      else (map snd (tc_cleanup_tasks c),
            release_publication (c\<lparr>tc_closed := True, tc_cleanup_tasks := [],
                                   tc_cleanup_handles := []\<rparr>)))"

end
