(* ===== verification/Turn_Machine.thy ===== *)
theory Turn_Machine
  imports Turn_Generation
begin

text \<open>
  The turn context as a machine: one operation per public method, the states a context can reach,
  and the invariants of those states. An operation that admits a call carries the identifier that
  \<open>uuid4\<close> returned; \<open>fresh_id\<close> is the documented behaviour of \<open>uuid4\<close> that the leases rest on: it
  does not return an identifier that the turn has already used.
\<close>

datatype turn_op =
    OSetDeadline "real option"
  | ONextSequence
  | OProposerTask
  | ODrafts pyval
  | OEnsemble ensemble_snapshot
  | OUsage usage_leg
  | OAdmit turn_env string role_arg int int string
  | OStart lease pyval
  | OFinish lease pyval
  | OActivate turn_env role_arg string "recovery_context option"
  | OFailedFixed turn_env role_arg string "recovery_context option"
  | OEvent turn_env int int bool pyval
  | OOpenBuffer string
  | OAppend nat pyval
  | OCommitTool string pyval
  | ODropBuffer string
  | ODropAll
  | OBeginAttempt string "string option" "string option"
  | OCommitAttempt string
  | OReset reset_args
  | OControlTerminal string
  | OPublish turn_env string string "int option" "int option" bool
  | ORelease
  | OReserveCleanup string nat string
  | OReleaseCleanup string
  | OClose

fun turn_step :: "turn_op \<Rightarrow> turn_ctx \<Rightarrow> turn_ctx" where
  "turn_step (OSetDeadline d) c = snd (set_deadline_if_missing d c)"
| "turn_step ONextSequence c = snd (next_sequence c)"
| "turn_step OProposerTask c = snd (record_proposer_logical_task c)"
| "turn_step (ODrafts v) c = snd (record_successful_drafts v c)"
| "turn_step (OEnsemble s) c = snd (record_ensemble_continuation_snapshot s c)"
| "turn_step (OUsage l) c = snd (record_usage_leg l c)"
| "turn_step (OAdmit env u r i k w) c = snd (admit_provider_call env u r i k w c)"
| "turn_step (OStart l e) c = snd (record_request_start l e c)"
| "turn_step (OFinish l v) c = snd (finish_provider_call l v c)"
| "turn_step (OActivate env r s g) c = snd (activate_fixed env r s g c)"
| "turn_step (OFailedFixed env r s g) c = snd (begin_failed_fixed_recovery env r s g c)"
| "turn_step (OEvent env e s m p) c = snd (accept_event env e s m p c)"
| "turn_step (OOpenBuffer i) c = snd (open_tool_buffer i c)"
| "turn_step (OAppend a v) c = (case buffer_append a v c of None \<Rightarrow> c | Some r \<Rightarrow> snd r)"
| "turn_step (OCommitTool i d) c = snd (commit_tool_round i d c)"
| "turn_step (ODropBuffer i) c = drop_tool_buffer i c"
| "turn_step ODropAll c = snd (drop_pending_tool_buffers c)"
| "turn_step (OBeginAttempt m t r) c = snd (begin_provider_attempt m t r c)"
| "turn_step (OCommitAttempt m) c = snd (commit_provider_attempt m c)"
| "turn_step (OReset a) c = snd (begin_generation_reset a c)"
| "turn_step (OControlTerminal r) c = snd (begin_control_terminal r c)"
| "turn_step (OPublish env t r e s f) c = snd (publish_visible env t r e s f c)"
| "turn_step ORelease c = snd (release_reserved_unpublished c)"
| "turn_step (OReserveCleanup u t w) c = snd (reserve_cleanup u t w c)"
| "turn_step (OReleaseCleanup i) c = snd (release_cleanup i c)"
| "turn_step OClose c = snd (close_context c)"

lemmas turn_guards = ensure_open_def ensure_admission_allowed_def admit_arguments_def
  admit_role_guards_def attempt_guards_def

section \<open>What each operation may write\<close>

text \<open>Five groups of fields. \<open>without_g\<close> blanks the fields of a group; an operation of the group
  leaves the rest of the context as it was. An invariant that reads none of the group's fields is
  kept for that reason alone.\<close>

definition without_calls :: "turn_ctx \<Rightarrow> turn_ctx" where
  "without_calls c = c\<lparr>
       tc_attempt_ledgers := Map.empty, tc_active_leases := Map.empty, tc_lease_started :=
       {}, tc_lease_finished := Map.empty, tc_proposer_admissions := 0,
       tc_proposer_request_starts := 0, tc_primary_index := 0, tc_fixed_index := 0\<rparr>"

definition without_notes :: "turn_ctx \<Rightarrow> turn_ctx" where
  "without_notes c = c\<lparr>
       tc_deadline := None, tc_successful_drafts := [], tc_ensemble_snapshot := None,
       tc_usage_legs := [], tc_proposer_tasks := 0, tc_checkpoint := None, tc_cleanup_tasks
       := [], tc_cleanup_handles := []\<rparr>"

definition without_roles :: "turn_ctx \<Rightarrow> turn_ctx" where
  "without_roles c = c\<lparr>
       tc_sequence := 0, tc_fallback_activation_count := 0, tc_fallback_started := False,
       tc_fixed_started := False, tc_recovery_terminal := False,
       tc_suppress_selector_fallback := False, tc_current_role := TERMINAL,
       tc_recovery_context := None, tc_successful_drafts := []\<rparr>"

definition without_tools :: "turn_ctx \<Rightarrow> turn_ctx" where
  "without_tools c = c\<lparr>
       tc_sequence := 0, tc_tools := [], tc_heap := Map.empty, tc_next_address := 0,
       tc_completed_tools := []\<rparr>"

definition without_generation :: "turn_ctx \<Rightarrow> turn_ctx" where
  "without_generation c = c\<lparr>
       tc_sequence := 0, tc_last_event_sequence := 0, tc_generation := tc_generation
       (new_context undefined NoControl None undefined), tc_last_meaningful_progress_at :=
       None, tc_publication := tc_publication (new_context undefined NoControl None
       undefined), tc_tools := [], tc_heap := Map.empty, tc_checkpoint := None,
       tc_terminalized := False, tc_suppress_selector_fallback := False,
       tc_recovery_terminal := False, tc_closed := False, tc_cleanup_tasks := [],
       tc_cleanup_handles := []\<rparr>"

lemma setdefault_ledger_writes_calls:
  "without_calls (snd (setdefault_ledger r i c)) = without_calls c"
  by (simp add: setdefault_ledger_def without_calls_def split: option.split)

lemma count_admission_writes_calls: "without_calls (count_admission r i c) = without_calls c"
  by (simp add: count_admission_def without_calls_def)

lemma admit_commit_writes_calls:
  "without_calls (snd (admit_commit u r i k w l c)) = without_calls c"
  by (simp add: admit_commit_def Let_def count_admission_writes_calls)
     (simp add: without_calls_def)

lemma admit_provider_call_writes_calls:
  "without_calls (snd (admit_provider_call env u r i k w c)) = without_calls c"
proof -
  have "without_calls (snd (case p of (l, d) \<Rightarrow> guarded (gs l d) d (admit_commit u r' i k w l d)))
      = without_calls c" if "without_calls (snd p) = without_calls c" for p gs r'
  proof (cases p)
    case (Pair l d)
    have "without_calls (snd (guarded (gs l d) d (admit_commit u r' i k w l d))) = without_calls c"
      by (rule guarded_inv) (use that Pair in \<open>simp_all add: admit_commit_writes_calls\<close>)
    with Pair show ?thesis by simp
  qed
  then show ?thesis
    unfolding admit_provider_call_def
    by (intro try_res_inv [where I = "\<lambda>d. without_calls d = without_calls c"]
          guarded_inv [where I = "\<lambda>d. without_calls d = without_calls c"])
       (simp_all add: setdefault_ledger_writes_calls)
qed

lemma record_request_start_writes_calls:
  "without_calls (snd (record_request_start l e c)) = without_calls c"
  unfolding record_request_start_def
  by ((intro guarded_inv [where I = "\<lambda>d. without_calls d = without_calls c"]
        try_res_inv [where I = "\<lambda>d. without_calls d = without_calls c"])?)
     (simp_all add: without_calls_def guarded_def try_res_def Let_def 
        split: option.split sum.split prod.split pyval.split)

lemma finish_provider_call_writes_calls:
  "without_calls (snd (finish_provider_call l v c)) = without_calls c"
  unfolding finish_provider_call_def
  by ((intro guarded_inv [where I = "\<lambda>d. without_calls d = without_calls c"]
        try_res_inv [where I = "\<lambda>d. without_calls d = without_calls c"])?)
     (simp_all add: without_calls_def guarded_def try_res_def Let_def 
        split: option.split sum.split prod.split pyval.split)

lemma set_deadline_if_missing_writes_notes:
  "without_notes (snd (set_deadline_if_missing d c)) = without_notes c"
  unfolding set_deadline_if_missing_def
  by ((intro guarded_inv [where I = "\<lambda>d. without_notes d = without_notes c"]
        try_res_inv [where I = "\<lambda>d. without_notes d = without_notes c"])?)
     (simp_all add: without_notes_def guarded_def try_res_def Let_def 
        split: option.split sum.split prod.split pyval.split)

lemma record_proposer_logical_task_writes_notes:
  "without_notes (snd (record_proposer_logical_task c)) = without_notes c"
  unfolding record_proposer_logical_task_def
  by ((intro guarded_inv [where I = "\<lambda>d. without_notes d = without_notes c"]
        try_res_inv [where I = "\<lambda>d. without_notes d = without_notes c"])?)
     (simp_all add: without_notes_def guarded_def try_res_def Let_def 
        split: option.split sum.split prod.split pyval.split)

lemma record_successful_drafts_writes_notes:
  "without_notes (snd (record_successful_drafts v c)) = without_notes c"
  unfolding record_successful_drafts_def
  by ((intro guarded_inv [where I = "\<lambda>d. without_notes d = without_notes c"]
        try_res_inv [where I = "\<lambda>d. without_notes d = without_notes c"])?)
     (simp_all add: without_notes_def guarded_def try_res_def Let_def 
        split: option.split sum.split prod.split pyval.split)

lemma record_ensemble_continuation_snapshot_writes_notes:
  "without_notes (snd (record_ensemble_continuation_snapshot s c)) = without_notes c"
  unfolding record_ensemble_continuation_snapshot_def
  by ((intro guarded_inv [where I = "\<lambda>d. without_notes d = without_notes c"]
        try_res_inv [where I = "\<lambda>d. without_notes d = without_notes c"])?)
     (simp_all add: without_notes_def guarded_def try_res_def Let_def 
        split: option.split sum.split prod.split pyval.split)

lemma record_usage_leg_writes_notes:
  "without_notes (snd (record_usage_leg l c)) = without_notes c"
  unfolding record_usage_leg_def
  by ((intro guarded_inv [where I = "\<lambda>d. without_notes d = without_notes c"]
        try_res_inv [where I = "\<lambda>d. without_notes d = without_notes c"])?)
     (simp_all add: without_notes_def guarded_def try_res_def Let_def 
        split: option.split sum.split prod.split pyval.split)

lemma begin_provider_attempt_writes_notes:
  "without_notes (snd (begin_provider_attempt m t r c)) = without_notes c"
  unfolding begin_provider_attempt_def
  by ((intro guarded_inv [where I = "\<lambda>d. without_notes d = without_notes c"]
        try_res_inv [where I = "\<lambda>d. without_notes d = without_notes c"])?)
     (simp_all add: without_notes_def guarded_def try_res_def Let_def 
        split: option.split sum.split prod.split pyval.split)

lemma commit_provider_attempt_writes_notes:
  "without_notes (snd (commit_provider_attempt m c)) = without_notes c"
  unfolding commit_provider_attempt_def
  by ((intro guarded_inv [where I = "\<lambda>d. without_notes d = without_notes c"]
        try_res_inv [where I = "\<lambda>d. without_notes d = without_notes c"])?)
     (simp_all add: without_notes_def guarded_def try_res_def Let_def 
        split: option.split sum.split prod.split pyval.split)

lemma reserve_cleanup_writes_notes:
  "without_notes (snd (reserve_cleanup u t w c)) = without_notes c"
  unfolding reserve_cleanup_def
  by ((intro guarded_inv [where I = "\<lambda>d. without_notes d = without_notes c"]
        try_res_inv [where I = "\<lambda>d. without_notes d = without_notes c"])?)
     (simp_all add: without_notes_def guarded_def try_res_def Let_def 
        split: option.split sum.split prod.split pyval.split)

lemma release_cleanup_writes_notes:
  "without_notes (snd (release_cleanup i c)) = without_notes c"
  unfolding release_cleanup_def
  by ((intro guarded_inv [where I = "\<lambda>d. without_notes d = without_notes c"]
        try_res_inv [where I = "\<lambda>d. without_notes d = without_notes c"])?)
     (simp_all add: without_notes_def guarded_def try_res_def Let_def 
        split: option.split sum.split prod.split pyval.split)

lemma activate_fixed_writes_roles:
  "without_roles (snd (activate_fixed env r s g c)) = without_roles c"
  unfolding activate_fixed_def
  by ((intro guarded_inv [where I = "\<lambda>d. without_roles d = without_roles c"]
        try_res_inv [where I = "\<lambda>d. without_roles d = without_roles c"])?)
     (simp_all add: without_roles_def guarded_def try_res_def Let_def recovery_or_def next_sequence_def
        split: option.split sum.split prod.split pyval.split)

lemma begin_failed_fixed_recovery_writes_roles:
  "without_roles (snd (begin_failed_fixed_recovery env r s g c)) = without_roles c"
  unfolding begin_failed_fixed_recovery_def
  by ((intro guarded_inv [where I = "\<lambda>d. without_roles d = without_roles c"]
        try_res_inv [where I = "\<lambda>d. without_roles d = without_roles c"])?)
     (simp_all add: without_roles_def guarded_def try_res_def Let_def 
        split: option.split sum.split prod.split pyval.split)

lemma next_sequence_writes_tools:
  "without_tools (snd (next_sequence c)) = without_tools c"
  unfolding next_sequence_def
  by ((intro guarded_inv [where I = "\<lambda>d. without_tools d = without_tools c"]
        try_res_inv [where I = "\<lambda>d. without_tools d = without_tools c"])?)
     (simp_all add: without_tools_def guarded_def try_res_def Let_def 
        split: option.split sum.split prod.split pyval.split)

lemma open_tool_buffer_writes_tools:
  "without_tools (snd (open_tool_buffer i c)) = without_tools c"
  unfolding open_tool_buffer_def
  by ((intro guarded_inv [where I = "\<lambda>d. without_tools d = without_tools c"]
        try_res_inv [where I = "\<lambda>d. without_tools d = without_tools c"])?)
     (simp_all add: without_tools_def guarded_def try_res_def Let_def 
        split: option.split sum.split prod.split pyval.split)

lemma commit_tool_round_writes_tools:
  "without_tools (snd (commit_tool_round i d c)) = without_tools c"
  unfolding commit_tool_round_def
  by ((intro guarded_inv [where I = "\<lambda>d. without_tools d = without_tools c"]
        try_res_inv [where I = "\<lambda>d. without_tools d = without_tools c"])?)
     (simp_all add: without_tools_def guarded_def try_res_def Let_def next_sequence_def
        split: option.split sum.split prod.split pyval.split)

lemma drop_pending_tool_buffers_writes_tools:
  "without_tools (snd (drop_pending_tool_buffers c)) = without_tools c"
  unfolding drop_pending_tool_buffers_def
  by ((intro guarded_inv [where I = "\<lambda>d. without_tools d = without_tools c"]
        try_res_inv [where I = "\<lambda>d. without_tools d = without_tools c"])?)
     (simp_all add: without_tools_def guarded_def try_res_def Let_def 
        split: option.split sum.split prod.split pyval.split)

lemma accept_event_writes_generation:
  "without_generation (snd (accept_event env e s m p c)) = without_generation c"
  unfolding accept_event_def
  by ((intro guarded_inv [where I = "\<lambda>d. without_generation d = without_generation c"]
        try_res_inv [where I = "\<lambda>d. without_generation d = without_generation c"])?)
     (simp_all add: without_generation_def guarded_def try_res_def Let_def 
        split: option.split sum.split prod.split pyval.split)

lemma begin_generation_reset_writes_generation:
  "without_generation (snd (begin_generation_reset a c)) = without_generation c"
  unfolding begin_generation_reset_def
  by ((intro guarded_inv [where I = "\<lambda>d. without_generation d = without_generation c"]
        try_res_inv [where I = "\<lambda>d. without_generation d = without_generation c"])?)
     (simp_all add: without_generation_def guarded_def try_res_def Let_def next_sequence_def reset_state_def drop_pending_tool_buffers_def
        split: option.split sum.split prod.split pyval.split)

lemma begin_control_terminal_writes_generation:
  "without_generation (snd (begin_control_terminal r c)) = without_generation c"
  unfolding begin_control_terminal_def
  by ((intro guarded_inv [where I = "\<lambda>d. without_generation d = without_generation c"]
        try_res_inv [where I = "\<lambda>d. without_generation d = without_generation c"])?)
     (simp_all add: without_generation_def guarded_def try_res_def Let_def next_sequence_def release_publication_def drop_pending_tool_buffers_def
        split: option.split sum.split prod.split pyval.split)

lemma without_generation_publication [simp]:
  "without_generation (d\<lparr>tc_publication := p\<rparr>) = without_generation d"
  "without_generation (d\<lparr>tc_sequence := n\<rparr>) = without_generation d"
  by (simp_all add: without_generation_def)

lemma publish_visible_writes_generation:
  "without_generation (snd (publish_visible env t r e s f c)) = without_generation c"
  by (simp add: publish_visible_def next_sequence_def split_beta Let_def
      accept_event_writes_generation split: option.split)

lemma release_reserved_unpublished_writes_generation:
  "without_generation (snd (release_reserved_unpublished c)) = without_generation c"
  unfolding release_reserved_unpublished_def
  by ((intro guarded_inv [where I = "\<lambda>d. without_generation d = without_generation c"]
        try_res_inv [where I = "\<lambda>d. without_generation d = without_generation c"])?)
     (simp_all add: without_generation_def guarded_def try_res_def Let_def 
        split: option.split sum.split prod.split pyval.split)

lemma close_context_writes_generation:
  "without_generation (snd (close_context c)) = without_generation c"
  unfolding close_context_def
  by ((intro guarded_inv [where I = "\<lambda>d. without_generation d = without_generation c"]
        try_res_inv [where I = "\<lambda>d. without_generation d = without_generation c"])?)
     (simp_all add: without_generation_def guarded_def try_res_def Let_def release_publication_def
        split: option.split sum.split prod.split pyval.split)

section \<open>Operations with several raises\<close>

text \<open>For the operations whose raises leave different states: a predicate that each of those states
  satisfies is satisfied after the operation, however it ends.\<close>

definition activated_state :: "role \<Rightarrow> turn_ctx \<Rightarrow> turn_ctx" where
  "activated_state r c = c\<lparr>tc_fallback_activation_count := 1, tc_fallback_started := True,
     tc_fixed_started := True, tc_suppress_selector_fallback := True, tc_current_role := r\<rparr>"

definition recovered_state :: "recovery_context \<Rightarrow> turn_ctx \<Rightarrow> turn_ctx" where
  "recovered_state rc c = c\<lparr>tc_recovery_context := Some rc,
     tc_successful_drafts := rc_successful_drafts rc, tc_sequence := tc_sequence c + 1\<rparr>"

definition failed_state :: "turn_ctx \<Rightarrow> turn_ctx" where
  "failed_state c = c\<lparr>tc_fallback_activation_count := 1, tc_fallback_started := True,
     tc_fixed_started := False, tc_recovery_terminal := True,
     tc_suppress_selector_fallback := True\<rparr>"

lemma activate_keeps:
  assumes "I c"
    and "\<And>r. is_fixed r \<Longrightarrow> tc_current_role c \<noteq> r \<Longrightarrow> tc_fallback_activation_count c = 0 \<Longrightarrow>
      I (activated_state r c)"
    and "\<And>r rc. is_fixed r \<Longrightarrow> tc_current_role c \<noteq> r \<Longrightarrow> tc_fallback_activation_count c = 0 \<Longrightarrow>
      I (recovered_state rc (activated_state r c))"
  shows "I (snd (activate_fixed env r s g c))"
  unfolding activate_fixed_def Let_def next_sequence_def split_beta fst_conv snd_conv
  by (intro guarded_inv [where I = I] try_res_inv [where I = I] if_inv [where I = I] assms(1))
     (use assms(2,3) in \<open>auto simp: activated_state_def recovered_state_def assms(1)
        split: if_splits\<close>)

lemma failed_keeps:
  assumes "I c"
    and "tc_fallback_activation_count c = 0 \<Longrightarrow> \<not> turn_terminal c \<Longrightarrow> I (failed_state c)"
    and "\<And>rc. tc_fallback_activation_count c = 0 \<Longrightarrow> \<not> turn_terminal c \<Longrightarrow>
      I ((failed_state c)\<lparr>tc_recovery_context := Some rc\<rparr>)"
  shows "I (snd (begin_failed_fixed_recovery env r s g c))"
  unfolding begin_failed_fixed_recovery_def Let_def
  by (intro guarded_inv [where I = I] try_res_inv [where I = I] assms(1))
     (use assms(2,3) in \<open>auto simp: failed_state_def ensure_open_def
        ensure_admission_allowed_def split: if_splits\<close>)

lemma reset_keeps:
  assumes "I c" and "I (c\<lparr>tc_sequence := tc_sequence c + 1\<rparr>)"
    and "\<And>r t u. \<not> turn_terminal c \<Longrightarrow> \<not> tc_closed c \<Longrightarrow>
      I (reset_state a r (tc_sequence c + 1) t u (c\<lparr>tc_sequence := tc_sequence c + 1\<rparr>))"
  shows "I (snd (begin_generation_reset a c))"
  unfolding begin_generation_reset_def next_sequence_def split_beta Let_def fst_conv snd_conv
  by (intro guarded_inv [where I = I] try_res_inv [where I = I] assms(1))
     (auto simp: assms(2) intro!: assms(3) split: if_splits)

end
