(* ===== verification/Turn_Invariants.thy ===== *)
theory Turn_Invariants
  imports Turn_Machine
begin

text \<open>
  The invariants of a turn context, one group of fields at a time: the order of sequence numbers and
  epochs, the terminal flags, the role transaction, the tool buffers and the leases. Each is kept by
  every operation; \<open>turn_reachable\<close> collects them for the states a turn can be in.
\<close>

section \<open>Sequence numbers and epochs\<close>

definition order_inv :: "turn_ctx \<Rightarrow> bool" where
  "order_inv c \<longleftrightarrow>
     pl_last_sequence (tc_publication c) \<le> tc_last_event_sequence c
   \<and> tc_last_event_sequence c \<le> tc_sequence c
   \<and> gs_last_sequence (tc_generation c) \<le> tc_sequence c
   \<and> pl_generation_epoch (tc_publication c) = gs_epoch (tc_generation c)
   \<and> (\<forall>(e, s) \<in> pl_seen_sequences (tc_publication c). s \<le> pl_last_sequence (tc_publication c))
   \<and> sorted_wrt (<) (map ct_sequence (tc_completed_tools c))
   \<and> (\<forall>t \<in> set (tc_completed_tools c). ct_sequence t \<le> tc_sequence c)"

lemmas order_guards = guarded_inv [where I = order_inv] try_res_inv [where I = order_inv]

lemma order_inv_calls: "without_calls d = without_calls c \<Longrightarrow> order_inv d = order_inv c"
  by (rule mask_inv [where m = without_calls]) (simp_all add: order_inv_def without_calls_def)

lemma order_inv_notes: "without_notes d = without_notes c \<Longrightarrow> order_inv d = order_inv c"
  by (rule mask_inv [where m = without_notes]) (simp_all add: order_inv_def without_notes_def)

lemma order_inv_next: "order_inv c \<Longrightarrow> order_inv (snd (next_sequence c))"
  by (fastforce simp: order_inv_def next_sequence_def)

lemma order_inv_activate: "order_inv c \<Longrightarrow> order_inv (snd (activate_fixed env r s g c))"
  by (rule activate_keeps, assumption)
     (fastforce simp: order_inv_def activated_state_def recovered_state_def)+

lemma order_inv_failed:
  "order_inv c \<Longrightarrow> order_inv (snd (begin_failed_fixed_recovery env r s g c))"
  by (rule failed_keeps, assumption) (auto simp: order_inv_def failed_state_def)

lemma order_inv_event: "order_inv c \<Longrightarrow> order_inv (snd (accept_event env e s m p c))"
  by (fastforce simp: accept_event_def order_inv_def)

lemma order_inv_open: "order_inv c \<Longrightarrow> order_inv (snd (open_tool_buffer i c))"
  unfolding open_tool_buffer_def
  by (intro order_guards) (simp_all add: order_inv_def Let_def split: option.split)

lemma order_inv_commit: "order_inv c \<Longrightarrow> order_inv (snd (commit_tool_round i d c))"
  unfolding commit_tool_round_def
  by (intro order_guards)
     (fastforce simp: order_inv_def Let_def next_sequence_def sorted_wrt_append split: option.split)+

lemma order_inv_drop_pending: "order_inv c \<Longrightarrow> order_inv (snd (drop_pending_tool_buffers c))"
  by (simp add: order_inv_def drop_pending_tool_buffers_def)

lemma reset_publication_simps [simp]:
  "pl_generation_epoch (reset_publication a e s t r p) = e"
  "pl_last_sequence (reset_publication a e s t r p) = s"
  "pl_seen_sequences (reset_publication a e s t r p) = pl_seen_sequences p"
  "pl_terminal (reset_publication a e s t r p) = rs_terminal a"
  "pl_released (reset_publication a e s t r p) = pl_released p"
  by (simp_all add: reset_publication_def Let_def split: option.split list.split)

lemma reset_state_simps [simp]:
  "tc_generation (reset_state a r s t u c) =
     \<lparr>gs_epoch = gs_epoch (tc_generation c) + 1, gs_owner = r, gs_text_snapshot = t,
      gs_reasoning_snapshot = u, gs_last_sequence = s, gs_terminal = rs_terminal a\<rparr>"
  "tc_publication (reset_state a r s t u c) =
     reset_publication a (gs_epoch (tc_generation c) + 1) s t u (tc_publication c)"
  "tc_sequence (reset_state a r s t u c) = tc_sequence c"
  "tc_last_event_sequence (reset_state a r s t u c) = s"
  "tc_terminalized (reset_state a r s t u c) = (rs_terminal a \<or> tc_terminalized c)"
  "tc_completed_tools (reset_state a r s t u c) = tc_completed_tools c"
  "tc_tools (reset_state a r s t u c) = []"
  "tc_heap (reset_state a r s t u c) = tc_heap (snd (drop_pending_tool_buffers c))"
  "tc_next_address (reset_state a r s t u c) = tc_next_address c"
  "tc_current_role (reset_state a r s t u c) = tc_current_role c"
  "tc_fallback_activation_count (reset_state a r s t u c) = tc_fallback_activation_count c"
  "tc_fallback_started (reset_state a r s t u c) = tc_fallback_started c"
  "tc_fixed_started (reset_state a r s t u c) = tc_fixed_started c"
  "tc_suppress_selector_fallback (reset_state a r s t u c) =
     (rs_terminal a \<or> tc_suppress_selector_fallback c)"
  "tc_checkpoint (reset_state a r s t u c) = None"
  "tc_closed (reset_state a r s t u c) = tc_closed c"
  "tc_identity (reset_state a r s t u c) = tc_identity c"
  by (simp_all add: reset_state_def drop_pending_tool_buffers_def Let_def)

lemma order_inv_reset_state:
  assumes "order_inv c" and "s = tc_sequence c" and "tc_last_event_sequence c < s"
    and "pl_last_sequence (tc_publication c) < s"
  shows "order_inv (reset_state a r s t u c)"
  using assms by (fastforce simp: order_inv_def)

lemma order_inv_reset: "order_inv c \<Longrightarrow> order_inv (snd (begin_generation_reset a c))"
  by (rule reset_keeps, assumption)
     (use order_inv_next [of c] in \<open>simp add: next_sequence_def\<close>,
      rule order_inv_reset_state, use order_inv_next [of c] in \<open>simp add: next_sequence_def\<close>,
      auto simp: order_inv_def)

lemma order_inv_release: "order_inv c \<Longrightarrow> order_inv (release_publication c)"
  by (simp add: release_publication_def order_inv_def)

lemma order_inv_control: "order_inv c \<Longrightarrow> order_inv (snd (begin_control_terminal r c))"
  unfolding begin_control_terminal_def
  by (intro order_guards, assumption)
     (simp add: next_sequence_def Let_def, intro impI order_inv_release,
      fastforce simp: order_inv_def drop_pending_tool_buffers_def)

lemma order_inv_pl_accept:
  assumes "order_inv c" and "e = gs_epoch (tc_generation c)" and "s = tc_last_event_sequence c"
  shows "order_inv (c\<lparr>tc_publication := snd (pl_accept e s t r f (tc_publication c))\<rparr>)"
  using assms by (fastforce simp: order_inv_def pl_accept_def)

lemma order_inv_publish:
  assumes "order_inv c"
  shows "order_inv (snd (publish_visible env t r e s f c))"
proof -
  define c' where "c' = (case s of None \<Rightarrow> snd (next_sequence c) | Some _ \<Rightarrow> c)"
  define q where "q = (case s of None \<Rightarrow> tc_sequence c + 1 | Some k \<Rightarrow> k)"
  have c': "order_inv c'"
    using assms by (simp add: c'_def order_inv_next split: option.split)
  have fst: "(case s of None \<Rightarrow> next_sequence c | Some k \<Rightarrow> (k, c)) = (q, c')"
    by (simp add: q_def c'_def next_sequence_def split: option.split)
  have "order_inv (snd (accept_event env k q True (PStr ''upstream'') c'))" for k
    using c' by (rule order_inv_event)
  moreover have
    "order_inv ((snd (accept_event env k q True (PStr ''upstream'') c'))\<lparr>tc_publication :=
       snd (pl_accept k q t r f (tc_publication
         (snd (accept_event env k q True (PStr ''upstream'') c'))))\<rparr>)"
    if "fst (accept_event env k q True (PStr ''upstream'') c')" for k
    by (rule order_inv_pl_accept [OF order_inv_event [OF c']])
       (use that in \<open>simp_all add: accept_event_def split: if_splits\<close>)
  ultimately show ?thesis
    using assms by (simp add: publish_visible_def fst Let_def split_beta)
qed

lemma order_inv_step: "order_inv c \<Longrightarrow> order_inv (turn_step a c)"
proof (cases a)
  case (OAppend x v)
  then show "order_inv c \<Longrightarrow> ?thesis"
    by (auto simp: buffer_append_def order_inv_def split: option.split prod.split)
next
  case (ODropBuffer i)
  then show "order_inv c \<Longrightarrow> ?thesis" by (simp add: drop_tool_buffer_def order_inv_def)
next
  case ORelease
  then show "order_inv c \<Longrightarrow> ?thesis" by (simp add: release_reserved_unpublished_def order_inv_def)
next
  case OClose
  then show "order_inv c \<Longrightarrow> ?thesis"
    by (simp add: close_context_def) (intro impI order_inv_release, simp add: order_inv_def)
qed (simp_all add: order_inv_calls [OF admit_provider_call_writes_calls]
    order_inv_calls [OF record_request_start_writes_calls]
    order_inv_calls [OF finish_provider_call_writes_calls]
    order_inv_notes [OF set_deadline_if_missing_writes_notes]
    order_inv_notes [OF record_proposer_logical_task_writes_notes]
    order_inv_notes [OF record_successful_drafts_writes_notes]
    order_inv_notes [OF record_ensemble_continuation_snapshot_writes_notes]
    order_inv_notes [OF record_usage_leg_writes_notes]
    order_inv_notes [OF begin_provider_attempt_writes_notes]
    order_inv_notes [OF commit_provider_attempt_writes_notes]
    order_inv_notes [OF reserve_cleanup_writes_notes]
    order_inv_notes [OF release_cleanup_writes_notes]
    order_inv_next order_inv_activate order_inv_failed order_inv_event order_inv_open
    order_inv_commit order_inv_drop_pending order_inv_reset order_inv_control order_inv_publish)

section \<open>Terminal flags\<close>

definition terminal_inv :: "turn_ctx \<Rightarrow> bool" where
  "terminal_inv c \<longleftrightarrow>
     tc_terminalized c = gs_terminal (tc_generation c)
   \<and> (tc_terminalized c \<longrightarrow> pl_terminal (tc_publication c))
   \<and> (tc_terminalized c \<longrightarrow> tc_suppress_selector_fallback c)"

lemmas terminal_guards = guarded_inv [where I = terminal_inv] try_res_inv [where I = terminal_inv]

lemma terminal_inv_calls: "without_calls d = without_calls c \<Longrightarrow> terminal_inv d = terminal_inv c"
  by (rule mask_inv [where m = without_calls]) (simp_all add: terminal_inv_def without_calls_def)

lemma terminal_inv_notes: "without_notes d = without_notes c \<Longrightarrow> terminal_inv d = terminal_inv c"
  by (rule mask_inv [where m = without_notes]) (simp_all add: terminal_inv_def without_notes_def)

lemma terminal_inv_tools: "without_tools d = without_tools c \<Longrightarrow> terminal_inv d = terminal_inv c"
  by (rule mask_inv [where m = without_tools]) (simp_all add: terminal_inv_def without_tools_def)

lemma terminal_inv_activate: "terminal_inv c \<Longrightarrow> terminal_inv (snd (activate_fixed env r s g c))"
  by (rule activate_keeps, assumption)
     (fastforce simp: terminal_inv_def activated_state_def recovered_state_def)+

lemma terminal_inv_failed:
  "terminal_inv c \<Longrightarrow> terminal_inv (snd (begin_failed_fixed_recovery env r s g c))"
  by (rule failed_keeps, assumption) (auto simp: terminal_inv_def failed_state_def)

lemma terminal_inv_event: "terminal_inv c \<Longrightarrow> terminal_inv (snd (accept_event env e s m p c))"
  by (simp add: accept_event_def terminal_inv_def)

lemma terminal_inv_reset: "terminal_inv c \<Longrightarrow> terminal_inv (snd (begin_generation_reset a c))"
  by (rule reset_keeps) (simp_all add: terminal_inv_def turn_terminal_def)

lemma terminal_inv_release: "terminal_inv c \<Longrightarrow> terminal_inv (release_publication c)"
  by (simp add: release_publication_def terminal_inv_def)

lemma terminal_inv_control: "terminal_inv c \<Longrightarrow> terminal_inv (snd (begin_control_terminal r c))"
  unfolding begin_control_terminal_def
  by (intro terminal_guards, assumption)
     (simp add: next_sequence_def Let_def, intro impI terminal_inv_release,
      simp add: terminal_inv_def)

lemma terminal_inv_publish:
  assumes "terminal_inv c"
  shows "terminal_inv (snd (publish_visible env t r e s f c))"
  using assms
  by (simp add: publish_visible_def next_sequence_def split_beta Let_def split: option.split)
     (simp add: accept_event_def terminal_inv_def pl_accept_def turn_terminal_def)

lemma terminal_inv_step: "terminal_inv c \<Longrightarrow> terminal_inv (turn_step a c)"
proof (cases a)
  case (OAppend x v)
  then show "terminal_inv c \<Longrightarrow> ?thesis"
    by (auto simp: buffer_append_def terminal_inv_def split: option.split prod.split)
next
  case (ODropBuffer i)
  then show "terminal_inv c \<Longrightarrow> ?thesis" by (simp add: drop_tool_buffer_def terminal_inv_def)
next
  case ORelease
  then show "terminal_inv c \<Longrightarrow> ?thesis"
    by (simp add: release_reserved_unpublished_def terminal_inv_def)
next
  case OClose
  then show "terminal_inv c \<Longrightarrow> ?thesis"
    by (simp add: close_context_def) (intro impI terminal_inv_release, simp add: terminal_inv_def)
qed (simp_all add: terminal_inv_calls [OF admit_provider_call_writes_calls]
    terminal_inv_calls [OF record_request_start_writes_calls]
    terminal_inv_calls [OF finish_provider_call_writes_calls]
    terminal_inv_notes [OF set_deadline_if_missing_writes_notes]
    terminal_inv_notes [OF record_proposer_logical_task_writes_notes]
    terminal_inv_notes [OF record_successful_drafts_writes_notes]
    terminal_inv_notes [OF record_ensemble_continuation_snapshot_writes_notes]
    terminal_inv_notes [OF record_usage_leg_writes_notes]
    terminal_inv_notes [OF begin_provider_attempt_writes_notes]
    terminal_inv_notes [OF commit_provider_attempt_writes_notes]
    terminal_inv_notes [OF reserve_cleanup_writes_notes]
    terminal_inv_notes [OF release_cleanup_writes_notes]
    terminal_inv_tools [OF next_sequence_writes_tools]
    terminal_inv_tools [OF open_tool_buffer_writes_tools]
    terminal_inv_tools [OF commit_tool_round_writes_tools]
    terminal_inv_tools [OF drop_pending_tool_buffers_writes_tools]
    terminal_inv_activate terminal_inv_failed terminal_inv_event
    terminal_inv_reset terminal_inv_control terminal_inv_publish)

section \<open>The role transaction\<close>

text \<open>The answer starts with the primary aggregator and is handed over to a fixed role at most
  once; the markers record which part of that transaction has happened.\<close>

definition role_inv :: "turn_ctx \<Rightarrow> bool" where
  "role_inv c \<longleftrightarrow>
     tc_fallback_activation_count c \<le> 1
   \<and> (tc_current_role c = PRIMARY_AGGREGATOR \<or> is_fixed (tc_current_role c))
   \<and> tc_fixed_started c = is_fixed (tc_current_role c)
   \<and> tc_fallback_started c = (tc_fallback_activation_count c = 1)
   \<and> (tc_fixed_started c \<longrightarrow> tc_fallback_started c)
   \<and> (tc_fallback_started c \<longrightarrow> tc_suppress_selector_fallback c)"

lemmas role_guards = guarded_inv [where I = role_inv] try_res_inv [where I = role_inv]

lemma role_inv_calls: "without_calls d = without_calls c \<Longrightarrow> role_inv d = role_inv c"
  by (rule mask_inv [where m = without_calls]) (simp_all add: role_inv_def without_calls_def)

lemma role_inv_notes: "without_notes d = without_notes c \<Longrightarrow> role_inv d = role_inv c"
  by (rule mask_inv [where m = without_notes]) (simp_all add: role_inv_def without_notes_def)

lemma role_inv_tools: "without_tools d = without_tools c \<Longrightarrow> role_inv d = role_inv c"
  by (rule mask_inv [where m = without_tools]) (simp_all add: role_inv_def without_tools_def)

lemma role_inv_activate: "role_inv c \<Longrightarrow> role_inv (snd (activate_fixed env r s g c))"
  by (rule activate_keeps, assumption)
     (fastforce simp: role_inv_def activated_state_def recovered_state_def)+

lemma role_inv_failed:
  "role_inv c \<Longrightarrow> role_inv (snd (begin_failed_fixed_recovery env r s g c))"
  by (rule failed_keeps, assumption) (auto simp: role_inv_def failed_state_def)

lemma role_inv_event: "role_inv c \<Longrightarrow> role_inv (snd (accept_event env e s m p c))"
  by (auto simp: accept_event_def role_inv_def)

lemma role_inv_reset: "role_inv c \<Longrightarrow> role_inv (snd (begin_generation_reset a c))"
  by (rule reset_keeps) (auto simp: role_inv_def)

lemma role_inv_release: "role_inv c \<Longrightarrow> role_inv (release_publication c)"
  by (auto simp: release_publication_def role_inv_def)

lemma role_inv_control: "role_inv c \<Longrightarrow> role_inv (snd (begin_control_terminal r c))"
  unfolding begin_control_terminal_def
  by (intro role_guards, assumption)
     (simp add: next_sequence_def Let_def drop_pending_tool_buffers_def,
      intro impI role_inv_release, auto simp: role_inv_def)

lemma role_inv_publish: "role_inv c \<Longrightarrow> role_inv (snd (publish_visible env t r e s f c))"
  by (simp add: publish_visible_def next_sequence_def split_beta Let_def split: option.split)
     (auto simp: accept_event_def role_inv_def)

lemma role_inv_step: "role_inv c \<Longrightarrow> role_inv (turn_step a c)"
proof (cases a)
  case (OAppend x v)
  then show "role_inv c \<Longrightarrow> ?thesis"
    by (auto simp: buffer_append_def role_inv_def split: option.split prod.split)
next
  case (ODropBuffer i)
  then show "role_inv c \<Longrightarrow> ?thesis" by (auto simp: drop_tool_buffer_def role_inv_def)
next
  case ORelease
  then show "role_inv c \<Longrightarrow> ?thesis"
    by (auto simp: release_reserved_unpublished_def role_inv_def)
next
  case OClose
  then show "role_inv c \<Longrightarrow> ?thesis"
    by (simp add: close_context_def) (intro impI role_inv_release, auto simp: role_inv_def)
qed (simp_all add: role_inv_calls [OF admit_provider_call_writes_calls]
    role_inv_calls [OF record_request_start_writes_calls]
    role_inv_calls [OF finish_provider_call_writes_calls]
    role_inv_notes [OF set_deadline_if_missing_writes_notes]
    role_inv_notes [OF record_proposer_logical_task_writes_notes]
    role_inv_notes [OF record_successful_drafts_writes_notes]
    role_inv_notes [OF record_ensemble_continuation_snapshot_writes_notes]
    role_inv_notes [OF record_usage_leg_writes_notes]
    role_inv_notes [OF begin_provider_attempt_writes_notes]
    role_inv_notes [OF commit_provider_attempt_writes_notes]
    role_inv_notes [OF reserve_cleanup_writes_notes]
    role_inv_notes [OF release_cleanup_writes_notes]
    role_inv_tools [OF next_sequence_writes_tools]
    role_inv_tools [OF open_tool_buffer_writes_tools]
    role_inv_tools [OF commit_tool_round_writes_tools]
    role_inv_tools [OF drop_pending_tool_buffers_writes_tools]
    role_inv_activate role_inv_failed role_inv_event
    role_inv_reset role_inv_control role_inv_publish)

end
