(* ===== verification/Turn_Reachable.thy ===== *)
theory Turn_Reachable
  imports Turn_Invariants
begin

text \<open>
  The two invariants that tie maps together, the tool buffers with their store and the leases with
  the attempt ledgers, and the states a turn can reach: every run of operations in which \<open>uuid4\<close>
  does not repeat an identifier.
\<close>

section \<open>Tool buffers\<close>

definition tools_inv :: "turn_ctx \<Rightarrow> bool" where
  "tools_inv c \<longleftrightarrow>
     dict_wf (tc_tools c) \<and> distinct (map snd (tc_tools c))
   \<and> dom (tc_heap c) = {..<tc_next_address c}
   \<and> (\<forall>(i, a) \<in> set (tc_tools c).
        \<exists>b. tc_heap c a = Some b \<and> tb_call_id b = i \<and> \<not> tb_closed b)"

lemmas tools_guards = guarded_inv [where I = tools_inv] try_res_inv [where I = tools_inv]

lemma tools_inv_calls: "without_calls d = without_calls c \<Longrightarrow> tools_inv d = tools_inv c"
  by (rule mask_inv [where m = without_calls]) (simp_all add: tools_inv_def without_calls_def)

lemma tools_inv_notes: "without_notes d = without_notes c \<Longrightarrow> tools_inv d = tools_inv c"
  by (rule mask_inv [where m = without_notes]) (simp_all add: tools_inv_def without_notes_def)

lemma tools_inv_roles: "without_roles d = without_roles c \<Longrightarrow> tools_inv d = tools_inv c"
  by (rule mask_inv [where m = without_roles]) (simp_all add: tools_inv_def without_roles_def)

lemma dom_close_at [simp]: "dom (close_at a h) = dom h"
  by (auto simp: close_at_def dom_def)

lemma dom_fold_close_at [simp]: "dom (fold close_at as h) = dom h"
  by (induction as arbitrary: h) simp_all

lemma close_at_other: "a \<noteq> x \<Longrightarrow> close_at a h x = h x"
  by (simp add: close_at_def)

lemma fold_close_at_other: "x \<notin> set as \<Longrightarrow> fold close_at as h x = h x"
  by (induction as arbitrary: h) (simp_all add: close_at_def)

lemma tools_inv_open: "tools_inv c \<Longrightarrow> tools_inv (snd (open_tool_buffer i c))"
proof -
  assume inv: "tools_inv c"
  have fresh: "a < tc_next_address c" if "(j, a) \<in> set (tc_tools c)" for j a
    using inv that unfolding tools_inv_def dom_def by fastforce
  have "tools_inv (c\<lparr>tc_tools := AList.update i (tc_next_address c) (tc_tools c),
      tc_heap := (tc_heap c)(tc_next_address c \<mapsto> \<lparr>tb_call_id = i, tb_events = [], tb_closed = False\<rparr>),
      tc_next_address := tc_next_address c + 1\<rparr>)"
    if none: "map_of (tc_tools c) i = None"
  proof -
    from none have i: "i \<notin> fst ` set (tc_tools c)" by (simp add: map_of_eq_None_iff)
    then have upd: "AList.update i (tc_next_address c) (tc_tools c)
        = tc_tools c @ [(i, tc_next_address c)]"
      by (rule dict_put_new)
    have wf: "dict_wf (tc_tools c)" and ds: "distinct (map snd (tc_tools c))"
      and dom: "dom (tc_heap c) = {..<tc_next_address c}"
      using inv by (simp_all add: tools_inv_def)
    have n: "tc_next_address c \<notin> snd ` set (tc_tools c)" using fresh by force
    have bufs: "\<exists>b. tc_heap c a = Some b \<and> tb_call_id b = j \<and> \<not> tb_closed b"
      if "(j, a) \<in> set (tc_tools c)" for j a
      using inv that unfolding tools_inv_def by fastforce
    have "dict_wf (tc_tools c @ [(i, tc_next_address c)])" using wf i by simp
    moreover have "distinct (map snd (tc_tools c @ [(i, tc_next_address c)]))" using ds n by simp
    moreover have "\<forall>(j, a) \<in> set (tc_tools c @ [(i, tc_next_address c)]).
        \<exists>b. ((tc_heap c)(tc_next_address c \<mapsto> \<lparr>tb_call_id = i, tb_events = [], tb_closed = False\<rparr>)) a
              = Some b \<and> tb_call_id b = j \<and> \<not> tb_closed b"
      using bufs fresh by (auto dest: less_imp_neq)
    ultimately show ?thesis
      unfolding tools_inv_def by (simp add: upd dom lessThan_Suc)
  qed
  then show ?thesis
    unfolding open_tool_buffer_def
    by (intro tools_guards) (auto simp: Let_def inv split: option.split)
qed

lemma delete_distinct_snd:
  "distinct (map snd d) \<Longrightarrow> distinct (map snd (AList.delete k d))"
  by (simp add: AList.delete_eq distinct_map_filter)

lemma set_delete: "set (AList.delete k d) = {p \<in> set d. fst p \<noteq> k}"
  by (auto simp: AList.delete_eq)

lemma tools_inv_commit: "tools_inv c \<Longrightarrow> tools_inv (snd (commit_tool_round i d c))"
proof -
  assume inv: "tools_inv c"
  have "tools_inv (c\<lparr>tc_tools := AList.delete i (tc_tools c), tc_heap := close_at a (tc_heap c)\<rparr>)"
    if "map_of (tc_tools c) i = Some a" for a
  proof -
    have "(i, a) \<in> set (tc_tools c)" using that by (rule map_of_SomeD)
    moreover have inj: "inj_on snd (set (tc_tools c))"
      using inv by (simp add: tools_inv_def distinct_map)
    ultimately have other: "a \<noteq> b" if "(j, b) \<in> set (tc_tools c)" "j \<noteq> i" for j b
      using inj_onD [OF inj, of "(i, a)" "(j, b)"] that by auto
    have bufs: "\<exists>x. tc_heap c b = Some x \<and> tb_call_id x = j \<and> \<not> tb_closed x"
      if "(j, b) \<in> set (tc_tools c)" for j b
      using inv that unfolding tools_inv_def by fastforce
    have "\<forall>(j, b) \<in> set (AList.delete i (tc_tools c)).
        \<exists>x. close_at a (tc_heap c) b = Some x \<and> tb_call_id x = j \<and> \<not> tb_closed x"
      using other bufs by (auto simp: set_delete close_at_other)
    then show ?thesis
      using inv unfolding tools_inv_def by (simp add: delete_distinct_snd)
  qed
  moreover have "tools_inv (d\<lparr>tc_sequence := n, tc_completed_tools := ts\<rparr>) = tools_inv d" for d n ts
    by (simp add: tools_inv_def)
  ultimately show ?thesis
    unfolding commit_tool_round_def
    by (intro tools_guards) (auto simp: Let_def next_sequence_def inv split: option.split)
qed

lemma tools_inv_drop: "tools_inv c \<Longrightarrow> tools_inv (snd (drop_pending_tool_buffers c))"
  by (auto simp: tools_inv_def drop_pending_tool_buffers_def)

lemma tools_inv_append: "tools_inv c \<Longrightarrow> tools_inv (turn_step (OAppend a v) c)"
  by (fastforce simp: tools_inv_def buffer_append_def tb_append_def split: option.split)

lemma tools_inv_reset: "tools_inv c \<Longrightarrow> tools_inv (snd (begin_generation_reset a c))"
  by (rule reset_keeps) (auto simp: tools_inv_def drop_pending_tool_buffers_def)

lemma tools_inv_control: "tools_inv c \<Longrightarrow> tools_inv (snd (begin_control_terminal r c))"
  unfolding begin_control_terminal_def
  by (intro tools_guards, assumption)
     (auto simp: next_sequence_def Let_def drop_pending_tool_buffers_def release_publication_def
       tools_inv_def)

lemma tools_inv_publish: "tools_inv c \<Longrightarrow> tools_inv (snd (publish_visible env t r e s f c))"
  by (simp add: publish_visible_def next_sequence_def split_beta Let_def split: option.split)
     (simp add: accept_event_def tools_inv_def)

lemma tools_inv_step: "tools_inv c \<Longrightarrow> tools_inv (turn_step a c)"
proof (cases a)
  case (ODropBuffer i)
  then show "tools_inv c \<Longrightarrow> ?thesis"
    by (auto simp: drop_tool_buffer_def tools_inv_def delete_distinct_snd set_delete)
next
  case (OEvent env e s m p)
  then show "tools_inv c \<Longrightarrow> ?thesis" by (simp add: accept_event_def tools_inv_def)
next
  case ORelease
  then show "tools_inv c \<Longrightarrow> ?thesis" by (simp add: release_reserved_unpublished_def tools_inv_def)
next
  case OClose
  then show "tools_inv c \<Longrightarrow> ?thesis"
    by (simp add: close_context_def release_publication_def tools_inv_def)
next
  case (OAppend x v)
  then show "tools_inv c \<Longrightarrow> ?thesis" by (simp only: tools_inv_append)
next
  case ONextSequence
  then show "tools_inv c \<Longrightarrow> ?thesis" by (simp add: next_sequence_def tools_inv_def)
qed (simp_all add: tools_inv_calls [OF admit_provider_call_writes_calls]
    tools_inv_calls [OF record_request_start_writes_calls]
    tools_inv_calls [OF finish_provider_call_writes_calls]
    tools_inv_notes [OF set_deadline_if_missing_writes_notes]
    tools_inv_notes [OF record_proposer_logical_task_writes_notes]
    tools_inv_notes [OF record_successful_drafts_writes_notes]
    tools_inv_notes [OF record_ensemble_continuation_snapshot_writes_notes]
    tools_inv_notes [OF record_usage_leg_writes_notes]
    tools_inv_notes [OF begin_provider_attempt_writes_notes]
    tools_inv_notes [OF commit_provider_attempt_writes_notes]
    tools_inv_notes [OF reserve_cleanup_writes_notes]
    tools_inv_notes [OF release_cleanup_writes_notes]
    tools_inv_roles [OF activate_fixed_writes_roles]
    tools_inv_roles [OF begin_failed_fixed_recovery_writes_roles]
    tools_inv_open tools_inv_commit tools_inv_drop tools_inv_reset tools_inv_control
    tools_inv_publish)

section \<open>Leases and attempt ledgers\<close>

text \<open>
  A logical call is a role and an index. Its ledger has as many outcomes as attempts, or one fewer
  while a lease on it is active: then that lease is the only one, and it is the last attempt's.
\<close>

definition lease_key :: "lease \<Rightarrow> role \<times> int" where
  "lease_key l = (ls_role l, ls_logical_call_index l)"

definition call_leases :: "role \<times> int \<Rightarrow> turn_ctx \<Rightarrow> string set" where
  "call_leases k c = {i. \<exists>l. tc_active_leases c i = Some l \<and> lease_key l = k}"

definition call_idle :: "role \<times> int \<Rightarrow> attempt_ledger \<Rightarrow> turn_ctx \<Rightarrow> bool" where
  "call_idle k led c \<longleftrightarrow>
     call_leases k c = {}
   \<and> length (al_outcomes led) = length (al_attempt_indices led)
   \<and> al_request_starts led \<le> length (al_outcomes led)"

definition call_busy :: "role \<times> int \<Rightarrow> attempt_ledger \<Rightarrow> turn_ctx \<Rightarrow> bool" where
  "call_busy k led c \<longleftrightarrow>
     (\<exists>i l. tc_active_leases c i = Some l \<and> call_leases k c = {i}
        \<and> length (al_attempt_indices led) = Suc (length (al_outcomes led))
        \<and> ls_attempt_index l = last (al_attempt_indices led)
        \<and> al_request_starts led
            \<le> length (al_outcomes led) + (if i \<in> tc_lease_started c then 1 else 0))"

definition ledger_ok :: "role \<times> int \<Rightarrow> attempt_ledger \<Rightarrow> turn_ctx \<Rightarrow> bool" where
  "ledger_ok k led c \<longleftrightarrow>
     (al_role led, al_logical_call_index led) = k
   \<and> al_attempt_indices led \<in> {[], [0], [0, 1]}
   \<and> al_request_starts led = length (al_request_start_evidence led)
   \<and> (call_idle k led c \<or> call_busy k led c)"

definition lease_inv :: "turn_ctx \<Rightarrow> bool" where
  "lease_inv c \<longleftrightarrow>
     (\<forall>i l. tc_active_leases c i = Some l \<longrightarrow>
        ls_lease_id l = i \<and> ls_adapter_request_budget l = 1 \<and> tc_lease_finished c i = None
        \<and> tc_attempt_ledgers c (lease_key l) \<noteq> None)
   \<and> tc_lease_started c \<subseteq> dom (tc_active_leases c) \<union> dom (tc_lease_finished c)
   \<and> (\<forall>k led. tc_attempt_ledgers c k = Some led \<longrightarrow> ledger_ok k led c)"

definition fresh_id :: "string \<Rightarrow> turn_ctx \<Rightarrow> bool" where
  "fresh_id u c \<longleftrightarrow> tc_active_leases c u = None \<and> tc_lease_finished c u = None"

lemmas lease_defs = lease_inv_def ledger_ok_def call_idle_def call_busy_def call_leases_def

lemma call_leases_step [simp]:
  "call_leases k (c\<lparr>tc_attempt_ledgers := m\<rparr>) = call_leases k c"
  "call_leases k (c\<lparr>tc_lease_started := s\<rparr>) = call_leases k c"
  "call_leases k (c\<lparr>tc_lease_finished := f\<rparr>) = call_leases k c"
  by (simp_all add: call_leases_def)

lemma lease_inv_notes: "without_notes d = without_notes c \<Longrightarrow> lease_inv d = lease_inv c"
  by (rule mask_inv [where m = without_notes]) (simp_all add: lease_defs without_notes_def)

lemma lease_inv_roles: "without_roles d = without_roles c \<Longrightarrow> lease_inv d = lease_inv c"
  by (rule mask_inv [where m = without_roles]) (simp_all add: lease_defs without_roles_def)

lemma lease_inv_tools: "without_tools d = without_tools c \<Longrightarrow> lease_inv d = lease_inv c"
  by (rule mask_inv [where m = without_tools]) (simp_all add: lease_defs without_tools_def)

lemma lease_inv_generation:
  "without_generation d = without_generation c \<Longrightarrow> lease_inv d = lease_inv c"
  by (rule mask_inv [where m = without_generation])
     (simp_all add: lease_defs without_generation_def)

lemma lease_inv_count [simp]: "lease_inv (count_admission r i c) = lease_inv c"
  by (simp add: count_admission_def lease_defs)

lemma lease_inv_active:
  assumes "lease_inv c" and "tc_active_leases c i = Some l"
  obtains led where "ls_lease_id l = i" and "tc_lease_finished c i = None"
    and "tc_attempt_ledgers c (lease_key l) = Some led"
    and "ledger_ok (lease_key l) led c" and "call_leases (lease_key l) c = {i}"
    and "length (al_attempt_indices led) = Suc (length (al_outcomes led))"
    and "ls_attempt_index l = last (al_attempt_indices led)"
    and "al_request_starts led
            \<le> length (al_outcomes led) + (if i \<in> tc_lease_started c then 1 else 0)"
proof -
  from assms obtain led where l: "ls_lease_id l = i" "tc_lease_finished c i = None"
      "tc_attempt_ledgers c (lease_key l) = Some led"
    unfolding lease_inv_def by blast
  with assms have ok: "ledger_ok (lease_key l) led c" unfolding lease_inv_def by blast
  have i: "i \<in> call_leases (lease_key l) c" using assms by (simp add: call_leases_def)
  then have "call_busy (lease_key l) led c" using ok by (auto simp: ledger_ok_def call_idle_def)
  then obtain j m where "tc_active_leases c j = Some m" "call_leases (lease_key l) c = {j}"
      "length (al_attempt_indices led) = Suc (length (al_outcomes led))"
      "ls_attempt_index m = last (al_attempt_indices led)"
      "al_request_starts led
          \<le> length (al_outcomes led) + (if j \<in> tc_lease_started c then 1 else 0)"
    unfolding call_busy_def by blast
  moreover from this i have "j = i" by auto
  ultimately show thesis using l ok assms(2) by (intro that [of led]) auto
qed

lemma ledger_ok_other:
  assumes "ledger_ok k led c" and "call_leases k d = call_leases k c"
    and "\<And>i. i \<in> call_leases k c \<Longrightarrow> tc_active_leases d i = tc_active_leases c i"
    and "tc_lease_started c \<subseteq> tc_lease_started d"
  shows "ledger_ok k led d"
proof (cases "call_idle k led c")
  case True
  then show ?thesis using assms(1, 2) by (simp add: ledger_ok_def call_idle_def)
next
  case False
  then have "call_busy k led c" using assms(1) by (simp add: ledger_ok_def)
  then obtain i l where il: "tc_active_leases c i = Some l" "call_leases k c = {i}"
      "length (al_attempt_indices led) = Suc (length (al_outcomes led))"
      "ls_attempt_index l = last (al_attempt_indices led)"
      "al_request_starts led
          \<le> length (al_outcomes led) + (if i \<in> tc_lease_started c then 1 else 0)"
    unfolding call_busy_def by blast
  have "al_request_starts led
      \<le> length (al_outcomes led) + (if i \<in> tc_lease_started d then 1 else 0)"
    using il(5) assms(4) by (auto split: if_splits)
  with il assms(2, 3) have "call_busy k led d" unfolding call_busy_def by auto
  then show ?thesis using assms(1) by (simp add: ledger_ok_def)
qed

lemma ledger_of_inv: "lease_inv c \<Longrightarrow> tc_attempt_ledgers c k = Some led \<Longrightarrow> ledger_ok k led c"
  unfolding lease_inv_def by blast

lemma lease_inv_finish: "lease_inv c \<Longrightarrow> lease_inv (snd (finish_provider_call l v c))"
proof -
  assume inv: "lease_inv c"
  define i where "i = ls_lease_id l"
  show ?thesis
  proof (cases "tc_active_leases c i")
    case None
    then show ?thesis using inv by (simp add: finish_provider_call_def i_def)
  next
    case (Some m)
    with inv obtain led where m: "ls_lease_id m = i" "tc_lease_finished c i = None"
        "tc_attempt_ledgers c (lease_key m) = Some led" "ledger_ok (lease_key m) led c"
        "call_leases (lease_key m) c = {i}"
        "length (al_attempt_indices led) = Suc (length (al_outcomes led))"
        "al_request_starts led
            \<le> length (al_outcomes led) + (if i \<in> tc_lease_started c then 1 else 0)"
      by (rule lease_inv_active)
    define led' where "led' = led\<lparr>al_outcomes := al_outcomes led @ [v]\<rparr>"
    define d where "d = c\<lparr>tc_active_leases := (tc_active_leases c)(i := None),
        tc_lease_finished := (tc_lease_finished c)(i \<mapsto> v),
        tc_attempt_ledgers := (tc_attempt_ledgers c)(lease_key m \<mapsto> led')\<rparr>"
    have d: "snd (finish_provider_call l v c) = d"
      using Some m by (simp add: finish_provider_call_def d_def led'_def i_def lease_key_def)
    have calls: "call_leases k d = call_leases k c - {i}" for k
      by (auto simp: call_leases_def d_def)
    have here: "ledger_ok (lease_key m) led' d"
      using m calls [of "lease_key m"]
      by (auto simp: ledger_ok_def call_idle_def led'_def split: if_splits)
    have "ledger_ok k x d" if "tc_attempt_ledgers c k = Some x" "k \<noteq> lease_key m" for k x
    proof (rule ledger_ok_other [OF ledger_of_inv [OF inv that(1)]])
      have "i \<notin> call_leases k c" using Some that(2) by (auto simp: call_leases_def)
      then show "call_leases k d = call_leases k c" by (simp add: calls)
      show "tc_active_leases d j = tc_active_leases c j" if "j \<in> call_leases k c" for j
        using that \<open>i \<notin> call_leases k c\<close> by (auto simp: d_def)
    qed (simp add: d_def)
    with here have "\<forall>k x. tc_attempt_ledgers d k = Some x \<longrightarrow> ledger_ok k x d"
      by (simp add: d_def)
    moreover have "\<forall>j x. tc_active_leases d j = Some x \<longrightarrow>
        ls_lease_id x = j \<and> ls_adapter_request_budget x = 1 \<and> tc_lease_finished d j = None
        \<and> tc_attempt_ledgers d (lease_key x) \<noteq> None"
      using inv unfolding lease_inv_def by (simp add: d_def)
    moreover have "tc_lease_started d \<subseteq> dom (tc_active_leases d) \<union> dom (tc_lease_finished d)"
      using inv unfolding lease_inv_def by (auto simp: d_def)
    ultimately show ?thesis unfolding d lease_inv_def by blast
  qed
qed

lemma lease_inv_start: "lease_inv c \<Longrightarrow> lease_inv (snd (record_request_start l e c))"
proof -
  assume inv: "lease_inv c"
  define i where "i = ls_lease_id l"
  have main: "lease_inv (c\<lparr>tc_lease_started := insert i (tc_lease_started c),
      tc_attempt_ledgers := (tc_attempt_ledgers c)(lease_key l \<mapsto>
        led\<lparr>al_request_starts := al_request_starts led + 1,
            al_request_start_evidence := al_request_start_evidence led @ [e]\<rparr>)\<rparr>)"
      (is "lease_inv ?d")
    if act: "tc_active_leases c i = Some l" and new: "i \<notin> tc_lease_started c"
      and led: "tc_attempt_ledgers c (lease_key l) = Some led" for led
  proof -
    obtain x where m: "tc_attempt_ledgers c (lease_key l) = Some x" "ledger_ok (lease_key l) x c"
        "call_leases (lease_key l) c = {i}"
        "length (al_attempt_indices x) = Suc (length (al_outcomes x))"
        "ls_attempt_index l = last (al_attempt_indices x)"
        "al_request_starts x
            \<le> length (al_outcomes x) + (if i \<in> tc_lease_started c then 1 else 0)"
      using inv act by (rule lease_inv_active) blast
    have calls: "call_leases k ?d = call_leases k c" for k
      by (simp add: call_leases_def)
    have "ledger_ok (lease_key l) (led\<lparr>al_request_starts := al_request_starts led + 1,
            al_request_start_evidence := al_request_start_evidence led @ [e]\<rparr>) ?d"
      using m new led act unfolding ledger_ok_def call_busy_def calls by simp
    moreover have "ledger_ok k y ?d" if "tc_attempt_ledgers c k = Some y" for k y
      by (rule ledger_ok_other [OF ledger_of_inv [OF inv that] calls]) auto
    ultimately have "\<forall>k y. tc_attempt_ledgers ?d k = Some y \<longrightarrow> ledger_ok k y ?d"
      by (simp del: fun_upd_apply add: fun_upd_def)
    moreover have "\<forall>j x. tc_active_leases ?d j = Some x \<longrightarrow>
        ls_lease_id x = j \<and> ls_adapter_request_budget x = 1 \<and> tc_lease_finished ?d j = None
        \<and> tc_attempt_ledgers ?d (lease_key x) \<noteq> None"
      using inv unfolding lease_inv_def by simp
    moreover have "tc_lease_started ?d \<subseteq> dom (tc_active_leases ?d) \<union> dom (tc_lease_finished ?d)"
      using inv act unfolding lease_inv_def by auto
    ultimately show ?thesis unfolding lease_inv_def by blast
  qed
  have count: "lease_inv (d\<lparr>tc_proposer_request_starts := n\<rparr>) = lease_inv d" for d n
    by (simp add: lease_defs)
  have keyed: "tc_attempt_ledgers c (lease_key l) \<noteq> None"
    if "tc_active_leases c i = Some l"
    using inv that unfolding lease_inv_def by blast
  show ?thesis
    unfolding record_request_start_def
    apply (intro guarded_inv [where I = lease_inv] try_res_inv [where I = lease_inv] inv)
    using main keyed
    by (auto simp: require_active_lease_def Let_def count i_def [symmetric] lease_key_def
        split: option.splits if_splits)
qed

lemma lease_inv_setdefault: "lease_inv c \<Longrightarrow> lease_inv (snd (setdefault_ledger r i c))"
proof (cases "tc_attempt_ledgers c (r, i)")
  case (Some led)
  then show "lease_inv c \<Longrightarrow> ?thesis" by (simp add: setdefault_ledger_def)
next
  case None
  assume inv: "lease_inv c"
  let ?d = "c\<lparr>tc_attempt_ledgers := (tc_attempt_ledgers c)((r, i) \<mapsto> new_ledger r i)\<rparr>"
  have "call_leases (r, i) c = {}"
    using inv None unfolding lease_inv_def call_leases_def by force
  then have "ledger_ok (r, i) (new_ledger r i) ?d"
    by (simp add: ledger_ok_def call_idle_def new_ledger_def)
  moreover have "ledger_ok k x ?d" if "tc_attempt_ledgers c k = Some x" for k x
    by (rule ledger_ok_other [OF ledger_of_inv [OF inv that]]) simp_all
  ultimately have "\<forall>k x. tc_attempt_ledgers ?d k = Some x \<longrightarrow> ledger_ok k x ?d"
    by (simp del: fun_upd_apply add: fun_upd_def)
  then have "lease_inv ?d" using inv unfolding lease_inv_def by simp
  then show ?thesis using None by (simp add: setdefault_ledger_def)
qed

lemma drop_tool_buffer_writes_tools: "without_tools (drop_tool_buffer i c) = without_tools c"
  by (simp add: drop_tool_buffer_def without_tools_def)

text \<open>The guards of an admission, read with the invariant: the call is idle, and the attempt is the
  next one.\<close>

lemma admitted_attempt:
  assumes ok: "ledger_ok (r, i) l c" and led: "tc_attempt_ledgers c (r, i) = Some l"
    and guards: "first_error (attempt_guards r i k l c) = None" and k: "k = 0 \<or> k = 1"
  shows "call_idle (r, i) l c" and "al_attempt_indices l @ [k] \<in> {[0], [0, 1]}"
proof -
  have new: "k \<notin> set (al_attempt_indices l)"
    and second: "k = 1 \<Longrightarrow> 0 \<in> set (al_attempt_indices l) \<and> 0 < length (al_outcomes l)"
    using guards [unfolded first_error_None attempt_guards_def] led
    by (simp_all add: attempt_finished_def)
  have "al_attempt_indices l = [] \<or> al_attempt_indices l = [0] \<or> al_attempt_indices l = [0, 1]"
    using ok by (simp add: ledger_ok_def)
  then have shape: "al_attempt_indices l = [] \<and> k = 0
      \<or> al_attempt_indices l = [0] \<and> k = 1 \<and> 0 < length (al_outcomes l)"
  proof (elim disjE)
    assume "al_attempt_indices l = []"
    moreover from this second have "k \<noteq> 1" by auto
    ultimately show ?thesis using k by simp
  next
    assume "al_attempt_indices l = [0]"
    moreover from this new k have "k = 1" by auto
    ultimately show ?thesis using second by simp
  next
    assume "al_attempt_indices l = [0, 1]"
    then show ?thesis using new k by auto
  qed
  then show "al_attempt_indices l @ [k] \<in> {[0], [0, 1]}"
    by (elim disjE conjE) (simp_all only: append.simps insert_iff simp_thms)
  have "length (al_attempt_indices l) \<noteq> Suc (length (al_outcomes l))"
    using shape by (elim disjE conjE) (simp_all only: list.size)
  then have "\<not> call_busy (r, i) l c" unfolding call_busy_def by blast
  then show "call_idle (r, i) l c" using ok by (simp add: ledger_ok_def)
qed

lemma lease_inv_admit_commit:
  assumes inv: "lease_inv c" and led: "tc_attempt_ledgers c (r, i) = Some l"
    and guards: "first_error (attempt_guards r i k l c) = None" and k: "k = 0 \<or> k = 1"
    and fresh: "fresh_id u c"
  shows "lease_inv (snd (admit_commit u r i k w l c))"
proof -
  define x where "x = \<lparr>ls_lease_id = u, ls_turn_id = ti_turn_id (tc_identity c), ls_role = r,
            ls_logical_call_index = i, ls_attempt_index = k, ls_owner = w,
            ls_adapter_request_budget = 1\<rparr>"
  define l' where "l' = l\<lparr>al_attempt_indices := al_attempt_indices l @ [k]\<rparr>"
  define d where "d = c\<lparr>tc_attempt_ledgers := (tc_attempt_ledgers c)((r, i) \<mapsto> l'),
      tc_active_leases := (tc_active_leases c)(u \<mapsto> x)\<rparr>"
  have d: "lease_inv (snd (admit_commit u r i k w l c)) = lease_inv d"
    by (simp add: admit_commit_def Let_def d_def x_def l'_def)
  have ok: "ledger_ok (r, i) l c" by (rule ledger_of_inv [OF inv led])
  note idle = admitted_attempt [OF ok led guards k]
  have u: "tc_active_leases c u = None" "tc_lease_finished c u = None"
    using fresh by (auto simp: fresh_id_def)
  have calls: "call_leases y d = (if y = (r, i) then insert u (call_leases y c) else call_leases y c)"
    for y
    using u by (auto simp: call_leases_def d_def x_def lease_key_def)
  have "call_leases (r, i) d = {u}" using idle(1) by (simp add: calls call_idle_def)
  moreover have "tc_active_leases d u = Some x" by (simp add: d_def)
  moreover have "ls_attempt_index x = k" by (simp add: x_def)
  ultimately have "call_busy (r, i) l' d"
    using idle(1) unfolding call_busy_def call_idle_def by (auto simp: l'_def)
  then have "ledger_ok (r, i) l' d"
    using ok idle(2) by (auto simp: ledger_ok_def l'_def)
  moreover have "ledger_ok y z d" if "tc_attempt_ledgers c y = Some z" "y \<noteq> (r, i)" for y z
  proof (rule ledger_ok_other [OF ledger_of_inv [OF inv that(1)]])
    show "call_leases y d = call_leases y c" using that(2) by (simp add: calls)
    show "tc_active_leases d j = tc_active_leases c j" if "j \<in> call_leases y c" for j
      using that u by (auto simp: d_def call_leases_def)
  qed (simp add: d_def)
  ultimately have "\<forall>y z. tc_attempt_ledgers d y = Some z \<longrightarrow> ledger_ok y z d"
    by (simp add: d_def)
  moreover have "\<forall>j y. tc_active_leases d j = Some y \<longrightarrow>
        ls_lease_id y = j \<and> ls_adapter_request_budget y = 1 \<and> tc_lease_finished d j = None
        \<and> tc_attempt_ledgers d (lease_key y) \<noteq> None"
    using inv u unfolding lease_inv_def by (simp add: d_def x_def lease_key_def)
  moreover have "tc_lease_started d \<subseteq> dom (tc_active_leases d) \<union> dom (tc_lease_finished d)"
    using inv unfolding lease_inv_def by (auto simp: d_def)
  ultimately show ?thesis unfolding d unfolding lease_inv_def by blast
qed

lemma setdefault_ledger_gives:
  "setdefault_ledger r i c = (l, d) \<Longrightarrow> tc_attempt_ledgers d (r, i) = Some l"
  "setdefault_ledger r i c = (l, d) \<Longrightarrow> tc_active_leases d = tc_active_leases c"
  "setdefault_ledger r i c = (l, d) \<Longrightarrow> tc_lease_finished d = tc_lease_finished c"
  by (auto simp: setdefault_ledger_def split: option.splits)

lemma lease_inv_admit:
  assumes inv: "lease_inv c" and fresh: "fresh_id u c"
  shows "lease_inv (snd (admit_provider_call env u role i k w c))"
proof -
  have "lease_inv (snd (let (l, c') = setdefault_ledger r i c in
      guarded (attempt_guards r i k l c') c' (admit_commit u r i k w l c')))"
    if k: "k = 0 \<or> k = 1" for r
  proof (cases "setdefault_ledger r i c")
    case (Pair l d)
    then have d: "lease_inv d" using lease_inv_setdefault [OF inv, of r i] by simp
    have "fresh_id u d" using fresh setdefault_ledger_gives [OF Pair] by (simp add: fresh_id_def)
    then have "lease_inv (snd (guarded (attempt_guards r i k l d) d (admit_commit u r i k w l d)))"
      by (intro guarded_inv [where I = lease_inv] d)
         (rule lease_inv_admit_commit [OF d setdefault_ledger_gives(1) [OF Pair] _ k])
    then show ?thesis by (simp add: Pair)
  qed
  then show ?thesis
    unfolding admit_provider_call_def
    by (intro try_res_inv [where I = lease_inv] guarded_inv [where I = lease_inv] inv)
       (auto simp: admit_arguments_def split: if_splits)
qed

section \<open>The states a turn reaches\<close>

definition fresh_op :: "turn_op \<Rightarrow> turn_ctx \<Rightarrow> bool" where
  "fresh_op a c = (case a of OAdmit env u r i k w \<Rightarrow> fresh_id u c | _ \<Rightarrow> True)"

lemma lease_inv_step: "lease_inv c \<Longrightarrow> fresh_op a c \<Longrightarrow> lease_inv (turn_step a c)"
proof (cases a)
  case (OAppend x v)
  then have "turn_step a c = c \<or> (\<exists>h. turn_step a c = c\<lparr>tc_heap := h\<rparr>)"
    by (auto simp: buffer_append_def split_beta split: option.split)
  moreover have "lease_inv (c\<lparr>tc_heap := h\<rparr>) = lease_inv c" for h by (simp add: lease_defs)
  ultimately show "lease_inv c \<Longrightarrow> ?thesis" by auto
next
  case (OAdmit env u r i k w)
  then show "lease_inv c \<Longrightarrow> fresh_op a c \<Longrightarrow> ?thesis"
    by (simp add: fresh_op_def lease_inv_admit)
next
  case (ODropBuffer i)
  then show "lease_inv c \<Longrightarrow> ?thesis"     by (simp add: lease_inv_tools [OF drop_tool_buffer_writes_tools])
qed (simp_all add: lease_inv_start lease_inv_finish
    lease_inv_notes [OF set_deadline_if_missing_writes_notes]
    lease_inv_notes [OF record_proposer_logical_task_writes_notes]
    lease_inv_notes [OF record_successful_drafts_writes_notes]
    lease_inv_notes [OF record_ensemble_continuation_snapshot_writes_notes]
    lease_inv_notes [OF record_usage_leg_writes_notes]
    lease_inv_notes [OF begin_provider_attempt_writes_notes]
    lease_inv_notes [OF commit_provider_attempt_writes_notes]
    lease_inv_notes [OF reserve_cleanup_writes_notes]
    lease_inv_notes [OF release_cleanup_writes_notes]
    lease_inv_roles [OF activate_fixed_writes_roles]
    lease_inv_roles [OF begin_failed_fixed_recovery_writes_roles]
    lease_inv_tools [OF next_sequence_writes_tools]
    lease_inv_tools [OF open_tool_buffer_writes_tools]
    lease_inv_tools [OF commit_tool_round_writes_tools]
    lease_inv_tools [OF drop_pending_tool_buffers_writes_tools]
    lease_inv_generation [OF accept_event_writes_generation]
    lease_inv_generation [OF begin_generation_reset_writes_generation]
    lease_inv_generation [OF begin_control_terminal_writes_generation]
    lease_inv_generation [OF publish_visible_writes_generation]
    lease_inv_generation [OF release_reserved_unpublished_writes_generation]
    lease_inv_generation [OF close_context_writes_generation])

end
