(* ===== verification/Turn_Runs.thy ===== *)
theory Turn_Runs
  imports Turn_Reachable
begin

text \<open>
  Runs of a turn context. The interpretations of the machine locales on \<open>turn_step\<close>, what holds in
  every reachable state, and what a state promises about every later one: finished leases stay
  finished, a terminal turn stays terminal, sequence numbers only grow, a role that was activated
  stays.
\<close>

interpretation turn: machine turn_step .

fun fresh_run :: "turn_op list \<Rightarrow> turn_ctx \<Rightarrow> bool" where
  "fresh_run [] c = True"
| "fresh_run (a # ops) c = (fresh_op a c \<and> fresh_run ops (turn_step a c))"

inductive turn_reachable :: "turn_ctx \<Rightarrow> bool" where
  turn_start: "turn_identity_post_init i = Inr i \<Longrightarrow> turn_reachable (new_context i k d s)"
| turn_next: "turn_reachable c \<Longrightarrow> fresh_op a c \<Longrightarrow> turn_reachable (turn_step a c)"

definition turn_inv :: "turn_ctx \<Rightarrow> bool" where
  "turn_inv c \<longleftrightarrow> order_inv c \<and> terminal_inv c \<and> role_inv c \<and> tools_inv c"

lemma new_context_inv: "turn_inv (new_context i k d s)"
  by (simp add: turn_inv_def new_context_def Let_def order_inv_def terminal_inv_def role_inv_def
      tools_inv_def is_fixed_def)

lemma new_context_lease_inv: "lease_inv (new_context i k d s)"
  by (simp add: new_context_def Let_def lease_inv_def)

lemma turn_inv_step: "turn_inv c \<Longrightarrow> turn_inv (turn_step a c)"
  by (simp add: turn_inv_def order_inv_step terminal_inv_step role_inv_step tools_inv_step)

interpretation turn_invs: invariant_machine turn_step
    "\<lambda>c. \<exists>i k d s. c = new_context i k d s" turn_inv
  by unfold_locales (auto intro: new_context_inv turn_inv_step)

lemma fresh_run_invariant:
  assumes "I c" and "fresh_run ops c"
    and "\<And>a c. I c \<Longrightarrow> fresh_op a c \<Longrightarrow> I (turn_step a c)"
  shows "I (turn.run ops c)"
  using assms(1,2) by (induction ops arbitrary: c) (auto intro: assms(3))

lemma reachable_run: "turn_reachable c \<Longrightarrow> fresh_run ops c \<Longrightarrow> turn_reachable (turn.run ops c)"
  by (rule fresh_run_invariant) (auto intro: turn_next)

lemma reachable_invs: "turn_reachable c \<Longrightarrow> turn_inv c \<and> lease_inv c"
  by (induction rule: turn_reachable.induct)
     (simp_all add: new_context_inv new_context_lease_inv turn_inv_step lease_inv_step)

lemma admit_keeps:
  assumes "I c"
    and "\<And>r l d. setdefault_ledger r n c = (l, d) \<Longrightarrow> I d"
    and "\<And>r l d. setdefault_ledger r n c = (l, d) \<Longrightarrow> \<not> turn_terminal c \<Longrightarrow> \<not> tc_closed c \<Longrightarrow>
      first_error (attempt_guards r n k l d) = None \<Longrightarrow> I (snd (admit_commit u r n k w l d))"
  shows "I (snd (admit_provider_call env u role n k w c))"
proof -
  have "I (snd (let (l, d) = setdefault_ledger r n c in
      guarded (attempt_guards r n k l d) d (admit_commit u r n k w l d)))"
    if "\<not> turn_terminal c" "\<not> tc_closed c" for r
  proof (cases "setdefault_ledger r n c")
    case (Pair l d)
    then have "I (snd (guarded (attempt_guards r n k l d) d (admit_commit u r n k w l d)))"
      by (intro guarded_inv [where I = I]) (use assms(2,3) that in auto)
    then show ?thesis by (simp add: Pair)
  qed
  then show ?thesis
    unfolding admit_provider_call_def
    by (intro try_res_inv [where I = I] guarded_inv [where I = I] assms(1))
       (auto simp: admit_arguments_def ensure_open_def ensure_admission_allowed_def
         admit_role_guards_def split: if_splits)
qed

section \<open>The group of an operation\<close>

datatype op_group = Calls | Notes | Roles | Tools | Generation

fun group_of :: "turn_op \<Rightarrow> op_group" where
  "group_of (OAdmit _ _ _ _ _ _) = Calls"
| "group_of (OStart _ _) = Calls"
| "group_of (OFinish _ _) = Calls"
| "group_of (OActivate _ _ _ _) = Roles"
| "group_of (OFailedFixed _ _ _ _) = Roles"
| "group_of ONextSequence = Tools"
| "group_of (OOpenBuffer _) = Tools"
| "group_of (OAppend _ _) = Tools"
| "group_of (OCommitTool _ _) = Tools"
| "group_of (ODropBuffer _) = Tools"
| "group_of ODropAll = Tools"
| "group_of (OEvent _ _ _ _ _) = Generation"
| "group_of (OReset _) = Generation"
| "group_of (OControlTerminal _) = Generation"
| "group_of (OPublish _ _ _ _ _ _) = Generation"
| "group_of ORelease = Generation"
| "group_of OClose = Generation"
| "group_of _ = Notes"

lemma buffer_append_writes_tools: "without_tools (turn_step (OAppend x v) c) = without_tools c"
  by (auto simp: buffer_append_def split_beta without_tools_def split: option.split)

lemmas step_writes =
  admit_provider_call_writes_calls record_request_start_writes_calls
  finish_provider_call_writes_calls set_deadline_if_missing_writes_notes
  record_proposer_logical_task_writes_notes record_successful_drafts_writes_notes
  record_ensemble_continuation_snapshot_writes_notes record_usage_leg_writes_notes
  begin_provider_attempt_writes_notes commit_provider_attempt_writes_notes
  reserve_cleanup_writes_notes release_cleanup_writes_notes activate_fixed_writes_roles
  begin_failed_fixed_recovery_writes_roles next_sequence_writes_tools
  open_tool_buffer_writes_tools commit_tool_round_writes_tools drop_tool_buffer_writes_tools
  drop_pending_tool_buffers_writes_tools accept_event_writes_generation
  begin_generation_reset_writes_generation begin_control_terminal_writes_generation
  publish_visible_writes_generation release_reserved_unpublished_writes_generation
  close_context_writes_generation

lemma op_group_writes:
  "group_of a = Calls \<Longrightarrow> without_calls (turn_step a c) = without_calls c"
  "group_of a = Notes \<Longrightarrow> without_notes (turn_step a c) = without_notes c"
  "group_of a = Roles \<Longrightarrow> without_roles (turn_step a c) = without_roles c"
  "group_of a = Tools \<Longrightarrow> without_tools (turn_step a c) = without_tools c"
  "group_of a = Generation \<Longrightarrow> without_generation (turn_step a c) = without_generation c"
proof -
  show "group_of a = Tools \<Longrightarrow> without_tools (turn_step a c) = without_tools c"
    by (cases a) (simp_all add: step_writes buffer_append_writes_tools del: turn_step.simps(14))
qed (cases a; simp add: step_writes; fail)+

section \<open>A finished lease\<close>

definition lease_over :: "string \<Rightarrow> turn_ctx \<Rightarrow> bool" where
  "lease_over i c \<longleftrightarrow> tc_active_leases c i = None \<and> tc_lease_finished c i \<noteq> None"

lemma lease_over_mask:
  "without_notes d = without_notes c \<Longrightarrow> lease_over i d = lease_over i c"
  "without_roles d = without_roles c \<Longrightarrow> lease_over i d = lease_over i c"
  "without_tools d = without_tools c \<Longrightarrow> lease_over i d = lease_over i c"
  "without_generation d = without_generation c \<Longrightarrow> lease_over i d = lease_over i c"
  by (rule mask_inv, assumption, simp add: lease_over_def without_notes_def without_roles_def
      without_tools_def without_generation_def)+

lemma lease_over_admit:
  "lease_over i c \<Longrightarrow> u \<noteq> i \<Longrightarrow> lease_over i (snd (admit_provider_call env u role n k w c))"
  by (rule admit_keeps)
     (auto simp: setdefault_ledger_def admit_commit_def count_admission_def Let_def lease_over_def
       split: option.splits)

lemma lease_over_start:
  "lease_over i c \<Longrightarrow> lease_over i (snd (record_request_start l e c))"
  unfolding record_request_start_def
  by (intro try_res_inv [where I = "lease_over i"] guarded_inv [where I = "lease_over i"])
     (auto simp: Let_def lease_over_def split: option.split)

lemma lease_over_finish:
  "lease_over i c \<Longrightarrow> lease_over i (snd (finish_provider_call l v c))"
  by (auto simp: finish_provider_call_def Let_def lease_over_def split: option.split)

lemma lease_over_step: "lease_over i c \<Longrightarrow> fresh_op a c \<Longrightarrow> lease_over i (turn_step a c)"
proof (cases "group_of a")
  case Calls
  then show "lease_over i c \<Longrightarrow> fresh_op a c \<Longrightarrow> ?thesis"
  proof (cases a)
    case (OAdmit env u r n k w)
    then show "lease_over i c \<Longrightarrow> fresh_op a c \<Longrightarrow> ?thesis"
      using lease_over_admit [of i c u env r n k w]
      by (cases "u = i") (auto simp: fresh_op_def fresh_id_def lease_over_def)
  qed (simp_all add: lease_over_start lease_over_finish)
qed (simp_all add: lease_over_mask(1) [OF op_group_writes(2)]
      lease_over_mask(2) [OF op_group_writes(3)] lease_over_mask(3) [OF op_group_writes(4)]
      lease_over_mask(4) [OF op_group_writes(5)])

section \<open>A terminal turn\<close>

text \<open>What a terminal turn has announced: its generation, the last event, the published text. No
  operation changes any of it, and none admits a call.\<close>

definition terminal_view ::
  "turn_ctx \<Rightarrow> bool \<times> generation_state \<times> int \<times> string \<times> string \<times> (int \<times> int) set \<times> bool" where
  "terminal_view c = (tc_terminalized c, tc_generation c, tc_last_event_sequence c,
     pl_text_snapshot (tc_publication c), pl_reasoning_snapshot (tc_publication c),
     pl_seen_sequences (tc_publication c), pl_visible_output (tc_publication c))"

lemma terminal_view_mask:
  "without_calls d = without_calls c \<Longrightarrow> terminal_view d = terminal_view c"
  "without_notes d = without_notes c \<Longrightarrow> terminal_view d = terminal_view c"
  "without_roles d = without_roles c \<Longrightarrow> terminal_view d = terminal_view c"
  "without_tools d = without_tools c \<Longrightarrow> terminal_view d = terminal_view c"
  by (rule mask_inv, assumption, simp add: terminal_view_def without_calls_def without_notes_def
      without_roles_def without_tools_def)+

lemma terminal_view_step: "turn_terminal c \<Longrightarrow> terminal_view (turn_step a c) = terminal_view c"
proof (cases "group_of a")
  case Generation
  then show "turn_terminal c \<Longrightarrow> ?thesis"
    by (cases a)
       (auto simp: accept_event_def begin_generation_reset_def begin_control_terminal_def
         publish_visible_def release_reserved_unpublished_def close_context_def guarded_def
         next_sequence_def release_publication_def terminal_view_def turn_terminal_def Let_def
         split: option.split)
qed (simp_all add: terminal_view_mask(1) [OF op_group_writes(1)]
      terminal_view_mask(2) [OF op_group_writes(2)] terminal_view_mask(3) [OF op_group_writes(3)]
      terminal_view_mask(4) [OF op_group_writes(4)])

lemma terminal_view_terminal: "terminal_view d = terminal_view c \<Longrightarrow> turn_terminal d = turn_terminal c"
  by (simp add: terminal_view_def turn_terminal_def)

lemma active_mask:
  "without_notes d = without_notes c \<Longrightarrow> tc_active_leases d = tc_active_leases c"
  "without_roles d = without_roles c \<Longrightarrow> tc_active_leases d = tc_active_leases c"
  "without_tools d = without_tools c \<Longrightarrow> tc_active_leases d = tc_active_leases c"
  "without_generation d = without_generation c \<Longrightarrow> tc_active_leases d = tc_active_leases c"
  by (rule mask_inv, assumption, simp add: without_notes_def without_roles_def
      without_tools_def without_generation_def)+

lemma terminal_no_admission:
  assumes "turn_terminal c"
  shows "\<exists>e. admit_provider_call env u role n k w c = (Inl e, c)"
proof (cases "role_of role")
  case (Inr r)
  have "first_error (admit_arguments n k w @ ensure_open c @ ensure_admission_allowed env c
      @ admit_role_guards r c) \<noteq> None"
    using assms by (simp add: admit_arguments_def ensure_open_def ensure_admission_allowed_def
        admit_role_guards_def)
  then show ?thesis by (auto simp: admit_provider_call_def try_res_def guarded_def Inr)
qed (simp add: admit_provider_call_def try_res_def)

lemma terminal_active_step:
  "turn_terminal c \<Longrightarrow> tc_active_leases (turn_step a c) \<subseteq>\<^sub>m tc_active_leases c"
proof (cases "group_of a")
  case Calls
  then show "turn_terminal c \<Longrightarrow> ?thesis"
  proof (cases a)
    case (OAdmit env u r n k w)
    then show "turn_terminal c \<Longrightarrow> ?thesis"
      using terminal_no_admission [of c env u r n k w] by auto
  next
    case (OFinish l v)
    then show ?thesis
      by (auto simp: finish_provider_call_def Let_def map_le_def split: option.split)
  next
    case (OStart l e)
    then show ?thesis
      by (auto simp: record_request_start_def guarded_def try_res_def Let_def
          split: option.split sum.split)
  qed simp_all
qed (simp_all add: active_mask(1) [OF op_group_writes(2)] active_mask(2) [OF op_group_writes(3)]
      active_mask(3) [OF op_group_writes(4)] active_mask(4) [OF op_group_writes(5)])

definition terminal_since :: "turn_ctx \<Rightarrow> turn_ctx \<Rightarrow> bool" where
  "terminal_since c d \<longleftrightarrow> turn_terminal d \<and> terminal_view d = terminal_view c
     \<and> tc_active_leases d \<subseteq>\<^sub>m tc_active_leases c"

interpretation turn_end: one_way turn_step "terminal_since c" for c
proof unfold_locales
  fix d a
  assume since: "terminal_since c d"
  then have ended: "turn_terminal d" by (simp add: terminal_since_def)
  note view = terminal_view_step [OF ended, of a]
  have "turn_terminal (turn_step a d)" using terminal_view_terminal [OF view] ended by simp
  moreover have "terminal_view (turn_step a d) = terminal_view c"
    using view since by (simp add: terminal_since_def)
  moreover have "tc_active_leases (turn_step a d) \<subseteq>\<^sub>m tc_active_leases c"
    using terminal_active_step [OF ended] since by (auto simp: terminal_since_def intro: map_le_trans)
  ultimately show "terminal_since c (turn_step a d)" by (simp add: terminal_since_def)
qed

section \<open>Counters\<close>

lemma generation_mask:
  "without_calls d = without_calls c \<Longrightarrow> tc_generation d = tc_generation c"
  "without_notes d = without_notes c \<Longrightarrow> tc_generation d = tc_generation c"
  "without_roles d = without_roles c \<Longrightarrow> tc_generation d = tc_generation c"
  "without_tools d = without_tools c \<Longrightarrow> tc_generation d = tc_generation c"
  by (rule mask_inv, assumption, simp add: without_calls_def without_notes_def without_roles_def
      without_tools_def)+

lemma epoch_step: "gs_epoch (tc_generation c) \<le> gs_epoch (tc_generation (turn_step a c))"
proof (cases "group_of a")
  case Generation
  then show ?thesis
  proof (cases a)
    case (OReset r)
    have "gs_epoch (tc_generation c) \<le> gs_epoch (tc_generation (snd (begin_generation_reset r c)))"
      by (rule reset_keeps [where I = "\<lambda>d. gs_epoch (tc_generation c) \<le> gs_epoch (tc_generation d)"])
         (simp_all add: reset_state_def drop_pending_tool_buffers_def Let_def)
    then show ?thesis by (simp add: OReset)
  next
    case (OControlTerminal r)
    then show ?thesis
      by (simp add: begin_control_terminal_def guarded_def next_sequence_def release_publication_def
          drop_pending_tool_buffers_def split: option.split)
  qed (simp_all add: accept_event_def publish_visible_def next_sequence_def split_beta Let_def
      release_reserved_unpublished_def close_context_def release_publication_def
      split: option.split)
qed (simp_all add: generation_mask(1) [OF op_group_writes(1)]
      generation_mask(2) [OF op_group_writes(2)] generation_mask(3) [OF op_group_writes(3)]
      generation_mask(4) [OF op_group_writes(4)])

interpretation turn_epoch: counting turn_step "\<lambda>c. gs_epoch (tc_generation c)"
  by unfold_locales (rule epoch_step)

text \<open>The last accepted event, which a reset moves up to a fresh sequence number.\<close>

lemma last_event_mask:
  "without_calls d = without_calls c \<Longrightarrow> tc_last_event_sequence d = tc_last_event_sequence c"
  "without_notes d = without_notes c \<Longrightarrow> tc_last_event_sequence d = tc_last_event_sequence c"
  "without_roles d = without_roles c \<Longrightarrow> tc_last_event_sequence d = tc_last_event_sequence c"
  "without_tools d = without_tools c \<Longrightarrow> tc_last_event_sequence d = tc_last_event_sequence c"
  by (rule mask_inv, assumption, simp add: without_calls_def without_notes_def without_roles_def
      without_tools_def)+

lemma last_event_step:
  assumes "order_inv c"
  shows "tc_last_event_sequence c \<le> tc_last_event_sequence (turn_step a c)"
proof (cases "group_of a")
  case Generation
  have le: "tc_last_event_sequence c \<le> tc_sequence c" using assms by (simp add: order_inv_def)
  show ?thesis using Generation
  proof (cases a)
    case (OReset r)
    have "tc_last_event_sequence c \<le> tc_last_event_sequence (snd (begin_generation_reset r c))"
      by (rule reset_keeps [where I = "\<lambda>d. tc_last_event_sequence c \<le> tc_last_event_sequence d"])
         (use le in \<open>simp_all add: reset_state_def drop_pending_tool_buffers_def Let_def\<close>)
    then show ?thesis by (simp add: OReset)
  next
    case (OControlTerminal r)
    then show ?thesis using le
      by (simp add: begin_control_terminal_def guarded_def next_sequence_def release_publication_def
          drop_pending_tool_buffers_def split: option.split)
  qed (simp_all add: accept_event_def publish_visible_def next_sequence_def split_beta Let_def
      release_reserved_unpublished_def close_context_def release_publication_def
      split: option.split)
qed (simp_all add: last_event_mask(1) [OF op_group_writes(1)]
      last_event_mask(2) [OF op_group_writes(2)] last_event_mask(3) [OF op_group_writes(3)]
      last_event_mask(4) [OF op_group_writes(4)])

definition event_seen :: "int \<Rightarrow> turn_ctx \<Rightarrow> bool" where
  "event_seen s c \<longleftrightarrow> order_inv c \<and> s \<le> tc_last_event_sequence c"

interpretation turn_events: one_way turn_step "event_seen s" for s
  by unfold_locales
     (auto simp: event_seen_def order_inv_step intro: order_trans [OF _ last_event_step])

section \<open>The activated role\<close>

definition role_fixed :: "role \<Rightarrow> turn_ctx \<Rightarrow> bool" where
  "role_fixed r c \<longleftrightarrow> is_fixed r \<and> tc_current_role c = r \<and> tc_fallback_activation_count c = 1"

lemma role_fixed_mask:
  "without_calls d = without_calls c \<Longrightarrow> role_fixed r d = role_fixed r c"
  "without_notes d = without_notes c \<Longrightarrow> role_fixed r d = role_fixed r c"
  "without_tools d = without_tools c \<Longrightarrow> role_fixed r d = role_fixed r c"
  "without_generation d = without_generation c \<Longrightarrow> role_fixed r d = role_fixed r c"
  by (rule mask_inv, assumption, simp add: role_fixed_def without_calls_def without_notes_def
      without_generation_def without_tools_def)+

lemma role_fixed_step: "role_fixed r c \<Longrightarrow> role_fixed r (turn_step a c)"
proof (cases "group_of a")
  case Roles
  assume fixed: "role_fixed r c"
  have "role_fixed r (snd (activate_fixed env x s g c))" for env x s g
    by (rule activate_keeps [where I = "role_fixed r", OF fixed]) (use fixed in \<open>simp_all add: role_fixed_def\<close>)
  moreover have "role_fixed r (snd (begin_failed_fixed_recovery env x s g c))" for env x s g
    by (rule failed_keeps [where I = "role_fixed r", OF fixed]) (use fixed in \<open>simp_all add: role_fixed_def\<close>)
  ultimately show ?thesis using Roles by (cases a) simp_all
qed (simp_all add: role_fixed_mask(1) [OF op_group_writes(1)]
      role_fixed_mask(2) [OF op_group_writes(2)] role_fixed_mask(3) [OF op_group_writes(4)]
      role_fixed_mask(4) [OF op_group_writes(5)])

interpretation turn_role: one_way turn_step "role_fixed r" for r
  by unfold_locales (rule role_fixed_step)

section \<open>A pending tool buffer\<close>

text \<open>The operations that may take the buffer of a call id away, and the events that a run appends
  at an address, in order.\<close>

fun ends_buffer :: "string \<Rightarrow> turn_op \<Rightarrow> bool" where
  "ends_buffer i (OCommitTool j _) = (j = i)"
| "ends_buffer i (ODropBuffer j) = (j = i)"
| "ends_buffer i ODropAll = True"
| "ends_buffer i (OReset _) = True"
| "ends_buffer i (OControlTerminal _) = True"
| "ends_buffer i _ = False"

fun appended :: "nat \<Rightarrow> turn_op list \<Rightarrow> pyval list" where
  "appended a [] = []"
| "appended a (OAppend b v # ops) = (if b = a then v # appended a ops else appended a ops)"
| "appended a (_ # ops) = appended a ops"

definition pending :: "string \<Rightarrow> nat \<Rightarrow> pyval list \<Rightarrow> turn_ctx \<Rightarrow> bool" where
  "pending i a vs c \<longleftrightarrow> tools_inv c \<and> map_of (tc_tools c) i = Some a \<and> events_at a c = vs"

lemma tools_mask:
  "without_calls d = without_calls c \<Longrightarrow> (tc_tools d, tc_heap d) = (tc_tools c, tc_heap c)"
  "without_notes d = without_notes c \<Longrightarrow> (tc_tools d, tc_heap d) = (tc_tools c, tc_heap c)"
  "without_roles d = without_roles c \<Longrightarrow> (tc_tools d, tc_heap d) = (tc_tools c, tc_heap c)"
  by (rule mask_inv, assumption, simp add: without_calls_def without_notes_def without_roles_def)+

lemma pending_same:
  "pending i a vs c \<Longrightarrow> tools_inv d \<Longrightarrow> (tc_tools d, tc_heap d) = (tc_tools c, tc_heap c) \<Longrightarrow>
     pending i a vs d"
  by (simp add: pending_def events_at_def)

lemma pending_buffer:
  assumes "pending i a vs c"
  obtains b where "tc_heap c a = Some b" and "tb_call_id b = i" and "\<not> tb_closed b"
    and "tb_events b = vs" and "a < tc_next_address c"
proof -
  have ia: "(i, a) \<in> set (tc_tools c)" using assms by (auto simp: pending_def intro: map_of_SomeD)
  then obtain b where b: "tc_heap c a = Some b" "tb_call_id b = i" "\<not> tb_closed b"
    using assms unfolding pending_def tools_inv_def by fastforce
  moreover have "a \<in> {..<tc_next_address c}"
    using assms b(1) unfolding pending_def tools_inv_def by blast
  ultimately show thesis using assms by (intro that [of b]) (simp_all add: pending_def events_at_def)
qed

lemma pending_append:
  assumes "pending i a vs c"
  shows "pending i a (if x = a then vs @ [v] else vs) (turn_step (OAppend x v) c)"
proof -
  obtain b where "tc_heap c a = Some b" "\<not> tb_closed b" "tb_events b = vs"
    using assms by (rule pending_buffer)
  moreover have "tools_inv (turn_step (OAppend x v) c)"
    using assms tools_inv_append by (simp add: pending_def)
  moreover have "map_of (tc_tools (turn_step (OAppend x v) c)) i = Some a"
    using assms by (auto simp: pending_def buffer_append_def split_beta split: option.split)
  ultimately show ?thesis
    unfolding pending_def
    by (auto simp: buffer_append_def tb_append_def events_at_def split: option.split)
qed

lemma pending_open:
  assumes "pending i a vs c"
  shows "pending i a vs (turn_step (OOpenBuffer j) c)"
proof -
  obtain b where "tc_heap c a = Some b" "tb_events b = vs" "a < tc_next_address c"
    using assms by (rule pending_buffer)
  moreover have "tools_inv (turn_step (OOpenBuffer j) c)"
    using assms tools_inv_open by (simp add: pending_def)
  ultimately show ?thesis
    using assms unfolding pending_def turn_step.simps open_tool_buffer_def
    by (auto simp: guarded_def Let_def events_at_def split: option.split)
qed

lemma pending_commit_other:
  assumes p: "pending i a vs c" and ji: "j \<noteq> i"
  shows "pending i a vs (turn_step (OCommitTool j d) c)"
proof -
  have inj: "inj_on snd (set (tc_tools c))"
    using p by (simp add: pending_def tools_inv_def distinct_map)
  have ia: "(i, a) \<in> set (tc_tools c)" using p by (auto simp: pending_def intro: map_of_SomeD)
  have "x \<noteq> a" if "map_of (tc_tools c) j = Some x" for x
    using inj_onD [OF inj _ map_of_SomeD [OF that] ia] ji by auto
  moreover have "tools_inv (turn_step (OCommitTool j d) c)"
    using p tools_inv_commit by (simp add: pending_def)
  ultimately show ?thesis
    using p ji unfolding pending_def turn_step.simps commit_tool_round_def
    by (auto simp: guarded_def Let_def next_sequence_def events_at_def close_at_def
        split: option.split)
qed

lemma pending_step:
  assumes p: "pending i a vs c" and e: "\<not> ends_buffer i op"
  shows "pending i a (vs @ appended a [op]) (turn_step op c)"
proof -
  have inv: "tools_inv (turn_step op c)" using p tools_inv_step by (simp add: pending_def)
  have none: "appended a [op] = []" if "group_of op \<noteq> Tools" using that by (cases op) simp_all
  show ?thesis
  proof (cases "group_of op")
    case Tools
    then show ?thesis
      using p e pending_append [OF p] pending_open [OF p] pending_commit_other [OF p] inv
      by (cases op) (auto simp: pending_def events_at_def next_sequence_def drop_tool_buffer_def)
  next
    case Generation
    then have "(tc_tools (turn_step op c), tc_heap (turn_step op c)) = (tc_tools c, tc_heap c)"
      using e by (cases op) (simp_all add: accept_event_def publish_visible_def next_sequence_def
          split_beta Let_def release_reserved_unpublished_def close_context_def
          release_publication_def split: option.split)
    then show ?thesis using pending_same [OF p inv] none Generation by simp
  next
    case Calls
    then show ?thesis using pending_same [OF p inv tools_mask(1) [OF op_group_writes(1)]] none by simp
  next
    case Notes
    then show ?thesis using pending_same [OF p inv tools_mask(2) [OF op_group_writes(2)]] none by simp
  next
    case Roles
    then show ?thesis using pending_same [OF p inv tools_mask(3) [OF op_group_writes(3)]] none by simp
  qed
qed

lemma appended_Cons: "appended a (op # ops) = appended a [op] @ appended a ops"
  by (cases op) simp_all

lemma pending_run:
  "pending i a vs c \<Longrightarrow> list_all (\<lambda>op. \<not> ends_buffer i op) ops \<Longrightarrow>
     pending i a (vs @ appended a ops) (turn.run ops c)"
proof (induction ops arbitrary: vs c)
  case (Cons op ops)
  then have "pending i a ((vs @ appended a [op]) @ appended a ops) (turn.run ops (turn_step op c))"
    by (intro Cons.IH pending_step) simp_all
  then show ?case by (simp add: appended_Cons [of a op ops])
qed simp

section \<open>The attempt checkpoint\<close>

fun moves_checkpoint :: "turn_op \<Rightarrow> bool" where
  "moves_checkpoint (OBeginAttempt _ _ _) = True"
| "moves_checkpoint (OCommitAttempt _) = True"
| "moves_checkpoint (OReset _) = True"
| "moves_checkpoint _ = False"

lemma checkpoint_mask:
  "without_calls d = without_calls c \<Longrightarrow> tc_checkpoint d = tc_checkpoint c"
  "without_roles d = without_roles c \<Longrightarrow> tc_checkpoint d = tc_checkpoint c"
  "without_tools d = without_tools c \<Longrightarrow> tc_checkpoint d = tc_checkpoint c"
  by (rule mask_inv, assumption, simp add: without_calls_def without_tools_def without_roles_def)+

lemma checkpoint_step: "\<not> moves_checkpoint a \<Longrightarrow> tc_checkpoint (turn_step a c) = tc_checkpoint c"
proof (cases "group_of a")
  case Generation
  assume "\<not> moves_checkpoint a"
  with Generation show ?thesis
    by (cases a) (simp_all add: accept_event_def publish_visible_def next_sequence_def
          split_beta Let_def release_reserved_unpublished_def close_context_def
          begin_control_terminal_def guarded_def drop_pending_tool_buffers_def
          release_publication_def split: option.split)
next
  case Notes
  assume "\<not> moves_checkpoint a"
  with Notes show ?thesis
    by (cases a) (simp_all add: set_deadline_if_missing_def record_proposer_logical_task_def
          record_successful_drafts_def record_ensemble_continuation_snapshot_def
          record_usage_leg_def reserve_cleanup_def release_cleanup_def guarded_def try_res_def
          Let_def split: option.split sum.split pyval.split)
qed (simp_all add: checkpoint_mask(1) [OF op_group_writes(1)]
      checkpoint_mask(2) [OF op_group_writes(3)] checkpoint_mask(3) [OF op_group_writes(4)])

lemma checkpoint_run:
  "list_all (\<lambda>a. \<not> moves_checkpoint a) ops \<Longrightarrow> tc_checkpoint (turn.run ops c) = tc_checkpoint c"
  by (induction ops arbitrary: c) (simp_all add: checkpoint_step)

text \<open>The prefix that \<open>begin_provider_attempt\<close> notes down: the argument, or what is published.\<close>

definition noted :: "string option \<Rightarrow> string \<Rightarrow> string" where
  "noted arg published = (case arg of None \<Rightarrow> published | Some t \<Rightarrow> t)"

lemma begin_attempt_checkpoint:
  "begin_provider_attempt m t r c = (Inr (), d) \<Longrightarrow>
     tc_checkpoint d = Some (m, noted t (pl_text_snapshot (tc_publication c)),
                                noted r (pl_reasoning_snapshot (tc_publication c)))"
  by (auto simp: begin_provider_attempt_def guarded_Inr noted_def)

lemma reset_provider_call:
  assumes "tc_checkpoint c = Some (rs_rollback_id a, text, reasoning)"
    and "rs_scope a = ''provider_call''" and "\<not> blank (rs_safe_reason a)"
    and "\<not> tc_closed c" and "\<not> turn_terminal c"
    and "role_of (rs_from_role a) = Inr r" and "role_of (rs_to_role a) = Inr r"
  shows "\<exists>ev. begin_generation_reset a c
      = (Inr ev, reset_state a r (tc_sequence c + 1) text reasoning
                   (c\<lparr>tc_sequence := tc_sequence c + 1\<rparr>))
    \<and> re_authoritative_text_snapshot ev = text
    \<and> re_authoritative_reasoning_snapshot ev = reasoning
    \<and> re_sequence ev = tc_sequence c + 1"
  using assms
  by (simp add: begin_generation_reset_def guarded_def reset_prefix_def try_res_def
      next_sequence_def Let_def)

end
