(* ===== verification/Turn_Claims.thy ===== *)
theory Turn_Claims
  imports Turn_Runs
begin

text \<open>
  What the turn context promises, as theorems over its methods, and one witness each: a turn with an
  admitted call, a pending tool buffer and a checkpoint.
\<close>

section \<open>A concrete turn\<close>

definition demo_identity :: turn_identity where
  "demo_identity = \<lparr>ti_turn_id = ''t'', ti_assistant_message_id = ''m'', ti_session_key = ''s'',
     ti_channel_id = None, ti_turn_start_sequence = 0\<rparr>"

definition demo_env :: turn_env where
  "demo_env = \<lparr>te_now = 0, te_control_call = False, te_cancelled = False, te_is_cancelled = False,
     te_shutdown = False, te_closed = False\<rparr>"

definition demo :: turn_ctx where
  "demo = new_context demo_identity NoControl None
     \<lparr>sf_streaming = True, sf_edit = True, sf_generation_reset = True, sf_provider_call_reset = True\<rparr>"

lemma demo_reachable: "turn_reachable demo"
  unfolding demo_def
  by (rule turn_start) (simp add: turn_identity_post_init_def checked_def demo_identity_def blank_def
      py_strip_def py_rstrip_def py_lstrip_def py_isspace_def)

lemmas demo_defs = demo_def demo_identity_def demo_env_def new_context_def Let_def

definition demo_admit :: turn_op where
  "demo_admit = OAdmit demo_env ''u'' (Role PRIMARY_AGGREGATOR) 0 0 ''w''"

definition demo_lease :: lease where
  "demo_lease = \<lparr>ls_lease_id = ''u'', ls_turn_id = ''t'', ls_role = PRIMARY_AGGREGATOR,
     ls_logical_call_index = 0, ls_attempt_index = 0, ls_owner = ''w'',
     ls_adapter_request_budget = 1\<rparr>"

lemma blank_w [simp]: "\<not> blank ''w''"
  by (simp add: blank_all_space py_isspace_def)

lemma demo_fresh: "fresh_op demo_admit demo" "fresh_id ''u'' demo"
  by (simp_all add: fresh_op_def demo_admit_def fresh_id_def demo_defs)

lemma demo_admitted:
  "fst (admit_provider_call demo_env ''u'' (Role PRIMARY_AGGREGATOR) 0 0 ''w'' demo) = Inr demo_lease"
  by (simp add: admit_provider_call_def try_res_def guarded_def admit_arguments_def ensure_open_def
      ensure_admission_allowed_def admit_role_guards_def deadline_passed_def control_blocked_def
      turn_terminal_def setdefault_ledger_def new_ledger_def attempt_guards_def admit_commit_def
      demo_lease_def demo_defs)

section \<open>The invariants of every reachable state\<close>

text \<open>C20: In every state a turn can reach, sequence numbers, events and epochs are ordered, the
  terminal flags of the context, the generation and the publication agree, the fixed-role
  transaction was consumed at most once and its markers agree with the current role, every pending
  tool buffer is an open buffer of its own call id that no other call id shares, and the attempt
  ledgers agree with the active leases.\<close>

theorem turn_reachable_sound:
  assumes "turn_reachable c"
  shows "order_inv c \<and> terminal_inv c \<and> role_inv c \<and> tools_inv c \<and> lease_inv c"
  using reachable_invs [OF assms] by (simp add: turn_inv_def)

theorem turn_reachable_sound_witness:
  "lease_inv (turn_step demo_admit demo) \<and> tools_inv (turn_step demo_admit demo)"
  using turn_reachable_sound [OF turn_next [OF demo_reachable demo_fresh(1)]] by blast

section \<open>Admission\<close>

lemma admit_result:
  assumes "admit_provider_call env u role i k w c = (Inr l, d)"
  obtains r led c' where "role_of role = Inr r"
    and "\<not> tc_closed c" and "\<not> turn_terminal c" and "\<not> deadline_passed env c"
    and "\<not> control_blocked env c"
    and "r = PROPOSER \<and> \<not> is_fixed (tc_current_role c) \<or> r = tc_current_role c"
    and "k = 0 \<or> k = 1" and "setdefault_ledger r i c = (led, c')"
    and "first_error (attempt_guards r i k led c') = None"
    and "admit_commit u r i k w led c' = (Inr l, d)"
proof (cases "role_of role")
  case (Inl e)
  then show thesis using assms by (simp add: admit_provider_call_def try_res_def)
next
  case (Inr r)
  obtain led c' where set: "setdefault_ledger r i c = (led, c')" by fastforce
  from assms have "guarded (admit_arguments i k w @ ensure_open c
      @ ensure_admission_allowed env c @ admit_role_guards r c) c
      (guarded (attempt_guards r i k led c') c' (admit_commit u r i k w led c')) = (Inr l, d)"
    by (simp add: admit_provider_call_def try_res_def Inr set)
  then have "\<forall>(b, e) \<in> set (admit_arguments i k w @ ensure_open c
      @ ensure_admission_allowed env c @ admit_role_guards r c). \<not> b"
    and "\<forall>(b, e) \<in> set (attempt_guards r i k led c'). \<not> b"
    and "admit_commit u r i k w led c' = (Inr l, d)"
    unfolding guarded_Inr by blast+
  moreover from this(2) have "first_error (attempt_guards r i k led c') = None"
    by (simp only: first_error_None)
  ultimately show thesis
    using set Inr
    by (intro that [of r led c'])
       (auto simp: admit_arguments_def ensure_open_def ensure_admission_allowed_def
         admit_role_guards_def)
qed

lemma admit_commit_result:
  assumes "admit_commit u r i k w led c = (Inr l, d)"
  shows "lease_key l = (r, i)" and "ls_attempt_index l = k" and "ls_role l = r"
    and "ls_adapter_request_budget l = 1" and "tc_active_leases d = (tc_active_leases c)(u \<mapsto> l)"
  using assms by (auto simp: admit_commit_def Let_def lease_key_def count_admission_def)

lemma admission_of_call:
  assumes "lease_inv c" and "fresh_id u c"
    and "admit_provider_call env u role i k w c = (Inr l, d)"
  shows "call_leases (lease_key l) c = {}" and "call_leases (lease_key l) d = {u}"
    and "ls_attempt_index l = 0
         \<and> (case tc_attempt_ledgers c (lease_key l) of None \<Rightarrow> True
              | Some led \<Rightarrow> al_attempt_indices led = [])
       \<or> ls_attempt_index l = 1
         \<and> (case tc_attempt_ledgers c (lease_key l) of None \<Rightarrow> False
              | Some led \<Rightarrow> al_attempt_indices led = [0] \<and> length (al_outcomes led) = 1)"
proof -
  obtain r led c' where k: "k = 0 \<or> k = 1" and set: "setdefault_ledger r i c = (led, c')"
      and g: "first_error (attempt_guards r i k led c') = None"
      and commit: "admit_commit u r i k w led c' = (Inr l, d)"
    using assms(3) by (rule admit_result)
  note l = admit_commit_result [OF commit]
  have inv: "lease_inv c'" using lease_inv_setdefault [OF assms(1), of r i] by (simp add: set)
  note led = setdefault_ledger_gives [OF set]
  have ok: "ledger_ok (r, i) led c'" by (rule ledger_of_inv [OF inv led(1)])
  note next_attempt = admitted_attempt [OF ok led(1) g k]
  have same: "call_leases x c' = call_leases x c" for x by (simp add: call_leases_def led(2))
  show none: "call_leases (lease_key l) c = {}"
    using next_attempt(1) by (simp add: l(1) call_idle_def same)
  have "call_leases (lease_key l) d = insert u (call_leases (lease_key l) c)"
    using assms(2) by (auto simp: call_leases_def l led(2) fresh_id_def)
  then show "call_leases (lease_key l) d = {u}" by (simp add: none)
  have indices: "al_attempt_indices led = [] \<and> k = 0 \<or> al_attempt_indices led = [0] \<and> k = 1"
    using next_attempt(2) by (cases "al_attempt_indices led") auto
  have "length (al_outcomes led) = length (al_attempt_indices led)"
    using next_attempt(1) by (simp add: call_idle_def)
  moreover have "tc_attempt_ledgers c (r, i) = Some led
      \<or> tc_attempt_ledgers c (r, i) = None \<and> al_attempt_indices led = []"
    using set by (auto simp: setdefault_ledger_def new_ledger_def split: option.splits)
  ultimately show "ls_attempt_index l = 0
         \<and> (case tc_attempt_ledgers c (lease_key l) of None \<Rightarrow> True
              | Some led \<Rightarrow> al_attempt_indices led = [])
       \<or> ls_attempt_index l = 1
         \<and> (case tc_attempt_ledgers c (lease_key l) of None \<Rightarrow> False
              | Some led \<Rightarrow> al_attempt_indices led = [0] \<and> length (al_outcomes led) = 1)"
    using indices by (auto simp: l)
qed

text \<open>C3: An admission succeeds only in an open, non-terminal turn before its deadline with the
  control object's consent, for a proposer before any fixed activation or for the sticky role. The
  lease it returns is attempt 0 of a logical call that no attempt was made for, or attempt 1 of a
  call whose attempt 0 has finished; it is the only active lease of that call, and its adapter
  budget is one request.\<close>

theorem admission_sound:
  assumes "turn_reachable c" and "fresh_id u c"
    and "admit_provider_call env u role i k w c = (Inr l, d)"
  shows "\<not> tc_closed c \<and> \<not> turn_terminal c \<and> \<not> deadline_passed env c \<and> \<not> control_blocked env c
    \<and> (ls_role l = PROPOSER \<and> \<not> is_fixed (tc_current_role c) \<or> ls_role l = tc_current_role c)
    \<and> ls_adapter_request_budget l = 1
    \<and> call_leases (lease_key l) c = {} \<and> call_leases (lease_key l) d = {u}
    \<and> (ls_attempt_index l = 0
         \<and> (case tc_attempt_ledgers c (lease_key l) of None \<Rightarrow> True
              | Some led \<Rightarrow> al_attempt_indices led = [])
       \<or> ls_attempt_index l = 1
         \<and> (case tc_attempt_ledgers c (lease_key l) of None \<Rightarrow> False
              | Some led \<Rightarrow> al_attempt_indices led = [0] \<and> length (al_outcomes led) = 1))"
proof -
  have inv: "lease_inv c" using reachable_invs [OF assms(1)] by simp
  note call = admission_of_call [OF inv assms(2,3)]
  obtain r led c' where "\<not> tc_closed c" "\<not> turn_terminal c" "\<not> deadline_passed env c"
      "\<not> control_blocked env c" 
      "r = PROPOSER \<and> \<not> is_fixed (tc_current_role c) \<or> r = tc_current_role c"
      and commit: "admit_commit u r i k w led c' = (Inr l, d)"
    using assms(3) by (rule admit_result)
  then show ?thesis using call admit_commit_result [OF commit] by simp
qed

theorem admission_sound_witness:
  "call_leases (PRIMARY_AGGREGATOR, 0)
     (snd (admit_provider_call demo_env ''u'' (Role PRIMARY_AGGREGATOR) 0 0 ''w'' demo)) = {''u''}"
proof -
  have "admit_provider_call demo_env ''u'' (Role PRIMARY_AGGREGATOR) 0 0 ''w'' demo
      = (Inr demo_lease, snd (admit_provider_call demo_env ''u'' (Role PRIMARY_AGGREGATOR) 0 0 ''w'' demo))"
    by (rule prod_eqI) (simp_all add: demo_admitted)
  from admission_sound [OF demo_reachable demo_fresh(2) this] show ?thesis
    by (simp add: lease_key_def demo_lease_def)
qed

section \<open>Leases end once\<close>

lemma lease_finished:
  assumes "lease_inv c" and "tc_active_leases c (ls_lease_id l) = Some m"
  shows "lease_over (ls_lease_id l) (snd (finish_provider_call l v c))"
proof -
  obtain led where "ls_lease_id m = ls_lease_id l"
    using assms by (rule lease_inv_active)
  then show ?thesis using assms(2)
    by (auto simp: finish_provider_call_def lease_over_def Let_def split: option.split)
qed

text \<open>Once a lease is finished, in every later state of the turn, whatever operations ran, a
  request start on it raises, finishing it again does nothing, and it is not among the active
  leases.\<close>

theorem finished_lease_stays_finished:
  assumes "turn_reachable c" and "tc_active_leases c (ls_lease_id l) = Some m"
    and "fresh_run ops (snd (finish_provider_call l v c))"
    and "d = turn.run ops (snd (finish_provider_call l v c))"
  shows "tc_active_leases d (ls_lease_id l) = None \<and> finish_provider_call l w d = (Inr (), d)
    \<and> (\<exists>e. record_request_start l ev d = (Inl e, d))"
proof -
  have "lease_inv c" using reachable_invs [OF assms(1)] by simp
  then have "lease_over (ls_lease_id l) (snd (finish_provider_call l v c))"
    using assms(2) by (rule lease_finished)
  then have "lease_over (ls_lease_id l) d"
    unfolding assms(4) by (rule fresh_run_invariant [OF _ assms(3)]) (rule lease_over_step)
  then show ?thesis
    by (simp add: lease_over_def finish_provider_call_def record_request_start_def
        require_active_lease_def try_res_def guarded_def split: option.split)
qed

theorem finished_lease_witness:
  "finish_provider_call demo_lease PNone
     (snd (finish_provider_call demo_lease PNone (turn_step demo_admit demo)))
   = (Inr (), snd (finish_provider_call demo_lease PNone (turn_step demo_admit demo)))"
proof -
  have "tc_active_leases (turn_step demo_admit demo) (ls_lease_id demo_lease) = Some demo_lease"
    by (simp add: demo_admit_def admit_provider_call_def try_res_def guarded_def
        admit_arguments_def ensure_open_def ensure_admission_allowed_def admit_role_guards_def
        deadline_passed_def control_blocked_def turn_terminal_def setdefault_ledger_def
        new_ledger_def attempt_guards_def admit_commit_def count_admission_def demo_lease_def
        demo_defs)
  from finished_lease_stays_finished
      [OF turn_next [OF demo_reachable demo_fresh(1)] this, of "[]" PNone _ PNone PNone]
  show ?thesis by simp
qed

section \<open>Terminal turns\<close>

text \<open>C36: Once a turn is terminal it stays terminal: after any run of operations its generation, its
  last event and the published text are what they were, no call is admitted, no event is accepted,
  nothing is published, and no lease becomes active that was not active before.\<close>

theorem terminal_is_final:
  assumes "turn_terminal c" and "d = turn.run ops c"
  shows "turn_terminal d \<and> tc_generation d = tc_generation c
    \<and> pl_text_snapshot (tc_publication d) = pl_text_snapshot (tc_publication c)
    \<and> pl_seen_sequences (tc_publication d) = pl_seen_sequences (tc_publication c)
    \<and> tc_active_leases d \<subseteq>\<^sub>m tc_active_leases c
    \<and> (\<exists>e. admit_provider_call env u role i k w d = (Inl e, d))
    \<and> accept_event env ep n m p d = (False, d)
    \<and> \<not> fst (publish_visible env txt rsn eo no f d)"
proof -
  have "terminal_since c c" using assms(1) by (simp add: terminal_since_def)
  then have "terminal_since c d" unfolding assms(2) by (rule turn_end.gone_run)
  then have td: "turn_terminal d" and view: "terminal_view d = terminal_view c"
    and le: "tc_active_leases d \<subseteq>\<^sub>m tc_active_leases c"
    by (simp_all add: terminal_since_def)
  have "\<not> fst (publish_visible env txt rsn eo no f d)"
    using td by (simp add: publish_visible_def accept_event_def next_sequence_def turn_terminal_def
        Let_def split: option.split)
  then show ?thesis
    using td view le terminal_no_admission [OF td]
    by (simp add: terminal_view_def accept_event_def)
qed

theorem terminal_is_final_witness:
  "turn_terminal (turn_step demo_admit (turn_step (OControlTerminal ''w'') demo))"
proof -
  have "turn_terminal (turn_step (OControlTerminal ''w'') demo)"
    by (simp add: begin_control_terminal_def guarded_def next_sequence_def release_publication_def
        drop_pending_tool_buffers_def turn_terminal_def demo_defs)
  from terminal_is_final [OF this refl, of "[demo_admit]"] show ?thesis by simp
qed

section \<open>Events\<close>

text \<open>C27: Events are accepted at most once and in order: after an event with sequence \<open>s\<close> was accepted,
  no event with a sequence up to \<open>s\<close> is accepted in any later state, nor published under such a
  sequence, whatever ran in between.\<close>

theorem events_accepted_in_order:
  assumes "turn_reachable c" and "accept_event env ep s m p c = (True, c')"
    and "s' \<le> s" and "d = turn.run ops c'"
  shows "accept_event env' ep' s' m' p' d = (False, d)
    \<and> \<not> fst (publish_visible env' txt rsn eo (Some s') f d)"
proof -
  have "order_inv c" using reachable_invs [OF assms(1)] by (simp add: turn_inv_def)
  then have "order_inv (snd (accept_event env ep s m p c))" by (rule order_inv_event)
  then have "event_seen s c'"
    using assms(2) by (auto simp: event_seen_def accept_event_def split: if_splits)
  then have "event_seen s d" unfolding assms(4) by (rule turn_events.gone_run)
  then have "s' \<le> tc_last_event_sequence d" using assms(3) by (simp add: event_seen_def)
  then show ?thesis by (simp add: accept_event_def publish_visible_def Let_def)
qed

theorem events_accepted_in_order_witness:
  "fst (accept_event demo_env 0 1 True PNone demo)
   \<and> \<not> fst (accept_event demo_env 0 1 True PNone (snd (accept_event demo_env 0 1 True PNone demo)))"
proof -
  define x where "x = snd (accept_event demo_env 0 1 True PNone demo)"
  have ok: "accept_event demo_env 0 1 True PNone demo = (True, x)"
    by (simp add: accept_event_def turn_terminal_def x_def demo_defs)
  have "accept_event demo_env 0 1 True PNone x = (False, x)"
    using events_accepted_in_order [OF demo_reachable ok order_refl, where ops = "[]" and d = x
        and env' = demo_env and ep' = 0 and m' = True and p' = PNone] by simp
  then show ?thesis using ok by simp
qed

section \<open>Generation resets\<close>

text \<open>A provider-call reset restores the prefix noted at the start of the attempt. Whatever ran
  since (publishing, events, tools, admissions), if the turn is still live and no other attempt or
  reset moved the checkpoint, the reset with the attempt's id succeeds: the published text and
  reasoning are again the noted ones, the epoch grew by one, no tool buffer is pending, and the
  event that is emitted carries the restored prefix.\<close>

theorem provider_call_reset_restores:
  assumes "begin_provider_attempt m text reasoning c = (Inr (), c')"
    and "list_all (\<lambda>a. \<not> moves_checkpoint a) ops" and "d = turn.run ops c'"
    and "\<not> tc_closed d" and "\<not> turn_terminal d"
    and "rs_scope a = ''provider_call''" and "rs_rollback_id a = m"
    and "\<not> blank (rs_safe_reason a)" and "\<not> rs_terminal a"
    and "role_of (rs_from_role a) = Inr r" and "role_of (rs_to_role a) = Inr r"
  shows "\<exists>ev d'. begin_generation_reset a d = (Inr ev, d')
    \<and> pl_text_snapshot (tc_publication d') = noted text (pl_text_snapshot (tc_publication c))
    \<and> pl_reasoning_snapshot (tc_publication d')
        = noted reasoning (pl_reasoning_snapshot (tc_publication c))
    \<and> re_authoritative_text_snapshot ev = pl_text_snapshot (tc_publication d')
    \<and> gs_epoch (tc_generation d') = gs_epoch (tc_generation d) + 1
    \<and> pl_generation_epoch (tc_publication d') = gs_epoch (tc_generation d')
    \<and> tc_tools d' = [] \<and> tc_checkpoint d' = None"
proof -
  have "tc_checkpoint d = Some (rs_rollback_id a, noted text (pl_text_snapshot (tc_publication c)),
      noted reasoning (pl_reasoning_snapshot (tc_publication c)))"
    using begin_attempt_checkpoint [OF assms(1)] checkpoint_run [OF assms(2)]
    by (simp add: assms(3,7))
  from reset_provider_call [OF this assms(6,8,4,5,10,11)] obtain ev where
    ev: "begin_generation_reset a d = (Inr ev, reset_state a r (tc_sequence d + 1)
          (noted text (pl_text_snapshot (tc_publication c)))
          (noted reasoning (pl_reasoning_snapshot (tc_publication c)))
          (d\<lparr>tc_sequence := tc_sequence d + 1\<rparr>))"
      "re_authoritative_text_snapshot ev = noted text (pl_text_snapshot (tc_publication c))"
    by blast
  then show ?thesis
    using assms(9)
    by (simp add: reset_state_def reset_publication_def drop_pending_tool_buffers_def Let_def
        split: option.split list.split)
qed

definition demo_reset :: reset_args where
  "demo_reset = \<lparr>rs_from_role = Role PRIMARY_AGGREGATOR, rs_to_role = RoleStr ''primary_aggregator'',
     rs_safe_reason = ''w'', rs_terminal = False, rs_terminal_text = None, rs_error_message = [],
     rs_error_code = [], rs_failure_kind = [], rs_http_status = None,
     rs_scope = ''provider_call'', rs_rollback_id = ''w''\<rparr>"

definition demo_publish :: turn_op where
  "demo_publish = OPublish demo_env ''partial'' [] None None False"

theorem provider_call_reset_witness:
  "\<exists>ev d'. begin_generation_reset demo_reset
       (turn.run [demo_publish] (snd (begin_provider_attempt ''w'' None None demo))) = (Inr ev, d')
    \<and> pl_text_snapshot (tc_publication d') = []"
proof -
  let ?c = "snd (begin_provider_attempt ''w'' None None demo)"
  have begun: "begin_provider_attempt ''w'' None None demo = (Inr (), ?c)"
    by (simp add: begin_provider_attempt_def guarded_def ensure_open_def turn_terminal_def demo_defs)
  have live: "\<not> tc_closed (turn.run [demo_publish] ?c)" "\<not> turn_terminal (turn.run [demo_publish] ?c)"
    by (simp_all add: begin_provider_attempt_def guarded_def ensure_open_def turn_terminal_def
        demo_publish_def publish_visible_def next_sequence_def accept_event_def pl_accept_def
        demo_defs)
  have empty: "pl_text_snapshot (tc_publication demo) = []" by (simp add: demo_defs)
  have "\<exists>ev d'. begin_generation_reset demo_reset (turn.run [demo_publish] ?c) = (Inr ev, d')
    \<and> pl_text_snapshot (tc_publication d') = noted None (pl_text_snapshot (tc_publication demo))"
    using provider_call_reset_restores [OF begun _ refl live, of demo_reset PRIMARY_AGGREGATOR]
    by (fastforce simp: demo_publish_def demo_reset_def roles_def)
  then show ?thesis by (simp add: noted_def empty)
qed

text \<open>C28: A reset that returns an event has ended the old epoch: the new epoch is one more, and in no
  later state is an event of an epoch up to the old one accepted, nor text published under it.\<close>

theorem reset_ends_epoch:
  assumes "begin_generation_reset a c = (Inr ev, c')" and "d = turn.run ops c'"
    and "ep \<le> gs_epoch (tc_generation c)"
  shows "re_old_generation_epoch ev = gs_epoch (tc_generation c)
    \<and> re_new_generation_epoch ev = gs_epoch (tc_generation c) + 1
    \<and> gs_epoch (tc_generation c') = re_new_generation_epoch ev
    \<and> accept_event env ep s m p d = (False, d)
    \<and> publish_visible env txt rsn (Some ep) no f d = (False, d)"
proof -
  have ev: "re_old_generation_epoch ev = gs_epoch (tc_generation c)"
      "re_new_generation_epoch ev = gs_epoch (tc_generation c) + 1"
      "gs_epoch (tc_generation c') = gs_epoch (tc_generation c) + 1"
    using assms(1)
    by (auto simp: begin_generation_reset_def guarded_def try_res_def next_sequence_def Let_def
        reset_state_def drop_pending_tool_buffers_def split: option.splits sum.splits if_splits)
  have "gs_epoch (tc_generation c') \<le> gs_epoch (tc_generation d)"
    unfolding assms(2) by (rule turn_epoch.count_run)
  then have "ep \<noteq> gs_epoch (tc_generation d)" using assms(3) ev(3) by simp
  then show ?thesis using ev by (simp add: accept_event_def publish_visible_def)
qed

theorem reset_ends_epoch_witness:
  "\<not> fst (accept_event demo_env 0 5 True PNone
      (snd (begin_generation_reset (demo_reset\<lparr>rs_scope := ''answer''\<rparr>) demo)))"
proof -
  let ?d = "snd (begin_generation_reset (demo_reset\<lparr>rs_scope := ''answer''\<rparr>) demo)"
  obtain ev where "begin_generation_reset (demo_reset\<lparr>rs_scope := ''answer''\<rparr>) demo = (Inr ev, ?d)"
    by (simp add: begin_generation_reset_def guarded_def try_res_def next_sequence_def Let_def
        reset_prefix_def turn_terminal_def demo_reset_def roles_def demo_defs)
  from reset_ends_epoch [OF this, where ops = "[]" and d = ?d and ep = 0 and env = demo_env
      and s = 5 and m = True and p = PNone]
  have "accept_event demo_env 0 5 True PNone ?d = (False, ?d)"
    by (simp add: demo_def new_context_def Let_def)
  then show ?thesis by simp
qed

section \<open>Tool rounds\<close>

text \<open>A committed tool round returns exactly the events that were appended through the buffer that
  \<open>open_tool_buffer\<close> returned, in the order of the appends, whatever other operations ran in
  between (other tool calls, attempts, events, admissions) as long as none of them took this call's
  buffer away. After the commit the call id is no longer pending, and an append through the old
  reference raises and changes nothing.\<close>

theorem tool_round_returns_appends:
  assumes "turn_reachable c" and "map_of (tc_tools c) i = None"
    and "open_tool_buffer i c = (Inr a, c')"
    and "list_all (\<lambda>x. \<not> ends_buffer i x) ops" and "d = turn.run ops c'"
    and "\<not> tc_closed d" and "done \<noteq> PNone"
  shows "\<exists>r d'. commit_tool_round i done d = (Inr r, d')
    \<and> ct_call_id r = i \<and> ct_events r = appended a ops \<and> ct_done_event r = done
    \<and> ct_sequence r = tc_sequence d + 1
    \<and> last (tc_completed_tools d') = r \<and> map_of (tc_tools d') i = None
    \<and> buffer_append a v d'
        = Some (Inl (TurnExecutionError (''tool buffer is closed: '' @ i)), d')"
proof -
  have "tools_inv c" using reachable_invs [OF assms(1)] by (simp add: turn_inv_def)
  then have "tools_inv c'" using tools_inv_open [of c i] assms(3) by simp
  moreover have nb: "\<not> blank i" and "map_of (tc_tools c') i = Some a" "events_at a c' = []"
    using assms(2,3) by (auto simp: open_tool_buffer_def guarded_Inr Let_def events_at_def)
  ultimately have "pending i a [] c'" by (simp add: pending_def)
  from pending_run [OF this assms(4)] have p: "pending i a (appended a ops) d"
    by (simp add: assms(5))
  obtain b where b: "tc_heap d a = Some b" "tb_call_id b = i" "\<not> tb_closed b"
      "tb_events b = appended a ops"
    using p by (rule pending_buffer)
  have "map_of (tc_tools d) i = Some a" using p by (simp add: pending_def)
  then show ?thesis
    using b nb assms(6,7)
    by (simp add: commit_tool_round_def guarded_def ensure_open_def next_sequence_def Let_def
        events_at_def buffer_append_def tb_append_def close_at_def tb_close_def fun_upd_idem)
qed

theorem tool_round_witness:
  "\<exists>r d'. commit_tool_round ''w'' (PInt 1)
       (turn.run [OAppend 0 (PInt 7), demo_publish, OAppend 0 (PInt 8)]
         (snd (open_tool_buffer ''w'' demo))) = (Inr r, d')
    \<and> ct_events r = [PInt 7, PInt 8]"
proof -
  let ?c = "snd (open_tool_buffer ''w'' demo)"
  let ?ops = "[OAppend 0 (PInt 7), demo_publish, OAppend 0 (PInt 8)]"
  have open0: "open_tool_buffer ''w'' demo = (Inr 0, ?c)"
    by (simp add: open_tool_buffer_def guarded_def ensure_open_def demo_defs)
  have none: "map_of (tc_tools demo) ''w'' = None" by (simp add: demo_defs)
  have live: "\<not> tc_closed (turn.run ?ops ?c)"
    by (simp add: open_tool_buffer_def guarded_def ensure_open_def demo_publish_def
        publish_visible_def next_sequence_def accept_event_def pl_accept_def buffer_append_def
        tb_append_def turn_terminal_def demo_defs)
  have "list_all (\<lambda>x. \<not> ends_buffer ''w'' x) ?ops" by (simp add: demo_publish_def)
  from tool_round_returns_appends [OF demo_reachable none open0 this refl live, of "PInt 1"]
  have "\<exists>r d'. commit_tool_round ''w'' (PInt 1) (turn.run ?ops ?c) = (Inr r, d')
    \<and> ct_events r = appended 0 ?ops" by blast
  moreover have "appended 0 ?ops = [PInt 7, PInt 8]" by (simp add: demo_publish_def)
  ultimately show ?thesis by simp
qed

section \<open>The sticky role\<close>

text \<open>The fixed-role transaction happens at most once. When an activation returns that it activated
  a role, that role is the current one in every later state, no activation of the other fixed role
  succeeds, the failed-recovery transaction is refused, and no proposer is admitted.\<close>

theorem fixed_role_is_sticky:
  assumes "activate_fixed env role reason given c = (Inr act, c')" and "ra_activated act"
    and "d = turn.run ops c'"
  shows "is_fixed (ra_role act) \<and> tc_current_role d = ra_role act
    \<and> (\<forall>act' d'. activate_fixed env2 role2 reason2 given2 d = (Inr act', d') \<longrightarrow>
         \<not> ra_activated act' \<and> ra_role act' = ra_role act \<and> d' = d)
    \<and> (\<exists>e. begin_failed_fixed_recovery env2 role2 reason2 given2 d = (Inl e, d))
    \<and> (\<exists>e. admit_provider_call env2 u (Role PROPOSER) i k w d = (Inl e, d))"
proof -
  have "role_fixed (ra_role act) c'"
    using assms(1,2)
    by (auto simp: activate_fixed_def guarded_def try_res_def next_sequence_def Let_def
        role_fixed_def split: option.splits sum.splits if_splits)
  then have d: "role_fixed (ra_role act) d" unfolding assms(3) by (rule turn_role.gone_run)
  have "\<not> ra_activated act' \<and> ra_role act' = ra_role act \<and> d' = d"
    if "activate_fixed env2 role2 reason2 given2 d = (Inr act', d')" for act' d'
    using that d
    by (auto simp: activate_fixed_def guarded_def try_res_def Let_def role_fixed_def
        split: option.splits sum.splits if_splits)
  moreover have "\<exists>e. begin_failed_fixed_recovery env2 role2 reason2 given2 d = (Inl e, d)"
  proof (cases "role_of role2")
    case (Inr r)
    have "first_error ([(\<not> is_fixed r, Py (ValueError ''failed fixed recovery requires a fixed role'')),
         (blank reason2, Py (ValueError ''reason must be a non-empty string''))]
        @ ensure_open d @ ensure_admission_allowed env2 d
        @ [(tc_fallback_activation_count d \<noteq> 0,
              ProviderAdmissionError ''fixed activation was already consumed''),
           (turn_terminal d,
              ProviderAdmissionError ''terminal turn cannot start fixed recovery'')]) \<noteq> None"
      using d by (simp add: role_fixed_def ensure_open_def ensure_admission_allowed_def)
    then show ?thesis
      by (auto simp: begin_failed_fixed_recovery_def try_res_def guarded_def Inr)
  qed (simp add: begin_failed_fixed_recovery_def try_res_def)
  moreover have "first_error (admit_arguments i k w @ ensure_open d
      @ ensure_admission_allowed env2 d @ admit_role_guards PROPOSER d) \<noteq> None"
    using d by (simp add: role_fixed_def admit_arguments_def ensure_open_def
        ensure_admission_allowed_def admit_role_guards_def)
  then have "\<exists>e. admit_provider_call env2 u (Role PROPOSER) i k w d = (Inl e, d)"
    by (auto simp: admit_provider_call_def try_res_def guarded_def)
  ultimately show ?thesis using d by (simp add: role_fixed_def)
qed

theorem fixed_role_witness:
  "tc_current_role (turn.run [demo_publish]
     (snd (activate_fixed demo_env (Role FIXED_DIRECT) ''w'' None demo))) = FIXED_DIRECT"
proof -
  let ?c = "snd (activate_fixed demo_env (Role FIXED_DIRECT) ''w'' None demo)"
  define act where "act = \<lparr>ra_activated = True, ra_role = FIXED_DIRECT, ra_reason = ''w'',
      ra_fallback_activation_count = 1, ra_generation_epoch = 0, ra_sequence = Some 1\<rparr>"
  have "fst (activate_fixed demo_env (Role FIXED_DIRECT) ''w'' None demo) = Inr act"
    by (simp add: activate_fixed_def guarded_def try_res_def next_sequence_def is_fixed_def)
       (simp add: ensure_open_def ensure_admission_allowed_def deadline_passed_def
         control_blocked_def recovery_or_def default_recovery_def recovery_post_init_def act_def
         guarded_def try_res_def next_sequence_def demo_defs)
  then have act: "activate_fixed demo_env (Role FIXED_DIRECT) ''w'' None demo = (Inr act, ?c)"
    by (simp only: prod_eq_iff fst_conv snd_conv)
  have "ra_activated act" "ra_role act = FIXED_DIRECT" by (simp_all only: act_def activation.simps)
  then show ?thesis using fixed_role_is_sticky [OF act _ refl, of "[demo_publish]"] by metis
qed

text \<open>\<open>activate_fixed\<close> does not look at the terminal flags. In a turn that a control or generation
  terminal has already ended (and that is not closed, not past its deadline and not refused by the
  control object) a first activation still succeeds: it consumes the transaction and changes the
  current role, where \<open>begin_failed_fixed_recovery\<close> with the same arguments raises.\<close>

theorem activation_ignores_terminal:
  assumes "turn_terminal c" and "\<not> tc_closed c" and "\<not> deadline_passed env c"
    and "\<not> control_blocked env c" and "tc_current_role c = PRIMARY_AGGREGATOR"
    and "tc_fallback_activation_count c = 0" and "is_fixed r" and "\<not> blank reason"
  shows "(\<exists>act d. activate_fixed env (Role r) reason (Some rc) c = (Inr act, d)
      \<and> ra_activated act \<and> tc_current_role d = r \<and> turn_terminal d)
    \<and> begin_failed_fixed_recovery env (Role r) reason (Some rc) c
        = (Inl (ProviderAdmissionError ''terminal turn cannot start fixed recovery''), c)"
proof -
  have r: "PRIMARY_AGGREGATOR \<noteq> r" using assms(7) by (auto simp: is_fixed_def)
  have "\<exists>act d. activate_fixed env (Role r) reason (Some rc) c = (Inr act, d)
      \<and> ra_activated act \<and> tc_current_role d = r
      \<and> tc_terminalized d = tc_terminalized c \<and> tc_generation d = tc_generation c"
    by (simp add: activate_fixed_def guarded_def try_res_def ensure_open_def
        ensure_admission_allowed_def recovery_or_def next_sequence_def Let_def assms(2-8) r)
  moreover have "begin_failed_fixed_recovery env (Role r) reason (Some rc) c
        = (Inl (ProviderAdmissionError ''terminal turn cannot start fixed recovery''), c)"
    by (simp add: begin_failed_fixed_recovery_def guarded_def try_res_def ensure_open_def
        ensure_admission_allowed_def assms)
  ultimately show ?thesis using assms(1) by (auto simp: turn_terminal_def)
qed

theorem activation_ignores_terminal_witness:
  "turn_terminal (snd (begin_control_terminal ''w'' demo))
   \<and> (\<exists>act d. activate_fixed demo_env (Role FIXED_DIRECT) ''w''
         (Some \<lparr>rc_successful_drafts = [], rc_tool_schemas = [], rc_attachment_boundary = PNone,
            rc_conversation = [], rc_metadata = []\<rparr>)
         (snd (begin_control_terminal ''w'' demo)) = (Inr act, d) \<and> ra_activated act)"
proof -
  let ?c = "snd (begin_control_terminal ''w'' demo)"
  have c: "turn_terminal ?c" "\<not> tc_closed ?c" "\<not> deadline_passed demo_env ?c"
      "\<not> control_blocked demo_env ?c" "tc_current_role ?c = PRIMARY_AGGREGATOR"
      "tc_fallback_activation_count ?c = 0"
    by (simp_all add: begin_control_terminal_def guarded_def next_sequence_def
        release_publication_def drop_pending_tool_buffers_def turn_terminal_def
        deadline_passed_def control_blocked_def demo_defs)
  have "is_fixed FIXED_DIRECT" by (simp add: is_fixed_def)
  from activation_ignores_terminal [OF c this blank_w] c(1) show ?thesis by blast
qed

end
