(* ===== verification/Regex.thy ===== *)
theory Regex
  imports Prelude
begin

text \<open>
  The part of Python's \<open>re\<close> that the program's patterns use, as a matcher that lists every position
  where a match that starts at a given one can end. The patterns are only searched or fully
  matched, never captured, so the greedy order of alternatives does not matter. \<open>py_in\<close> is
  Python's \<open>in\<close> on strings.
\<close>

fun py_in :: "string \<Rightarrow> string \<Rightarrow> bool" where
  "py_in w [] = (w = [])"
| "py_in w (c # s) = (prefix w (c # s) \<or> py_in w s)"

lemma py_in_iff: "py_in w s \<longleftrightarrow> (\<exists>u v. s = u @ w @ v)"
proof (induction s)
  case (Cons c s)
  show ?case
  proof
    assume "py_in w (c # s)"
    then consider "prefix w (c # s)" | "py_in w s" by auto
    then show "\<exists>u v. c # s = u @ w @ v"
    proof cases
      case 1
      then obtain v where "c # s = [] @ w @ v" by (auto simp: prefix_def)
      then show ?thesis by blast
    next
      case 2
      then obtain u v where "c # s = (c # u) @ w @ v" using Cons by auto
      then show ?thesis by blast
    qed
  next
    assume "\<exists>u v. c # s = u @ w @ v"
    then obtain u v where s: "c # s = u @ w @ v" by blast
    show "py_in w (c # s)"
    proof (cases u)
      case Nil
      then have "prefix w (c # s)" using s by (simp add: prefix_def)
      then show ?thesis by simp
    next
      case (Cons d u')
      then have "s = u' @ w @ v" using s by simp
      then show ?thesis using \<open>py_in w s = (\<exists>u v. s = u @ w @ v)\<close> by auto
    qed
  qed
qed auto

lemma py_in_Nil [simp]: "py_in [] s"
  by (cases s) simp_all

lemma py_in_trans: "py_in a b \<Longrightarrow> py_in b s \<Longrightarrow> py_in a s"
  unfolding py_in_iff by (metis append.assoc)

text \<open>\<open>\w\<close> on a code point below 256.\<close>

definition py_isword :: "char \<Rightarrow> bool" where
  "py_isword c \<longleftrightarrow>
     (let n = (of_char c :: nat)
      in (48 \<le> n \<and> n \<le> 57) \<or> (65 \<le> n \<and> n \<le> 90) \<or> n = 95 \<or> (97 \<le> n \<and> n \<le> 122)
         \<or> n \<in> {170, 178, 179, 181, 185, 186, 188, 189, 190}
         \<or> (192 \<le> n \<and> n \<noteq> 215 \<and> n \<noteq> 247))"

datatype rx =
    Eps
  | Chr "char \<Rightarrow> bool"
  | Lit string
  | Seq rx rx
  | Alt rx rx
  | Upto nat "char \<Rightarrow> bool"
  | Star "char \<Rightarrow> bool"
  | WordB
  | Bos

definition word_at :: "string \<Rightarrow> nat \<Rightarrow> bool" where
  "word_at s i \<longleftrightarrow> i < length s \<and> py_isword (s ! i)"

fun span_ends :: "(char \<Rightarrow> bool) \<Rightarrow> string \<Rightarrow> nat \<Rightarrow> nat \<Rightarrow> nat list" where
  "span_ends p s i 0 = [i]"
| "span_ends p s i (Suc n) = i # (if i < length s \<and> p (s ! i) then span_ends p s (Suc i) n else [])"

fun rx_ends :: "rx \<Rightarrow> string \<Rightarrow> nat \<Rightarrow> nat list" where
  "rx_ends Eps s i = [i]"
| "rx_ends (Chr p) s i = (if i < length s \<and> p (s ! i) then [Suc i] else [])"
| "rx_ends (Lit w) s i = (if prefix w (drop i s) then [i + length w] else [])"
| "rx_ends (Seq a b) s i = concat (map (rx_ends b s) (rx_ends a s i))"
| "rx_ends (Alt a b) s i = rx_ends a s i @ rx_ends b s i"
| "rx_ends (Upto n p) s i = span_ends p s i n"
| "rx_ends (Star p) s i = span_ends p s i (length s - i)"
| "rx_ends WordB s i = (if word_at s i \<noteq> (0 < i \<and> word_at s (i - 1)) then [i] else [])"
| "rx_ends Bos s i = (if i = 0 then [i] else [])"

definition rx_search :: "rx \<Rightarrow> string \<Rightarrow> bool" where
  "rx_search r s \<longleftrightarrow> list_ex (\<lambda>i. rx_ends r s i \<noteq> []) [0..<Suc (length s)]"

definition rx_fullmatch :: "rx \<Rightarrow> string \<Rightarrow> bool" where
  "rx_fullmatch r s \<longleftrightarrow> length s \<in> set (rx_ends r s 0)"

fun seq_of :: "rx list \<Rightarrow> rx" where
  "seq_of [] = Eps"
| "seq_of [r] = r"
| "seq_of (r # rs) = Seq r (seq_of rs)"

fun alt_of :: "rx list \<Rightarrow> rx" where
  "alt_of [] = Chr (\<lambda>c. False)"
| "alt_of [r] = r"
| "alt_of (r # rs) = Alt r (alt_of rs)"

abbreviation lits :: "string list \<Rightarrow> rx" where
  "lits ws \<equiv> alt_of (map Lit ws)"

abbreviation opt :: "rx \<Rightarrow> rx" where
  "opt r \<equiv> Alt r Eps"

definition spaces :: rx where
  "spaces = Star py_isspace"

section \<open>Words a match must contain\<close>

text \<open>\<open>must ws r\<close> tells from the pattern that every match contains one of the words \<open>ws\<close>.\<close>

fun must :: "string list \<Rightarrow> rx \<Rightarrow> bool" where
  "must ws (Lit w) = list_ex (\<lambda>u. py_in u w) ws"
| "must ws (Seq a b) = (must ws a \<or> must ws b)"
| "must ws (Alt a b) = (must ws a \<and> must ws b)"
| "must ws _ = False"

lemma prefix_drop_in: "prefix w (drop i s) \<Longrightarrow> py_in w s"
  unfolding py_in_iff prefix_def by (metis append_take_drop_id)

lemma must_match: "must ws r \<Longrightarrow> rx_ends r s i \<noteq> [] \<Longrightarrow> \<exists>w \<in> set ws. py_in w s"
proof (induction r arbitrary: i)
  case (Lit w)
  then obtain u where "u \<in> set ws" "py_in u w" by (auto simp: list_ex_iff)
  moreover have "py_in w s" using Lit.prems(2) by (auto split: if_splits intro: prefix_drop_in)
  ultimately show ?case using py_in_trans by blast
next
  case (Seq a b)
  from Seq.prems(2) obtain j where "rx_ends a s i \<noteq> []" "rx_ends b s j \<noteq> []" by fastforce
  with Seq.prems(1) Seq.IH show ?case by auto
next
  case (Alt a b)
  then show ?case by fastforce
qed simp_all

lemma must_search: "must ws r \<Longrightarrow> rx_search r s \<Longrightarrow> \<exists>w \<in> set ws. py_in w s"
  unfolding rx_search_def list_ex_iff using must_match by blast

end
