(* ===== verification/Failures.thy ===== *)
theory Failures
  imports Regex
begin

text \<open>
  Provider failure classification (\<open>src/opensquilla/provider/failures.py\<close>), the retry policy of
  \<open>engine/fallback.py\<close> and the response-shape recoveries of \<open>engine/runtime_recovery.py\<close>.

  A row of the classification tables is a record; an absent constraint is an empty list or \<open>None\<close>.
  The registry's \<open>failure_family\<close> is the table \<open>failure_families\<close>. One marker of the source is written
  in Chinese; it is left out, since no string of the model contains such code points.
\<close>

datatype failure_kind =
    RATE_LIMITED
  | PROVIDER_OVERLOADED
  | AUTH_INVALID
  | CONTEXT_OVERFLOW
  | UNSUPPORTED_FEATURE
  | INSUFFICIENT_CREDITS
  | USAGE_LIMIT
  | MODEL_NOT_FOUND
  | TRANSPORT_TRANSIENT
  | POLICY_REFUSAL
  | EMPTY_RESPONSE
  | MALFORMED_RESPONSE
  | BAD_REQUEST
  | UNKNOWN

datatype recovery_action =
    RETRY
  | RETRY_THEN_FALLBACK
  | FALLBACK_PROVIDER
  | COMPACT_AND_RETRY
  | FAIL_CONFIG
  | SURFACE

definition failure_families :: "(string \<times> string) list" where
  "failure_families =
     map (\<lambda>p. (p, ''anthropic''))
       [''anthropic'', ''qwen_token_plan_anthropic'', ''kimi_coding_anthropic'', ''minimax'',
        ''minimax_coding_anthropic'', ''minimax_cn'', ''minimax_global'', ''mimo_anthropic'',
        ''tencent_tokenhub_anthropic'', ''tencent_token_plan_anthropic'', ''custom_anthropic'',
        ''volcengine_coding_plan_anthropic'', ''byteplus_coding_plan_anthropic'']
     @ [(''ollama'', ''ollama'')]
     @ map (\<lambda>p. (p, ''openai_compat''))
       [''openrouter'', ''openai'', ''openai_responses'', ''azure'', ''deepseek'', ''gemini'',
        ''dashscope'', ''bailian_coding'', ''bailian_coding_cn'', ''qwen_token_plan'', ''moonshot'',
        ''kimi_coding_openai'', ''minimax_openai'', ''minimax_coding_openai'', ''mimo_openai'',
        ''mistral'', ''groq'', ''zhipu'', ''qianfan'', ''siliconflow'', ''aihubmix'', ''volcengine'',
        ''byteplus'', ''tencent_tokenhub'', ''tencent_tokenhub_intl'', ''tencent_token_plan'',
        ''tokenrhythm'', ''custom'', ''vllm'', ''lm_studio'', ''ovms'', ''litellm_proxy'',
        ''volcengine_coding_plan'', ''byteplus_coding_plan'', ''openai_codex'', ''github_copilot'']"

definition failure_family :: "string \<Rightarrow> string" where
  "failure_family provider =
     (case map_of failure_families provider of None \<Rightarrow> [] | Some f \<Rightarrow> f)"

section \<open>Signals and matchers\<close>

record signal =
  fs_status_code :: "int option"
  fs_raw_code :: string
  fs_message :: string
  fs_text :: string

record matcher =
  fm_kind :: failure_kind
  fm_status :: "int list"
  fm_raw :: "string list"
  fm_subs :: "string list"
  fm_all :: "string list"
  fm_pred :: "(signal \<Rightarrow> bool) option"

definition status_str :: "int option \<Rightarrow> string" where
  "status_str s = (case s of None \<Rightarrow> [] | Some n \<Rightarrow> if n = 0 then [] else int_str n)"

definition joined :: "int option \<Rightarrow> string \<Rightarrow> string \<Rightarrow> string" where
  "joined status raw message = py_lower (status_str status @ '' '' @ raw @ '' '' @ message)"

definition matches :: "matcher \<Rightarrow> signal \<Rightarrow> bool" where
  "matches m s \<longleftrightarrow>
     (if fm_status m \<noteq> [] \<and> \<not> (case fs_status_code s of None \<Rightarrow> False | Some n \<Rightarrow> n \<in> set (fm_status m))
      then False
      else if fm_raw m \<noteq> [] \<and> fs_raw_code s \<notin> set (fm_raw m) then False
      else if fm_subs m \<noteq> [] \<and> \<not> list_ex (\<lambda>w. py_in w (fs_text s)) (fm_subs m) then False
      else if fm_all m \<noteq> [] \<and> \<not> list_all (\<lambda>w. py_in w (fs_text s)) (fm_all m) then False
      else (case fm_pred m of None \<Rightarrow> True | Some p \<Rightarrow> p s))"

definition is_empty_response :: "signal \<Rightarrow> bool" where
  "is_empty_response s \<longleftrightarrow>
     fs_raw_code s = ''empty_response''
   \<or> py_lower (py_strip (fs_message s)) \<in>
       {''empty_response'', ''empty response'', ''provider returned an empty response''}"

definition gateway_status_codes :: "int list" where
  "gateway_status_codes = [499, 500, 502, 503, 504, 520, 521, 522, 523, 524, 529]"

section \<open>The patterns\<close>

definition gateway_codes :: rx where
  "gateway_codes = lits [''499'', ''500'', ''502'', ''503'', ''504'', ''520'', ''521'', ''522'',
     ''523'', ''524'', ''529'']"

definition gateway_context :: rx where
  "gateway_context = lits [''cloudflare'', ''openrouter'', ''upstream'', ''gateway'', ''backend'']"

definition gateway_error_terms :: rx where
  "gateway_error_terms = lits [''error'', ''returned'', ''returning'', ''failed'', ''failure'',
     ''unreachable'', ''timeout'', ''timed out'', ''overloaded'', ''overload'', ''bad gateway'',
     ''origin'']"

definition same_line :: rx where
  "same_line = Upto 80 (\<lambda>c. c \<noteq> CHR 0x0A)"

definition gateway_transient_rx :: rx where
  "gateway_transient_rx =
     alt_of
      [seq_of
         [WordB,
          alt_of [Seq (Lit ''http'') (opt (Lit '' status'')),
                  seq_of [Lit ''status'', opt (Seq (opt (Chr (\<lambda>c. c \<in> set ''_ -''))) (Lit ''code''))],
                  Lit ''error code'', Lit ''code''],
          spaces, opt (Chr (\<lambda>c. c \<in> set '':='')), spaces, gateway_codes, WordB],
       seq_of [WordB, gateway_context, WordB, same_line, WordB, gateway_error_terms, WordB,
          same_line, WordB, gateway_codes, WordB],
       seq_of [WordB, gateway_context, WordB, same_line, WordB, gateway_codes, WordB,
          same_line, WordB, gateway_error_terms, WordB],
       seq_of [WordB, gateway_codes, WordB, same_line, WordB, gateway_context, WordB,
          same_line, WordB, gateway_error_terms, WordB]]"

definition is_gateway_transient :: "signal \<Rightarrow> bool" where
  "is_gateway_transient s \<longleftrightarrow> rx_search gateway_transient_rx (fs_text s)"

definition is_digit :: "char \<Rightarrow> bool" where
  "is_digit c \<longleftrightarrow> c \<in> set ''0123456789''"

definition input_range_rx :: rx where
  "input_range_rx = seq_of [WordB, Lit ''range of input length should be'', spaces, Lit ''['', spaces,
     Lit ''1'', spaces, Lit '','', spaces, Chr (\<lambda>c. is_digit c \<and> c \<noteq> CHR ''0''), Star is_digit,
     spaces, Lit '']'']"

definition empty_input_rx :: rx where
  "empty_input_rx = alt_of
     [seq_of [WordB, Lit ''empty'', WordB],
      seq_of [WordB, Lit ''input length'', spaces, lits [''is'', '':'', ''=''], spaces,
        lits [''0'', ''zero''], WordB]]"

definition is_input_length_range_error :: "signal \<Rightarrow> bool" where
  "is_input_length_range_error s \<longleftrightarrow>
     rx_search input_range_rx (fs_text s) \<and> \<not> rx_search empty_input_rx (fs_text s)"

text \<open>This pattern is searched without regard to case: in the lowered message, with lowered
  literals.\<close>

definition missing_model_rx :: rx where
  "missing_model_rx = seq_of
     [alt_of [Seq Bos spaces,
              seq_of [Bos, Lit ''http'', Chr py_isspace, spaces, Lit ''404:'', spaces],
              seq_of [Lit [CHR 0x22], Lit ''message'', Lit [CHR 0x22], spaces, Lit '':'', spaces,
                Lit [CHR 0x22]]],
      Lit ''model'', spaces, Lit '':'', spaces, Chr (\<lambda>c. c \<noteq> CHR 0x22 \<and> \<not> py_isspace c)]"

definition is_anthropic_missing_model :: "signal \<Rightarrow> bool" where
  "is_anthropic_missing_model s \<longleftrightarrow>
     (fs_status_code s = Some 404 \<or> py_in ''not_found_error'' (fs_text s))
   \<and> rx_search missing_model_rx (py_lower (fs_message s))"

section \<open>The tables\<close>

definition model_unavailable_substrings :: "string list" where
  "model_unavailable_substrings =
     [''no endpoints found'', ''model not found'', ''model_not_found'', ''model does not exist'',
      ''model is not available'', ''model not available'', ''not available in your region'',
      ''not available in the requested region'', ''model_not_available'']"

definition shared_pre_matchers :: "matcher list" where
  "shared_pre_matchers =
    [
     \<lparr>fm_kind = USAGE_LIMIT, fm_status = [], fm_raw = [''usage_limit'', ''usage_limit_reached'', ''usage_limited''], fm_subs = [],
      fm_all = [], fm_pred = None\<rparr>,
     \<lparr>fm_kind = USAGE_LIMIT, fm_status = [], fm_raw = [], fm_subs = [''usage_limit_reached'', ''usage_limited'', ''usage limit reached''],
      fm_all = [], fm_pred = None\<rparr>,
     \<lparr>fm_kind = INSUFFICIENT_CREDITS, fm_status = [402], fm_raw = [], fm_subs = [],
      fm_all = [], fm_pred = None\<rparr>,
     \<lparr>fm_kind = INSUFFICIENT_CREDITS, fm_status = [], fm_raw = [''billing_hard_limit'', ''insufficient_quota'', ''provider_quota_exceeded''], fm_subs = [],
      fm_all = [], fm_pred = None\<rparr>,
     \<lparr>fm_kind = INSUFFICIENT_CREDITS, fm_status = [], fm_raw = [], fm_subs = [''insufficient_quota'', ''billing_hard_limit'', ''provider_quota_exceeded'', ''insufficient credits'', ''insufficient balance''],
      fm_all = [], fm_pred = None\<rparr>,
     \<lparr>fm_kind = INSUFFICIENT_CREDITS, fm_status = [], fm_raw = [], fm_subs = [],
      fm_all = [''exceeded your current quota'', ''billing''], fm_pred = None\<rparr>,
     \<lparr>fm_kind = BAD_REQUEST, fm_status = [], fm_raw = [''ensemble_multimodal_unsupported'', ''image_input_unsupported''], fm_subs = [],
      fm_all = [], fm_pred = None\<rparr>,
     \<lparr>fm_kind = CONTEXT_OVERFLOW, fm_status = [], fm_raw = [], fm_subs = [''context length'', ''context window'', ''maximum context'', ''prompt is too long'', ''input is too long'', ''input exceeds'', ''provider_request_budget_exhausted'', ''too many tokens''],
      fm_all = [], fm_pred = None\<rparr>,
     \<lparr>fm_kind = CONTEXT_OVERFLOW, fm_status = [400], fm_raw = ['''', ''400'', ''litellm_error'', ''invalid_parameter_error'', ''invalid_request_error''], fm_subs = [],
      fm_all = [], fm_pred = Some is_input_length_range_error\<rparr>,
     \<lparr>fm_kind = POLICY_REFUSAL, fm_status = [], fm_raw = [], fm_subs = [''content policy'', ''policy violation'', ''safety policy'', ''moderation'', ''refusal'', ''blocked by policy''],
      fm_all = [], fm_pred = None\<rparr>,
     \<lparr>fm_kind = EMPTY_RESPONSE, fm_status = [], fm_raw = [], fm_subs = [],
      fm_all = [], fm_pred = Some is_empty_response\<rparr>]"

definition openai_compat_matchers :: "matcher list" where
  "openai_compat_matchers =
    [
     \<lparr>fm_kind = MODEL_NOT_FOUND, fm_status = [], fm_raw = [], fm_subs = model_unavailable_substrings,
      fm_all = [], fm_pred = None\<rparr>,
     \<lparr>fm_kind = AUTH_INVALID, fm_status = [401], fm_raw = [], fm_subs = [],
      fm_all = [], fm_pred = None\<rparr>,
     \<lparr>fm_kind = AUTH_INVALID, fm_status = [], fm_raw = [], fm_subs = [''invalid api key'', ''invalid_api_key'', ''unauthorized''],
      fm_all = [], fm_pred = None\<rparr>,
     \<lparr>fm_kind = INSUFFICIENT_CREDITS, fm_status = [402], fm_raw = [], fm_subs = [],
      fm_all = [], fm_pred = None\<rparr>,
     \<lparr>fm_kind = INSUFFICIENT_CREDITS, fm_status = [], fm_raw = [], fm_subs = [''insufficient credits'', ''no credits''],
      fm_all = [], fm_pred = None\<rparr>,
     \<lparr>fm_kind = RATE_LIMITED, fm_status = [429], fm_raw = [], fm_subs = [],
      fm_all = [], fm_pred = None\<rparr>,
     \<lparr>fm_kind = RATE_LIMITED, fm_status = [], fm_raw = [], fm_subs = [''rate limit'', ''rate_limit''],
      fm_all = [], fm_pred = None\<rparr>,
     \<lparr>fm_kind = UNSUPPORTED_FEATURE, fm_status = [], fm_raw = [], fm_subs = [''does not support'', ''unsupported''],
      fm_all = [], fm_pred = None\<rparr>,
     \<lparr>fm_kind = PROVIDER_OVERLOADED, fm_status = gateway_status_codes, fm_raw = [], fm_subs = [],
      fm_all = [], fm_pred = None\<rparr>,
     \<lparr>fm_kind = PROVIDER_OVERLOADED, fm_status = [], fm_raw = [], fm_subs = [''overloaded''],
      fm_all = [], fm_pred = None\<rparr>,
     \<lparr>fm_kind = PROVIDER_OVERLOADED, fm_status = [], fm_raw = [], fm_subs = [],
      fm_all = [], fm_pred = Some is_gateway_transient\<rparr>,
     \<lparr>fm_kind = BAD_REQUEST, fm_status = [400], fm_raw = [], fm_subs = [],
      fm_all = [], fm_pred = None\<rparr>,
     \<lparr>fm_kind = BAD_REQUEST, fm_status = [], fm_raw = [], fm_subs = [''invalid_request''],
      fm_all = [], fm_pred = None\<rparr>]"

definition anthropic_matchers :: "matcher list" where
  "anthropic_matchers =
    [
     \<lparr>fm_kind = MODEL_NOT_FOUND, fm_status = [], fm_raw = [], fm_subs = [],
      fm_all = [], fm_pred = Some is_anthropic_missing_model\<rparr>,
     \<lparr>fm_kind = MODEL_NOT_FOUND, fm_status = [], fm_raw = [], fm_subs = model_unavailable_substrings,
      fm_all = [], fm_pred = None\<rparr>,
     \<lparr>fm_kind = AUTH_INVALID, fm_status = [401], fm_raw = [], fm_subs = [],
      fm_all = [], fm_pred = None\<rparr>,
     \<lparr>fm_kind = AUTH_INVALID, fm_status = [], fm_raw = [], fm_subs = [''authentication_error''],
      fm_all = [], fm_pred = None\<rparr>,
     \<lparr>fm_kind = INSUFFICIENT_CREDITS, fm_status = [402], fm_raw = [], fm_subs = [],
      fm_all = [], fm_pred = None\<rparr>,
     \<lparr>fm_kind = INSUFFICIENT_CREDITS, fm_status = [], fm_raw = [], fm_subs = [''credit balance''],
      fm_all = [], fm_pred = None\<rparr>,
     \<lparr>fm_kind = RATE_LIMITED, fm_status = [429], fm_raw = [], fm_subs = [],
      fm_all = [], fm_pred = None\<rparr>,
     \<lparr>fm_kind = RATE_LIMITED, fm_status = [], fm_raw = [], fm_subs = [''rate_limit_error''],
      fm_all = [], fm_pred = None\<rparr>,
     \<lparr>fm_kind = PROVIDER_OVERLOADED, fm_status = gateway_status_codes, fm_raw = [], fm_subs = [],
      fm_all = [], fm_pred = None\<rparr>,
     \<lparr>fm_kind = PROVIDER_OVERLOADED, fm_status = [], fm_raw = [], fm_subs = [''overloaded_error''],
      fm_all = [], fm_pred = None\<rparr>,
     \<lparr>fm_kind = BAD_REQUEST, fm_status = [], fm_raw = [], fm_subs = [''invalid_request_error''],
      fm_all = [], fm_pred = None\<rparr>]"

definition ollama_matchers :: "matcher list" where
  "ollama_matchers =
    [
     \<lparr>fm_kind = MODEL_NOT_FOUND, fm_status = [], fm_raw = [], fm_subs = [''model not found''],
      fm_all = [], fm_pred = None\<rparr>,
     \<lparr>fm_kind = MODEL_NOT_FOUND, fm_status = [], fm_raw = [], fm_subs = [],
      fm_all = [''pull'', ''model''], fm_pred = None\<rparr>,
     \<lparr>fm_kind = AUTH_INVALID, fm_status = [401], fm_raw = [], fm_subs = [],
      fm_all = [], fm_pred = None\<rparr>,
     \<lparr>fm_kind = AUTH_INVALID, fm_status = [], fm_raw = [], fm_subs = [''unauthorized''],
      fm_all = [], fm_pred = None\<rparr>,
     \<lparr>fm_kind = TRANSPORT_TRANSIENT, fm_status = [], fm_raw = [], fm_subs = [''connection refused'', ''connection error'', ''request error'', ''timeout''],
      fm_all = [], fm_pred = None\<rparr>]"

definition shared_tail_matchers :: "matcher list" where
  "shared_tail_matchers =
    [
     \<lparr>fm_kind = RATE_LIMITED, fm_status = [429], fm_raw = [], fm_subs = [],
      fm_all = [], fm_pred = None\<rparr>,
     \<lparr>fm_kind = RATE_LIMITED, fm_status = [], fm_raw = [], fm_subs = [''rate limit''],
      fm_all = [], fm_pred = None\<rparr>,
     \<lparr>fm_kind = RATE_LIMITED, fm_status = [], fm_raw = [''provider_retry_after_deadline'', ''rate_limit_retry_exhausted''], fm_subs = [],
      fm_all = [], fm_pred = None\<rparr>,
     \<lparr>fm_kind = PROVIDER_OVERLOADED, fm_status = gateway_status_codes, fm_raw = [], fm_subs = [],
      fm_all = [], fm_pred = None\<rparr>,
     \<lparr>fm_kind = PROVIDER_OVERLOADED, fm_status = [], fm_raw = [''provider_overload_retry_after_deadline'', ''provider_overload_retry_wait_exhausted''], fm_subs = [],
      fm_all = [], fm_pred = None\<rparr>,
     \<lparr>fm_kind = PROVIDER_OVERLOADED, fm_status = [], fm_raw = [], fm_subs = [],
      fm_all = [], fm_pred = Some is_gateway_transient\<rparr>,
     \<lparr>fm_kind = MALFORMED_RESPONSE, fm_status = [], fm_raw = [''invalid_stream_frame'', ''invalid_stream_order''], fm_subs = [],
      fm_all = [], fm_pred = None\<rparr>,
     \<lparr>fm_kind = TRANSPORT_TRANSIENT, fm_status = [], fm_raw = [''incomplete_stream'', ''incomplete_tool_call'', ''incomplete_tool_stream'', ''provider_pretext_buffer_exhausted'', ''request_error'', ''connection_failed'', ''response_incomplete''], fm_subs = [],
      fm_all = [], fm_pred = None\<rparr>,
     \<lparr>fm_kind = MALFORMED_RESPONSE, fm_status = [], fm_raw = [], fm_subs = [''malformed'', ''invalid json''],
      fm_all = [], fm_pred = None\<rparr>,
     \<lparr>fm_kind = TRANSPORT_TRANSIENT, fm_status = [], fm_raw = [], fm_subs = [''timeout'', ''request error''],
      fm_all = [], fm_pred = None\<rparr>]"

fun failure_tables :: "string \<Rightarrow> matcher list" where
  "failure_tables f =
     (if f = ''openai_compat'' then openai_compat_matchers
      else if f = ''anthropic'' then anthropic_matchers
      else if f = ''ollama'' then ollama_matchers else [])"

definition structured_kinds :: "(string \<times> failure_kind) list" where
  "structured_kinds =
     [(''account_request_uncertain'', BAD_REQUEST), (''usage_limit'', USAGE_LIMIT),
      (''usage_limit_reached'', USAGE_LIMIT), (''usage_limited'', USAGE_LIMIT),
      (''insufficient_quota'', INSUFFICIENT_CREDITS), (''billing_hard_limit'', INSUFFICIENT_CREDITS),
      (''provider_quota_exceeded'', INSUFFICIENT_CREDITS), (''rate_limit_exceeded'', RATE_LIMITED),
      (''rate_limit_error'', RATE_LIMITED), (''invalid_api_key'', AUTH_INVALID),
      (''authentication_error'', AUTH_INVALID)]"

definition classify_provider_error :: "string \<Rightarrow> int option \<Rightarrow> string \<Rightarrow> string \<Rightarrow> failure_kind" where
  "classify_provider_error provider status raw message =
     (case map_of structured_kinds (py_lower (py_strip raw)) of
        Some k \<Rightarrow> k
      | None \<Rightarrow>
          let s = \<lparr>fs_status_code = status, fs_raw_code = py_lower (py_strip raw),
                   fs_message = message, fs_text = joined status raw message\<rparr>
          in case find (\<lambda>m. matches m s)
                    (shared_pre_matchers @ failure_tables (failure_family (py_lower provider))
                     @ shared_tail_matchers) of
               Some m \<Rightarrow> fm_kind m
             | None \<Rightarrow> UNKNOWN)"

definition decide_recovery_action :: "failure_kind \<Rightarrow> recovery_action" where
  "decide_recovery_action k =
     (if k = CONTEXT_OVERFLOW then COMPACT_AND_RETRY
      else if k \<in> {PROVIDER_OVERLOADED, TRANSPORT_TRANSIENT} then RETRY_THEN_FALLBACK
      else if k \<in> {RATE_LIMITED, INSUFFICIENT_CREDITS, USAGE_LIMIT, MODEL_NOT_FOUND,
                   UNSUPPORTED_FEATURE} then FALLBACK_PROVIDER
      else if k = AUTH_INVALID then FAIL_CONFIG
      else SURFACE)"

section \<open>Facts\<close>

text \<open>A classification that is not \<open>UNKNOWN\<close> is what some row says; rows of the shared tables are
  consulted for every provider.\<close>

lemma find_first_Some: "\<exists>x \<in> set xs. P x \<Longrightarrow> \<exists>y \<in> set xs. P y \<and> find P xs = Some y"
  by (induction xs) auto

lemma classify_find:
  assumes "map_of structured_kinds (py_lower (py_strip raw)) = None"
    and "s = \<lparr>fs_status_code = status, fs_raw_code = py_lower (py_strip raw),
                   fs_message = message, fs_text = joined status raw message\<rparr>"
    and "m \<in> set (shared_pre_matchers @ failure_tables (failure_family (py_lower provider))
                     @ shared_tail_matchers)" and "matches m s"
  shows "\<exists>m' \<in> set (shared_pre_matchers @ failure_tables (failure_family (py_lower provider))
                     @ shared_tail_matchers).
     matches m' s \<and> classify_provider_error provider status raw message = fm_kind m'"
proof -
  from find_first_Some [of "shared_pre_matchers @ failure_tables (failure_family (py_lower provider))
                     @ shared_tail_matchers" "\<lambda>m. matches m s"] assms(3,4)
  obtain m' where m': "m' \<in> set (shared_pre_matchers
        @ failure_tables (failure_family (py_lower provider)) @ shared_tail_matchers)"
      "matches m' s"
      "find (\<lambda>m. matches m s) (shared_pre_matchers
        @ failure_tables (failure_family (py_lower provider)) @ shared_tail_matchers) = Some m'"
    by blast
  have "classify_provider_error provider status raw message = fm_kind m'"
    unfolding classify_provider_error_def assms(1) using m'(3)
    by (simp only: option.case Let_def assms(2) [symmetric])
  then show ?thesis using m'(1,2) by blast
qed

lemma pre_402: "\<lparr>fm_kind = INSUFFICIENT_CREDITS, fm_status = [402], fm_raw = [], fm_subs = [],
      fm_all = [], fm_pred = None\<rparr> \<in> set shared_pre_matchers"
  by (simp add: shared_pre_matchers_def)

lemma tail_gateway: "\<lparr>fm_kind = PROVIDER_OVERLOADED, fm_status = gateway_status_codes, fm_raw = [],
      fm_subs = [], fm_all = [], fm_pred = None\<rparr> \<in> set shared_tail_matchers"
  by (simp add: shared_tail_matchers_def)

lemma tail_429: "\<lparr>fm_kind = RATE_LIMITED, fm_status = [429], fm_raw = [], fm_subs = [],
      fm_all = [], fm_pred = None\<rparr> \<in> set shared_tail_matchers"
  by (simp add: shared_tail_matchers_def)

lemma no_unknown_tables:
  "list_all (\<lambda>m. fm_kind m \<noteq> UNKNOWN) shared_pre_matchers"
  "list_all (\<lambda>m. fm_kind m \<noteq> UNKNOWN) shared_tail_matchers"
  "list_all (\<lambda>m. fm_kind m \<noteq> UNKNOWN) openai_compat_matchers"
  "list_all (\<lambda>m. fm_kind m \<noteq> UNKNOWN) anthropic_matchers"
  "list_all (\<lambda>m. fm_kind m \<noteq> UNKNOWN) ollama_matchers"
  by (simp_all add: shared_pre_matchers_def shared_tail_matchers_def openai_compat_matchers_def
      anthropic_matchers_def ollama_matchers_def)

lemma no_unknown_row:
  assumes "m \<in> set (shared_pre_matchers @ failure_tables f @ shared_tail_matchers)"
  shows "fm_kind m \<noteq> UNKNOWN"
proof -
  have "list_all (\<lambda>m. fm_kind m \<noteq> UNKNOWN)
      (shared_pre_matchers @ failure_tables f @ shared_tail_matchers)"
    using no_unknown_tables by simp
  then show ?thesis using assms unfolding list_all_iff by blast
qed

lemma no_unknown_structured: "map_of structured_kinds r = Some k \<Longrightarrow> k \<noteq> UNKNOWN"
  by (auto simp: structured_kinds_def split: if_splits)

lemma classify_known:
  assumes "m \<in> set shared_pre_matchers \<or> m \<in> set shared_tail_matchers"
    and "matches m \<lparr>fs_status_code = status, fs_raw_code = py_lower (py_strip raw),
                   fs_message = message, fs_text = joined status raw message\<rparr>"
  shows "classify_provider_error provider status raw message \<noteq> UNKNOWN"
proof (cases "map_of structured_kinds (py_lower (py_strip raw))")
  case None
  have "m \<in> set (shared_pre_matchers @ failure_tables (failure_family (py_lower provider))
      @ shared_tail_matchers)" using assms(1) by (simp only: set_append Un_iff) blast
  from classify_find [OF None refl this assms(2)] obtain m' where
    "m' \<in> set (shared_pre_matchers @ failure_tables (failure_family (py_lower provider))
      @ shared_tail_matchers)"
    "classify_provider_error provider status raw message = fm_kind m'" by blast
  then show ?thesis using no_unknown_row by metis
next
  case (Some k)
  then show ?thesis using no_unknown_structured by (simp add: classify_provider_error_def)
qed

text \<open>A status that the shared tables name is enough.\<close>

lemma known_status_kind:
  assumes "n \<in> set ([402, 429] @ gateway_status_codes)"
  shows "classify_provider_error provider (Some n) raw message \<noteq> UNKNOWN"
proof -
  consider "n = 402" | "n = 429" | "n \<in> set gateway_status_codes" using assms by auto
  then show ?thesis
  proof cases
    case 1
    show ?thesis
      by (rule classify_known [OF disjI1 [OF pre_402]]) (simp add: 1 matches_def)
  next
    case 2
    show ?thesis
      by (rule classify_known [OF disjI2 [OF tail_429]]) (simp add: 2 matches_def)
  next
    case 3
    then show ?thesis
      by (intro classify_known [OF disjI2 [OF tail_gateway]])
         (simp add: matches_def)
  qed
qed

text \<open>The gateway pattern needs a word of its context: a bare number is not a gateway failure.\<close>

definition gateway_words :: "string list" where
  "gateway_words = [''http'', ''status'', ''code'', ''cloudflare'', ''openrouter'', ''upstream'',
     ''gateway'', ''backend'']"

lemma gateway_must: "must gateway_words gateway_transient_rx"
  by code_simp

lemma gateway_needs_word: "is_gateway_transient s \<Longrightarrow> \<exists>w \<in> set gateway_words. py_in w (fs_text s)"
  unfolding is_gateway_transient_def by (rule must_search [OF gateway_must])

end
