(* ===== verification/Provider_Retry.thy ===== *)
theory Provider_Retry
  imports Failures
begin

text \<open>
  Retrying one provider: the \<open>Retry-After\<close> cooldowns (\<open>provider/retry_after.py\<close>), the retry loop of one
  stream (\<open>provider/recovery.py\<close>), the retry policy of \<open>engine/fallback.py\<close> and the response-shape
  decisions of \<open>engine/runtime_recovery.py\<close>.

  Finite floats are reals; a hint that may be any float is a \<open>pyfloat\<close>. The clock and the jitter
  (\<open>random.randint(0, base_ms // 2)\<close>) are arguments. A provider object is a number (its \<open>id\<close>), and a
  scope digest, which the code computes with a keyed hash, is a number too.
\<close>

datatype pyfloat = Fin real | PosInf | NegInf | NaN

section \<open>Hints and delays\<close>

fun positive_hint :: "pyfloat option \<Rightarrow> pyfloat" where
  "positive_hint None = Fin 0"
| "positive_hint (Some (Fin x)) = (if 0 < x then Fin x else Fin 0)"
| "positive_hint (Some PosInf) = PosInf"
| "positive_hint (Some NegInf) = Fin 0"
| "positive_hint (Some NaN) = Fin 0"

definition max_automatic_wait :: real where
  "max_automatic_wait = 900"

definition resolve_retry_delay :: "real \<Rightarrow> pyfloat option \<Rightarrow> real \<Rightarrow> real option" where
  "resolve_retry_delay local_delay hint max_wait =
     (case positive_hint hint of
        Fin h \<Rightarrow> if max_wait < h then None else Some (min (max (max 0 local_delay) h) max_wait)
      | _ \<Rightarrow> None)"

section \<open>Cooldowns\<close>

datatype cooling_reason = CoolRateLimited | CoolOverloaded

datatype cool_key = ScopeKey nat | ObjectKey nat

record cooling =
  ce_not_before :: real
  ce_reason :: cooling_reason
  ce_owner :: "nat option"

type_synonym cooldowns = "cool_key \<rightharpoonup> cooling"

definition cool_key_of :: "nat \<Rightarrow> nat option \<Rightarrow> cool_key" where
  "cool_key_of provider scope = (case scope of Some d \<Rightarrow> ScopeKey d | None \<Rightarrow> ObjectKey provider)"

definition cool_expire :: "real \<Rightarrow> cooldowns \<Rightarrow> cooldowns" where
  "cool_expire now m =
     (\<lambda>k. case m k of None \<Rightarrow> None | Some e \<Rightarrow> if ce_not_before e \<le> now then None else Some e)"

definition cool_record ::
  "nat \<Rightarrow> pyfloat option \<Rightarrow> nat option \<Rightarrow> cooling_reason \<Rightarrow> real \<Rightarrow> cooldowns \<Rightarrow> cooldowns" where
  "cool_record provider hint scope reason now m =
     (let m' = cool_expire now m in
      case positive_hint hint of
        Fin h \<Rightarrow>
          if h = 0 then m'
          else
            let key = cool_key_of provider scope;
                owner = (case scope of Some _ \<Rightarrow> None | None \<Rightarrow> Some provider)
            in (case m' key of
                  None \<Rightarrow> m'(key \<mapsto> \<lparr>ce_not_before = max (now + h) now, ce_reason = reason,
                                      ce_owner = owner\<rparr>)
                | Some e \<Rightarrow> m'(key \<mapsto> \<lparr>ce_not_before = max (now + h) (ce_not_before e),
                      ce_reason = (if now + h < ce_not_before e then ce_reason e else reason),
                      ce_owner = owner\<rparr>))
      | _ \<Rightarrow> m')"

definition cool_remaining :: "nat \<Rightarrow> nat option \<Rightarrow> real \<Rightarrow> cooldowns \<Rightarrow> real \<times> cooldowns" where
  "cool_remaining provider scope now m =
     (let m' = cool_expire now m in
      (case m' (cool_key_of provider scope) of
         None \<Rightarrow> 0
       | Some e \<Rightarrow>
           if scope = None \<and> ce_owner e \<noteq> Some provider then 0 else max 0 (ce_not_before e - now),
       m'))"

definition cool_reason :: "nat \<Rightarrow> nat option \<Rightarrow> real \<Rightarrow> cooldowns \<Rightarrow> cooling_reason \<times> cooldowns" where
  "cool_reason provider scope now m =
     (let m' = cool_expire now m in
      (case m' (cool_key_of provider scope) of None \<Rightarrow> CoolRateLimited | Some e \<Rightarrow> ce_reason e, m'))"

text \<open>One pass of the loop in \<open>wait\<close>: what it does at clock reading \<open>now\<close>. (The three readings of a
  pass, its own and those of \<open>remaining\<close> and \<open>reason\<close>, are taken as one.)\<close>

datatype deferred_because = PastDeadline | PastCeiling

datatype wait_outcome =
    WaitTimeout
  | Admit
  | Deferred real deferred_because cooling_reason
  | Sleep real

definition wait_pass ::
  "nat \<Rightarrow> nat option \<Rightarrow> real option \<Rightarrow> real \<Rightarrow> real \<Rightarrow> cooldowns \<Rightarrow> wait_outcome \<times> cooldowns" where
  "wait_pass provider scope deadline wait_deadline now m =
     (if (case deadline of None \<Rightarrow> False | Some d \<Rightarrow> d \<le> now) then (WaitTimeout, m)
      else
        let (remaining, m') = cool_remaining provider scope now m in
        if remaining \<le> 0 then (Admit, m')
        else if (case deadline of None \<Rightarrow> False | Some d \<Rightarrow> d \<le> now + remaining)
        then (Deferred remaining PastDeadline (fst (cool_reason provider scope now m')), m')
        else case resolve_retry_delay 0 (Some (Fin remaining)) (max 0 (wait_deadline - now)) of
               None \<Rightarrow> (Deferred remaining PastCeiling (fst (cool_reason provider scope now m')), m')
             | Some d \<Rightarrow> (Sleep d, m'))"

fun deferred_code :: "deferred_because \<Rightarrow> cooling_reason \<Rightarrow> string" where
  "deferred_code PastDeadline CoolOverloaded = ''provider_overload_retry_after_deadline''"
| "deferred_code PastCeiling CoolOverloaded = ''provider_overload_retry_wait_exhausted''"
| "deferred_code PastDeadline CoolRateLimited = ''provider_retry_after_deadline''"
| "deferred_code PastCeiling CoolRateLimited = ''rate_limit_retry_exhausted''"

fun deferred_message :: "deferred_because \<Rightarrow> string" where
  "deferred_message PastDeadline = ''The provider retry delay exceeds this request deadline.''"
| "deferred_message PastCeiling = ''The provider retry delay exceeds the automatic wait limit.''"

section \<open>The retry loop of one stream\<close>

definition backoff_delay :: "nat \<Rightarrow> int \<Rightarrow> int \<Rightarrow> int \<Rightarrow> real" where
  "backoff_delay attempt base_ms max_ms jitter =
     real_of_int (min (base_ms * 2 ^ attempt + jitter) max_ms) / 1000"

text \<open>\<open>jitter\<close> is what \<open>randint\<close> returned for the base that the chosen branch passes to it.\<close>

definition falsy_float :: "pyfloat option \<Rightarrow> bool" where
  "falsy_float h \<longleftrightarrow> h = None \<or> h = Some (Fin 0)"

definition local_delay :: "failure_kind \<Rightarrow> nat \<Rightarrow> pyfloat option \<Rightarrow> int \<Rightarrow> int \<Rightarrow> bool \<Rightarrow> int \<Rightarrow> real" where
  "local_delay kind attempt hint base_ms max_ms connection jitter =
     (if connection then min 60 (5 * 2 ^ min attempt 4)
      else if kind = RATE_LIMITED \<and> falsy_float hint
      then (if base_ms = 0 \<or> max_ms = 0 then 0
            else backoff_delay attempt (max 10000 base_ms) (max 60000 max_ms) jitter)
      else backoff_delay attempt base_ms max_ms jitter)"

definition recovery_delay ::
  "failure_kind \<Rightarrow> nat \<Rightarrow> pyfloat option \<Rightarrow> int \<Rightarrow> int \<Rightarrow> bool \<Rightarrow> real option \<Rightarrow> real \<Rightarrow> int
   \<Rightarrow> real option" where
  "recovery_delay kind attempt hint base_ms max_ms connection deadline now jitter =
     (case resolve_retry_delay (local_delay kind attempt hint base_ms max_ms connection jitter) hint
             max_automatic_wait of
        None \<Rightarrow> None
      | Some delay \<Rightarrow>
          if (case deadline of None \<Rightarrow> False | Some d \<Rightarrow> d \<le> now + delay) then None
          else Some delay)"

record error_event =
  ee_message :: string
  ee_code :: string
  ee_http_status :: "int option"
  ee_provider_code :: string
  ee_retry_after :: "pyfloat option"
  ee_tool_rejection :: bool
  ee_recovery_exhausted :: bool

definition decimal :: "string \<Rightarrow> int" where
  "decimal s = foldl (\<lambda>n c. 10 * n + (of_char c - 48)) 0 s"

definition transient_failure_kind :: "string \<Rightarrow> error_event \<Rightarrow> failure_kind" where
  "transient_failure_kind provider_name e =
     (let status = (if ee_http_status e = None \<and> length (ee_code e) = 3
                       \<and> list_all is_digit (ee_code e)
                    then Some (decimal (ee_code e)) else ee_http_status e)
      in classify_provider_error provider_name status
           (if ee_provider_code e = [] then ee_code e else ee_provider_code e) (ee_message e))"

record retry_config =
  rc_provider_name :: string
  rc_max_retries :: int
  rc_base_ms :: int
  rc_max_ms :: int
  rc_retry_transient :: bool
  rc_physical_limit :: int
  rc_deadline :: "real option"
  rc_retry_safe :: bool

record retry_state =
  rt_retries :: nat
  rt_connections :: nat
  rt_attempts :: nat

datatype retry_reason = RateLimited | ProviderOverloaded | TransportTransient

record retry_plan =
  rp_delay :: real
  rp_attempt :: nat
  rp_limit :: int
  rp_reason :: retry_reason

datatype error_decision = Surface error_event | Again retry_plan retry_state

definition retryable :: "retry_config \<Rightarrow> failure_kind \<Rightarrow> bool \<Rightarrow> bool" where
  "retryable cfg kind connection \<longleftrightarrow>
     connection \<or> kind = RATE_LIMITED
   \<or> rc_retry_transient cfg \<and> kind \<in> {PROVIDER_OVERLOADED, TRANSPORT_TRANSIENT}"

definition on_error ::
  "retry_config \<Rightarrow> error_event \<Rightarrow> bool \<Rightarrow> int \<Rightarrow> real \<Rightarrow> retry_state \<Rightarrow> error_decision" where
  "on_error cfg e content_started jitter now st =
     (let kind = transient_failure_kind (rc_provider_name cfg) e;
          connection = (ee_code e = ''connection_failed'')
      in if \<not> retryable cfg kind connection \<or> ee_tool_rejection e \<or> ee_recovery_exhausted e
            \<or> content_started \<or> \<not> rc_retry_safe cfg
         then Surface e
         else if 0 < rc_physical_limit cfg \<and> rc_physical_limit cfg \<le> int (rt_attempts st)
         then Surface e
         else if \<not> connection \<and> rc_max_retries cfg \<le> int (rt_retries st)
         then Surface (e\<lparr>ee_recovery_exhausted := True,
                         ee_code := (if kind = RATE_LIMITED then ''rate_limit_retry_exhausted''
                                     else ee_code e)\<rparr>)
         else case recovery_delay kind (if connection then rt_connections st else rt_retries st)
                     (ee_retry_after e) (rc_base_ms cfg) (rc_max_ms cfg) connection
                     (rc_deadline cfg) now jitter of
                None \<Rightarrow> Surface (e\<lparr>ee_recovery_exhausted := True,
                    ee_code := (if kind = RATE_LIMITED then ''provider_retry_after_deadline''
                                else if kind = PROVIDER_OVERLOADED
                                then ''provider_overload_retry_after_deadline'' else ee_code e)\<rparr>)
              | Some delay \<Rightarrow>
                  if connection
                  then let n = rt_connections st + 1 in
                    Again \<lparr>rp_delay = delay, rp_attempt = n, rp_limit = 0,
                           rp_reason = TransportTransient\<rparr> (st\<lparr>rt_connections := n\<rparr>)
                  else let n = rt_retries st + 1 in
                    Again \<lparr>rp_delay = delay, rp_attempt = n, rp_limit = rc_max_retries cfg,
                           rp_reason = (if kind = RATE_LIMITED then RateLimited
                                        else if kind = PROVIDER_OVERLOADED then ProviderOverloaded
                                        else TransportTransient)\<rparr>
                          (st\<lparr>rt_retries := n, rt_connections := 0\<rparr>))"

text \<open>What the world answers, one entry per turn of the loop: the cooldown refuses the dispatch, or
  the stream is dispatched at a clock reading and either ends without an error or yields one, at
  which point content had started or not.\<close>

datatype attempt =
    Refused error_event
  | Clean real
  | Failed real error_event bool int

datatype retry_result = Ended | Surfaced error_event | DeadlineExpired | StillRunning

fun retry_loop ::
  "retry_config \<Rightarrow> attempt list \<Rightarrow> retry_state \<Rightarrow> retry_result \<times> retry_plan list \<times> retry_state" where
  "retry_loop cfg [] st = (StillRunning, [], st)"
| "retry_loop cfg (Refused e # as) st = (Surfaced e, [], st)"
| "retry_loop cfg (Clean now # as) st =
     (let st' = st\<lparr>rt_attempts := rt_attempts st + 1\<rparr> in
      if (case rc_deadline cfg of None \<Rightarrow> False | Some d \<Rightarrow> d \<le> now)
      then (DeadlineExpired, [], st') else (Ended, [], st'))"
| "retry_loop cfg (Failed now e content jitter # as) st =
     (let st' = st\<lparr>rt_attempts := rt_attempts st + 1\<rparr> in
      if (case rc_deadline cfg of None \<Rightarrow> False | Some d \<Rightarrow> d \<le> now)
      then (DeadlineExpired, [], st')
      else case on_error cfg e content jitter now st' of
             Surface e' \<Rightarrow> (Surfaced e', [], st')
           | Again plan st'' \<Rightarrow>
               let (r, plans, final) = retry_loop cfg as st'' in (r, plan # plans, final))"

definition retry_start :: retry_state where
  "retry_start = \<lparr>rt_retries = 0, rt_connections = 0, rt_attempts = 0\<rparr>"

section \<open>Fallback policy\<close>

definition should_retry :: "int \<Rightarrow> failure_kind \<Rightarrow> int \<Rightarrow> bool" where
  "should_retry max_retries kind attempt \<longleftrightarrow>
     (if max_retries \<le> attempt then False
      else kind \<in> {PROVIDER_OVERLOADED, TRANSPORT_TRANSIENT, CONTEXT_OVERFLOW})"

fun index_of :: "'a \<Rightarrow> 'a list \<Rightarrow> nat option" where
  "index_of x [] = None"
| "index_of x (y # ys) = (if x = y then Some 0 else map_option Suc (index_of x ys))"

definition get_fallback_model :: "string list \<Rightarrow> string \<Rightarrow> string option" where
  "get_fallback_model models current =
     (if models = [] then None
      else case index_of current models of
             None \<Rightarrow> Some (models ! 0)
           | Some i \<Rightarrow> if i + 1 < length models then Some (models ! (i + 1)) else None)"

section \<open>Recovery of incomplete responses\<close>

text \<open>The modes are strings, normalised by \<open>normalize_mode\<close> with the set of the modes it admits.
  \<open>model_capabilities\<close> is the pair of its two fields that the code reads.\<close>

definition normalize_mode :: "string list \<Rightarrow> string option \<Rightarrow> string \<Rightarrow> string" where
  "normalize_mode modes v dflt =
     (let raw = py_lower (py_strip (case v of None \<Rightarrow> dflt | Some [] \<Rightarrow> dflt | Some s \<Rightarrow> s))
      in if raw \<in> set modes then raw else if dflt \<in> set modes then dflt else ''log'')"

definition normalize_runtime_recovery_mode :: "string option \<Rightarrow> string \<Rightarrow> string" where
  "normalize_runtime_recovery_mode = normalize_mode [''off'', ''log'', ''warn_model'']"

definition normalize_reasoning_prefill_recovery_mode :: "string option \<Rightarrow> string \<Rightarrow> string" where
  "normalize_reasoning_prefill_recovery_mode = normalize_mode [''off'', ''log'', ''recover'']"

definition supports_reasoning_prefill_replay ::
  "(bool \<times> string) option \<Rightarrow> string option \<Rightarrow> string option \<Rightarrow> bool" where
  "supports_reasoning_prefill_replay capabilities reasoning signature =
     (if (case reasoning of None \<Rightarrow> True | Some r \<Rightarrow> blank r) then False
      else if (case signature of None \<Rightarrow> False | Some s \<Rightarrow> s \<noteq> []) then True
      else case capabilities of
             None \<Rightarrow> False
           | Some (supports, fmt) \<Rightarrow> supports \<and> fmt \<in> {''openrouter'', ''deepseek''})"

datatype runtime_action = Observe | Prefill | Nudge

record runtime_decision =
  rd_action :: runtime_action
  rd_mechanism :: string
  rd_reason :: string
  rd_mode :: string
  rd_injected :: bool
  rd_message :: "string option"

definition reasoning_continuation_message :: string where
  "reasoning_continuation_message =
     ''[Runtime recovery]'' @ [CHR 0x0A] @
     ''The previous response contained private reasoning but no visible answer or '' @
     ''tool call. Continue now with the next concrete tool call or a concise '' @
     ''visible response. Do not repeat the private reasoning.''"

definition post_tool_empty_message :: string where
  "post_tool_empty_message =
     ''[Runtime recovery]'' @ [CHR 0x0A] @
     ''The previous response after tool results had no visible content. Process the '' @
     ''tool results above and continue with the next concrete step.''"

definition reasoning_prefill_decision ::
  "string \<Rightarrow> string \<Rightarrow> string \<Rightarrow> bool \<Rightarrow> bool \<Rightarrow> runtime_decision option" where
  "reasoning_prefill_decision global mode kind attempted replay =
     (if global = ''off'' \<or> mode = ''off'' then None
      else if kind \<noteq> ''reasoning_only'' \<or> attempted \<or> \<not> replay then None
      else let injected = (mode = ''recover'') in
        Some \<lparr>rd_action = (if injected then Prefill else Observe),
              rd_mechanism = ''reasoning_prefill_recovery'',
              rd_reason = ''reasoning_only_prefill_continuation'', rd_mode = mode,
              rd_injected = injected, rd_message = None\<rparr>)"

definition reasoning_continuation_decision ::
  "string \<Rightarrow> string \<Rightarrow> string \<Rightarrow> bool \<Rightarrow> bool \<Rightarrow> string option \<Rightarrow> runtime_decision option" where
  "reasoning_continuation_decision global mode kind attempted replay fmt =
     (if global = ''off'' \<or> mode = ''off'' then None
      else if kind \<noteq> ''reasoning_only'' \<or> attempted \<or> replay then None
      else if py_lower (py_strip (case fmt of None \<Rightarrow> [] | Some s \<Rightarrow> s)) \<noteq> ''dashscope'' then None
      else let injected = (mode = ''recover'') in
        Some \<lparr>rd_action = (if injected then Nudge else Observe),
              rd_mechanism = ''reasoning_continuation_recovery'',
              rd_reason = ''reasoning_only_visible_continuation'', rd_mode = mode,
              rd_injected = injected,
              rd_message = (if injected then Some reasoning_continuation_message else None)\<rparr>)"

definition post_tool_empty_decision ::
  "string \<Rightarrow> string \<Rightarrow> string \<Rightarrow> bool \<Rightarrow> bool \<Rightarrow> bool \<Rightarrow> runtime_decision option" where
  "post_tool_empty_decision global mode kind post_tool attempted reasoning_present =
     (if global = ''off'' \<or> mode = ''off'' then None
      else if attempted \<or> \<not> post_tool then None
      else if kind \<noteq> ''malformed_empty'' \<or> reasoning_present then None
      else let injected = (mode = ''warn_model'') in
        Some \<lparr>rd_action = (if injected then Nudge else Observe),
              rd_mechanism = ''post_tool_empty_recovery'',
              rd_reason = ''empty_response_after_tool_results'', rd_mode = mode,
              rd_injected = injected,
              rd_message = (if injected then Some post_tool_empty_message else None)\<rparr>)"

section \<open>Facts about the retry loop\<close>

lemma resolve_bounds:
  assumes "resolve_retry_delay l hint m = Some d" and "0 \<le> m"
  shows "0 \<le> d \<and> d \<le> m \<and> (\<forall>h. hint = Some (Fin h) \<longrightarrow> h \<le> d)"
  using assms by (cases "(hint, l)" rule: prod.exhaust; cases "positive_hint hint")
    (auto simp: resolve_retry_delay_def split: if_splits)

lemma recovery_delay_bounds:
  assumes "recovery_delay k n hint b m conn deadline now j = Some d"
  shows "0 \<le> d" and "d \<le> 900" and "\<And>h. hint = Some (Fin h) \<Longrightarrow> h \<le> d"
    and "\<And>t. deadline = Some t \<Longrightarrow> now + d < t"
proof -
  from assms have r: "resolve_retry_delay (local_delay k n hint b m conn j) hint max_automatic_wait
      = Some d" and dl: "\<And>t. deadline = Some t \<Longrightarrow> now + d < t"
    by (auto simp: recovery_delay_def split: option.splits if_splits)
  show "0 \<le> d" "d \<le> 900" "\<And>h. hint = Some (Fin h) \<Longrightarrow> h \<le> d"
    using resolve_bounds [OF r] by (auto simp: max_automatic_wait_def)
  show "\<And>t. deadline = Some t \<Longrightarrow> now + d < t" by (rule dl)
qed

lemma on_error_Again:
  assumes "on_error cfg e content j now st = Again plan st'"
  shows "\<not> content" and "\<not> ee_tool_rejection e" and "\<not> ee_recovery_exhausted e"
    and "0 < rc_physical_limit cfg \<Longrightarrow> int (rt_attempts st) < rc_physical_limit cfg"
    and "rt_attempts st' = rt_attempts st"
    and "ee_code e = ''connection_failed'' \<Longrightarrow> rt_retries st' = rt_retries st"
    and "ee_code e \<noteq> ''connection_failed'' \<Longrightarrow>
      int (rt_retries st) < rc_max_retries cfg \<and> rt_retries st' = rt_retries st + 1"
    and "\<exists>k n conn. recovery_delay k n (ee_retry_after e) (rc_base_ms cfg) (rc_max_ms cfg) conn
           (rc_deadline cfg) now j = Some (rp_delay plan)"
  using assms unfolding on_error_def Let_def
  by (auto split: if_splits option.splits) blast+

text \<open>A bound on the retries of a loop is an invariant of its state.\<close>

definition within_budget :: "retry_config \<Rightarrow> retry_state \<Rightarrow> bool" where
  "within_budget cfg st \<longleftrightarrow> int (rt_retries st) \<le> max 0 (rc_max_retries cfg)
     \<and> (0 < rc_physical_limit cfg \<longrightarrow> int (rt_attempts st) < rc_physical_limit cfg)"

lemma retry_loop_budget:
  assumes "retry_loop cfg as st = (r, plans, final)" and "within_budget cfg st"
  shows "int (rt_retries final) \<le> max 0 (rc_max_retries cfg)
    \<and> (0 < rc_physical_limit cfg \<longrightarrow> int (rt_attempts final) \<le> rc_physical_limit cfg)
    \<and> rt_attempts final \<le> rt_attempts st + length plans + 1"
  using assms
proof (induction cfg as st arbitrary: plans rule: retry_loop.induct)
  case (4 cfg now e content j as st)
  define st1 where "st1 = st\<lparr>rt_attempts := rt_attempts st + 1\<rparr>"
  show ?case
  proof (cases "(case rc_deadline cfg of None \<Rightarrow> False | Some d \<Rightarrow> d \<le> now)
      \<or> (\<exists>e'. on_error cfg e content j now st1 = Surface e')")
    case True
    then have "final = st1"
      using "4.prems"(1) by (auto simp: st1_def Let_def split: error_decision.splits option.splits if_splits)
    then show ?thesis using "4.prems"(2) by (auto simp: st1_def within_budget_def)
  next
    case False
    then obtain plan st2 where again: "on_error cfg e content j now st1 = Again plan st2"
        and dl: "\<not> (case rc_deadline cfg of None \<Rightarrow> False | Some d \<Rightarrow> d \<le> now)"
      by (cases "on_error cfg e content j now st1") auto
    obtain r' plans' final' where rest: "retry_loop cfg as st2 = (r', plans', final')"
      by (metis prod_cases3)
    have eqs: "r' = r" "plans = plan # plans'" "final' = final"
      using "4.prems"(1) again dl rest by (simp_all add: st1_def)
    note a = on_error_Again [OF again]
    have "within_budget cfg st2"
      using a(4-7) "4.prems"(2)
      by (cases "ee_code e = ''connection_failed''") (auto simp: within_budget_def st1_def)
    from "4.IH" [OF _ dl _ _ this, of st1 plan plans'] again rest eqs
    show ?thesis using a(5) by (simp add: st1_def)
  qed
qed (auto simp: within_budget_def Let_def split: if_splits)

lemma retry_loop_plans:
  assumes "retry_loop cfg as st = (r, plans, final)" and "i < length plans"
  shows "\<exists>now e j. i < length as \<and> as ! i = Failed now e False j
    \<and> \<not> ee_tool_rejection e \<and> \<not> ee_recovery_exhausted e
    \<and> 0 \<le> rp_delay (plans ! i) \<and> rp_delay (plans ! i) \<le> 900
    \<and> (\<forall>h. ee_retry_after e = Some (Fin h) \<longrightarrow> h \<le> rp_delay (plans ! i))
    \<and> (\<forall>t. rc_deadline cfg = Some t \<longrightarrow> now + rp_delay (plans ! i) < t)"
  using assms
proof (induction cfg as st arbitrary: plans i rule: retry_loop.induct)
  case (4 cfg now e content j as st)
  define st1 where "st1 = st\<lparr>rt_attempts := rt_attempts st + 1\<rparr>"
  from "4.prems" obtain plan st2 where again: "on_error cfg e content j now st1 = Again plan st2"
      and dl: "\<not> (case rc_deadline cfg of None \<Rightarrow> False | Some d \<Rightarrow> d \<le> now)"
    by (cases "on_error cfg e content j now st1")
       (auto simp: st1_def Let_def split: if_splits)
  obtain r' plans' final' where rest: "retry_loop cfg as st2 = (r', plans', final')"
    by (metis prod_cases3)
  have eqs: "r' = r" "plans = plan # plans'" "final' = final"
    using "4.prems"(1) again dl rest by (simp_all add: st1_def)
  note a = on_error_Again [OF again]
  show ?case
  proof (cases i)
    case 0
    from a(8) obtain k n conn where "recovery_delay k n (ee_retry_after e) (rc_base_ms cfg)
        (rc_max_ms cfg) conn (rc_deadline cfg) now j = Some (rp_delay plan)" by blast
    from recovery_delay_bounds [OF this] a(1-3) show ?thesis by (auto simp: 0 eqs)
  next
    case (Suc i')
    from "4.IH" [OF _ dl _ _ , of st1 plan st2 plans' i'] again rest eqs Suc "4.prems"(2)
    show ?thesis by (simp add: st1_def)
  qed
qed (auto simp: Let_def split: if_splits)

text \<open>Failures that are not connection failures use the budget up.\<close>

fun connection_attempt :: "attempt \<Rightarrow> bool" where
  "connection_attempt (Failed _ e _ _) = (ee_code e = ''connection_failed'')"
| "connection_attempt _ = False"

lemma retry_loop_ends:
  assumes "list_all (\<lambda>a. \<not> connection_attempt a) as"
    and "nat (rc_max_retries cfg) < length as + rt_retries st"
    and "retry_loop cfg as st = (r, plans, final)" and "as \<noteq> []"
  shows "r \<noteq> StillRunning"
  using assms
proof (induction cfg as st arbitrary: plans rule: retry_loop.induct)
  case (4 cfg now e content j as st)
  define st1 where "st1 = st\<lparr>rt_attempts := rt_attempts st + 1\<rparr>"
  show ?case
  proof (cases "(case rc_deadline cfg of None \<Rightarrow> False | Some d \<Rightarrow> d \<le> now)
      \<or> (\<exists>e'. on_error cfg e content j now st1 = Surface e')")
    case True
    then show ?thesis
      using "4.prems"(3) by (auto simp: st1_def Let_def split: error_decision.splits option.splits if_splits)
  next
    case False
    then obtain plan st2 where again: "on_error cfg e content j now st1 = Again plan st2"
        and dl: "\<not> (case rc_deadline cfg of None \<Rightarrow> False | Some d \<Rightarrow> d \<le> now)"
      by (cases "on_error cfg e content j now st1") auto
    obtain r' plans' final' where rest: "retry_loop cfg as st2 = (r', plans', final')"
      by (metis prod_cases3)
    have eqs: "r' = r" "final' = final"
      using "4.prems"(3) again dl rest by (simp_all add: st1_def)
    from on_error_Again(7) [OF again] "4.prems"(1)
    have n: "int (rt_retries st) < rc_max_retries cfg" "rt_retries st2 = rt_retries st + 1"
      by (simp_all add: st1_def)
    then have "as \<noteq> []" using "4.prems"(2) by auto
    with "4.IH" [OF _ dl _ _ _ , of st1 plan st2 plans'] again rest eqs "4.prems"(1,2) n
    show ?thesis by (simp add: st1_def)
  qed
qed (auto simp: Let_def split: if_splits)

section \<open>What the retry loop promises\<close>

definition demo_error :: error_event where
  "demo_error = \<lparr>ee_message = [], ee_code = ''429'', ee_http_status = None,
     ee_provider_code = ''rate_limit_exceeded'', ee_retry_after = Some (Fin 2),
     ee_tool_rejection = False, ee_recovery_exhausted = False\<rparr>"

definition demo_retry :: retry_config where
  "demo_retry = \<lparr>rc_provider_name = ''openai'', rc_max_retries = 1, rc_base_ms = 1000,
     rc_max_ms = 30000, rc_retry_transient = True, rc_physical_limit = 0, rc_deadline = Some 100,
     rc_retry_safe = True\<rparr>"

lemma demo_kind: "transient_failure_kind ''openai'' demo_error = RATE_LIMITED"
  by (simp add: transient_failure_kind_def demo_error_def classify_provider_error_def
      structured_kinds_def py_strip_def py_rstrip_def py_lstrip_def py_isspace_def py_lower_def
      py_lower_char_def)

lemma demo_again:
  "on_error demo_retry demo_error False 0 0 \<lparr>rt_retries = 0, rt_connections = 0, rt_attempts = Suc 0\<rparr>
   = Again \<lparr>rp_delay = 2, rp_attempt = 1, rp_limit = 1, rp_reason = RateLimited\<rparr>
       \<lparr>rt_retries = 1, rt_connections = 0, rt_attempts = Suc 0\<rparr>"
proof -
  have "recovery_delay RATE_LIMITED 0 (Some (Fin 2)) 1000 30000 False (Some 100) 0 0 = Some 2"
    by (simp add: recovery_delay_def local_delay_def falsy_float_def resolve_retry_delay_def
        backoff_delay_def max_automatic_wait_def)
  moreover have "rc_provider_name demo_retry = ''openai''" by (simp add: demo_retry_def)
  ultimately show ?thesis
    unfolding on_error_def by (simp only: demo_kind) (simp add: demo_error_def demo_retry_def retryable_def)
qed

lemma demo_loop: "retry_loop demo_retry [Failed 0 demo_error False 0, Clean 3] retry_start
    = (Ended, [\<lparr>rp_delay = 2, rp_attempt = 1, rp_limit = 1, rp_reason = RateLimited\<rparr>],
       \<lparr>rt_retries = 1, rt_connections = 0, rt_attempts = 2\<rparr>)"
proof -
  have "rc_deadline demo_retry = Some 100" by (simp add: demo_retry_def)
  then show ?thesis by (simp add: retry_start_def demo_again)
qed



text \<open>C24: What the loop retries and how long it waits. Every planned retry answers an attempt that
  failed before any content was committed, whose error does not reject tool arguments and was not
  already exhausted by an inner owner; the wait lies between 0 and 900 seconds, is never shorter
  than the provider's own \<open>Retry-After\<close>, and ends before the turn's deadline.\<close>

theorem retry_plans_sound:
  assumes "retry_loop cfg as st = (r, plans, final)" and "i < length plans"
  shows "\<exists>now e j. i < length as \<and> as ! i = Failed now e False j
    \<and> \<not> ee_tool_rejection e \<and> \<not> ee_recovery_exhausted e
    \<and> 0 \<le> rp_delay (plans ! i) \<and> rp_delay (plans ! i) \<le> 900
    \<and> (\<forall>h. ee_retry_after e = Some (Fin h) \<longrightarrow> h \<le> rp_delay (plans ! i))
    \<and> (\<forall>t. rc_deadline cfg = Some t \<longrightarrow> now + rp_delay (plans ! i) < t)"
  by (rule retry_loop_plans [OF assms])

theorem retry_plans_sound_witness:
  "\<exists>now e j. [Failed 0 demo_error False 0, Clean 3] ! 0 = Failed now e False j
    \<and> (\<forall>t. rc_deadline demo_retry = Some t \<longrightarrow> now + 2 < t)"
  using retry_plans_sound [OF demo_loop, of 0] by auto

section \<open>Cooldowns are kept\<close>

record cool_call =
  cc_provider :: nat
  cc_hint :: "pyfloat option"
  cc_scope :: "nat option"
  cc_reason :: cooling_reason
  cc_at :: real

definition cool_run :: "cool_call list \<Rightarrow> cooldowns \<Rightarrow> cooldowns" where
  "cool_run = fold (\<lambda>c. cool_record (cc_provider c) (cc_hint c) (cc_scope c) (cc_reason c) (cc_at c))"

text \<open>The entry of \<open>k\<close> holds until \<open>t\<close>, and belongs to the provider when the key is an object's.\<close>

definition held_until :: "nat \<Rightarrow> nat option \<Rightarrow> real \<Rightarrow> cooldowns \<Rightarrow> bool" where
  "held_until p s t m \<longleftrightarrow>
     (\<exists>e. m (cool_key_of p s) = Some e \<and> t \<le> ce_not_before e \<and> (s = None \<longrightarrow> ce_owner e = Some p))"

lemma cool_key_inj: "cool_key_of p None = cool_key_of q s \<Longrightarrow> s = None \<and> q = p"
  by (cases s) (simp_all add: cool_key_of_def)

lemma held_expire: "held_until p s t m \<Longrightarrow> now < t \<Longrightarrow> held_until p s t (cool_expire now m)"
  by (auto simp: held_until_def cool_expire_def)

lemma held_record:
  assumes "held_until p s t m" and "now < t"
  shows "held_until p s t (cool_record q hint s' r now m)"
proof -
  have held: "held_until p s t (cool_expire now m)" using assms by (rule held_expire)
  show ?thesis
  proof (cases "positive_hint hint")
    case (Fin h)
    show ?thesis
    proof (cases "h = 0 \<or> cool_key_of q s' \<noteq> cool_key_of p s")
      case True
      then show ?thesis using held Fin
        by (auto simp: cool_record_def held_until_def Let_def split: option.split)
    next
      case False
      then have key: "cool_key_of q s' = cool_key_of p s" "h \<noteq> 0" by simp_all
      have owner: "s = None \<Longrightarrow> s' = None \<and> q = p" using key(1) cool_key_inj by metis
      show ?thesis using held Fin key owner
        by (auto simp: cool_record_def held_until_def Let_def split: option.split)
    qed
  qed (use held in \<open>simp_all add: cool_record_def Let_def\<close>)
qed

lemma held_recorded:
  assumes "0 < h"
  shows "held_until p s (now + h) (cool_record p (Some (Fin h)) s r now m)"
  using assms by (auto simp: cool_record_def held_until_def Let_def split: option.split)

lemma held_run:
  assumes "c \<in> set cs" and "sorted (map cc_at cs)" and "list_all (\<lambda>c. cc_at c \<le> now) cs"
    and "cc_hint c = Some (Fin h)" and "now < cc_at c + h"
  shows "held_until (cc_provider c) (cc_scope c) (cc_at c + h) (cool_run cs m)"
  using assms
proof (induction cs arbitrary: m)
  case (Cons x xs)
  have keep: "held_until p s t (cool_run xs m')"
    if "held_until p s t m'" "now < t" for p s t m'
    using that Cons.prems(3) unfolding cool_run_def
    by (induction xs arbitrary: m') (simp_all add: held_record)
  show ?case
  proof (cases "c = x")
    case True
    then have "0 < h" using Cons.prems(3,5) by simp
    from held_recorded [OF this, of "cc_provider x" "cc_scope x" "cc_at x" "cc_reason x" m]
    show ?thesis using keep Cons.prems(4,5) True by (simp add: cool_run_def)
  next
    case False
    with Cons show ?thesis by (simp add: cool_run_def)
  qed
qed simp

lemma held_wait:
  assumes "held_until p s t m" and "now < t"
  shows "fst (wait_pass p s deadline wd now m) \<noteq> Admit"
    and "fst (wait_pass p s deadline wd now m) = Sleep d \<Longrightarrow> t \<le> now + d"
proof -
  obtain e where e: "cool_expire now m (cool_key_of p s) = Some e" "t \<le> ce_not_before e"
      "s = None \<longrightarrow> ce_owner e = Some p"
    using held_expire [OF assms] by (auto simp: held_until_def)
  define rem where "rem = ce_not_before e - now"
  have rem: "0 < rem" "t \<le> now + rem" using e(2) assms(2) by (simp_all add: rem_def)
  have remaining: "cool_remaining p s now m = (rem, cool_expire now m)"
    using e rem by (auto simp: cool_remaining_def Let_def rem_def)
  show "fst (wait_pass p s deadline wd now m) \<noteq> Admit"
    using rem by (auto simp: wait_pass_def remaining split: option.split)
  show "t \<le> now + d" if "fst (wait_pass p s deadline wd now m) = Sleep d"
    using that rem
    by (auto simp: wait_pass_def remaining resolve_retry_delay_def split: option.splits if_splits)
qed



section \<open>The fallback chain\<close>

fun fallback_chain :: "string list \<Rightarrow> nat \<Rightarrow> string \<Rightarrow> string option" where
  "fallback_chain models 0 m = Some m"
| "fallback_chain models (Suc n) m =
     (case get_fallback_model models m of None \<Rightarrow> None | Some m' \<Rightarrow> fallback_chain models n m')"

lemma index_of_nth: "distinct xs \<Longrightarrow> i < length xs \<Longrightarrow> index_of (xs ! i) xs = Some i"
  by (induction xs arbitrary: i) (auto simp: nth_Cons split: nat.splits)

lemma index_of_None: "index_of x xs = None \<longleftrightarrow> x \<notin> set xs"
  by (induction xs) auto

lemma fallback_chain_member:
  assumes "distinct models" and "i < length models"
  shows "fallback_chain models n (models ! i)
    = (if i + n < length models then Some (models ! (i + n)) else None)"
  using assms(2)
proof (induction n arbitrary: i)
  case (Suc n)
  have "get_fallback_model models (models ! i)
      = (if i + 1 < length models then Some (models ! (i + 1)) else None)"
    using Suc.prems index_of_nth [OF assms(1)] by (auto simp: get_fallback_model_def)
  then show ?case using Suc.IH [of "i + 1"] by simp
qed simp

text \<open>With distinct fallback models, falling back from the primary model (one that is not among
  them) walks the list from its start, one model a step, each once, and then stops; from a member it
  walks on from its place. So no chain of fallbacks is longer than the list.\<close>

theorem fallback_walks_list:
  assumes "distinct models"
  shows "(m \<notin> set models \<longrightarrow> fallback_chain models (Suc n) m
            = (if n < length models then Some (models ! n) else None))
    \<and> (i < length models \<longrightarrow> fallback_chain models n (models ! i)
            = (if i + n < length models then Some (models ! (i + n)) else None))"
proof -
  have "fallback_chain models (Suc n) m
      = (if n < length models then Some (models ! n) else None)" if "m \<notin> set models"
  proof (cases "models = []")
    case False
    then have "get_fallback_model models m = Some (models ! 0)"
      using that index_of_None [of m models] by (simp add: get_fallback_model_def)
    then show ?thesis using fallback_chain_member [OF assms, of 0 n] False by simp
  qed (simp add: get_fallback_model_def)
  then show ?thesis using fallback_chain_member [OF assms] by blast
qed

theorem fallback_walks_list_witness:
  "fallback_chain [''a'', ''b''] 2 ''p'' = Some ''b'' \<and> fallback_chain [''a'', ''b''] 3 ''p'' = None"
  using fallback_walks_list [of "[''a'', ''b'']" "''p''" 1 0]
    fallback_walks_list [of "[''a'', ''b'']" "''p''" 2 0] by (simp add: numeral_2_eq_2 numeral_3_eq_3)

section \<open>Classification\<close>

text \<open>For every provider, raw code and message, an HTTP 402, 429 or gateway status is classified:
  the result is not \<open>UNKNOWN\<close>, whichever tables the provider's family selects. And the gateway
  pattern is scoped: text without any of the words http, status, code, cloudflare, openrouter,
  upstream, gateway or backend never counts as a gateway failure, whatever numbers it has.\<close>

theorem statuses_are_classified:
  "(n \<in> set ([402, 429] @ gateway_status_codes)
      \<longrightarrow> classify_provider_error provider (Some n) raw message \<noteq> UNKNOWN)
   \<and> (list_all (\<lambda>w. \<not> py_in w (fs_text s)) gateway_words \<longrightarrow> \<not> is_gateway_transient s)"
  using known_status_kind gateway_needs_word [of s] by (auto simp: list_all_iff)

theorem statuses_are_classified_witness:
  "classify_provider_error ''groq'' (Some 503) [] [] \<noteq> UNKNOWN
   \<and> \<not> is_gateway_transient \<lparr>fs_status_code = None, fs_raw_code = [], fs_message = [],
        fs_text = ''520 tokens''\<rparr>"
proof -
  have "503 \<in> set ([402, 429] @ gateway_status_codes)" by (simp add: gateway_status_codes_def)
  moreover have "list_all (\<lambda>w. \<not> py_in w ''520 tokens'') gateway_words" by code_simp
  ultimately show ?thesis
    using statuses_are_classified [of 503 "''groq''" "[]" "[]" "\<lparr>fs_status_code = None,
      fs_raw_code = [], fs_message = [], fs_text = ''520 tokens''\<rparr>"] by simp
qed

end
