(* ===== verification/Health.thy ===== *)
theory Health
  imports Failures
begin

text \<open>
  The health ledger of provider deployments (\<open>engine/routing/health.py\<close>) and the credential pool
  (\<open>provider/credentials.py\<close>). Clock readings are arguments, as reals; the lock makes each method one
  step. \<open>eligible\<close> iterates over a Python set: the order in which it meets the alternatives is an
  argument, and the theorems hold for every order.
\<close>

section \<open>The ledger\<close>

type_synonym deployment = "string \<times> string"

record health =
  hl_threshold :: int
  hl_cooldown :: real
  hl_max_cooldown :: real
  hl_strikes :: "deployment \<rightharpoonup> int"
  hl_benched :: "deployment \<rightharpoonup> real"

definition deployment_key :: "string \<Rightarrow> string \<Rightarrow> deployment" where
  "deployment_key provider model = (py_lower (py_strip provider), py_strip model)"

definition new_health :: "int \<Rightarrow> real \<Rightarrow> real \<Rightarrow> py_exc + health" where
  "new_health threshold cooldown max_cooldown =
     checked
       [(threshold < 1, ValueError ''failure_threshold must be >= 1''),
        (cooldown \<le> 0, ValueError ''cooldown_s must be positive''),
        (max_cooldown < cooldown, ValueError ''max_cooldown_s must be >= cooldown_s'')]
       (Inr \<lparr>hl_threshold = threshold, hl_cooldown = cooldown, hl_max_cooldown = max_cooldown,
             hl_strikes = Map.empty, hl_benched = Map.empty\<rparr>)"

definition benchable :: "failure_kind \<Rightarrow> bool" where
  "benchable k \<longleftrightarrow> k \<in> {RATE_LIMITED, PROVIDER_OVERLOADED, TRANSPORT_TRANSIENT, EMPTY_RESPONSE,
     MALFORMED_RESPONSE}"

definition expire :: "deployment \<Rightarrow> real \<Rightarrow> health \<Rightarrow> health" where
  "expire key ts h =
     (case hl_benched h key of
        None \<Rightarrow> h
      | Some until \<Rightarrow> if until \<le> ts then h\<lparr>hl_benched := (hl_benched h)(key := None)\<rparr> else h)"

definition cooldown_for :: "real option \<Rightarrow> health \<Rightarrow> real" where
  "cooldown_for retry_after h =
     (case retry_after of None \<Rightarrow> hl_cooldown h | Some s \<Rightarrow> min (max s 0) (hl_max_cooldown h))"

definition is_in :: "deployment \<Rightarrow> health \<Rightarrow> bool" where
  "is_in key h \<longleftrightarrow> hl_benched h key \<noteq> None"

definition record_failure ::
  "string \<Rightarrow> string \<Rightarrow> failure_kind \<Rightarrow> real option \<Rightarrow> real \<Rightarrow> health \<Rightarrow> bool \<times> health" where
  "record_failure provider model kind retry_after ts h =
     (let key = deployment_key provider model;
          h1 = expire key ts h
      in if \<not> benchable kind then (is_in key h1, h1)
         else
           let strikes = (case hl_strikes h1 key of None \<Rightarrow> 0 | Some n \<Rightarrow> n) + 1;
               h2 = h1\<lparr>hl_strikes := (hl_strikes h1)(key \<mapsto> strikes)\<rparr>;
               immediate = (kind = RATE_LIMITED)
           in if \<not> immediate \<and> strikes < hl_threshold h2 then (is_in key h2, h2)
              else
                let benched_until = ts + cooldown_for retry_after h2;
                    h3 = h2\<lparr>hl_strikes := (hl_strikes h2)(key := None)\<rparr>
                in if (case hl_benched h3 key of None \<Rightarrow> False | Some u \<Rightarrow> benched_until \<le> u)
                   then (True, h3)
                   else (True, h3\<lparr>hl_benched := (hl_benched h3)(key \<mapsto> benched_until)\<rparr>))"

definition record_success :: "string \<Rightarrow> string \<Rightarrow> health \<Rightarrow> health" where
  "record_success provider model h =
     (let key = deployment_key provider model in
      h\<lparr>hl_strikes := (hl_strikes h)(key := None), hl_benched := (hl_benched h)(key := None)\<rparr>)"

definition is_benched :: "string \<Rightarrow> string \<Rightarrow> real \<Rightarrow> health \<Rightarrow> bool \<times> health" where
  "is_benched provider model ts h =
     (let key = deployment_key provider model; h' = expire key ts h in (is_in key h', h'))"

fun any_free :: "deployment list \<Rightarrow> real \<Rightarrow> health \<Rightarrow> bool \<times> health" where
  "any_free [] ts h = (False, h)"
| "any_free (alt # alts) ts h =
     (let h' = expire alt ts h in if \<not> is_in alt h' then (True, h') else any_free alts ts h')"

definition eligible ::
  "string \<Rightarrow> string \<Rightarrow> deployment list \<Rightarrow> real \<Rightarrow> health \<Rightarrow> bool \<times> health" where
  "eligible provider model alternatives ts h =
     (let key = deployment_key provider model; h' = expire key ts h
      in if \<not> is_in key h' then (True, h')
         else let (free, h'') = any_free alternatives ts h' in (\<not> free, h''))"

text \<open>The iteration orders that the code may use for the candidates of a query.\<close>

definition set_order :: "(string \<times> string) list \<Rightarrow> deployment \<Rightarrow> deployment list \<Rightarrow> bool" where
  "set_order candidates key alts \<longleftrightarrow>
     set alts = set (map (\<lambda>(p, m). deployment_key p m) candidates) - {key} \<and> distinct alts"

section \<open>Benched\<close>

definition benched_at :: "deployment \<Rightarrow> real \<Rightarrow> health \<Rightarrow> bool" where
  "benched_at key ts h \<longleftrightarrow> (case hl_benched h key of None \<Rightarrow> False | Some u \<Rightarrow> ts < u)"

lemma expire_in [simp]: "is_in key (expire key ts h) = benched_at key ts h"
  by (auto simp: is_in_def expire_def benched_at_def split: option.split)

lemma expire_benched [simp]: "benched_at k ts (expire key ts h) = benched_at k ts h"
  by (auto simp: expire_def benched_at_def split: option.split)

lemma any_free_iff: "fst (any_free alts ts h) \<longleftrightarrow> (\<exists>a \<in> set alts. \<not> benched_at a ts h)"
  by (induction alts ts h rule: any_free.induct) (simp_all add: Let_def)

lemma eligible_iff:
  "fst (eligible p m alts ts h) \<longleftrightarrow>
     \<not> benched_at (deployment_key p m) ts h \<or> (\<forall>a \<in> set alts. benched_at a ts h)"
  by (simp add: eligible_def Let_def split_beta any_free_iff)

lemma is_benched_iff: "fst (is_benched p m ts h) \<longleftrightarrow> benched_at (deployment_key p m) ts h"
  by (simp add: is_benched_def Let_def)

text \<open>C30: Routing is never stranded. For every non-empty candidate set and every state of the ledger
  some candidate is eligible, in whatever order the sets are iterated; and a deployment is refused
  exactly when it is benched and some other candidate is not.\<close>

theorem routing_never_stranded:
  assumes "candidates \<noteq> []"
  shows "(\<exists>(p, m) \<in> set candidates. \<forall>alts. set_order candidates (deployment_key p m) alts
            \<longrightarrow> fst (eligible p m alts ts h))
    \<and> (set_order candidates (deployment_key q n) alts \<longrightarrow>
        (\<not> fst (eligible q n alts ts h) \<longleftrightarrow> benched_at (deployment_key q n) ts h
          \<and> (\<exists>(p, m) \<in> set candidates. deployment_key p m \<noteq> deployment_key q n
               \<and> \<not> benched_at (deployment_key p m) ts h)))"
proof -
  have "\<exists>(p, m) \<in> set candidates. \<forall>alts. set_order candidates (deployment_key p m) alts
            \<longrightarrow> fst (eligible p m alts ts h)"
  proof (cases "\<exists>(p, m) \<in> set candidates. \<not> benched_at (deployment_key p m) ts h")
    case True
    then show ?thesis unfolding eligible_iff by blast
  next
    case False
    obtain p m where "(p, m) \<in> set candidates" using assms by (cases candidates) auto
    with False show ?thesis
      by (intro bexI [of _ "(p, m)"]) (auto simp: eligible_iff set_order_def)
  qed
  moreover have "\<not> fst (eligible q n alts ts h) \<longleftrightarrow> benched_at (deployment_key q n) ts h
      \<and> (\<exists>(p, m) \<in> set candidates. deployment_key p m \<noteq> deployment_key q n
           \<and> \<not> benched_at (deployment_key p m) ts h)"
    if "set_order candidates (deployment_key q n) alts"
  proof -
    have "(\<exists>a \<in> set alts. \<not> benched_at a ts h)
        \<longleftrightarrow> (\<exists>(p, m) \<in> set candidates. deployment_key p m \<noteq> deployment_key q n
             \<and> \<not> benched_at (deployment_key p m) ts h)"
      using that unfolding set_order_def by fastforce
    then show ?thesis unfolding eligible_iff by blast
  qed
  ultimately show ?thesis by blast
qed

definition demo_health :: health where
  "demo_health = \<lparr>hl_threshold = 3, hl_cooldown = 30, hl_max_cooldown = 900,
     hl_strikes = Map.empty, hl_benched = [(''a'', ''x'') \<mapsto> 50]\<rparr>"

theorem routing_never_stranded_witness:
  "\<exists>(p, m) \<in> set [(''a'', ''x'')]. \<forall>alts. set_order [(''a'', ''x'')] (deployment_key p m) alts
      \<longrightarrow> fst (eligible p m alts 10 demo_health)"
  using routing_never_stranded [of "[(''a'', ''x'')]" 10 demo_health] by blast

section \<open>Runs of the ledger\<close>

datatype health_op =
    Failure string string failure_kind "real option" real
  | Success string string
  | Query string string real
  | Eligible string string "deployment list" real

fun health_step :: "health_op \<Rightarrow> health \<Rightarrow> health" where
  "health_step (Failure p m k r ts) h = snd (record_failure p m k r ts h)"
| "health_step (Success p m) h = record_success p m h"
| "health_step (Query p m ts) h = snd (is_benched p m ts h)"
| "health_step (Eligible p m alts ts) h = snd (eligible p m alts ts h)"

interpretation ledger: machine health_step .

text \<open>The failures of a run happened up to \<open>T\<close>.\<close>

fun failed_by :: "real \<Rightarrow> health_op \<Rightarrow> bool" where
  "failed_by T (Failure _ _ _ _ ts) = (ts \<le> T)"
| "failed_by T _ = True"

definition health_inv :: "real \<Rightarrow> health \<Rightarrow> bool" where
  "health_inv T h \<longleftrightarrow>
     1 \<le> hl_threshold h \<and> 0 < hl_cooldown h \<and> hl_cooldown h \<le> hl_max_cooldown h
   \<and> (\<forall>k n. hl_strikes h k = Some n \<longrightarrow> 1 \<le> n \<and> n < hl_threshold h)
   \<and> (\<forall>k u. hl_benched h k = Some u \<longrightarrow> u \<le> T + hl_max_cooldown h)"

lemma expire_inv: "health_inv T h \<Longrightarrow> health_inv T (expire k ts h)"
  by (auto simp: health_inv_def expire_def split: option.split)

lemma any_free_inv: "health_inv T h \<Longrightarrow> health_inv T (snd (any_free alts ts h))"
  by (induction alts ts h rule: any_free.induct) (simp_all add: Let_def expire_inv)

lemma cooldown_bounds:
  "health_inv T h \<Longrightarrow> 0 \<le> cooldown_for r h \<and> cooldown_for r h \<le> hl_max_cooldown h"
  by (auto simp: health_inv_def cooldown_for_def split: option.split)

lemma expire_fields [simp]:
  "hl_threshold (expire k ts h) = hl_threshold h" "hl_cooldown (expire k ts h) = hl_cooldown h"
  "hl_max_cooldown (expire k ts h) = hl_max_cooldown h" "hl_strikes (expire k ts h) = hl_strikes h"
  by (simp_all add: expire_def split: option.split)

lemma cooldown_for_same [simp]:
  "cooldown_for r (expire k ts h) = cooldown_for r h"
  "cooldown_for r (h\<lparr>hl_strikes := s\<rparr>) = cooldown_for r h"
  by (simp_all add: cooldown_for_def split: option.split)

lemma record_failure_inv:
  assumes inv: "health_inv T h" and "ts \<le> T"
  shows "health_inv T (snd (record_failure p m k r ts h))"
proof -
  have e: "health_inv T (expire (deployment_key p m) ts h)" by (rule expire_inv [OF inv])
  have "ts + cooldown_for r h \<le> T + hl_max_cooldown h"
    using cooldown_bounds [OF inv, of r] assms(2) by linarith
  moreover have "\<forall>n. hl_strikes h (deployment_key p m) = Some n \<longrightarrow> 0 \<le> n"
    using inv unfolding health_inv_def by (meson order_trans zero_le_one)
  ultimately show ?thesis using e
    by (auto simp: record_failure_def Let_def health_inv_def split: option.splits)
qed

lemma health_inv_step: "health_inv T h \<Longrightarrow> failed_by T a \<Longrightarrow> health_inv T (health_step a h)"
proof (cases a)
  case (Success p m)
  then show "health_inv T h \<Longrightarrow> ?thesis" by (auto simp: record_success_def health_inv_def Let_def)
qed (simp_all add: record_failure_inv is_benched_def eligible_def Let_def expire_inv
      any_free_inv split_beta)

lemma health_inv_run:
  "health_inv T h \<Longrightarrow> list_all (failed_by T) ops \<Longrightarrow> health_inv T (ledger.run ops h)"
  by (induction ops arbitrary: h) (simp_all add: health_inv_step)

lemma new_health_inv: "new_health n c m = Inr h \<Longrightarrow> health_inv T h"
  by (auto simp: new_health_def checked_Inr health_inv_def)

lemma config_step:
  "hl_threshold (health_step a h) = hl_threshold h"
  "hl_max_cooldown (health_step a h) = hl_max_cooldown h"
proof -
  have af: "hl_threshold (snd (any_free alts ts h)) = hl_threshold h
      \<and> hl_max_cooldown (snd (any_free alts ts h)) = hl_max_cooldown h" for alts ts h
    by (induction alts ts h rule: any_free.induct) (simp_all add: Let_def)
  show "hl_threshold (health_step a h) = hl_threshold h"
    "hl_max_cooldown (health_step a h) = hl_max_cooldown h"
    by (cases a; simp add: record_failure_def record_success_def is_benched_def eligible_def
        Let_def split_beta af; fail)+
qed

lemma config_run: "hl_max_cooldown (ledger.run ops h) = hl_max_cooldown h"
  by (induction ops arbitrary: h) (simp_all add: config_step)

text \<open>A bench ends. After any run of failures, successes and queries on a ledger that the
  constructor accepted, if no failure was recorded after \<open>T\<close>, no deployment is benched from
  \<open>T + max_cooldown_s\<close> on, however hostile the \<open>Retry-After\<close> values were; and the strikes kept for a
  deployment are always fewer than the threshold.\<close>

theorem bench_is_bounded:
  assumes "new_health n c mx = Inr h" and "list_all (failed_by T) ops" and "T + mx \<le> ts"
  shows "\<not> fst (is_benched p m ts (ledger.run ops h))
    \<and> (\<forall>k s. hl_strikes (ledger.run ops h) k = Some s \<longrightarrow> 1 \<le> s \<and> s < hl_threshold (ledger.run ops h))"
proof -
  have inv: "health_inv T (ledger.run ops h)"
    by (rule health_inv_run [OF new_health_inv [OF assms(1)] assms(2)])
  have "hl_max_cooldown (ledger.run ops h) = mx"
    using assms(1) by (auto simp: config_run new_health_def checked_Inr)
  then have "\<not> benched_at k ts (ledger.run ops h)" for k
  proof (cases "hl_benched (ledger.run ops h) k")
    case (Some u)
    then have "u \<le> T + mx" using inv \<open>hl_max_cooldown (ledger.run ops h) = mx\<close>
      unfolding health_inv_def by (cases k) auto
    then show ?thesis using assms(3) Some by (simp add: benched_at_def)
  qed (simp add: benched_at_def)
  then show ?thesis using inv by (simp add: is_benched_iff health_inv_def)
qed

definition demo_ledger :: health where
  "demo_ledger = \<lparr>hl_threshold = 3, hl_cooldown = 30, hl_max_cooldown = 900,
     hl_strikes = Map.empty, hl_benched = Map.empty\<rparr>"

lemma demo_ledger_new: "new_health 3 30 900 = Inr demo_ledger"
  by (simp add: new_health_def checked_def demo_ledger_def)

theorem bench_is_bounded_witness:
  "\<not> fst (is_benched ''a'' ''x'' 910
     (ledger.run [Failure ''a'' ''x'' RATE_LIMITED (Some 100000) 10] demo_ledger))"
  using bench_is_bounded [OF demo_ledger_new, of 10 "[Failure ''a'' ''x'' RATE_LIMITED (Some 100000) 10]"
      910 "''a''" "''x''"] by simp

text \<open>Consecutive failures of one deployment that are neither rate limits nor interrupted.\<close>

definition failing :: "string \<Rightarrow> string \<Rightarrow> (failure_kind \<times> real) list \<Rightarrow> health_op list" where
  "failing p m = map (\<lambda>(k, ts). Failure p m k None ts)"

lemma strike_step:
  assumes "hl_strikes h (deployment_key p m) = (if n = 0 then None else Some (int n))"
    and "hl_benched h (deployment_key p m) = None"
    and "benchable k" and "k \<noteq> RATE_LIMITED" and "int n + 1 < hl_threshold h"
  shows "hl_strikes (snd (record_failure p m k None ts h)) (deployment_key p m) = Some (int (Suc n))"
    and "hl_benched (snd (record_failure p m k None ts h)) (deployment_key p m) = None"
    and "\<not> fst (record_failure p m k None ts h)"
  using assms by (simp_all add: record_failure_def Let_def expire_def is_in_def)

lemma strikes_run:
  assumes "hl_benched h (deployment_key p m) = None"
    and "hl_strikes h (deployment_key p m) = (if n = 0 then None else Some (int n))"
    and "list_all (\<lambda>(k, ts). benchable k \<and> k \<noteq> RATE_LIMITED) fs"
    and "int n + int (length fs) < hl_threshold h"
  shows "hl_benched (ledger.run (failing p m fs) h) (deployment_key p m) = None
    \<and> hl_strikes (ledger.run (failing p m fs) h) (deployment_key p m)
        = (if n + length fs = 0 then None else Some (int (n + length fs)))"
  using assms
proof (induction fs arbitrary: h n)
  case (Cons f fs)
  obtain k ts where f: "f = (k, ts)" by (cases f)
  have k: "benchable k" "k \<noteq> RATE_LIMITED" and n: "int n + 1 < hl_threshold h"
    using Cons.prems(3,4) by (auto simp: f)
  let ?h = "snd (record_failure p m k None ts h)"
  note s = strike_step [OF Cons.prems(2,1) k n, of ts]
  have "hl_threshold ?h = hl_threshold h" using config_step(1) [of "Failure p m k None ts" h] by simp
  with Cons.IH [of ?h "Suc n"] s Cons.prems(3,4) show ?case
    by (simp add: f failing_def)
qed (simp add: failing_def)

text \<open>The strike threshold. On a deployment with no strike and no bench, fewer than
  \<open>failure_threshold\<close> consecutive failures that are not rate limits leave it unbenched, and the next one
  benches it for exactly the default cooldown, with its strikes cleared. A rate limit benches at once,
  for the provider's \<open>Retry-After\<close> cut to \<open>max_cooldown_s\<close>. A failure of another kind changes neither, and
  a success clears both.\<close>

theorem strikes_then_bench:
  assumes "hl_benched h key = None" and "hl_strikes h key = None" and "key = deployment_key p m"
    and "list_all (\<lambda>(k, ts). benchable k \<and> k \<noteq> RATE_LIMITED) fs" and "1 \<le> hl_threshold h"
    and "benchable k"
  shows "(int (length fs) < hl_threshold h \<longrightarrow> hl_benched (ledger.run (failing p m fs) h) key = None)
    \<and> (int (length fs) + 1 = hl_threshold h \<and> k \<noteq> RATE_LIMITED \<longrightarrow>
        (\<exists>h'. record_failure p m k None ts (ledger.run (failing p m fs) h) = (True, h')
           \<and> hl_benched h' key = Some (ts + hl_cooldown (ledger.run (failing p m fs) h))
           \<and> hl_strikes h' key = None))
    \<and> hl_benched (snd (record_failure p m RATE_LIMITED (Some r) ts h)) key
        = Some (ts + min (max r 0) (hl_max_cooldown h))
    \<and> (\<not> benchable k' \<longrightarrow> snd (record_failure p m k' (Some r) ts h) = h)
    \<and> hl_benched (record_success p m h') key = None"
proof -
  have run: "hl_benched (ledger.run (failing p m fs) h) key = None"
      "hl_strikes (ledger.run (failing p m fs) h) key
        = (if length fs = 0 then None else Some (int (length fs)))"
    if "int (length fs) < hl_threshold h"
    using strikes_run [of h p m 0 fs] assms that by simp_all
  have thr: "hl_threshold (ledger.run (failing p m fs) h) = hl_threshold h"
    by (induction fs arbitrary: h) (simp_all add: failing_def config_step split_beta
        del: health_step.simps)
  have "\<exists>h'. record_failure p m k None ts (ledger.run (failing p m fs) h) = (True, h')
           \<and> hl_benched h' key = Some (ts + hl_cooldown (ledger.run (failing p m fs) h))
           \<and> hl_strikes h' key = None"
    if "int (length fs) + 1 = hl_threshold h" "k \<noteq> RATE_LIMITED"
    using run that assms(3,6) thr
    by (auto simp: record_failure_def Let_def expire_def cooldown_for_def split: if_splits)
  moreover have "hl_benched (snd (record_failure p m RATE_LIMITED (Some r) ts h)) key
        = Some (ts + min (max r 0) (hl_max_cooldown h))"
    using assms(1,3) by (simp add: record_failure_def Let_def expire_def cooldown_for_def benchable_def)
  moreover have "snd (record_failure p m k' (Some r) ts h) = h" if "\<not> benchable k'"
    using assms(1,3) that by (simp add: record_failure_def Let_def expire_def)
  ultimately show ?thesis using run assms(3) by (simp add: record_success_def Let_def)
qed

theorem strikes_then_bench_witness:
  "\<exists>h'. record_failure ''a'' ''x'' PROVIDER_OVERLOADED None 7
      (ledger.run (failing ''a'' ''x'' [(TRANSPORT_TRANSIENT, 1), (EMPTY_RESPONSE, 2)]) demo_ledger)
    = (True, h')"
  using strikes_then_bench [of demo_ledger "deployment_key ''a'' ''x''" "''a''" "''x''"
      "[(TRANSPORT_TRANSIENT, 1), (EMPTY_RESPONSE, 2)]" PROVIDER_OVERLOADED 7]
  by (fastforce simp: demo_ledger_def benchable_def)

section \<open>The credential pool\<close>

record credential =
  cr_id :: string
  cr_secret :: string
  cr_acquisitions :: nat
  cr_parked_until :: real
  cr_metadata :: "(string \<times> string) list"

record pool =
  cp_creds :: "credential list"
  cp_cursor :: nat

definition new_pool :: "credential list \<Rightarrow> py_exc + pool" where
  "new_pool creds =
     checked [(creds = [], ValueError ''CredentialPool requires at least one credential'')]
       (Inr \<lparr>cp_creds = creds, cp_cursor = 0\<rparr>)"

definition available :: "string \<Rightarrow> real \<Rightarrow> pool \<Rightarrow> bool" where
  "available i now p =
     (case find (\<lambda>c. cr_id c = i) (cp_creds p) of
        None \<Rightarrow> False | Some c \<Rightarrow> cr_parked_until c \<le> now)"

text \<open>The candidates in round-robin order from the cursor: offset and place of each.\<close>

definition ordered :: "real \<Rightarrow> pool \<Rightarrow> (nat \<times> credential) list" where
  "ordered now p =
     filter (\<lambda>(off, c). cr_parked_until c \<le> now)
       (map (\<lambda>off. (off, cp_creds p ! ((cp_cursor p + off) mod length (cp_creds p))))
          [0..<length (cp_creds p)])"

datatype pool_exc = NoCredentialsAvailable string

definition acquire :: "real \<Rightarrow> pool \<Rightarrow> (pool_exc + credential) \<times> pool" where
  "acquire now p =
     (case ordered now p of
        [] \<Rightarrow> (Inl (NoCredentialsAvailable ''all credentials in cooldown''), p)
      | cs \<Rightarrow>
          let min_hits = Min (set (map (\<lambda>(off, c). cr_acquisitions c) cs)) in
          case find (\<lambda>(off, c). cr_acquisitions c = min_hits) cs of
            None \<Rightarrow> (Inl (NoCredentialsAvailable ''unreachable''), p)
          | Some (off, c) \<Rightarrow>
              let n = length (cp_creds p);
                  idx = (cp_cursor p + off) mod n;
                  c' = c\<lparr>cr_acquisitions := cr_acquisitions c + 1\<rparr>
              in (Inr c', \<lparr>cp_creds = (cp_creds p)[idx := c'],
                           cp_cursor = (cp_cursor p + off + 1) mod n\<rparr>))"

fun park :: "string \<Rightarrow> real \<Rightarrow> credential list \<Rightarrow> credential list option" where
  "park i until [] = None"
| "park i until (c # cs) =
     (if cr_id c = i then Some (c\<lparr>cr_parked_until := until\<rparr> # cs)
      else map_option (Cons c) (park i until cs))"

definition report_429 :: "string \<Rightarrow> real \<Rightarrow> real \<Rightarrow> pool \<Rightarrow> (py_exc + unit) \<times> pool" where
  "report_429 i cooldown now p =
     guarded [(cooldown < 0, ValueError ''cooldown_seconds must be non-negative'')] p
       (case park i (now + cooldown) (cp_creds p) of
          None \<Rightarrow> (Inl (KeyError (''unknown credential id: '' @ i)), p)
        | Some cs \<Rightarrow> (Inr (), p\<lparr>cp_creds := cs\<rparr>))"

definition pool_ok :: "pool \<Rightarrow> bool" where
  "pool_ok p \<longleftrightarrow> cp_creds p \<noteq> [] \<and> cp_cursor p < length (cp_creds p)"

lemma ordered_member:
  assumes "pool_ok p" and "j < length (cp_creds p)" and "cr_parked_until (cp_creds p ! j) \<le> now"
  shows "\<exists>off. (off, cp_creds p ! j) \<in> set (ordered now p)"
proof -
  let ?n = "length (cp_creds p)" and ?c = "cp_cursor p"
  define off where "off = (if ?c \<le> j then j - ?c else ?n - ?c + j)"
  have "off < ?n \<and> (?c + off) mod ?n = j"
    using assms(1,2) by (auto simp: off_def pool_ok_def)
  then have "(off, cp_creds p ! j) \<in> set (ordered now p)"
    using assms(3) unfolding ordered_def by (auto simp: image_iff)
  then show ?thesis ..
qed

lemma ordered_sound:
  "(off, c) \<in> set (ordered now p) \<Longrightarrow>
     off < length (cp_creds p) \<and> c = cp_creds p ! ((cp_cursor p + off) mod length (cp_creds p))
   \<and> cr_parked_until c \<le> now"
  by (auto simp: ordered_def)

lemma acquire_cases:
  assumes "pool_ok p"
  shows "(ordered now p = [] \<and> acquire now p
            = (Inl (NoCredentialsAvailable ''all credentials in cooldown''), p))
    \<or> (\<exists>off c. (off, c) \<in> set (ordered now p)
        \<and> find (\<lambda>(off, c'). cr_acquisitions c' = cr_acquisitions c) (ordered now p) = Some (off, c)
        \<and> (\<forall>(o', c') \<in> set (ordered now p). cr_acquisitions c \<le> cr_acquisitions c')
        \<and> acquire now p = (Inr (c\<lparr>cr_acquisitions := cr_acquisitions c + 1\<rparr>),
            \<lparr>cp_creds = (cp_creds p)[(cp_cursor p + off) mod length (cp_creds p)
                 := c\<lparr>cr_acquisitions := cr_acquisitions c + 1\<rparr>],
             cp_cursor = (cp_cursor p + off + 1) mod length (cp_creds p)\<rparr>))"
proof (cases "ordered now p")
  case Nil
  then show ?thesis by (simp add: acquire_def)
next
  case (Cons x xs)
  define hits where "hits = Min (set (map (\<lambda>(off, c). cr_acquisitions c) (ordered now p)))"
  have "hits \<in> set (map (\<lambda>(off, c). cr_acquisitions c) (ordered now p))"
    unfolding hits_def by (rule Min_in) (simp_all add: Cons)
  then have "\<exists>y \<in> set (ordered now p). case y of (off, c) \<Rightarrow> cr_acquisitions c = hits" by auto
  from find_first_Some [OF this] obtain off c where
    oc: "(off, c) \<in> set (ordered now p)" "cr_acquisitions c = hits"
      "find (\<lambda>(off, c). cr_acquisitions c = hits) (ordered now p) = Some (off, c)" by auto
  have least: "\<forall>(o', c') \<in> set (ordered now p). cr_acquisitions c \<le> cr_acquisitions c'"
    unfolding oc(2) hits_def by (auto intro!: Min_le simp: image_iff)
  have "acquire now p = (Inr (c\<lparr>cr_acquisitions := cr_acquisitions c + 1\<rparr>),
            \<lparr>cp_creds = (cp_creds p)[(cp_cursor p + off) mod length (cp_creds p)
                 := c\<lparr>cr_acquisitions := cr_acquisitions c + 1\<rparr>],
             cp_cursor = (cp_cursor p + off + 1) mod length (cp_creds p)\<rparr>)"
    using oc(3) unfolding acquire_def hits_def by (simp add: Cons Let_def)
  then show ?thesis using oc least by auto
qed

text \<open>\<open>acquire\<close> raises only when every credential is parked; otherwise it returns a credential that
  is not parked and has the fewest acquisitions among those, with its own count one higher, and
  changes no other credential.\<close>

theorem acquire_sound:
  assumes "pool_ok p"
  shows "case acquire now p of
      (Inl e, p') \<Rightarrow> p' = p \<and> (\<forall>c \<in> set (cp_creds p). now < cr_parked_until c)
    | (Inr c', p') \<Rightarrow> \<exists>j < length (cp_creds p). let c = cp_creds p ! j in
        cr_parked_until c \<le> now \<and> c' = c\<lparr>cr_acquisitions := cr_acquisitions c + 1\<rparr>
      \<and> (\<forall>d \<in> set (cp_creds p). cr_parked_until d \<le> now \<longrightarrow> cr_acquisitions c \<le> cr_acquisitions d)
      \<and> cp_creds p' = (cp_creds p)[j := c'] \<and> pool_ok p'"
proof -
  consider "ordered now p = []" "acquire now p
            = (Inl (NoCredentialsAvailable ''all credentials in cooldown''), p)"
    | off c where "(off, c) \<in> set (ordered now p)"
        "\<forall>(o', c') \<in> set (ordered now p). cr_acquisitions c \<le> cr_acquisitions c'"
        "acquire now p = (Inr (c\<lparr>cr_acquisitions := cr_acquisitions c + 1\<rparr>),
            \<lparr>cp_creds = (cp_creds p)[(cp_cursor p + off) mod length (cp_creds p)
                 := c\<lparr>cr_acquisitions := cr_acquisitions c + 1\<rparr>],
             cp_cursor = (cp_cursor p + off + 1) mod length (cp_creds p)\<rparr>)"
    using acquire_cases [OF assms, of now] by blast
  then show ?thesis
  proof cases
    case 1
    have "now < cr_parked_until c" if "c \<in> set (cp_creds p)" for c
      using that ordered_member [OF assms, of _ now] 1(1)
      by (auto simp: in_set_conv_nth not_le [symmetric])
    then show ?thesis using 1(2) by simp
  next
    case (2 off c)
    have pos: "0 < length (cp_creds p)" using assms by (simp add: pool_ok_def)
    note s = ordered_sound [OF 2(1)]
    have "cr_acquisitions c \<le> cr_acquisitions d"
      if "d \<in> set (cp_creds p)" "cr_parked_until d \<le> now" for d
      using that ordered_member [OF assms, of _ now] 2(2) by (fastforce simp: in_set_conv_nth)
    then show ?thesis
      using s pos 2(3)
      by (auto simp: Let_def pool_ok_def
          intro!: exI [of _ "(cp_cursor p + off) mod length (cp_creds p)"])
  qed
qed

definition demo_pool :: pool where
  "demo_pool = \<lparr>cp_creds = [\<lparr>cr_id = ''a'', cr_secret = ''s'', cr_acquisitions = 0, cr_parked_until = 90, cr_metadata = []\<rparr>,
     \<lparr>cr_id = ''b'', cr_secret = ''t'', cr_acquisitions = 4, cr_parked_until = 0, cr_metadata = []\<rparr>], cp_cursor = 0\<rparr>"

theorem acquire_sound_witness:
  "pool_ok demo_pool \<and> (case acquire 5 demo_pool of (Inl e, p') \<Rightarrow> True | (Inr c', p') \<Rightarrow> pool_ok p')"
proof -
  have ok: "pool_ok demo_pool" by (simp add: pool_ok_def demo_pool_def)
  from acquire_sound [OF ok, of 5] ok show ?thesis
    by (auto simp: Let_def split: sum.splits)
qed

section \<open>Round robin\<close>

text \<open>The pool after \<open>i\<close> acquisitions from credentials with the same count \<open>a\<close>, as long as nothing is
  parked: the number of indices below \<open>i\<close> that are \<open>j\<close> modulo the size.\<close>

definition turns :: "nat \<Rightarrow> nat \<Rightarrow> nat \<Rightarrow> nat" where
  "turns n i j = (i + n - 1 - j) div n"

definition rotated :: "credential list \<Rightarrow> nat \<Rightarrow> nat \<Rightarrow> pool" where
  "rotated creds a i =
     \<lparr>cp_creds = map (\<lambda>j. (creds ! j)\<lparr>cr_acquisitions := a + turns (length creds) i j\<rparr>)
         [0..<length creds],
      cp_cursor = i mod length creds\<rparr>"

lemma turns_current: "0 < n \<Longrightarrow> turns n i (i mod n) = i div n"
proof -
  assume n: "0 < n"
  have "i + n - 1 - i mod n = (n - 1) + n * (i div n)"
    using n mult_div_mod_eq [of n i] mod_less_divisor [OF n, of i] by linarith
  moreover have "((n - 1) + n * (i div n)) div n = i div n + (n - 1) div n"
    by (rule div_mult_self2) (use n in simp)
  moreover have "(n - 1) div n = 0" by (rule div_less) (use n in simp)
  ultimately show ?thesis by (simp only: turns_def add_0_right)
qed

lemma turns_least: "j < n \<Longrightarrow> i div n \<le> turns n i j"
  unfolding turns_def by (intro div_le_mono) linarith

lemma turns_Suc:
  assumes "j < n"
  shows "turns n (Suc i) j = turns n i j + (if j = i mod n then 1 else 0)"
proof -
  have "i + n - 1 - j = i - 1 + (n - j)" if "0 < i" using that assms by linarith
  have s: "Suc (i + n - 1 - j) = Suc i + n - 1 - j" using assms by linarith
  have "n dvd Suc (i + n - 1 - j) \<longleftrightarrow> j = i mod n"
  proof -
    have "n dvd Suc (i + n - 1 - j) \<longleftrightarrow> int n dvd (int i - int j + int n)"
      using assms by (simp add: int_dvd_int_iff [symmetric] algebra_simps of_nat_diff del: int_dvd_int_iff)
    also have "\<dots> \<longleftrightarrow> int n dvd (int i - int j)" by simp
    also have "\<dots> \<longleftrightarrow> int i mod int n = int j mod int n" by (simp add: mod_eq_dvd_iff)
    also have "\<dots> \<longleftrightarrow> i mod n = j" using assms by (simp add: zmod_int [symmetric])
    finally show ?thesis by auto
  qed
  then show ?thesis
    unfolding turns_def s [symmetric] by (simp add: div_Suc dvd_eq_mod_eq_0)
qed

lemma rotated_acquire:
  assumes "creds \<noteq> []" and "\<forall>c \<in> set creds. cr_parked_until c \<le> now"
  shows "acquire now (rotated creds a i)
    = (Inr ((creds ! (i mod length creds))\<lparr>cr_acquisitions := a + i div length creds + 1\<rparr>),
       rotated creds a (Suc i))"
proof -
  let ?n = "length creds" and ?p = "rotated creds a i"
  have n: "0 < ?n" using assms(1) by simp
  have len: "length (cp_creds ?p) = ?n" and cur: "cp_cursor ?p = i mod ?n"
    by (simp_all add: rotated_def)
  have cred: "cp_creds ?p ! j = (creds ! j)\<lparr>cr_acquisitions := a + turns ?n i j\<rparr>" if "j < ?n" for j
    using that by (simp add: rotated_def)
  define f where "f off = cp_creds ?p ! ((i mod ?n + off) mod ?n)" for off
  have f: "f off = (creds ! ((i mod ?n + off) mod ?n))
      \<lparr>cr_acquisitions := a + turns ?n i ((i mod ?n + off) mod ?n)\<rparr>" for off
    unfolding f_def by (rule cred) (use n in simp)
  have "ordered now ?p = map (\<lambda>off. (off, f off)) [0..<?n]"
    unfolding ordered_def len cur f_def [symmetric]
    by (rule filter_True) (use assms(2) n in \<open>auto simp: f\<close>)
  then have ord: "ordered now ?p = (0, f 0) # map (\<lambda>off. (off, f off)) [1..<?n]"
    using n by (simp add: upt_conv_Cons)
  have f0: "f 0 = (creds ! (i mod ?n))\<lparr>cr_acquisitions := a + i div ?n\<rparr>"
    using n by (simp add: f turns_current)
  have least: "cr_acquisitions (f 0) \<le> cr_acquisitions (f off)" for off
    using n by (simp add: f0) (simp add: f turns_least)
  have "Min (set (map (\<lambda>(off, c). cr_acquisitions c) (ordered now ?p))) = cr_acquisitions (f 0)"
    by (rule Min_eqI) (auto simp: ord least)
  note hits = this [unfolded ord]
  have "acquire now ?p = (Inr ((f 0)\<lparr>cr_acquisitions := cr_acquisitions (f 0) + 1\<rparr>),
      \<lparr>cp_creds = (cp_creds ?p)[i mod ?n := (f 0)\<lparr>cr_acquisitions := cr_acquisitions (f 0) + 1\<rparr>],
       cp_cursor = (i mod ?n + 1) mod ?n\<rparr>)"
    unfolding acquire_def ord list.case Let_def hits find.simps prod.case
    by (simp add: len cur)
  moreover have "(cp_creds ?p)[i mod ?n := (f 0)\<lparr>cr_acquisitions := cr_acquisitions (f 0) + 1\<rparr>]
      = cp_creds (rotated creds a (Suc i))"
    by (rule nth_equalityI)
       (use n in \<open>auto simp: rotated_def nth_list_update f0 turns_Suc turns_current\<close>)
  moreover have "(i mod ?n + 1) mod ?n = cp_cursor (rotated creds a (Suc i))"
    by (simp add: rotated_def mod_Suc_eq)
  ultimately show ?thesis by (simp add: f0 rotated_def)
qed

fun acquire_all :: "real list \<Rightarrow> pool \<Rightarrow> (pool_exc + credential) list" where
  "acquire_all [] p = []"
| "acquire_all (now # nows) p = (let (r, p') = acquire now p in r # acquire_all nows p')"

text \<open>Round robin. From a new pool whose credentials have the same count, as long as no credential
  is parked, the \<open>i\<close>-th acquisition returns the credential at place \<open>i\<close> modulo the size of the pool:
  every credential is used in turn, and no two counts ever differ by more than one.\<close>

theorem round_robin:
  assumes "new_pool creds = Inr p" and "\<forall>c \<in> set creds. cr_acquisitions c = a"
    and "\<forall>now \<in> set nows. \<forall>c \<in> set creds. cr_parked_until c \<le> now" and "i < length nows"
  shows "acquire_all nows p ! i
      = Inr ((creds ! (i mod length creds))\<lparr>cr_acquisitions := a + i div length creds + 1\<rparr>)"
proof -
  have ne: "creds \<noteq> []" and p: "p = \<lparr>cp_creds = creds, cp_cursor = 0\<rparr>"
    using assms(1) by (auto simp: new_pool_def checked_Inr)
  have "map (\<lambda>j. (creds ! j)\<lparr>cr_acquisitions := a + turns (length creds) 0 j\<rparr>) [0..<length creds] = creds"
    by (rule nth_equalityI) (use assms(2) in \<open>auto simp: turns_def\<close>)
  then have p0: "p = rotated creds a 0" by (simp add: rotated_def p)
  have "acquire_all nows (rotated creds a k) ! i
      = Inr ((creds ! ((k + i) mod length creds))\<lparr>cr_acquisitions := a + (k + i) div length creds + 1\<rparr>)"
    if "i < length nows" "\<forall>now \<in> set nows. \<forall>c \<in> set creds. cr_parked_until c \<le> now" for k
    using that
  proof (induction nows arbitrary: i k)
    case (Cons now nows)
    show ?case
    proof (cases i)
      case 0
      then show ?thesis using rotated_acquire [OF ne, of now a k] Cons.prems(2) by simp
    next
      case (Suc i')
      then show ?thesis
        using rotated_acquire [OF ne, of now a k] Cons.prems Cons.IH [of i' "Suc k"] by simp
    qed
  qed simp
  from this [OF assms(4,3), of 0] show ?thesis by (simp add: p0)
qed

definition demo_creds :: "credential list" where
  "demo_creds = map (\<lambda>i. \<lparr>cr_id = i, cr_secret = [], cr_acquisitions = 0, cr_parked_until = 0,
     cr_metadata = []\<rparr>) [''a'', ''b'']"

theorem round_robin_witness:
  "acquire_all [1, 2, 3] \<lparr>cp_creds = demo_creds, cp_cursor = 0\<rparr> ! 2
   = Inr ((demo_creds ! 0)\<lparr>cr_acquisitions := 2\<rparr>)"
proof -
  have "new_pool demo_creds = Inr \<lparr>cp_creds = demo_creds, cp_cursor = 0\<rparr>"
    "\<forall>c \<in> set demo_creds. cr_acquisitions c = 0"
    "\<forall>now \<in> set [1, 2, 3]. \<forall>c \<in> set demo_creds. cr_parked_until c \<le> now"
    by (simp_all add: new_pool_def checked_def demo_creds_def)
  note rr = round_robin [OF this, of 2]
  have "length demo_creds = 2" by (simp add: demo_creds_def)
  then show ?thesis using rr by simp
qed

end
