(* ===== verification/Py_Text.thy ===== *)
theory Py_Text
  imports Prelude
begin

text \<open>
  Python's text operations that several components use, written out: \<open>split\<close>, \<open>join\<close>,
  \<open>replace\<close> and \<open>int\<close>.
\<close>

section \<open>Python strings\<close>

fun split_on :: "char \<Rightarrow> string \<Rightarrow> string list" where
  "split_on c [] = [[]]"
| "split_on c (x # xs) =
     (if x = c then [] # split_on c xs
      else case split_on c xs of [] \<Rightarrow> [[x]] | w # ws \<Rightarrow> (x # w) # ws)"

text \<open>\<open>part.split(c, 1)\<close> of a text that contains \<open>c\<close>: what is before the first \<open>c\<close>, and the rest.\<close>

definition split_once :: "char \<Rightarrow> string \<Rightarrow> string \<times> string" where
  "split_once c s = (takeWhile (\<lambda>x. x \<noteq> c) s, drop 1 (dropWhile (\<lambda>x. x \<noteq> c) s))"

text \<open>\<open>str.split()\<close>: the runs of characters that are not white space.\<close>

fun words_from :: "string \<Rightarrow> string \<Rightarrow> string list" where
  "words_from w [] = (if w = [] then [] else [rev w])"
| "words_from w (x # xs) =
     (if py_isspace x then (if w = [] then words_from [] xs else rev w # words_from [] xs)
      else words_from (x # w) xs)"

definition py_split :: "string \<Rightarrow> string list" where
  "py_split s = words_from [] s"

text \<open>\<open>s.replace(a, b)\<close> for a non-empty \<open>a\<close>; \<open>n\<close> counts the characters of a match still to skip.\<close>

fun replace_from :: "nat \<Rightarrow> string \<Rightarrow> string \<Rightarrow> string \<Rightarrow> string" where
  "replace_from n a b [] = []"
| "replace_from (Suc n) a b (x # xs) = replace_from n a b xs"
| "replace_from 0 a b (x # xs) =
     (if prefix a (x # xs) then b @ replace_from (length a - 1) a b xs
      else x # replace_from 0 a b xs)"

definition py_replace :: "string \<Rightarrow> string \<Rightarrow> string \<Rightarrow> string" where
  "py_replace a b s = replace_from 0 a b s"

definition upper_char :: "char \<Rightarrow> char" where
  "upper_char c =
     (let n = (of_char c :: nat) in if 97 \<le> n \<and> n \<le> 122 then char_of (n - 32) else c)"

definition digit_val :: "char \<Rightarrow> int" where
  "digit_val c = of_char c - 48"

definition is_decimal :: "char \<Rightarrow> bool" where
  "is_decimal c \<longleftrightarrow> 48 \<le> (of_char c :: nat) \<and> (of_char c :: nat) \<le> 57"

text \<open>\<open>int(s)\<close>: white space around, a sign, digits with single underscores between them.\<close>

fun digits_value :: "int \<Rightarrow> string \<Rightarrow> int option" where
  "digits_value n [] = Some n"
| "digits_value n (c # s) =
     (if is_decimal c then digits_value (10 * n + digit_val c) s
      else if c = CHR ''_''
      then (case s of
              [] \<Rightarrow> None
            | d # s' \<Rightarrow> if is_decimal d then digits_value (10 * n + digit_val d) s' else None)
      else None)"

definition unsigned_value :: "string \<Rightarrow> int option" where
  "unsigned_value s =
     (case s of [] \<Rightarrow> None
      | c # s' \<Rightarrow> if is_decimal c then digits_value (digit_val c) s' else None)"

definition py_int :: "string \<Rightarrow> int option" where
  "py_int s =
     (case py_strip s of
        [] \<Rightarrow> None
      | c # t \<Rightarrow> if c = CHR ''-'' then map_option uminus (unsigned_value t)
                 else if c = CHR ''+'' then unsigned_value t
                 else unsigned_value (c # t))"

section \<open>Splitting and joining\<close>

fun py_join :: "char \<Rightarrow> string list \<Rightarrow> string" where
  "py_join c [] = []"
| "py_join c [s] = s"
| "py_join c (s # ss) = s @ c # py_join c ss"

lemma split_on_ne: "split_on c s \<noteq> []"
  by (induction s) (auto split: list.splits)

lemma split_on_free: "c \<notin> set s \<Longrightarrow> split_on c s = [s]"
  by (induction s) auto

lemma split_on_append: "c \<notin> set s \<Longrightarrow> split_on c (s @ c # t) = s # split_on c t"
  by (induction s) auto

lemma split_join: "ss \<noteq> [] \<Longrightarrow> \<forall>s \<in> set ss. c \<notin> set s \<Longrightarrow> split_on c (py_join c ss) = ss"
  by (induction c ss rule: py_join.induct) (simp_all add: split_on_free split_on_append)

lemma split_on_no_sep: "w \<in> set (split_on c s) \<Longrightarrow> c \<notin> set w"
  by (induction s arbitrary: w) (auto split: if_splits list.splits)

lemma py_join_Cons: "ss \<noteq> [] \<Longrightarrow> py_join c (s # ss) = s @ c # py_join c ss"
  by (cases ss) simp_all

lemma join_split: "py_join c (split_on c s) = s"
proof (induction s)
  case (Cons x xs)
  obtain w ws where "split_on c xs = w # ws" using split_on_ne [of c xs] by (cases "split_on c xs") auto
  then show ?case using Cons by (cases ws) (simp_all add: py_join_Cons)
qed simp

end
