(* ===== verification/Cron.thy ===== *)
theory Cron
  imports Regex Py_Text
begin

text \<open>
  Cron expressions (\<open>src/opensquilla/scheduler/parser.py\<close>) and the next run of a job (\<open>_next_run\<close> of
  \<open>scheduler/jobs.py\<close>).

  An instant is a number of microseconds since 1970-01-01T00:00:00Z, which is the resolution of
  \<open>datetime\<close>. \<open>ZoneInfo\<close> is not part of the repository: the wall time of an instant in a zone is the
  argument \<open>wall\<close>.
\<close>

section \<open>Fields\<close>

datatype field_name = Minute | Hour | DayOfMonth | Month | DayOfWeek

fun field_range :: "field_name \<Rightarrow> int \<times> int" where
  "field_range Minute = (0, 59)"
| "field_range Hour = (0, 23)"
| "field_range DayOfMonth = (1, 31)"
| "field_range Month = (1, 12)"
| "field_range DayOfWeek = (0, 6)"

definition month_names :: "(string \<times> int) list" where
  "month_names = [(''jan'', 1), (''feb'', 2), (''mar'', 3), (''apr'', 4), (''may'', 5), (''jun'', 6),
     (''jul'', 7), (''aug'', 8), (''sep'', 9), (''oct'', 10), (''nov'', 11), (''dec'', 12)]"

definition dow_names :: "(string \<times> int) list" where
  "dow_names = [(''sun'', 0), (''mon'', 1), (''tue'', 2), (''wed'', 3), (''thu'', 4), (''fri'', 5),
     (''sat'', 6)]"

definition presets :: "(string \<times> string) list" where
  "presets = [(''@yearly'', ''0 0 1 1 *''), (''@annually'', ''0 0 1 1 *''),
     (''@monthly'', ''0 0 1 * *''), (''@weekly'', ''0 0 * * 0''), (''@daily'', ''0 0 * * *''),
     (''@midnight'', ''0 0 * * *''), (''@hourly'', ''0 * * * *'')]"

record cron_field =
  cf_values :: "int list"
  cf_restricted :: bool

datatype cron_error =
    InvalidStep string field_name
  | StepNotPositive field_name
  | StartAfterEnd field_name
  | InvalidValue string field_name
  | OutOfRange int field_name
  | UnknownPreset string
  | WrongFieldCount nat

definition to_int :: "string \<Rightarrow> field_name \<Rightarrow> cron_error + int" where
  "to_int s f =
     (case py_int s of
        None \<Rightarrow> Inl (InvalidValue s f)
      | Some v \<Rightarrow> if fst (field_range f) \<le> v \<and> v \<le> snd (field_range f) then Inr v
                  else Inl (OutOfRange v f))"

text \<open>The two ends of a range \<open>a-b\<close>.\<close>

definition range_ends :: "string \<Rightarrow> field_name \<Rightarrow> cron_error + int \<times> int" where
  "range_ends s f =
     (let (a, b) = split_once (CHR ''-'') s in
      case to_int a f of Inl e \<Rightarrow> Inl e | Inr start \<Rightarrow>
      case to_int b f of Inl e \<Rightarrow> Inl e | Inr end_ \<Rightarrow>
        if end_ < start then Inl (StartAfterEnd f) else Inr (start, end_))"

function py_range :: "int \<Rightarrow> int \<Rightarrow> nat \<Rightarrow> int list" where
  "py_range start stop step =
     (if step = 0 \<or> stop \<le> start then [] else start # py_range (start + int step) stop step)"
  by pat_completeness auto

termination py_range
  by (relation "measure (\<lambda>(start, stop, step). nat (stop - start))") auto

declare py_range.simps [simp del]

definition substitute_names :: "(string \<times> int) list \<Rightarrow> string \<Rightarrow> string" where
  "substitute_names names part =
     (let marked = py_replace ''-'' [CHR 0xB6] (py_replace ''/'' [CHR 0xA7] part);
          named = foldl (\<lambda>s (name, v). py_replace (map upper_char name) (int_str v)
                     (py_replace (py_lower name) (int_str v) s)) marked names
      in py_replace [CHR 0xB6] ''-'' (py_replace [CHR 0xA7] ''/'' named))"

definition parse_part :: "field_name \<Rightarrow> (string \<times> int) list \<Rightarrow> string \<Rightarrow> cron_error + int list" where
  "parse_part f names token =
     (let (lo, hi) = field_range f;
          stripped = py_strip token;
          part = (if names = [] then stripped else substitute_names names stripped)
      in if CHR ''/'' \<in> set part
         then
           let (range_part, step_str) = split_once (CHR ''/'') part in
           (case py_int step_str of
              None \<Rightarrow> Inl (InvalidStep step_str f)
            | Some step \<Rightarrow>
                if step \<le> 0 then Inl (StepNotPositive f)
                else if range_part = ''*'' then Inr (py_range lo (hi + 1) (nat step))
                else if CHR ''-'' \<in> set range_part
                then (case range_ends range_part f of Inl e \<Rightarrow> Inl e
                      | Inr (start, end_) \<Rightarrow> Inr (py_range start (end_ + 1) (nat step)))
                else (case to_int range_part f of Inl e \<Rightarrow> Inl e
                      | Inr start \<Rightarrow> Inr (py_range start (hi + 1) (nat step))))
         else if CHR ''-'' \<in> set part
         then (case range_ends part f of Inl e \<Rightarrow> Inl e
               | Inr (start, end_) \<Rightarrow> Inr (py_range start (end_ + 1) 1))
         else if part = ''*'' then Inr (py_range lo (hi + 1) 1)
         else (case to_int part f of Inl e \<Rightarrow> Inl e | Inr v \<Rightarrow> Inr [v]))"

fun parse_parts :: "field_name \<Rightarrow> (string \<times> int) list \<Rightarrow> string list \<Rightarrow> cron_error + int list" where
  "parse_parts f names [] = Inr []"
| "parse_parts f names (p # ps) =
     (case parse_part f names p of Inl e \<Rightarrow> Inl e | Inr vs \<Rightarrow>
      case parse_parts f names ps of Inl e \<Rightarrow> Inl e | Inr ws \<Rightarrow> Inr (vs @ ws))"

definition parse_field :: "string \<Rightarrow> field_name \<Rightarrow> (string \<times> int) list \<Rightarrow> cron_error + cron_field" where
  "parse_field token f names =
     (case parse_parts f names (split_on (CHR '','') token) of
        Inl e \<Rightarrow> Inl e
      | Inr vs \<Rightarrow> Inr \<lparr>cf_values = vs, cf_restricted = (py_strip token \<noteq> ''*'')\<rparr>)"

section \<open>Expressions\<close>

record cron_expr =
  ce_minute :: cron_field
  ce_hour :: cron_field
  ce_dom :: cron_field
  ce_month :: cron_field
  ce_dow :: cron_field
  ce_raw :: string

record wall_time =
  wt_minute :: int
  wt_hour :: int
  wt_day :: int
  wt_month :: int
  wt_weekday :: int

definition field_matches :: "cron_field \<Rightarrow> int \<Rightarrow> bool" where
  "field_matches f v \<longleftrightarrow> v \<in> set (cf_values f)"

definition cron_matches :: "cron_expr \<Rightarrow> wall_time \<Rightarrow> bool" where
  "cron_matches e t \<longleftrightarrow>
     (if \<not> (field_matches (ce_minute e) (wt_minute t) \<and> field_matches (ce_hour e) (wt_hour t)) then False
      else if \<not> field_matches (ce_month e) (wt_month t) then False
      else
        let dom_ok = field_matches (ce_dom e) (wt_day t);
            dow_ok = field_matches (ce_dow e) ((wt_weekday t + 1) mod 7)
        in if cf_restricted (ce_dom e) \<and> cf_restricted (ce_dow e) then dom_ok \<or> dow_ok else dom_ok \<and> dow_ok)"

definition parse_fields :: "string \<Rightarrow> cron_error + cron_expr" where
  "parse_fields expr =
     (case py_split expr of
        [m, h, dm, mon, dw] \<Rightarrow>
          (case parse_field m Minute [] of Inl e \<Rightarrow> Inl e | Inr fm \<Rightarrow>
           case parse_field h Hour [] of Inl e \<Rightarrow> Inl e | Inr fh \<Rightarrow>
           case parse_field dm DayOfMonth [] of Inl e \<Rightarrow> Inl e | Inr fd \<Rightarrow>
           case parse_field mon Month month_names of Inl e \<Rightarrow> Inl e | Inr fmon \<Rightarrow>
           case parse_field dw DayOfWeek dow_names of Inl e \<Rightarrow> Inl e | Inr fdow \<Rightarrow>
             Inr \<lparr>ce_minute = fm, ce_hour = fh, ce_dom = fd, ce_month = fmon, ce_dow = fdow,
                  ce_raw = expr\<rparr>)
      | ws \<Rightarrow> Inl (WrongFieldCount (length ws)))"

definition parse_cron :: "string \<Rightarrow> cron_error + cron_expr" where
  "parse_cron raw =
     (let expr = py_strip raw in
      if prefix ''@'' expr
      then (case map_of presets expr of None \<Rightarrow> Inl (UnknownPreset expr) | Some e \<Rightarrow> parse_fields e)
      else parse_fields expr)"

section \<open>The next run\<close>

text \<open>\<open>_next_run\<close>: the least multiple of the interval after \<open>after\<close>, for an interval job with an anchor;
  otherwise the first minute after \<open>after\<close> whose wall time matches, up to four years of minutes
  ahead.\<close>

definition minute_us :: int where
  "minute_us = 60000000"

definition scan_limit :: nat where
  "scan_limit = 2102400"

fun scan :: "(int \<Rightarrow> wall_time) \<Rightarrow> cron_expr \<Rightarrow> nat \<Rightarrow> int \<Rightarrow> int option" where
  "scan wall e n candidate =
     (if n = 0 then None
      else if cron_matches e (wall candidate) then Some candidate
      else scan wall e (n - 1) (candidate + minute_us))"

declare scan.simps [simp del]

definition next_cron ::
  "(int \<Rightarrow> wall_time) \<Rightarrow> cron_expr \<Rightarrow> int \<Rightarrow> int \<Rightarrow> int option" where
  "next_cron wall e jitter after =
     map_option (\<lambda>c. c + jitter) (scan wall e scan_limit (after div minute_us * minute_us + minute_us))"

definition next_interval :: "int \<Rightarrow> int option \<Rightarrow> int \<Rightarrow> int option" where
  "next_interval interval anchor after =
     (case anchor of
        None \<Rightarrow> Some (after + interval)
      | Some a \<Rightarrow>
          if after - a < 0 then Some a
          else if interval = 0 then None
          else Some (a + ((after - a) div interval + 1) * interval))"

section \<open>Facts\<close>

lemma py_range_set:
  "0 < step \<Longrightarrow> set (py_range start stop step)
     = {v. start \<le> v \<and> v < stop \<and> int step dvd (v - start)}"
proof (induction start stop step rule: py_range.induct)
  case (1 start stop step)
  show ?case
  proof (cases "stop \<le> start")
    case True
    then show ?thesis by (subst py_range.simps) auto
  next
    case False
    have eq: "{v. start \<le> v \<and> v < stop \<and> int step dvd (v - start)}
        = insert start {v. start + int step \<le> v \<and> v < stop \<and> int step dvd (v - (start + int step))}"
    proof -
      have "start + int step \<le> v \<and> int step dvd (v - (start + int step))
          \<longleftrightarrow> start < v \<and> int step dvd (v - start)" for v
      proof -
        have "int step dvd (v - (start + int step)) \<longleftrightarrow> int step dvd (v - start)"
        proof -
          have "v - start = (v - (start + int step)) + int step" by simp
          then show ?thesis by (simp only: dvd_add_triv_right_iff)
        qed
        moreover have "start + int step \<le> v" if "start < v" "int step dvd (v - start)"
          using zdvd_imp_le [OF that(2)] that(1) by simp
        ultimately show ?thesis using "1.prems" by auto
      qed
      then have "start \<le> v \<and> v < stop \<and> int step dvd (v - start)
          \<longleftrightarrow> v = start \<or> start + int step \<le> v \<and> v < stop
                \<and> int step dvd (v - (start + int step))" for v
        using False by (cases "v = start") (simp, metis le_less)
      then show ?thesis by (simp only: insert_compr mem_Collect_eq)
    qed
    have "set (py_range start stop step) = insert start (set (py_range (start + int step) stop step))"
      by (subst py_range.simps) (use False "1.prems" in simp)
    also have "\<dots> = insert start
        {v. start + int step \<le> v \<and> v < stop \<and> int step dvd (v - (start + int step))}"
      using "1.IH" "1.prems" False by simp
    finally show ?thesis using eq by simp
  qed
qed

lemma to_int_range: "to_int s f = Inr v \<Longrightarrow> fst (field_range f) \<le> v \<and> v \<le> snd (field_range f)"
  by (auto simp: to_int_def split: option.splits if_splits)

lemma range_ends_range:
  "range_ends s f = Inr (a, b) \<Longrightarrow>
     fst (field_range f) \<le> a \<and> a \<le> b \<and> b \<le> snd (field_range f)"
  by (auto simp: range_ends_def split: sum.splits prod.splits if_splits dest: to_int_range)

lemma field_range_le: "fst (field_range f) \<le> snd (field_range f)"
  by (cases f) simp_all

text \<open>Every part that parses is a non-empty range of values of the field.\<close>

definition field_span :: "field_name \<Rightarrow> int list \<Rightarrow> bool" where
  "field_span f vs \<longleftrightarrow> vs \<noteq> [] \<and> (\<forall>v \<in> set vs. fst (field_range f) \<le> v \<and> v \<le> snd (field_range f))"

lemma field_span_range:
  "0 < n \<Longrightarrow> fst (field_range f) \<le> a \<Longrightarrow> a \<le> b \<Longrightarrow> b \<le> snd (field_range f) \<Longrightarrow>
     field_span f (py_range a (b + 1) n)"
proof -
  assume r: "0 < n" "fst (field_range f) \<le> a" "a \<le> b" "b \<le> snd (field_range f)"
  then have "a \<in> set (py_range a (b + 1) n)" by (simp add: py_range_set)
  then have "py_range a (b + 1) n \<noteq> []" by (metis empty_iff empty_set)
  then show ?thesis using r by (simp add: field_span_def py_range_set)
qed

lemma field_span_one: "fst (field_range f) \<le> v \<Longrightarrow> v \<le> snd (field_range f) \<Longrightarrow> field_span f [v]"
  by (simp add: field_span_def)

lemma parse_part_span: "parse_part f names token = Inr vs \<Longrightarrow> field_span f vs"
  using field_range_le [of f]
  by (auto simp: parse_part_def Let_def split_beta split: if_splits option.splits sum.splits
      dest!: range_ends_range to_int_range intro!: field_span_range field_span_one)

lemma parse_parts_span: "parse_parts f names ps = Inr vs \<Longrightarrow> ps \<noteq> [] \<Longrightarrow> field_span f vs"
proof (induction ps arbitrary: vs)
  case (Cons p ps)
  from Cons.prems obtain us ws where u: "parse_part f names p = Inr us"
      and w: "parse_parts f names ps = Inr ws" and vs: "vs = us @ ws"
    by (auto split: sum.splits)
  have "field_span f us" by (rule parse_part_span [OF u])
  moreover have "ws = [] \<or> field_span f ws" using w Cons.IH by (cases ps) auto
  ultimately show ?case unfolding vs field_span_def by auto
qed simp

lemma parse_field_span:
  "parse_field token f names = Inr fd \<Longrightarrow>
     field_span f (cf_values fd) \<and> cf_restricted fd = (py_strip token \<noteq> ''*'')"
  using parse_parts_span [OF _ split_on_ne]
  by (auto simp: parse_field_def split: sum.splits)

section \<open>Printing values and parsing them back\<close>

lemma decimal_char: "n < 10 \<Longrightarrow> is_decimal (char_of (48 + n))" for n :: nat
  by (simp add: is_decimal_def)

lemma decimal_digit: "n < 10 \<Longrightarrow> digit_val (char_of (48 + n)) = int n" for n :: nat
proof -
  assume "n < 10"
  then have "(of_char (char_of (48 + n)) :: nat) = 48 + n" by simp
  then have "int (of_char (char_of (48 + n) :: char)) = 48 + int n" by (simp only: of_nat_add of_nat_numeral)
  moreover have "int (of_char (char_of (48 + n) :: char)) = of_char (char_of (48 + n) :: char)"
    by (rule of_nat_of_char)
  ultimately show "digit_val (char_of (48 + n)) = int n" unfolding digit_val_def by linarith
qed

lemma nat_str_decimal: "nat_str n \<noteq> [] \<and> list_all is_decimal (nat_str n)"
proof (induction n rule: nat_str.induct)
  case (1 n)
  then show ?case
    by (subst (1 2) nat_str.simps) (simp add: decimal_char)
qed

lemma digits_value_append:
  "list_all is_decimal s \<Longrightarrow> digits_value k (s @ t) = digits_value (foldl (\<lambda>n c. 10 * n + digit_val c) k s) t"
  by (induction s arbitrary: k) auto

lemma nat_str_value: "foldl (\<lambda>n c. 10 * n + digit_val c) 0 (nat_str n) = int n"
proof (induction n rule: nat_str.induct)
  case (1 n)
  show ?case
  proof (cases "n < 10")
    case True
    then show ?thesis by (subst nat_str.simps) (simp add: decimal_digit)
  next
    case False
    then have "foldl (\<lambda>n c. 10 * n + digit_val c) 0 (nat_str n)
        = 10 * int (n div 10) + int (n mod 10)"
      using "1.IH" decimal_digit [of "n mod 10"] by (subst nat_str.simps) simp
    then show ?thesis by (simp add: zmod_int zdiv_int)
  qed
qed

lemma decimal_not_space: "is_decimal c \<Longrightarrow> \<not> py_isspace c"
  by (simp add: is_decimal_def py_isspace_def)

lemma py_int_nat_str: "py_int (nat_str n) = Some (int n)"
proof -
  obtain c t where ct: "nat_str n = c # t" using nat_str_decimal [of n] by (cases "nat_str n") auto
  have d: "is_decimal c" "list_all is_decimal t" using nat_str_decimal [of n] by (simp_all add: ct)
  have "py_strip (nat_str n) = nat_str n"
    by (rule strip_no_space)
       (use nat_str_decimal [of n] decimal_not_space in \<open>auto simp: list_all_iff\<close>)
  moreover have "c \<noteq> CHR ''-''" "c \<noteq> CHR ''+''" using d(1) by (auto simp: is_decimal_def)
  moreover have "unsigned_value (c # t) = Some (int n)"
    using digits_value_append [OF d(2), of "digit_val c" "[]"] nat_str_value [of n] d(1)
    by (simp add: unsigned_value_def ct)
  ultimately show ?thesis by (simp add: py_int_def ct)
qed

lemma replace_absent: "a \<noteq> [] \<Longrightarrow> hd a \<notin> set s \<Longrightarrow> py_replace a b s = s"
  unfolding py_replace_def by (induction s) (auto simp: prefix_def Cons_eq_append_conv)

lemma foldl_replace_absent:
  "\<forall>(name, v) \<in> set names. name \<noteq> [] \<and> hd (py_lower name) \<notin> set s \<and> hd (map upper_char name) \<notin> set s \<Longrightarrow>
     foldl (\<lambda>s (name, v). py_replace (map upper_char name) (int_str v)
                     (py_replace (py_lower name) (int_str v) s)) s names = s"
  by (induction names) (auto simp: replace_absent py_lower_def)

definition field_names :: "field_name \<Rightarrow> (string \<times> int) list" where
  "field_names f = (case f of Month \<Rightarrow> month_names | DayOfWeek \<Rightarrow> dow_names | _ \<Rightarrow> [])"

lemma not_decimal [simp]:
  "\<not> is_decimal (CHR ''/'')" "\<not> is_decimal (CHR ''-'')" "\<not> is_decimal (CHR '','')"
  "\<not> is_decimal (CHR ''*'')" "\<not> is_decimal (CHR 0xB6)" "\<not> is_decimal (CHR 0xA7)"
  by (simp_all add: is_decimal_def)

lemma names_letters:
  "list_all (\<lambda>(name, v). name \<noteq> [] \<and> \<not> is_decimal (hd (py_lower name))
      \<and> \<not> is_decimal (hd (map upper_char name))) (field_names f)"
  by (cases f) (simp_all add: field_names_def month_names_def dow_names_def py_lower_def
      py_lower_char_def upper_char_def is_decimal_def)

lemma decimal_absent: "list_all is_decimal s \<Longrightarrow> \<not> is_decimal c \<Longrightarrow> c \<notin> set s"
  by (auto simp: list_all_iff)

lemma substitute_decimal:
  assumes "list_all is_decimal s"
  shows "substitute_names (field_names f) s = s"
proof -
  have r: "py_replace [c] b s = s" if "\<not> is_decimal c" for c b
    by (rule replace_absent) (use decimal_absent [OF assms that] in simp_all)
  have "\<forall>(name, v) \<in> set (field_names f). name \<noteq> [] \<and> hd (py_lower name) \<notin> set s
      \<and> hd (map upper_char name) \<notin> set s"
    using names_letters [of f] decimal_absent [OF assms] unfolding list_all_iff by fastforce
  then show ?thesis by (simp add: substitute_names_def Let_def r foldl_replace_absent)
qed

lemma parse_part_decimal:
  assumes "fst (field_range f) \<le> v" and "v \<le> snd (field_range f)"
  shows "parse_part f (field_names f) (int_str v) = Inr [v]"
proof -
  have "0 \<le> v" using assms(1) by (cases f) simp_all
  then have s: "int_str v = nat_str (nat v)" by (simp add: int_str_def)
  note d = nat_str_decimal [of "nat v"]
  have "py_strip (nat_str (nat v)) = nat_str (nat v)"
    by (rule strip_no_space) (use d decimal_not_space in \<open>auto simp: list_all_iff\<close>)
  moreover have "CHR ''/'' \<notin> set (nat_str (nat v))" "CHR ''-'' \<notin> set (nat_str (nat v))"
    "nat_str (nat v) \<noteq> ''*''" using d by (auto simp: list_all_iff)
  moreover have "to_int (nat_str (nat v)) f = Inr v"
    using assms \<open>0 \<le> v\<close> by (simp add: to_int_def py_int_nat_str)
  ultimately show ?thesis
    using d by (simp add: parse_part_def s Let_def split_beta substitute_decimal)
qed

lemma parse_parts_decimal:
  "\<forall>v \<in> set vs. fst (field_range f) \<le> v \<and> v \<le> snd (field_range f) \<Longrightarrow>
     parse_parts f (field_names f) (map int_str vs) = Inr vs"
  by (induction vs) (simp_all add: parse_part_decimal)

lemma parse_field_decimal:
  assumes "field_span f vs"
  shows "parse_field (py_join (CHR '','') (map int_str vs)) f (field_names f)
    = Inr \<lparr>cf_values = vs, cf_restricted = True\<rparr>"
proof -
  have vs: "vs \<noteq> []" "\<forall>v \<in> set vs. fst (field_range f) \<le> v \<and> v \<le> snd (field_range f)"
    using assms by (simp_all add: field_span_def)
  have nn: "0 \<le> v" if "v \<in> set vs" for v
    using vs(2) that by (cases f) fastforce+
  have dec: "list_all is_decimal (int_str v) \<and> int_str v \<noteq> []" if "v \<in> set vs" for v
    using nn [OF that] nat_str_decimal [of "nat v"] by (simp add: int_str_def)
  have nocomma: "CHR '','' \<notin> set (int_str v)" if "v \<in> set vs" for v
    using decimal_absent dec [OF that] not_decimal(3) by blast
  have "split_on (CHR '','') (py_join (CHR '','') (map int_str vs)) = map int_str vs"
    by (rule split_join) (use vs(1) nocomma in auto)
  moreover have "py_strip (py_join (CHR '','') (map int_str vs)) \<noteq> ''*''"
  proof
    assume star: "py_strip (py_join (CHR '','') (map int_str vs)) = ''*''"
    have "\<forall>c \<in> set (py_join (CHR '','') (map int_str vs)). is_decimal c \<or> c = CHR '',''"
      using dec by (induction vs rule: induct_list012) (auto simp: list_all_iff)
    moreover have "CHR ''*'' \<in> set (py_join (CHR '','') (map int_str vs))"
    proof -
      have "set (py_strip s) \<subseteq> set s" for s
        by (auto simp: py_strip_def py_rstrip_def py_lstrip_def dest!: set_dropWhileD)
      from this [of "py_join (CHR '','') (map int_str vs)"] star show ?thesis by simp
    qed
    ultimately show False by fastforce
  qed
  ultimately show ?thesis
    using parse_parts_decimal [OF vs(2)] by (simp add: parse_field_def)
qed

text \<open>C37: Parsing of cron expressions. Whatever \<open>parse_cron\<close> accepts has, in each of its five fields, at
  least one value, and only values of that field's range. And every non-empty list of values of a
  field, written in decimal and joined with commas, parses back to exactly those values, also in
  the fields where month and day names are substituted first.\<close>

theorem cron_parse_sound:
  "(parse_cron raw = Inr e \<longrightarrow>
      field_span Minute (cf_values (ce_minute e)) \<and> field_span Hour (cf_values (ce_hour e))
    \<and> field_span DayOfMonth (cf_values (ce_dom e)) \<and> field_span Month (cf_values (ce_month e))
    \<and> field_span DayOfWeek (cf_values (ce_dow e)))
   \<and> (field_span f vs \<longrightarrow> parse_field (py_join (CHR '','') (map int_str vs)) f (field_names f)
        = Inr \<lparr>cf_values = vs, cf_restricted = True\<rparr>)"
proof -
  have "field_span Minute (cf_values (ce_minute e)) \<and> field_span Hour (cf_values (ce_hour e))
    \<and> field_span DayOfMonth (cf_values (ce_dom e)) \<and> field_span Month (cf_values (ce_month e))
    \<and> field_span DayOfWeek (cf_values (ce_dow e))" if "parse_fields s = Inr e" for s
    using that unfolding parse_fields_def
    by (auto split: list.splits sum.splits dest!: parse_field_span)
  then show ?thesis
    using parse_field_decimal [of f vs]
    by (auto simp: parse_cron_def Let_def split: if_splits option.splits)
qed

theorem cron_parse_sound_witness:
  "field_span Month [3, 12] \<and> parse_field ''3,12'' Month (field_names Month)
     = Inr \<lparr>cf_values = [3, 12], cf_restricted = True\<rparr>"
proof -
  have "field_span Month [3, 12]" by (simp add: field_span_def)
  moreover have "py_join (CHR '','') (map int_str [3, 12]) = ''3,12''" by code_simp
  ultimately show ?thesis using cron_parse_sound [of _ _ Month "[3, 12]"] by metis
qed

section \<open>The next run is the first match\<close>

lemma scan_Some:
  "scan wall e n c = Some r \<longleftrightarrow>
     (\<exists>k < n. r = c + int k * minute_us \<and> cron_matches e (wall r)
        \<and> (\<forall>j < k. \<not> cron_matches e (wall (c + int j * minute_us))))"
proof (induction n arbitrary: c)
  case 0
  then show ?case by (subst scan.simps) simp
next
  case (Suc n)
  show ?case
  proof (cases "cron_matches e (wall c)")
    case True
    then have "scan wall e (Suc n) c = Some c" by (subst scan.simps) simp
    then show ?thesis using True
      by (auto intro!: exI [of _ 0]) (metis add.right_neutral mult_zero_left neq0_conv of_nat_0)
  next
    case False
    then have "scan wall e (Suc n) c = scan wall e n (c + minute_us)" by (subst scan.simps) simp
    moreover have "(\<exists>k < Suc n. r = c + int k * minute_us \<and> cron_matches e (wall r)
        \<and> (\<forall>j < k. \<not> cron_matches e (wall (c + int j * minute_us))))
      \<longleftrightarrow> (\<exists>k < n. r = c + int (Suc k) * minute_us \<and> cron_matches e (wall r)
        \<and> (\<forall>j < Suc k. \<not> cron_matches e (wall (c + int j * minute_us))))"
      using False by (auto simp: Ex_less_Suc2)
    moreover have "(\<forall>j < Suc k. \<not> cron_matches e (wall (c + int j * minute_us)))
      \<longleftrightarrow> (\<forall>j < k. \<not> cron_matches e (wall (c + minute_us + int j * minute_us)))" for k
      using False by (auto simp: All_less_Suc2 algebra_simps)
    ultimately show ?thesis using Suc by (simp add: algebra_simps)
  qed
qed

lemma scan_None:
  "scan wall e n c = None \<longleftrightarrow> (\<forall>k < n. \<not> cron_matches e (wall (c + int k * minute_us)))"
proof (induction n arbitrary: c)
  case 0
  then show ?case by (subst scan.simps) simp
next
  case (Suc n)
  then show ?case
    by (subst scan.simps) (auto simp: All_less_Suc2 algebra_simps)
qed

text \<open>C33: The next run. For a cron job \<open>_next_run\<close> returns, up to the job's jitter, the earliest whole
  minute after \<open>after\<close> whose wall time matches, and gives up only when none of the next 2,102,400
  minutes matches. For an interval job with an anchor it returns the anchor, if that lies ahead,
  and otherwise the only instant after \<open>after\<close>, at most one interval away, that is a whole number of
  intervals from the anchor.\<close>

theorem next_run_is_first:
  "(next_cron wall e jitter after = Some t \<longrightarrow>
      after < t - jitter \<and> minute_us dvd (t - jitter) \<and> cron_matches e (wall (t - jitter))
    \<and> (\<forall>m. after < m \<and> m < t - jitter \<and> minute_us dvd m \<longrightarrow> \<not> cron_matches e (wall m)))
   \<and> (next_cron wall e jitter after = None \<longrightarrow>
      (\<forall>m. after < m \<and> m \<le> after + int scan_limit * minute_us \<and> minute_us dvd m
         \<longrightarrow> \<not> cron_matches e (wall m)))
   \<and> (0 < interval \<longrightarrow> (\<exists>r. next_interval interval (Some a) after = Some r
      \<and> (if after < a then r = a
         else after < r \<and> r \<le> after + interval \<and> interval dvd (r - a))))"
proof -
  let ?c = "after div minute_us * minute_us + minute_us"
  have pos: "0 < minute_us" by (simp add: minute_us_def)
  have c: "after < ?c" "?c \<le> after + minute_us" "minute_us dvd ?c"
  proof -
    have "after = after div minute_us * minute_us + after mod minute_us" by simp
    moreover have "0 \<le> after mod minute_us" "after mod minute_us < minute_us"
      using pos by simp_all
    ultimately show "after < ?c" "?c \<le> after + minute_us" by linarith+
  qed simp
  have grid: "\<exists>k. m = ?c + int k * minute_us" if m: "after < m" "minute_us dvd m" for m
  proof -
    from m(2) c(3) have "minute_us dvd (m - ?c)" by (rule dvd_diff)
    then obtain q where q: "m - ?c = minute_us * q" ..
    have "0 \<le> q"
    proof (rule ccontr)
      assume "\<not> 0 \<le> q"
      then have "minute_us * q \<le> minute_us * (- 1)" using pos by (intro mult_left_mono) auto
      then show False using q m(1) c(2) by linarith
    qed
    then have "m = ?c + int (nat q) * minute_us" using q by (simp add: algebra_simps)
    then show ?thesis ..
  qed
  have first: "after < t - jitter \<and> minute_us dvd (t - jitter) \<and> cron_matches e (wall (t - jitter))
    \<and> (\<forall>m. after < m \<and> m < t - jitter \<and> minute_us dvd m \<longrightarrow> \<not> cron_matches e (wall m))"
    if "next_cron wall e jitter after = Some t"
  proof -
    from that have "scan wall e scan_limit ?c = Some (t - jitter)" by (auto simp: next_cron_def)
    then obtain k where k: "t - jitter = ?c + int k * minute_us" "cron_matches e (wall (t - jitter))"
        "\<forall>j < k. \<not> cron_matches e (wall (?c + int j * minute_us))"
      unfolding scan_Some by blast
    have "\<not> cron_matches e (wall m)" if m: "after < m" "m < t - jitter" "minute_us dvd m" for m
    proof -
      obtain j where j: "m = ?c + int j * minute_us" using grid m by blast
      have "int j * minute_us < int k * minute_us" using m(2) j k(1) by linarith
      then have "j < k" using pos by simp
      then show ?thesis using k(3) j by simp
    qed
    moreover have "after < t - jitter" using k(1) c(1) pos by (smt (verit) mult_nonneg_nonneg of_nat_0_le_iff)
    moreover have "minute_us dvd (t - jitter)" unfolding k(1) using c(3) by simp
    ultimately show ?thesis using k(2) by blast
  qed
  have none: "\<not> cron_matches e (wall m)"
    if n: "next_cron wall e jitter after = None" and m: "after < m"
      "m \<le> after + int scan_limit * minute_us" "minute_us dvd m" for m
  proof -
    obtain j where j: "m = ?c + int j * minute_us" using grid m by blast
    have "int j * minute_us < int scan_limit * minute_us" using m(2) j c(1) by linarith
    then have "j < scan_limit" using pos by simp
    moreover have "scan wall e scan_limit ?c = None" using n by (simp add: next_cron_def)
    ultimately show ?thesis using j unfolding scan_None by blast
  qed
  have interval: "\<exists>r. next_interval interval (Some a) after = Some r
      \<and> (if after < a then r = a
         else after < r \<and> r \<le> after + interval \<and> interval dvd (r - a))" if "0 < interval"
  proof (cases "after < a")
    case True
    then show ?thesis by (simp add: next_interval_def)
  next
    case False
    let ?r = "a + ((after - a) div interval + 1) * interval"
    have "after - a = (after - a) div interval * interval + (after - a) mod interval" by simp
    moreover have "0 \<le> (after - a) mod interval" "(after - a) mod interval < interval"
      using that by simp_all
    moreover have "?r = a + (after - a) div interval * interval + interval"
      by (simp add: algebra_simps)
    ultimately have "after < ?r" "?r \<le> after + interval" by linarith+
    then show ?thesis using False that by (simp add: next_interval_def)
  qed
  show ?thesis using first none interval by blast
qed

theorem next_run_is_first_witness:
  "\<exists>r. next_interval 300000000 (Some 0) 1000000000 = Some r \<and> 1000000000 < r \<and> r \<le> 1300000000"
  using next_run_is_first [where interval = 300000000 and a = 0 and after = 1000000000
      and wall = "\<lambda>_. undefined" and e = undefined and jitter = 0 and t = 0] by auto

end
