(* ===== verification/Scheduler.thy ===== *)
theory Scheduler
  imports Cron
begin

text \<open>
  The life of a scheduled job: the state after a run (\<open>scheduler/jobs.py\<close>) and the reservation
  protocol of the job table (\<open>scheduler/persistence.py\<close>).

  A job is a row of the table, with the columns that these operations read or write. Each method of
  the store is one SQL statement inside a committed write, so it is one step: the rows that its
  \<open>WHERE\<close> selects, and what its \<open>SET\<close> writes. Instants are microseconds, as in \<open>Cron\<close>; the column
  texts compare as the instants do. A token is what \<open>uuid4\<close> returned.

  \<open>ZoneInfo\<close> is the argument \<open>zone\<close>: for a time-zone name, the wall time of every instant, or the text of
  the error it raises.
\<close>

datatype schedule_kind = CRON | AT | EVERY

datatype job_status = PENDING | RUNNING | PAUSED | FAILED | DISABLED | DELETED

record job =
  jb_id :: string
  jb_cron_expr :: string
  jb_kind :: schedule_kind
  jb_tz :: string
  jb_anchor :: "int option"
  jb_jitter :: int
  jb_status :: job_status
  jb_enabled :: bool
  jb_delete_after_run :: bool
  jb_updated_at :: int
  jb_last_run_at :: "int option"
  jb_next_run_at :: "int option"
  jb_scheduled_run_at :: "int option"
  jb_run_count :: int
  jb_error_count :: int
  jb_consecutive_errors :: int
  jb_last_error :: "string option"
  jb_backoff_until :: "int option"
  jb_token :: string
  jb_reserved_at :: "int option"
  jb_reserved_by :: string
  jb_source :: string

record execution =
  ex_success :: bool
  ex_error :: "string option"

section \<open>Errors and backoff\<close>

datatype error_class = Permanent | Transient

definition transient_error_patterns :: "string list" where
  "transient_error_patterns =
     [''rate limit'', ''too many requests'', ''resource exhausted'', ''429'', ''529'', ''overload'',
      ''timeout'', ''timed out'', ''econnreset'', ''fetch failed'', ''socket'', ''network'',
      ''service unavailable'', ''bad gateway'', ''gateway timeout'', ''502'', ''503'', ''504'',
      ''cloudflare'']"

definition permanent_error_patterns :: "string list" where
  "permanent_error_patterns =
     [''unauthorized'', ''invalid api key'', ''invalid_api_key'', ''forbidden'', ''401'', ''403'',
      ''validation'', ''invalid request'', ''no handler registered'']"

definition classify_error :: "string option \<Rightarrow> error_class" where
  "classify_error err =
     (case err of
        None \<Rightarrow> Transient
      | Some [] \<Rightarrow> Transient
      | Some text \<Rightarrow>
          if list_ex (\<lambda>p. py_in p (py_lower text)) permanent_error_patterns then Permanent
          else if list_ex (\<lambda>p. py_in p (py_lower text)) transient_error_patterns then Transient
          else Transient)"

definition backoff_schedule :: "int list" where
  "backoff_schedule = [30, 60, 300, 900, 3600]"

definition max_consecutive_errors :: int where
  "max_consecutive_errors = 5"

definition one_shot_max_retries :: int where
  "one_shot_max_retries = 3"

definition compute_backoff :: "int \<Rightarrow> int" where
  "compute_backoff n =
     (if n \<le> 0 then 0
      else backoff_schedule ! nat (min (n - 1) (int (length backoff_schedule) - 1)))"

section \<open>The next run\<close>

fun field_text :: "field_name \<Rightarrow> string" where
  "field_text Minute = ''minute''"
| "field_text Hour = ''hour''"
| "field_text DayOfMonth = ''day_of_month''"
| "field_text Month = ''month''"
| "field_text DayOfWeek = ''day_of_week''"

definition quote :: "string \<Rightarrow> string" where
  "quote s = [CHR 0x27] @ s @ [CHR 0x27]"

fun cron_error_text :: "string \<Rightarrow> cron_error \<Rightarrow> string" where
  "cron_error_text expr (InvalidStep s f) = ''Invalid step '' @ quote s @ '' in field '' @ quote (field_text f)"
| "cron_error_text expr (StepNotPositive f) = ''Step must be > 0 in field '' @ quote (field_text f)"
| "cron_error_text expr (StartAfterEnd f) = ''Range start > end in field '' @ quote (field_text f)"
| "cron_error_text expr (InvalidValue s f) =
     ''Invalid value '' @ quote s @ '' in field '' @ quote (field_text f)"
| "cron_error_text expr (OutOfRange v f) =
     ''Value '' @ int_str v @ '' out of range ['' @ int_str (fst (field_range f)) @ '', ''
     @ int_str (snd (field_range f)) @ ''] for field '' @ quote (field_text f)"
| "cron_error_text expr (UnknownPreset p) = ''Unknown preset '' @ quote p"
| "cron_error_text expr (WrongFieldCount n) =
     ''Expected 5 fields, got '' @ nat_str n @ '': '' @ quote expr"

definition py_isdigit :: "string \<Rightarrow> bool" where
  "py_isdigit s \<longleftrightarrow> s \<noteq> [] \<and> list_all (\<lambda>c. is_decimal c \<or> (of_char c :: nat) \<in> {178, 179, 185}) s"

type_synonym zones = "string \<Rightarrow> string + (int \<Rightarrow> wall_time)"

definition job_next_run :: "zones \<Rightarrow> job \<Rightarrow> int \<Rightarrow> string + int" where
  "job_next_run zone j after =
     (if jb_kind j = EVERY \<and> py_isdigit (jb_cron_expr j)
      then (case py_int (jb_cron_expr j) of
              None \<Rightarrow> Inl (''invalid literal for int() with base 10: '' @ quote (jb_cron_expr j))
            | Some n \<Rightarrow> (case next_interval (n * 1000000) (jb_anchor j) after of
                None \<Rightarrow> Inl ''float floor division by zero'' | Some t \<Rightarrow> Inr t))
      else case parse_cron (jb_cron_expr j) of
             Inl e \<Rightarrow> Inl (cron_error_text (py_strip (jb_cron_expr j)) e)
           | Inr e \<Rightarrow> (case zone (py_strip (jb_tz j)) of
               Inl err \<Rightarrow> Inl err
             | Inr wall \<Rightarrow> (case next_cron wall e (jb_jitter j) after of
                 None \<Rightarrow> Inl (''No valid next run found for expression '' @ quote (jb_cron_expr j))
               | Some t \<Rightarrow> Inr t)))"

section \<open>The state after a run\<close>

definition is_rescheduled_one_shot :: "job \<Rightarrow> bool" where
  "is_rescheduled_one_shot j \<longleftrightarrow>
     jb_kind j = AT \<and> jb_token j \<noteq> [] \<and> jb_scheduled_run_at j \<noteq> None
   \<and> jb_next_run_at j \<noteq> None \<and> jb_next_run_at j \<noteq> jb_scheduled_run_at j"

definition clear_reservation :: "job \<Rightarrow> job" where
  "clear_reservation j = j\<lparr>jb_token := [], jb_reserved_at := None, jb_reserved_by := [],
     jb_source := [], jb_scheduled_run_at := None\<rparr>"

definition mark_schedule_compute_failed :: "string \<Rightarrow> int \<Rightarrow> bool \<Rightarrow> job \<Rightarrow> job" where
  "mark_schedule_compute_failed err now increment j =
     clear_reservation
       ((if increment then j\<lparr>jb_error_count := jb_error_count j + 1,
                             jb_consecutive_errors := jb_consecutive_errors j + 1\<rparr> else j)
        \<lparr>jb_status := FAILED, jb_last_error := Some (''schedule compute failed: '' @ err),
         jb_updated_at := now, jb_backoff_until := None, jb_next_run_at := None\<rparr>)"

text \<open>The result: whether the job is to be deleted, its state, and the error that the schedule notifier
  is told, if any.\<close>

definition apply_success :: "zones \<Rightarrow> int \<Rightarrow> job \<Rightarrow> bool \<times> job \<times> string option" where
  "apply_success zone now j =
     (let j' = j\<lparr>jb_consecutive_errors := 0, jb_backoff_until := None, jb_last_error := None,
                 jb_run_count := jb_run_count j + 1, jb_updated_at := now\<rparr>
      in if jb_kind j' = AT
         then if jb_delete_after_run j' then (True, clear_reservation j', None)
              else (False, (clear_reservation j')\<lparr>jb_status := DISABLED, jb_enabled := False\<rparr>, None)
         else case job_next_run zone j' now of
                Inl err \<Rightarrow> (False, mark_schedule_compute_failed err now True j', Some err)
              | Inr t \<Rightarrow> (False, clear_reservation (j'\<lparr>jb_next_run_at := Some t, jb_status := PENDING\<rparr>),
                          None))"

definition apply_failure :: "zones \<Rightarrow> execution \<Rightarrow> int \<Rightarrow> job \<Rightarrow> bool \<times> job \<times> string option" where
  "apply_failure zone ex now j =
     (let j' = j\<lparr>jb_consecutive_errors := jb_consecutive_errors j + 1,
                 jb_error_count := jb_error_count j + 1, jb_last_error := ex_error ex,
                 jb_run_count := jb_run_count j + 1, jb_updated_at := now\<rparr>
      in if classify_error (ex_error ex) = Permanent
         then (False, clear_reservation (j'\<lparr>jb_status := DISABLED, jb_enabled := False,
                 jb_next_run_at := None, jb_backoff_until := None\<rparr>), None)
         else if jb_kind j' \<in> {CRON, EVERY}
         then
           (if max_consecutive_errors \<le> jb_consecutive_errors j'
            then (False, clear_reservation (j'\<lparr>jb_status := FAILED, jb_next_run_at := None,
                    jb_backoff_until := None\<rparr>), None)
            else case job_next_run zone j' now of
                   Inl err \<Rightarrow> (False, mark_schedule_compute_failed err now False j', Some err)
                 | Inr t \<Rightarrow>
                     (False, clear_reservation (j'\<lparr>jb_next_run_at := Some t,
                        jb_backoff_until :=
                          Some (now + compute_backoff (jb_consecutive_errors j') * 1000000),
                        jb_status := PENDING\<rparr>), None))
         else
           (if one_shot_max_retries \<le> jb_consecutive_errors j'
            then (False, clear_reservation (j'\<lparr>jb_status := DISABLED, jb_enabled := False\<rparr>), None)
            else (False, clear_reservation (j'\<lparr>jb_backoff_until :=
                    Some (now + compute_backoff (jb_consecutive_errors j') * 1000000),
                    jb_status := PENDING\<rparr>), None)))"

definition apply_result_state ::
  "zones \<Rightarrow> execution \<Rightarrow> int \<Rightarrow> job \<Rightarrow> bool \<times> job \<times> string option" where
  "apply_result_state zone ex now j =
     (if is_rescheduled_one_shot j
      then (False, clear_reservation
             (j\<lparr>jb_run_count := jb_run_count j + 1,
                jb_error_count := (if ex_success ex then jb_error_count j else jb_error_count j + 1),
                jb_last_error := (if ex_success ex then None else ex_error ex),
                jb_updated_at := now, jb_status := PENDING, jb_consecutive_errors := 0,
                jb_backoff_until := None\<rparr>), None)
      else if ex_success ex then apply_success zone now j
      else apply_failure zone ex now j)"

section \<open>The table of jobs\<close>

type_synonym table = "string \<rightharpoonup> job"

datatype rejection = NotFound | Busy | NotDue | Disabled | StatusConflict | BackingOff

definition backing_off :: "int \<Rightarrow> job \<Rightarrow> bool" where
  "backing_off now j \<longleftrightarrow> (case jb_backoff_until j of None \<Rightarrow> False | Some t \<Rightarrow> now < t)"

definition is_due :: "int \<Rightarrow> job \<Rightarrow> bool" where
  "is_due now j \<longleftrightarrow> (case jb_next_run_at j of None \<Rightarrow> False | Some t \<Rightarrow> t \<le> now)"

definition can_reserve :: "int \<Rightarrow> bool \<Rightarrow> job \<Rightarrow> bool" where
  "can_reserve now require_due j \<longleftrightarrow>
     jb_enabled j \<and> jb_status j = PENDING \<and> jb_token j = [] \<and> \<not> backing_off now j
   \<and> (require_due \<longrightarrow> is_due now j)"

definition classify_rejection :: "int \<Rightarrow> bool \<Rightarrow> job option \<Rightarrow> rejection" where
  "classify_rejection now require_due row =
     (case row of
        None \<Rightarrow> NotFound
      | Some j \<Rightarrow>
          if jb_token j \<noteq> [] \<or> jb_status j = RUNNING then Busy
          else if \<not> jb_enabled j \<or> jb_status j = DISABLED then Disabled
          else if backing_off now j then BackingOff
          else if jb_status j \<noteq> PENDING then StatusConflict
          else if require_due \<and> (case jb_next_run_at j of None \<Rightarrow> True | Some t \<Rightarrow> now < t) then NotDue
          else StatusConflict)"

definition reserve ::
  "string \<Rightarrow> string \<Rightarrow> int \<Rightarrow> bool \<Rightarrow> string \<Rightarrow> string \<Rightarrow> table \<Rightarrow> (rejection + job) \<times> table" where
  "reserve token i now require_due source owner s =
     (case s i of
        Some j \<Rightarrow>
          if can_reserve now require_due j
          then let j' = j\<lparr>jb_status := RUNNING, jb_token := token, jb_reserved_at := Some now,
                          jb_reserved_by := owner, jb_source := source,
                          jb_scheduled_run_at := jb_next_run_at j, jb_last_run_at := Some now,
                          jb_updated_at := now, jb_last_error := None\<rparr>
               in (Inr j', s(i \<mapsto> j'))
          else (Inl (classify_rejection now require_due (Some j)), s)
      | None \<Rightarrow> (Inl (classify_rejection now require_due None), s))"

definition finalize_reserved ::
  "job \<Rightarrow> string \<Rightarrow> int \<Rightarrow> bool \<Rightarrow> table \<Rightarrow> bool \<times> table" where
  "finalize_reserved j token expected delete s =
     (case s (jb_id j) of
        Some row \<Rightarrow>
          if jb_token row = token \<and> jb_updated_at row = expected
          then if delete then (True, s(jb_id j := None))
               else (True, s(jb_id j \<mapsto> clear_reservation
                 (row\<lparr>jb_status := jb_status j, jb_enabled := jb_enabled j,
                      jb_next_run_at := jb_next_run_at j, jb_run_count := jb_run_count j,
                      jb_error_count := jb_error_count j, jb_last_error := jb_last_error j,
                      jb_consecutive_errors := jb_consecutive_errors j,
                      jb_backoff_until := jb_backoff_until j,
                      jb_updated_at := max (jb_updated_at row) (jb_updated_at j)\<rparr>)))
          else (False, s)
      | None \<Rightarrow> (False, s))"

definition settle_status :: "job \<Rightarrow> job" where
  "settle_status j = j\<lparr>jb_status := (if jb_status j = RUNNING then PENDING else jb_status j)\<rparr>"

definition release :: "string \<Rightarrow> string \<Rightarrow> int \<Rightarrow> table \<Rightarrow> bool \<times> table" where
  "release i token now s =
     (case s i of
        Some row \<Rightarrow>
          if jb_token row = token
          then (True, s(i \<mapsto> clear_reservation
                 ((settle_status row)\<lparr>jb_updated_at := max (jb_updated_at row) now\<rparr>)))
          else (False, s)
      | None \<Rightarrow> (False, s))"

definition recover :: "job \<Rightarrow> int \<Rightarrow> table \<Rightarrow> bool \<times> table" where
  "recover previous now s =
     (case s (jb_id previous) of
        Some row \<Rightarrow>
          if jb_updated_at row = jb_updated_at previous \<and> jb_token row = jb_token previous
             \<and> jb_reserved_by row = jb_reserved_by previous \<and> jb_status row = jb_status previous
          then (True, s(jb_id previous \<mapsto> clear_reservation
                 ((settle_status row)\<lparr>jb_updated_at := max (jb_updated_at row) now\<rparr>)))
          else (False, s)
      | None \<Rightarrow> (False, s))"

text \<open>An edit writes the columns in which the new configuration differs from the one it was read
  from.\<close>

definition configure :: "job \<Rightarrow> job \<Rightarrow> table \<Rightarrow> bool \<times> table" where
  "configure j previous s =
     (case s (jb_id j) of
        Some row \<Rightarrow>
          if jb_updated_at row = jb_updated_at previous \<and> jb_token row = jb_token previous
             \<and> jb_status row = jb_status previous \<and> jb_enabled row = jb_enabled previous
             \<and> jb_run_count row = jb_run_count previous \<and> jb_error_count row = jb_error_count previous
          then (True, s(jb_id j \<mapsto>
            row\<lparr>jb_cron_expr := (if jb_cron_expr j \<noteq> jb_cron_expr previous then jb_cron_expr j else jb_cron_expr row),
                jb_status := (if jb_status j \<noteq> jb_status previous then jb_status j else jb_status row),
                jb_updated_at := (if jb_updated_at j \<noteq> jb_updated_at previous then jb_updated_at j else jb_updated_at row),
                jb_next_run_at := (if jb_next_run_at j \<noteq> jb_next_run_at previous then jb_next_run_at j else jb_next_run_at row),
                jb_kind := (if jb_kind j \<noteq> jb_kind previous then jb_kind j else jb_kind row),
                jb_enabled := (if jb_enabled j \<noteq> jb_enabled previous then jb_enabled j else jb_enabled row),
                jb_backoff_until := (if jb_backoff_until j \<noteq> jb_backoff_until previous then jb_backoff_until j else jb_backoff_until row),
                jb_consecutive_errors := (if jb_consecutive_errors j \<noteq> jb_consecutive_errors previous then jb_consecutive_errors j else jb_consecutive_errors row),
                jb_tz := (if jb_tz j \<noteq> jb_tz previous then jb_tz j else jb_tz row),
                jb_anchor := (if jb_anchor j \<noteq> jb_anchor previous then jb_anchor j else jb_anchor row)\<rparr>))
          else (False, s)
      | None \<Rightarrow> (False, s))"

text \<open>One pass of \<open>apply_reserved_result\<close>: the row is read in \<open>s\<close>, and the result is written in \<open>s'\<close>,
  the table at the time of the write. \<open>None\<close> means that another pass follows.\<close>

definition settle_pass ::
  "zones \<Rightarrow> string \<Rightarrow> string \<Rightarrow> execution \<Rightarrow> int \<Rightarrow> table \<Rightarrow> table \<Rightarrow> bool option \<times> table" where
  "settle_pass zone i token ex now s s' =
     (case s i of
        None \<Rightarrow> (Some False, s')
      | Some current \<Rightarrow>
          if jb_token current \<noteq> token then (Some False, s')
          else
            let (delete, result, _) =
                  (if jb_status current \<in> {PAUSED, DISABLED} then (False, current, None)
                   else apply_result_state zone ex now current);
                (ok, s'') = finalize_reserved result token (jb_updated_at current) delete s'
            in (if ok then Some True else None, s''))"

text \<open>One pass of \<open>finalize_reserved_missing_handler\<close>.\<close>

definition missing_handler_pass ::
  "string \<Rightarrow> string \<Rightarrow> string \<Rightarrow> int \<Rightarrow> table \<Rightarrow> table \<Rightarrow> bool option \<times> table" where
  "missing_handler_pass i token err now s s' =
     (case s i of
        None \<Rightarrow> (Some False, s')
      | Some current \<Rightarrow>
          if jb_token current \<noteq> token then (Some False, s')
          else
            let result =
                  (if jb_status current \<in> {PAUSED, DISABLED} then current
                   else (if is_rescheduled_one_shot current
                         then current\<lparr>jb_status := PENDING, jb_consecutive_errors := 0\<rparr>
                         else current\<lparr>jb_status := FAILED,
                                jb_consecutive_errors := jb_consecutive_errors current + 1,
                                jb_next_run_at := None\<rparr>)
                        \<lparr>jb_error_count := jb_error_count current + 1, jb_last_error := Some err,
                         jb_backoff_until := None, jb_updated_at := now\<rparr>);
                (ok, s'') = finalize_reserved result token (jb_updated_at current) False s'
            in (if ok then Some True else None, s''))"

section \<open>After a run\<close>

lemma clear_simps [simp]:
  "jb_token (clear_reservation j) = []" "jb_status (clear_reservation j) = jb_status j"
  "jb_kind (clear_reservation j) = jb_kind j" "jb_cron_expr (clear_reservation j) = jb_cron_expr j"
  "jb_run_count (clear_reservation j) = jb_run_count j"
  "jb_error_count (clear_reservation j) = jb_error_count j"
  "jb_consecutive_errors (clear_reservation j) = jb_consecutive_errors j"
  "jb_next_run_at (clear_reservation j) = jb_next_run_at j"
  "jb_backoff_until (clear_reservation j) = jb_backoff_until j"
  "jb_enabled (clear_reservation j) = jb_enabled j" "jb_id (clear_reservation j) = jb_id j"
  "jb_scheduled_run_at (clear_reservation j) = None"
  "jb_updated_at (clear_reservation j) = jb_updated_at j"
  "jb_tz (clear_reservation j) = jb_tz j" "jb_anchor (clear_reservation j) = jb_anchor j"
  "jb_jitter (clear_reservation j) = jb_jitter j"
  "jb_last_error (clear_reservation j) = jb_last_error j"
  by (simp_all add: clear_reservation_def)

lemma next_run_same:
  "jb_kind j' = jb_kind j \<Longrightarrow> jb_cron_expr j' = jb_cron_expr j \<Longrightarrow> jb_tz j' = jb_tz j \<Longrightarrow>
     jb_anchor j' = jb_anchor j \<Longrightarrow> jb_jitter j' = jb_jitter j \<Longrightarrow>
     job_next_run zone j' after = job_next_run zone j after"
  unfolding job_next_run_def by (simp only:)

lemma next_run_updates [simp]:
  "job_next_run zone (j\<lparr>jb_consecutive_errors := a\<rparr>) = job_next_run zone j"
  "job_next_run zone (j\<lparr>jb_error_count := b\<rparr>) = job_next_run zone j"
  "job_next_run zone (j\<lparr>jb_last_error := c\<rparr>) = job_next_run zone j"
  "job_next_run zone (j\<lparr>jb_run_count := d\<rparr>) = job_next_run zone j"
  "job_next_run zone (j\<lparr>jb_updated_at := e\<rparr>) = job_next_run zone j"
  "job_next_run zone (j\<lparr>jb_backoff_until := f\<rparr>) = job_next_run zone j"
  by (rule ext, rule next_run_same; simp)+

definition result_ok :: "zones \<Rightarrow> execution \<Rightarrow> int \<Rightarrow> job \<Rightarrow> bool \<times> job \<times> string option \<Rightarrow> bool" where
  "result_ok zone ex now j r =
     (case r of (delete, j', told) \<Rightarrow>
        jb_token j' = [] \<and> jb_run_count j' = jb_run_count j + 1
      \<and> jb_error_count j \<le> jb_error_count j'
      \<and> (delete \<longrightarrow> ex_success ex \<and> jb_kind j = AT \<and> jb_delete_after_run j)
      \<and> (\<not> delete \<longrightarrow> jb_status j' \<in> {PENDING, FAILED, DISABLED})
      \<and> (jb_status j' = FAILED \<and> \<not> delete \<longrightarrow> jb_next_run_at j' = None \<and> jb_backoff_until j' = None)
      \<and> (jb_status j' = PENDING \<and> \<not> delete \<and> jb_kind j \<noteq> AT \<longrightarrow>
           (\<exists>t. job_next_run zone j now = Inr t \<and> jb_next_run_at j' = Some t))
      \<and> (told \<noteq> None \<longrightarrow> jb_status j' = FAILED \<and> jb_kind j \<noteq> AT
           \<and> (\<exists>e. job_next_run zone j now = Inl e \<and> told = Some e
                 \<and> jb_last_error j' = Some (''schedule compute failed: '' @ e)))
      \<and> (\<not> ex_success ex \<and> classify_error (ex_error ex) = Permanent \<and> \<not> is_rescheduled_one_shot j
           \<longrightarrow> jb_status j' = DISABLED \<and> \<not> jb_enabled j'))"

lemma apply_success_ok:
  "ex_success ex \<Longrightarrow> result_ok zone ex now j (apply_success zone now j)"
  by (cases "job_next_run zone j now"; cases "jb_kind j")
     (simp_all add: apply_success_def result_ok_def mark_schedule_compute_failed_def Let_def)

lemma apply_failure_ok:
  "\<not> ex_success ex \<Longrightarrow> result_ok zone ex now j (apply_failure zone ex now j)"
  by (cases "job_next_run zone j now"; cases "jb_kind j")
     (simp_all add: apply_failure_def result_ok_def mark_schedule_compute_failed_def Let_def)

text \<open>The state after a run. Whatever the outcome, the reservation is cleared, the run is counted
  once and no error is forgotten; a job is deleted only after a successful one-shot that asked for
  it, and is otherwise pending, failed or disabled; a failed job has no next run and no backoff; a
  pending recurring job has the next run that its schedule gives; the notifier is told exactly of
  schedules that do not compute; and a permanent error disables the job at once.\<close>

theorem result_state_sound:
  "result_ok zone ex now j (apply_result_state zone ex now j)"
proof (cases "is_rescheduled_one_shot j")
  case True
  then have "jb_kind j = AT" by (simp add: is_rescheduled_one_shot_def)
  then show ?thesis using True by (simp add: apply_result_state_def result_ok_def)
next
  case False
  then show ?thesis
    using apply_success_ok [of ex zone now j] apply_failure_ok [of ex zone now j]
    by (simp add: apply_result_state_def)
qed

section \<open>The ladder of failures\<close>

text \<open>A round of a job: it is reserved with a token, and the run ends with an outcome.\<close>

record round =
  ro_token :: string
  ro_start :: int
  ro_execution :: execution
  ro_end :: int

definition reserved_job :: "string \<Rightarrow> int \<Rightarrow> job \<Rightarrow> job" where
  "reserved_job token now j = j\<lparr>jb_status := RUNNING, jb_token := token, jb_reserved_at := Some now,
     jb_scheduled_run_at := jb_next_run_at j, jb_last_run_at := Some now,
     jb_updated_at := now, jb_last_error := None\<rparr>"

definition play_round :: "zones \<Rightarrow> round \<Rightarrow> job \<Rightarrow> job" where
  "play_round zone r j =
     fst (snd (apply_result_state zone (ro_execution r) (ro_end r) (reserved_job (ro_token r) (ro_start r) j)))"

definition transient_round :: "round \<Rightarrow> bool" where
  "transient_round r \<longleftrightarrow> \<not> ex_success (ro_execution r) \<and> classify_error (ex_error (ro_execution r)) = Transient"

definition same_schedule :: "job \<Rightarrow> job \<Rightarrow> bool" where
  "same_schedule j' j \<longleftrightarrow> jb_kind j' = jb_kind j \<and> jb_cron_expr j' = jb_cron_expr j \<and> jb_tz j' = jb_tz j
     \<and> jb_anchor j' = jb_anchor j \<and> jb_jitter j' = jb_jitter j"

lemma play_transient:
  assumes "transient_round r" and "jb_kind j \<in> {CRON, EVERY}"
    and "job_next_run zone j (ro_end r) = Inr t"
  shows "same_schedule (play_round zone r j) j"
    and "jb_consecutive_errors (play_round zone r j) = jb_consecutive_errors j + 1"
    and "jb_consecutive_errors j + 1 < 5 \<Longrightarrow> jb_status (play_round zone r j) = PENDING
      \<and> jb_next_run_at (play_round zone r j) = Some t
      \<and> jb_backoff_until (play_round zone r j)
          = Some (ro_end r + compute_backoff (jb_consecutive_errors j + 1) * 1000000)"
    and "5 \<le> jb_consecutive_errors j + 1 \<Longrightarrow> jb_status (play_round zone r j) = FAILED
      \<and> jb_next_run_at (play_round zone r j) = None"
proof -
  define d where "d = reserved_job (ro_token r) (ro_start r) j"
  have d: "same_schedule d j" "jb_consecutive_errors d = jb_consecutive_errors j"
    by (simp_all add: d_def reserved_job_def same_schedule_def)
  have "job_next_run zone d (ro_end r) = Inr t"
    using d(1) assms(3) next_run_same [of d j zone "ro_end r"] by (simp add: same_schedule_def)
  moreover have "\<not> is_rescheduled_one_shot d"
    using d(1) assms(2) by (auto simp: is_rescheduled_one_shot_def same_schedule_def)
  moreover have "jb_kind d \<in> {CRON, EVERY}" using d(1) assms(2) by (simp add: same_schedule_def)
  ultimately show "same_schedule (play_round zone r j) j"
    and "jb_consecutive_errors (play_round zone r j) = jb_consecutive_errors j + 1"
    and "jb_consecutive_errors j + 1 < 5 \<Longrightarrow> jb_status (play_round zone r j) = PENDING
      \<and> jb_next_run_at (play_round zone r j) = Some t
      \<and> jb_backoff_until (play_round zone r j)
          = Some (ro_end r + compute_backoff (jb_consecutive_errors j + 1) * 1000000)"
    and "5 \<le> jb_consecutive_errors j + 1 \<Longrightarrow> jb_status (play_round zone r j) = FAILED
      \<and> jb_next_run_at (play_round zone r j) = None"
    using assms(1) d
    by (simp_all add: play_round_def d_def [symmetric] apply_result_state_def apply_failure_def
        transient_round_def Let_def max_consecutive_errors_def same_schedule_def)
qed

lemma ladder_run:
  assumes "jb_kind j \<in> {CRON, EVERY}" and "\<And>now. \<exists>t. job_next_run zone j now = Inr t"
    and "list_all transient_round rs"
  shows "same_schedule (fold (play_round zone) rs j) j
    \<and> jb_consecutive_errors (fold (play_round zone) rs j) = jb_consecutive_errors j + int (length rs)"
  using assms
proof (induction rs arbitrary: j)
  case Nil
  then show ?case by (simp add: same_schedule_def)
next
  case (Cons r rs)
  obtain t where t: "job_next_run zone j (ro_end r) = Inr t" using Cons.prems(2) by blast
  have r: "transient_round r" using Cons.prems(3) by simp
  note p = play_transient [OF r Cons.prems(1) t]
  have same: "job_next_run zone (play_round zone r j) now = job_next_run zone j now" for now
    using p(1) next_run_same [of "play_round zone r j" j zone now] by (simp add: same_schedule_def)
  have "same_schedule (fold (play_round zone) rs (play_round zone r j)) (play_round zone r j)
    \<and> jb_consecutive_errors (fold (play_round zone) rs (play_round zone r j))
        = jb_consecutive_errors (play_round zone r j) + int (length rs)"
    using Cons.prems p(1) same by (intro Cons.IH) (auto simp: same_schedule_def)
  then show ?case using p(1,2) by (simp add: same_schedule_def)
qed

text \<open>The ladder of failures. A recurring job whose schedule computes and that keeps failing with
  transient errors stays pending for four rounds, with a next run and a backoff of 30 s, 60 s, 5 min
  and 15 min after the end of the failing run; its fifth failure in a row makes it failed, with no
  next run.\<close>

theorem failure_ladder:
  assumes "jb_kind j \<in> {CRON, EVERY}" and "\<And>now. \<exists>t. job_next_run zone j now = Inr t"
    and "jb_consecutive_errors j = 0" and "list_all transient_round rs" and "transient_round r"
  shows "(length rs < 4 \<longrightarrow>
       jb_status (fold (play_round zone) (rs @ [r]) j) = PENDING
     \<and> jb_next_run_at (fold (play_round zone) (rs @ [r]) j) \<noteq> None
     \<and> jb_backoff_until (fold (play_round zone) (rs @ [r]) j)
         = Some (ro_end r + [30, 60, 300, 900] ! length rs * 1000000))
    \<and> (length rs = 4 \<longrightarrow>
       jb_status (fold (play_round zone) (rs @ [r]) j) = FAILED
     \<and> jb_next_run_at (fold (play_round zone) (rs @ [r]) j) = None)"
proof -
  let ?d = "fold (play_round zone) rs j"
  note run = ladder_run [OF assms(1,2,4)]
  have same: "job_next_run zone ?d now = job_next_run zone j now" for now
    using run next_run_same [of ?d j zone now] by (simp add: same_schedule_def)
  obtain t where t: "job_next_run zone ?d (ro_end r) = Inr t" using assms(2) same by metis
  have kind: "jb_kind ?d \<in> {CRON, EVERY}" using run assms(1) by (simp add: same_schedule_def)
  note p = play_transient [OF assms(5) kind t]
  have n: "jb_consecutive_errors ?d = int (length rs)" using run assms(3) by simp
  have "compute_backoff (int k + 1) = [30, 60, 300, 900] ! k" if "k < 4" for k
  proof -
    have "k \<in> {0, 1, 2, 3}" using that by auto
    then show ?thesis by (auto simp: compute_backoff_def backoff_schedule_def)
  qed
  then show ?thesis using p(3,4) n by simp
qed

definition demo_job :: job where
  "demo_job = \<lparr>jb_id = ''j'', jb_cron_expr = ''60'', jb_kind = EVERY, jb_tz = [], jb_anchor = None,
     jb_jitter = 0, jb_status = PENDING, jb_enabled = True, jb_delete_after_run = False,
     jb_updated_at = 0, jb_last_run_at = None, jb_next_run_at = Some 0, jb_scheduled_run_at = None,
     jb_run_count = 0, jb_error_count = 0, jb_consecutive_errors = 0, jb_last_error = None,
     jb_backoff_until = None, jb_token = [], jb_reserved_at = None, jb_reserved_by = [],
     jb_source = []\<rparr>"

definition demo_round :: round where
  "demo_round = \<lparr>ro_token = ''t'', ro_start = 0,
     ro_execution = \<lparr>ex_success = False, ex_error = None\<rparr>, ro_end = 5\<rparr>"

theorem failure_ladder_witness:
  "jb_status (fold (play_round (\<lambda>_. Inl [])) [demo_round, demo_round, demo_round, demo_round, demo_round]
     demo_job) = FAILED"
proof -
  have "job_next_run (\<lambda>_. Inl []) demo_job now = Inr (now + 60000000)" for now
    by (simp add: job_next_run_def demo_job_def py_isdigit_def is_decimal_def py_int_def py_strip_def
        py_rstrip_def py_lstrip_def py_isspace_def unsigned_value_def digit_val_def next_interval_def)
  moreover have "transient_round demo_round"
    by (simp add: transient_round_def demo_round_def classify_error_def)
  moreover have "jb_kind demo_job \<in> {CRON, EVERY}" "jb_consecutive_errors demo_job = 0"
    by (simp_all add: demo_job_def)
  ultimately show ?thesis
    using failure_ladder [of demo_job "\<lambda>_. Inl []" "[demo_round, demo_round, demo_round, demo_round]"
        demo_round] by simp
qed

section \<open>Reservations\<close>

datatype store_op =
    SReserve string string int bool string string
  | SFinalize job string int bool
  | SRelease string string int
  | SRecover job int
  | SConfigure job job
  | SDelete string

fun store_step :: "store_op \<Rightarrow> table \<Rightarrow> table" where
  "store_step (SReserve t i now due src owner) s = snd (reserve t i now due src owner s)"
| "store_step (SFinalize j t expected delete) s = snd (finalize_reserved j t expected delete s)"
| "store_step (SRelease i t now) s = snd (release i t now s)"
| "store_step (SRecover previous now) s = snd (recover previous now s)"
| "store_step (SConfigure j previous) s = snd (configure j previous s)"
| "store_step (SDelete i) s = s(i := None)"

interpretation store: machine store_step .

text \<open>The operations that name the reservation \<open>t\<close> of job \<open>i\<close>, and the deletion of the job.\<close>

fun names_reservation :: "string \<Rightarrow> string \<Rightarrow> store_op \<Rightarrow> bool" where
  "names_reservation i t (SFinalize j u _ _) = (jb_id j = i \<and> u = t)"
| "names_reservation i t (SRelease k u _) = (k = i \<and> u = t)"
| "names_reservation i t (SRecover p _) = (jb_id p = i \<and> jb_token p = t)"
| "names_reservation i t (SDelete k) = (k = i)"
| "names_reservation i t _ = False"

definition holds :: "string \<Rightarrow> string \<Rightarrow> job \<Rightarrow> table \<Rightarrow> bool" where
  "holds i t j s \<longleftrightarrow> t \<noteq> [] \<and> (\<exists>row. s i = Some row \<and> jb_token row = t
     \<and> jb_run_count row = jb_run_count j \<and> jb_error_count row = jb_error_count j
     \<and> jb_last_error row = jb_last_error j \<and> jb_scheduled_run_at row = jb_scheduled_run_at j
     \<and> jb_reserved_by row = jb_reserved_by j)"

lemma holds_step: "holds i t j s \<Longrightarrow> \<not> names_reservation i t a \<Longrightarrow> holds i t j (store_step a s)"
  by (cases a)
     (auto simp: holds_def reserve_def can_reserve_def finalize_reserved_def release_def recover_def
       configure_def Let_def split: option.splits)

lemma holds_run:
  "holds i t j s \<Longrightarrow> list_all (\<lambda>a. \<not> names_reservation i t a) ops \<Longrightarrow> holds i t j (store.run ops s)"
  by (induction ops arbitrary: s) (simp_all add: holds_step)



end
