(* ===== verification/Json.thy ===== *)
theory Json
  imports Py_Text
begin

text \<open>
  The JSON values that task details, responses and payloads are made of, with the dictionary reads that
  the code does on them. An object is its items in insertion order. \<open>json.loads\<close> of \<open>json.dumps\<close>
  gives a value of this type back, so a JSON column is the value itself.
\<close>

datatype json =
    JNull
  | JBool bool
  | JInt int
  | JFloat real
  | JStr string
  | JList "json list"
  | JObj "(string \<times> json) list"

type_synonym obj = "(string \<times> json) list"

text \<open>\<open>d.get(k)\<close> and \<open>d.get(k, default)\<close>.\<close>

definition jget :: "string \<Rightarrow> obj \<Rightarrow> json" where
  "jget k d = (case map_of d k of None \<Rightarrow> JNull | Some v \<Rightarrow> v)"

definition jget_or :: "string \<Rightarrow> json \<Rightarrow> obj \<Rightarrow> json" where
  "jget_or k dflt d = (case map_of d k of None \<Rightarrow> dflt | Some v \<Rightarrow> v)"

text \<open>\<open>value == 1\<close>: also \<open>True\<close> and \<open>1.0\<close>.\<close>

fun py_is_one :: "json \<Rightarrow> bool" where
  "py_is_one (JInt i) = (i = 1)"
| "py_is_one (JBool b) = b"
| "py_is_one (JFloat r) = (r = 1)"
| "py_is_one _ = False"

text \<open>\<open>value == i\<close> for an integer \<open>i\<close>.\<close>

fun json_int_eq :: "json \<Rightarrow> int \<Rightarrow> bool" where
  "json_int_eq (JInt j) i = (j = i)"
| "json_int_eq (JBool b) i = ((if b then 1 else 0) = i)"
| "json_int_eq (JFloat r) i = (r = of_int i)"
| "json_int_eq _ i = False"

fun nonempty_str :: "json \<Rightarrow> string option" where
  "nonempty_str (JStr s) = (if s = [] then None else Some s)"
| "nonempty_str _ = None"

text \<open>An \<open>int\<close> that is no \<open>bool\<close>, and at least \<open>n\<close>.\<close>

fun int_from :: "int \<Rightarrow> json \<Rightarrow> int option" where
  "int_from n (JInt i) = (if n \<le> i then Some i else None)"
| "int_from n _ = None"

fun jbool :: "json \<Rightarrow> bool option" where
  "jbool (JBool b) = Some b"
| "jbool _ = None"

text \<open>Membership in a set of texts; a list or a dictionary has no hash.\<close>

fun in_texts :: "string list \<Rightarrow> json \<Rightarrow> (py_exc + string option)" where
  "in_texts ts (JStr s) = Inr (if s \<in> set ts then Some s else None)"
| "in_texts ts (JList _) = Inl (TypeError ''unhashable type: list'')"
| "in_texts ts (JObj _) = Inl (TypeError ''unhashable type: dict'')"
| "in_texts ts _ = Inr None"

definition jopt :: "string option \<Rightarrow> json" where
  "jopt x = (case x of None \<Rightarrow> JNull | Some s \<Rightarrow> JStr s)"

definition jopt_int :: "int option \<Rightarrow> json" where
  "jopt_int x = (case x of None \<Rightarrow> JNull | Some i \<Rightarrow> JInt i)"

text \<open>\<open>value if isinstance(value, dict) else {}\<close>\<close>

fun as_obj :: "json \<Rightarrow> obj" where
  "as_obj (JObj d) = d"
| "as_obj _ = []"

lemma nonempty_str_Some [simp]: "nonempty_str v = Some s \<longleftrightarrow> v = JStr s \<and> s \<noteq> []"
  by (cases v) auto

lemma int_from_Some [simp]: "int_from n v = Some i \<longleftrightarrow> v = JInt i \<and> n \<le> i"
  by (cases v) auto

lemma jbool_Some [simp]: "jbool v = Some b \<longleftrightarrow> v = JBool b"
  by (cases v) auto

lemma in_texts_Some: "in_texts ts v = Inr (Some s) \<longleftrightarrow> v = JStr s \<and> s \<in> set ts"
  by (cases v) auto

lemma jget_update [simp]: "jget k (AList.update k' v d) = (if k = k' then v else jget k d)"
  by (simp add: jget_def)

lemma jget_delete [simp]: "jget k (AList.delete k' d) = (if k = k' then JNull else jget k d)"
  by (simp add: jget_def)

end
