(* ===== verification/Session_Key.thy ===== *)
theory Session_Key
  imports Py_Text
begin

text \<open>
  Agent ids and session keys: \<open>agent_ids.py\<close> and \<open>session_key.py\<close>. Every store operation
  canonicalizes the key it is given, so canonical keys have to be fixed points.

  The two patterns of \<open>agent_ids.py\<close> are written out: the characters that \<open>[^a-z0-9_-]\<close> matches,
  and the runs of dashes at both ends. \<open>None\<close> and the empty key are the same case of the code.
\<close>

section \<open>Agent ids\<close>

definition id_char :: "char \<Rightarrow> bool" where
  "id_char c \<longleftrightarrow>
     (let n = (of_char c :: nat)
      in (97 \<le> n \<and> n \<le> 122) \<or> (48 \<le> n \<and> n \<le> 57) \<or> n = 95 \<or> n = 45)"

definition trim_dashes :: "string \<Rightarrow> string" where
  "trim_dashes s = rev (dropWhile (\<lambda>c. c = CHR ''-'') (rev (dropWhile (\<lambda>c. c = CHR ''-'') s)))"

definition max_segment :: nat where
  "max_segment = 64"

definition normalize_id_segment :: "string \<Rightarrow> string" where
  "normalize_id_segment v =
     (let normalized = trim_dashes (map (\<lambda>c. if id_char c then c else CHR ''-'') (py_lower (py_strip v)))
      in if normalized \<noteq> [] then take max_segment normalized else ''default'')"

definition normalize_agent_id :: "string \<Rightarrow> string" where
  "normalize_agent_id v =
     (let raw = py_strip v in
      if raw = [] \<or> py_lower raw = ''default'' then ''main''
      else let normalized = normalize_id_segment raw
           in if normalized = ''default'' then ''main'' else normalized)"

section \<open>Session keys\<close>

function canonical_key :: "string \<Rightarrow> string" where
  "canonical_key s =
     (let key = py_strip s in
      if key = [] then []
      else if key = ''webchat:default''
      then ''agent:'' @ normalize_agent_id ''main'' @ '':webchat:default''
      else if prefix ''subagent:agent:'' key then ''subagent:'' @ canonical_key (drop 9 key)
      else if prefix ''agent:'' key
      then (case split_on (CHR '':'') key of
              a # b # parts \<Rightarrow> py_join (CHR '':'') (a # normalize_agent_id b # parts)
            | _ \<Rightarrow> key)
      else key)"
  by auto

termination
proof (relation "measure length")
  fix s x
  assume "x = py_strip s" "x \<noteq> []"
  then have "0 < length x" "length x \<le> length s" using py_strip_length [of s] by simp_all
  then show "(drop 9 x, s) \<in> measure length" unfolding in_measure length_drop by linarith
qed simp

declare canonical_key.simps [simp del]

section \<open>Stable segments\<close>

lemma strip_fixed: "s \<noteq> [] \<Longrightarrow> \<not> py_isspace (hd s) \<Longrightarrow> \<not> py_isspace (last s) \<Longrightarrow> py_strip s = s"
proof -
  assume "s \<noteq> []" "\<not> py_isspace (hd s)" "\<not> py_isspace (last s)"
  then have "dropWhile py_isspace s = s" "dropWhile py_isspace (rev s) = rev s"
    by (simp_all add: dropWhile_eq_self_iff hd_rev)
  then show ?thesis by (simp add: py_strip_def py_lstrip_def py_rstrip_def)
qed

lemma strip_ends:
  assumes "py_strip s \<noteq> []"
  shows "\<not> py_isspace (hd (py_strip s))" "\<not> py_isspace (last (py_strip s))"
proof -
  have "py_lstrip (py_strip s) = py_strip s"
    using lstrip_rstrip [OF lstrip_head rstrip_prefix, of s] by (simp add: py_strip_def)
  then show "\<not> py_isspace (hd (py_strip s))" using lstrip_head [of "py_strip s"] assms by simp
  show "\<not> py_isspace (last (py_strip s))"
    using assms hd_dropWhile [of py_isspace "rev (py_lstrip s)"]
    by (simp add: py_strip_def py_rstrip_def last_rev)
qed

lemma id_char_facts:
  assumes "id_char c"
  shows "\<not> py_isspace c" "py_lower_char c = c" "c \<noteq> CHR '':''"
  using assms by (auto simp: id_char_def py_isspace_def py_lower_char_def Let_def)

text \<open>What the normalization leaves: characters of ids, with no dash at an end.\<close>

definition clean_id :: "string \<Rightarrow> bool" where
  "clean_id s \<longleftrightarrow> s \<noteq> [] \<and> list_all id_char s \<and> hd s \<noteq> CHR ''-'' \<and> last s \<noteq> CHR ''-''
     \<and> length s \<le> max_segment"

lemma clean_strip: "clean_id s \<Longrightarrow> py_strip s = s"
  by (rule strip_fixed) (auto simp: clean_id_def list_all_iff id_char_facts)

lemma clean_lower: "clean_id s \<Longrightarrow> py_lower s = s"
  by (auto simp: clean_id_def py_lower_def list_all_iff id_char_facts intro!: map_idI)

lemma clean_trim: "clean_id s \<Longrightarrow> trim_dashes s = s"
  by (cases s) (auto simp: clean_id_def trim_dashes_def dropWhile_eq_self_iff hd_append hd_rev)

lemma clean_segment: "clean_id s \<Longrightarrow> normalize_id_segment s = s"
proof -
  assume s: "clean_id s"
  have "map (\<lambda>c. if id_char c then c else CHR ''-'') s = s"
    using s by (auto simp: clean_id_def list_all_iff intro!: map_idI)
  then show ?thesis using s
    by (simp add: normalize_id_segment_def clean_strip clean_lower clean_trim)
       (simp add: clean_id_def)
qed

lemma clean_agent: "clean_id s \<Longrightarrow> s \<noteq> ''default'' \<Longrightarrow> normalize_agent_id s = s"
  by (auto simp: normalize_agent_id_def clean_strip clean_lower clean_segment Let_def)
     (simp add: clean_id_def)

lemma clean_main: "clean_id ''main''" by (code_simp)

lemma trim_sub: "set (trim_dashes s) \<subseteq> set s"
  by (auto simp: trim_dashes_def dest!: set_dropWhileD)

lemma trim_length: "length (trim_dashes s) \<le> length s"
proof -
  have "length (dropWhile P xs) \<le> length xs" for P and xs :: string by (rule length_dropWhile_le)
  from this [of _ "rev (dropWhile (\<lambda>c. c = CHR ''-'') s)"] this [of _ s] show ?thesis
    by (simp add: trim_dashes_def) (meson order_trans)
qed

lemma trim_hd: "trim_dashes s \<noteq> [] \<Longrightarrow> hd (trim_dashes s) \<noteq> CHR ''-''"
proof -
  let ?t = "dropWhile (\<lambda>c. c = CHR ''-'') s"
  assume ne: "trim_dashes s \<noteq> []"
  have "suffix (dropWhile (\<lambda>c. c = CHR ''-'') (rev ?t)) (rev ?t)" by (rule suffix_dropWhile)
  then have "prefix (trim_dashes s) ?t" by (simp add: trim_dashes_def suffix_to_prefix)
  then obtain r where r: "?t = trim_dashes s @ r" by (auto simp: prefix_def)
  then have "?t \<noteq> []" "hd ?t = hd (trim_dashes s)" using ne by auto
  then show ?thesis using hd_dropWhile [of "\<lambda>c. c = CHR ''-''" s] by metis
qed

lemma trim_last: "trim_dashes s \<noteq> [] \<Longrightarrow> last (trim_dashes s) \<noteq> CHR ''-''"
  using hd_dropWhile [of "\<lambda>c. c = CHR ''-''" "rev (dropWhile (\<lambda>c. c = CHR ''-'') s)"]
  by (auto simp: trim_dashes_def last_rev)

text \<open>Of a value of at most 64 characters the normalization is final.\<close>

lemma segment_clean:
  assumes "length v \<le> max_segment" and "normalize_id_segment v \<noteq> ''default''"
  shows "clean_id (normalize_id_segment v)"
proof -
  let ?m = "map (\<lambda>c. if id_char c then c else CHR ''-'') (py_lower (py_strip v))"
  have "id_char c" if "c \<in> set (trim_dashes ?m)" for c
    using subsetD [OF trim_sub that] by (auto simp: id_char_def split: if_splits)
  moreover have len: "length (trim_dashes ?m) \<le> max_segment"
    using trim_length [of ?m] py_strip_length [of v] assms(1) by (simp add: py_lower_def)
  moreover have "trim_dashes ?m \<noteq> []" using assms(2) by (auto simp: normalize_id_segment_def)
  ultimately show ?thesis
    by (auto simp: normalize_id_segment_def clean_id_def list_all_iff trim_hd trim_last)
qed

lemma agent_clean:
  assumes "length v \<le> max_segment"
  shows "clean_id (normalize_agent_id v) \<and> normalize_agent_id (normalize_agent_id v) = normalize_agent_id v"
proof -
  have strip: "length (py_strip v) \<le> max_segment" using py_strip_length [of v] assms by simp
  have main: "normalize_agent_id ''main'' = ''main''" by code_simp
  show ?thesis
  proof (cases "normalize_agent_id v = ''main''")
    case True
    then show ?thesis using main clean_main by simp
  next
    case False
    then have eq: "normalize_agent_id v = normalize_id_segment (py_strip v)"
      and ne: "normalize_id_segment (py_strip v) \<noteq> ''default''"
      by (auto simp: normalize_agent_id_def Let_def split: if_splits)
    show ?thesis using segment_clean [OF strip ne] ne by (simp add: eq clean_agent)
  qed
qed

section \<open>Canonical keys\<close>

definition agent_segment :: "string \<Rightarrow> string" where
  "agent_segment k =
     takeWhile (\<lambda>c. c \<noteq> CHR '':'')
       (drop (if prefix ''subagent:agent:'' (py_strip k) then 15 else 6) (py_strip k))"

definition rest_of :: "string \<Rightarrow> string" where
  "rest_of u = dropWhile (\<lambda>c. c \<noteq> CHR '':'') u"

lemma split_on_head:
  "split_on c u = takeWhile (\<lambda>x. x \<noteq> c) u #
     (case dropWhile (\<lambda>x. x \<noteq> c) u of [] \<Rightarrow> [] | _ # v \<Rightarrow> split_on c v)"
  by (induction u) (auto split: list.splits)

lemma split_join_rest:
  assumes "split_on c u = b # ps"
  shows "b = takeWhile (\<lambda>x. x \<noteq> c) u" "py_join c (w # ps) = w @ dropWhile (\<lambda>x. x \<noteq> c) u"
proof -
  show b: "b = takeWhile (\<lambda>x. x \<noteq> c) u" using assms split_on_head [of c u] by simp
  show "py_join c (w # ps) = w @ dropWhile (\<lambda>x. x \<noteq> c) u"
  proof (cases "dropWhile (\<lambda>x. x \<noteq> c) u")
    case Nil
    have "ps = (case dropWhile (\<lambda>x. x \<noteq> c) u of [] \<Rightarrow> [] | _ # v \<Rightarrow> split_on c v)"
      using assms split_on_head [of c u] by (metis list.inject)
    then show ?thesis by (simp only: Nil) simp
  next
    case (Cons d v)
    then have "d = c" using hd_dropWhile [of "\<lambda>x. x \<noteq> c" u] by simp
    moreover have "ps = split_on c v" using Cons assms split_on_head [of c u] by simp
    ultimately show ?thesis using Cons by (simp add: py_join_Cons split_on_ne join_split)
  qed
qed

text \<open>A key without the prefixes of sub-agents: the agent id is rewritten in place.\<close>

lemma agent_key:
  assumes "py_strip k = ''agent:'' @ u"
  shows "canonical_key k = ''agent:'' @ normalize_agent_id (takeWhile (\<lambda>c. c \<noteq> CHR '':'') u) @ rest_of u"
proof -
  obtain b ps where bp: "split_on (CHR '':'') u = b # ps"
    using split_on_ne by (metis neq_Nil_conv)
  have "split_on (CHR '':'') (''agent:'' @ u) = ''agent'' # b # ps" by (simp add: bp)
  then have "canonical_key k = py_join (CHR '':'') (''agent'' # normalize_agent_id b # ps)"
    by (subst canonical_key.simps) (simp add: assms Let_def)
  also have "\<dots> = ''agent:'' @ py_join (CHR '':'') (normalize_agent_id b # ps)" by simp
  finally show ?thesis by (simp add: split_join_rest [OF bp] rest_of_def)
qed

lemma subagent_key:
  assumes "py_strip k = ''subagent:agent:'' @ u"
  shows "canonical_key k = ''subagent:'' @ canonical_key (''agent:'' @ u)"
  by (subst canonical_key.simps) (simp add: assms Let_def)

lemma rest_cases: "rest_of u = [] \<or> (\<exists>v. rest_of u = CHR '':'' # v)"
proof (cases "rest_of u")
  case (Cons d v)
  then show ?thesis using hd_dropWhile [of "\<lambda>c. c \<noteq> CHR '':''" u] unfolding rest_of_def
    by (metis list.sel(1) list.simps(3))
qed simp

lemma last_rest: "rest_of u \<noteq> [] \<Longrightarrow> last (rest_of u) = last u"
  by (metis last_appendR rest_of_def takeWhile_dropWhile_id)

lemma key_parts:
  assumes "clean_id n"
  shows "takeWhile (\<lambda>c. c \<noteq> CHR '':'') (n @ rest_of u) = n" "rest_of (n @ rest_of u) = rest_of u"
proof -
  have n: "\<forall>c \<in> set n. c \<noteq> CHR '':''"
    using assms id_char_facts(3) unfolding clean_id_def list_all_iff by blast
  then have "takeWhile (\<lambda>c. c \<noteq> CHR '':'') (n @ v) = n @ takeWhile (\<lambda>c. c \<noteq> CHR '':'') v"
    "rest_of (n @ v) = rest_of v" for v by (simp_all add: rest_of_def takeWhile_append2 dropWhile_append2)
  moreover have "takeWhile (\<lambda>c. c \<noteq> CHR '':'') (rest_of u) = [] \<and> rest_of (rest_of u) = rest_of u"
  proof -
    have "takeWhile (\<lambda>c. c \<noteq> CHR '':'') r = [] \<and> rest_of r = r" if "r = [] \<or> (\<exists>v. r = CHR '':'' # v)" for r
      using that by (auto simp: rest_of_def)
    then show ?thesis using rest_cases by blast
  qed
  ultimately show "takeWhile (\<lambda>c. c \<noteq> CHR '':'') (n @ rest_of u) = n" "rest_of (n @ rest_of u) = rest_of u"
    by simp_all
qed

text \<open>Whatever text without white space at its start stands before it, an id with its rest is stripped
  already.\<close>

lemma key_stripped:
  assumes "clean_id n" and "p \<noteq> []" and "\<not> py_isspace (hd p)" and "rest_of u = [] \<or> \<not> py_isspace (last u)"
  shows "py_strip (p @ n @ rest_of u) = p @ n @ rest_of u"
proof (rule strip_fixed)
  have "\<not> py_isspace (last n)" "n \<noteq> []" using assms(1)
    by (auto simp: clean_id_def list_all_iff id_char_facts)
  then show "\<not> py_isspace (last (p @ n @ rest_of u))" using assms(4)
    by (cases "rest_of u = []") (simp_all add: last_rest)
qed (use assms in auto)

lemma agent_key_twice:
  assumes "py_strip k = ''agent:'' @ u" and "length (takeWhile (\<lambda>c. c \<noteq> CHR '':'') u) \<le> max_segment"
  shows "canonical_key (canonical_key k) = canonical_key k"
proof -
  let ?n = "normalize_agent_id (takeWhile (\<lambda>c. c \<noteq> CHR '':'') u)"
  have n: "clean_id ?n" "normalize_agent_id ?n = ?n" using agent_clean [OF assms(2)] by auto
  have "u = [] \<or> \<not> py_isspace (last u)" using strip_ends(2) [of k] assms(1) by (auto split: if_splits)
  then have "py_strip (''agent:'' @ ?n @ rest_of u) = ''agent:'' @ ?n @ rest_of u"
    by (intro key_stripped n) (auto simp: rest_of_def py_isspace_def)
  from agent_key [OF this] show ?thesis
    by (simp only: agent_key [OF assms(1)] key_parts [OF n(1)] n(2))
qed

lemma subagent_key_twice:
  assumes "py_strip k = ''subagent:agent:'' @ u"
    and "length (takeWhile (\<lambda>c. c \<noteq> CHR '':'') u) \<le> max_segment"
  shows "canonical_key (canonical_key k) = canonical_key k"
proof -
  let ?n = "normalize_agent_id (takeWhile (\<lambda>c. c \<noteq> CHR '':'') u)"
  have n: "clean_id ?n" using agent_clean [OF assms(2)] by auto
  have "u = [] \<or> \<not> py_isspace (last u)" using strip_ends(2) [of k] assms(1) by (auto split: if_splits)
  then have r: "rest_of u = [] \<or> \<not> py_isspace (last u)" by (auto simp: rest_of_def)
  have inner: "py_strip (''agent:'' @ u) = ''agent:'' @ u"
    using strip_fixed [of "''agent:'' @ u"] \<open>u = [] \<or> \<not> py_isspace (last u)\<close>
    by (auto simp: py_isspace_def)
  have once: "canonical_key k = ''subagent:agent:'' @ ?n @ rest_of u"
    by (simp only: subagent_key [OF assms(1)] agent_key [OF inner]) simp
  have "py_strip (''subagent:agent:'' @ ?n @ rest_of u) = ''subagent:agent:'' @ ?n @ rest_of u"
    by (rule key_stripped [OF n _ _ r]) (auto simp: py_isspace_def)
  from subagent_key [OF this] have "canonical_key (canonical_key k)
      = ''subagent:'' @ canonical_key (''agent:'' @ ?n @ rest_of u)" by (simp only: once)
  also have "''agent:'' @ ?n @ rest_of u = canonical_key (''agent:'' @ u)" by (simp only: agent_key [OF inner])
  also have "canonical_key (canonical_key (''agent:'' @ u)) = canonical_key (''agent:'' @ u)"
    by (rule agent_key_twice [OF inner assms(2)])
  finally show ?thesis by (simp only: subagent_key [OF assms(1)])
qed

lemma plain_key:
  assumes "\<not> prefix ''subagent:agent:'' (py_strip k)" "\<not> prefix ''agent:'' (py_strip k)"
    and "py_strip k \<noteq> ''webchat:default''"
  shows "canonical_key k = py_strip k"
  using assms by (subst canonical_key.simps) (simp add: Let_def)

definition long_key :: string where
  "long_key = ''agent:'' @ replicate 63 (CHR ''a'') @ ''-b:main''"

text \<open>Canonical session keys. Canonicalizing a key whose agent id has at most 64 characters gives a
  fixed point, so it does not matter how often the store canonicalizes it. The bound is sharp: of an
  agent id of 65 characters the cut can leave a dash at the end, which the next pass removes.\<close>

theorem canonical_key_fixed:
  "(length (agent_segment k) \<le> max_segment \<longrightarrow> canonical_key (canonical_key k) = canonical_key k)
   \<and> length (agent_segment long_key) = max_segment + 1
   \<and> canonical_key (canonical_key long_key) \<noteq> canonical_key long_key"
proof (intro conjI impI)
  assume short: "length (agent_segment k) \<le> max_segment"
  consider (sub) u where "py_strip k = ''subagent:agent:'' @ u" | (agent) u where "py_strip k = ''agent:'' @ u"
    | (web) "py_strip k = ''webchat:default''"
    | (plain) "\<not> prefix ''subagent:agent:'' (py_strip k)" "\<not> prefix ''agent:'' (py_strip k)"
        "py_strip k \<noteq> ''webchat:default''"
    by (metis prefix_def)
  then show "canonical_key (canonical_key k) = canonical_key k"
  proof cases
    case sub
    then show ?thesis using subagent_key_twice short by (simp add: agent_segment_def)
  next
    case agent
    then show ?thesis using agent_key_twice short by (simp add: agent_segment_def)
  next
    case web
    have "canonical_key k = ''agent:main:webchat:default''"
      by (subst canonical_key.simps) (simp add: web Let_def, code_simp)
    moreover have "canonical_key ''agent:main:webchat:default'' = ''agent:main:webchat:default''" by code_simp
    ultimately show ?thesis by simp
  next
    case plain
    then show ?thesis using plain_key [OF plain] plain_key [of "py_strip k"] by simp
  qed
next
  show "length (agent_segment long_key) = max_segment + 1" by code_simp
  show "canonical_key (canonical_key long_key) \<noteq> canonical_key long_key" by code_simp
qed

theorem canonical_key_fixed_witness:
  "canonical_key (canonical_key '' agent:Default:x '') = canonical_key '' agent:Default:x ''"
proof -
  have "length (agent_segment '' agent:Default:x '') \<le> max_segment" by code_simp
  then show ?thesis using canonical_key_fixed by blast
qed

end
