(* ===== verification/Goal_Data.thy ===== *)
theory Goal_Data
  imports Json Session_Key
begin

text \<open>
  The data of durable Goals: \<open>session/goals.py\<close> and the record of \<open>session/models.py\<close>.

  The errors of the session store are one type. A Goal error carries its stable code; messages and
  the attached current row are left out. A Goal's
  \<open>details\<close> are JSON objects that another process may have written, so every reader checks what it
  reads. A millisecond clock value is an argument.
\<close>

section \<open>Statuses, errors, bounds\<close>

datatype goal_status = GActive | GPaused | GBlocked | GUsageLimited | GComplete

fun goal_status_str :: "goal_status \<Rightarrow> string" where
  "goal_status_str GActive = ''active''"
| "goal_status_str GPaused = ''paused''"
| "goal_status_str GBlocked = ''blocked''"
| "goal_status_str GUsageLimited = ''usage_limited''"
| "goal_status_str GComplete = ''complete''"

definition goal_unfinished :: "goal_status list" where
  "goal_unfinished = [GActive, GPaused, GBlocked, GUsageLimited]"

datatype store_error =
    GoalInvalid string
  | GoalConflict string
  | PlanInvalid
  | PlanConflict
  | PlanRunConflict
  | StaleEpoch
  | IntegrityError
  | Raised py_exc

definition max_objective_chars :: nat where
  "max_objective_chars = 4000"

definition max_progress_steps :: nat where
  "max_progress_steps = 20"

definition max_progress_step_chars :: nat where
  "max_progress_step_chars = 200"

definition max_progress_explanation_chars :: nat where
  "max_progress_explanation_chars = 1000"

definition max_progress_bytes :: nat where
  "max_progress_bytes = 16 * 1024"

definition max_reason_chars :: nat where
  "max_reason_chars = 1000"

section \<open>Identities of commands\<close>

definition hex_char :: "char \<Rightarrow> bool" where
  "hex_char c \<longleftrightarrow> c \<in> set ''0123456789abcdef''"

text \<open>The texts that are their own \<open>str(uuid.UUID(text))\<close> and have version 4: lower-case hexadecimal
  digits in the groups of the canonical form, the version digit and the variant of RFC 4122.\<close>

definition canonical_uuid4 :: "string \<Rightarrow> bool" where
  "canonical_uuid4 s \<longleftrightarrow>
     length s = 36
   \<and> list_all (\<lambda>i. if i \<in> {8, 13, 18, 23} then s ! i = CHR ''-'' else hex_char (s ! i)) [0..<36]
   \<and> s ! 14 = CHR ''4'' \<and> s ! 19 \<in> set ''89ab''"

definition normalize_client_request_id :: "string \<Rightarrow> store_error + string" where
  "normalize_client_request_id s =
     (if canonical_uuid4 s then Inr s else Inl (GoalInvalid ''INVALID_GOAL_COMMAND''))"

record command =
  cm_scope :: string
  cm_session_key :: string
  cm_request_id :: string
  cm_action :: string
  cm_fingerprint :: string

definition validate_command :: "command \<Rightarrow> store_error + unit" where
  "validate_command c =
     checked
       [(blank (cm_scope c), GoalInvalid ''INVALID_GOAL_COMMAND''),
        (blank (cm_session_key c), GoalInvalid ''INVALID_GOAL_COMMAND''),
        (\<not> canonical_uuid4 (cm_request_id c), GoalInvalid ''INVALID_GOAL_COMMAND''),
        (cm_action c \<notin> {''set'', ''edit'', ''pause'', ''resume'', ''clear''},
           GoalInvalid ''INVALID_GOAL_COMMAND''),
        (length (cm_fingerprint c) \<noteq> 64 \<or> cm_fingerprint c \<noteq> py_lower (cm_fingerprint c)
           \<or> list_ex (\<lambda>ch. \<not> hex_char ch) (cm_fingerprint c), GoalInvalid ''INVALID_GOAL_COMMAND'')]
       (Inr ())"

record expected_goal =
  xg_session_id :: string
  xg_epoch :: int
  xg_goal_id :: string
  xg_state_revision :: int

section \<open>Contexts carried by tasks\<close>

record candidate =
  ca_session_id :: string
  ca_epoch :: int
  ca_goal_id :: string

definition candidate_detail :: "candidate \<Rightarrow> obj" where
  "candidate_detail c =
     [(''schemaVersion'', JInt 1), (''sessionId'', JStr (ca_session_id c)),
      (''epoch'', JInt (ca_epoch c)), (''goalId'', JStr (ca_goal_id c))]"

definition candidate_from :: "json \<Rightarrow> candidate option" where
  "candidate_from v =
     (case v of
        JObj d \<Rightarrow>
          if \<not> py_is_one (jget ''schemaVersion'' d) then None
          else (case (nonempty_str (jget ''sessionId'' d), int_from 0 (jget ''epoch'' d),
                      nonempty_str (jget ''goalId'' d)) of
                  (Some s, Some e, Some g) \<Rightarrow>
                    Some \<lparr>ca_session_id = s, ca_epoch = e, ca_goal_id = g\<rparr>
                | _ \<Rightarrow> None)
      | _ \<Rightarrow> None)"

record goal_ctx =
  cx_session_id :: string
  cx_epoch :: int
  cx_goal_id :: string
  cx_objective_revision :: int
  cx_objective :: string
  cx_task_id :: string
  cx_seq :: int
  cx_automatic :: bool

definition context_detail :: "goal_ctx \<Rightarrow> obj" where
  "context_detail c =
     [(''schemaVersion'', JInt 1), (''sessionId'', JStr (cx_session_id c)),
      (''epoch'', JInt (cx_epoch c)), (''goalId'', JStr (cx_goal_id c)),
      (''objectiveRevision'', JInt (cx_objective_revision c)),
      (''objectiveSnapshot'', JStr (cx_objective c)), (''taskId'', JStr (cx_task_id c)),
      (''continuationSeq'', JInt (cx_seq c)), (''automatic'', JBool (cx_automatic c))]"

definition context_from :: "json \<Rightarrow> goal_ctx option" where
  "context_from v =
     (case v of
        JObj d \<Rightarrow>
          if \<not> py_is_one (jget ''schemaVersion'' d) then None
          else (case (nonempty_str (jget ''sessionId'' d), nonempty_str (jget ''goalId'' d),
                      nonempty_str (jget ''objectiveSnapshot'' d), nonempty_str (jget ''taskId'' d)) of
                  (Some s, Some g, Some obj, Some t) \<Rightarrow>
                    (case (int_from 0 (jget ''epoch'' d), int_from 0 (jget ''objectiveRevision'' d),
                           int_from 0 (jget_or ''continuationSeq'' (JInt 0) d)) of
                       (Some e, Some r, Some n) \<Rightarrow>
                         if r < 1 then None
                         else if obj \<noteq> py_strip obj \<or> max_objective_chars < length obj then None
                         else (case jbool (jget_or ''automatic'' (JBool False) d) of
                                 None \<Rightarrow> None
                               | Some b \<Rightarrow>
                                   Some \<lparr>cx_session_id = s, cx_epoch = e, cx_goal_id = g,
                                         cx_objective_revision = r, cx_objective = obj,
                                         cx_task_id = t, cx_seq = n, cx_automatic = b\<rparr>)
                     | _ \<Rightarrow> None)
                | _ \<Rightarrow> None)
      | _ \<Rightarrow> None)"

datatype update_status = UPending | UClaimed | UApplied | URevoked

fun update_status_str :: "update_status \<Rightarrow> string" where
  "update_status_str UPending = ''pending''"
| "update_status_str UClaimed = ''claimed''"
| "update_status_str UApplied = ''applied''"
| "update_status_str URevoked = ''revoked''"

definition update_status_of :: "string \<Rightarrow> update_status" where
  "update_status_of s =
     (if s = ''pending'' then UPending else if s = ''claimed'' then UClaimed
      else if s = ''applied'' then UApplied else URevoked)"

record goal_update =
  gu_context :: goal_ctx
  gu_state_revision :: int
  gu_accepted_at :: int
  gu_status :: update_status

definition update_detail :: "goal_update \<Rightarrow> obj" where
  "update_detail u =
     [(''schemaVersion'', JInt 1), (''status'', JStr (update_status_str (gu_status u))),
      (''stateRevision'', JInt (gu_state_revision u)), (''acceptedAtMs'', JInt (gu_accepted_at u)),
      (''context'', JObj (context_detail (gu_context u)))]"

definition update_from :: "json \<Rightarrow> py_exc + goal_update option" where
  "update_from v =
     (case v of
        JObj d \<Rightarrow>
          if \<not> py_is_one (jget ''schemaVersion'' d) then Inr None
          else (case (context_from (jget ''context'' d), int_from 1 (jget ''stateRevision'' d),
                      int_from 0 (jget ''acceptedAtMs'' d)) of
                  (Some c, Some r, Some a) \<Rightarrow>
                    map_sum id (map_option (\<lambda>s. \<lparr>gu_context = c, gu_state_revision = r,
                        gu_accepted_at = a, gu_status = update_status_of s\<rparr>))
                      (in_texts [''pending'', ''claimed'', ''applied'', ''revoked''] (jget ''status'' d))
                | _ \<Rightarrow> Inr None)
      | _ \<Rightarrow> Inr None)"

definition effective_key :: string where
  "effective_key = ''goal_effective_context''"

definition update_key :: string where
  "update_key = ''goal_objective_update''"

definition effective_context :: "obj \<Rightarrow> goal_ctx option" where
  "effective_context details =
     (case context_from (jget effective_key details) of
        Some c \<Rightarrow> Some c
      | None \<Rightarrow> context_from (jget ''goal_context'' details))"

section \<open>Normalizers\<close>

definition normalize_objective :: "json \<Rightarrow> store_error + string" where
  "normalize_objective v =
     (case v of
        JStr s \<Rightarrow>
          if py_strip s = [] then Inl (GoalInvalid ''INVALID_GOAL_OBJECTIVE'')
          else if max_objective_chars < length (py_strip s) then Inl (GoalInvalid ''INVALID_GOAL_OBJECTIVE'')
          else Inr (py_strip s)
      | _ \<Rightarrow> Inl (GoalInvalid ''INVALID_GOAL_OBJECTIVE''))"

definition normalize_reason :: "json \<Rightarrow> store_error + string option" where
  "normalize_reason v =
     (case v of
        JNull \<Rightarrow> Inr None
      | JStr s \<Rightarrow>
          if py_strip s = [] then Inr None
          else if max_reason_chars < length (py_strip s) then Inl (GoalInvalid ''INVALID_GOAL_REASON'')
          else Inr (Some (py_strip s))
      | _ \<Rightarrow> Inl (GoalInvalid ''INVALID_GOAL_REASON''))"

text \<open>The UTF-8 bytes that \<open>json.dumps(..., ensure_ascii=False)\<close> writes for a character of a text.\<close>

definition escaped_bytes :: "char \<Rightarrow> nat" where
  "escaped_bytes c =
     (let n = (of_char c :: nat)
      in if n \<in> {8, 9, 10, 12, 13, 34, 92} then 2 else if n < 32 then 6 else if n < 128 then 1 else 2)"

definition text_bytes :: "string \<Rightarrow> nat" where
  "text_bytes s = 2 + sum_list (map escaped_bytes s)"

type_synonym progress_step = "string \<times> string"

record progress =
  pr_explanation :: "string option"
  pr_steps :: "progress_step list"

text \<open>The bytes of the progress with sorted keys and no spaces:
  \<open>{"explanation":...,"steps":[{"status":...,"step":...},...]}\<close>.\<close>

definition progress_bytes :: "progress \<Rightarrow> nat" where
  "progress_bytes p =
     (case pr_explanation p of None \<Rightarrow> 4 | Some s \<Rightarrow> text_bytes s)
     + sum_list (map (\<lambda>(t, st). text_bytes st + text_bytes t + 19) (pr_steps p))
     + (length (pr_steps p) - 1) + 27"

definition step_keys :: "obj \<Rightarrow> bool" where
  "step_keys d \<longleftrightarrow> set (map fst d) = {''step'', ''status''}"

definition progress_statuses :: "string list" where
  "progress_statuses = [''pending'', ''in_progress'', ''completed'']"

definition progress_step_from :: "json \<Rightarrow> store_error + progress_step" where
  "progress_step_from raw =
     (case raw of
        JObj d \<Rightarrow>
          if \<not> step_keys d then Inl (GoalInvalid ''INVALID_GOAL_PROGRESS'')
          else (case jget ''step'' d of
                  JStr s \<Rightarrow>
                    if blank s then Inl (GoalInvalid ''INVALID_GOAL_PROGRESS'')
                    else if max_progress_step_chars < length (py_strip s)
                    then Inl (GoalInvalid ''INVALID_GOAL_PROGRESS'')
                    else (case in_texts progress_statuses (jget ''status'' d) of
                            Inl e \<Rightarrow> Inl (Raised e)
                          | Inr None \<Rightarrow> Inl (GoalInvalid ''INVALID_GOAL_PROGRESS'')
                          | Inr (Some st) \<Rightarrow> Inr (py_strip s, st))
                | _ \<Rightarrow> Inl (GoalInvalid ''INVALID_GOAL_PROGRESS''))
      | _ \<Rightarrow> Inl (GoalInvalid ''INVALID_GOAL_PROGRESS''))"

fun progress_steps_from :: "json list \<Rightarrow> store_error + progress_step list" where
  "progress_steps_from [] = Inr []"
| "progress_steps_from (v # vs) =
     (case progress_step_from v of
        Inl e \<Rightarrow> Inl e
      | Inr s \<Rightarrow> map_sum id (\<lambda>ss. s # ss) (progress_steps_from vs))"

definition normalize_explanation :: "json \<Rightarrow> store_error + string option" where
  "normalize_explanation v =
     (case v of
        JNull \<Rightarrow> Inr None
      | JStr s \<Rightarrow>
          if py_strip s = [] then Inr None
          else if max_progress_explanation_chars < length (py_strip s)
          then Inl (GoalInvalid ''INVALID_GOAL_PROGRESS'')
          else Inr (Some (py_strip s))
      | _ \<Rightarrow> Inl (GoalInvalid ''INVALID_GOAL_PROGRESS''))"

definition normalize_progress :: "json \<Rightarrow> json \<Rightarrow> store_error + progress" where
  "normalize_progress explanation steps =
     (case normalize_explanation explanation of
        Inl e \<Rightarrow> Inl e
      | Inr ex \<Rightarrow>
          (case steps of
             JList vs \<Rightarrow>
               if max_progress_steps < length vs then Inl (GoalInvalid ''INVALID_GOAL_PROGRESS'')
               else (case progress_steps_from vs of
                       Inl e \<Rightarrow> Inl e
                     | Inr ss \<Rightarrow>
                         let p = \<lparr>pr_explanation = ex, pr_steps = ss\<rparr> in
                         if 1 < length (filter (\<lambda>(t, st). st = ''in_progress'') ss)
                         then Inl (GoalInvalid ''INVALID_GOAL_PROGRESS'')
                         else if max_progress_bytes < progress_bytes p
                         then Inl (GoalInvalid ''INVALID_GOAL_PROGRESS'')
                         else Inr p)
           | _ \<Rightarrow> Inl (GoalInvalid ''INVALID_GOAL_PROGRESS'')))"

definition progress_json :: "progress \<Rightarrow> obj" where
  "progress_json p =
     [(''explanation'', jopt (pr_explanation p)),
      (''steps'', JList (map (\<lambda>(t, st). JObj [(''step'', JStr t), (''status'', JStr st)]) (pr_steps p)))]"

text \<open>What the Goal row's column gives back: the same value with its keys sorted.\<close>

definition progress_row :: "progress \<Rightarrow> obj" where
  "progress_row p =
     [(''explanation'', jopt (pr_explanation p)),
      (''steps'', JList (map (\<lambda>(t, st). JObj [(''status'', JStr st), (''step'', JStr t)]) (pr_steps p)))]"

section \<open>The Goal row\<close>

record tokens =
  us_input :: int
  us_output :: int
  us_reasoning :: int
  us_cache_read :: int
  us_cache_write :: int
  us_total :: int

definition no_tokens :: tokens where
  "no_tokens = \<lparr>us_input = 0, us_output = 0, us_reasoning = 0, us_cache_read = 0, us_cache_write = 0,
     us_total = 0\<rparr>"

definition add_tokens :: "tokens \<Rightarrow> tokens \<Rightarrow> tokens" where
  "add_tokens a b = \<lparr>us_input = us_input a + us_input b, us_output = us_output a + us_output b,
     us_reasoning = us_reasoning a + us_reasoning b, us_cache_read = us_cache_read a + us_cache_read b,
     us_cache_write = us_cache_write a + us_cache_write b, us_total = us_total a + us_total b\<rparr>"

record goal =
  go_session_key :: string
  go_session_id :: string
  go_epoch :: int
  go_id :: string
  go_objective :: string
  go_status :: goal_status
  go_state_revision :: int
  go_objective_revision :: int
  go_progress_revision :: int
  go_progress :: "obj option"
  go_seq :: int
  go_active_task :: "string option"
  go_source_message :: "string option"
  go_terminal_task :: "string option"
  go_turns_started :: int
  go_turns_settled :: int
  go_window_turns :: int
  go_active_ms :: int
  go_window_ms :: int
  go_usage :: tokens
  go_usage_version :: int
  go_usage_coverage :: string
  go_usage_started :: "int option"
  go_pause_reason :: "string option"
  go_blocked_reason :: "string option"
  go_terminal_reason :: "string option"
  go_created :: int
  go_updated :: int
  go_finished :: "int option"

definition new_goal ::
  "string \<Rightarrow> string \<Rightarrow> string \<Rightarrow> int \<Rightarrow> json \<Rightarrow> string option \<Rightarrow> string option \<Rightarrow> int \<Rightarrow> store_error + goal"
  where
  "new_goal goal_id session_key session_id epoch objective task_id source_message now =
     (case normalize_objective objective of
        Inl e \<Rightarrow> Inl e
      | Inr normalized \<Rightarrow>
          if goal_id = [] \<or> session_key = [] \<or> session_id = [] \<or> epoch < 0
          then Inl (GoalInvalid ''INVALID_GOAL_COMMAND'')
          else if (case source_message of None \<Rightarrow> False | Some m \<Rightarrow> py_strip m = [])
          then Inl (GoalInvalid ''INVALID_GOAL_COMMAND'')
          else let started = (if task_id = None then 0 else 1) in
            Inr \<lparr>go_session_key = session_key, go_session_id = session_id, go_epoch = epoch,
                 go_id = goal_id, go_objective = normalized, go_status = GActive,
                 go_state_revision = 1, go_objective_revision = 1, go_progress_revision = 0,
                 go_progress = None, go_seq = 0, go_active_task = task_id,
                 go_source_message = map_option py_strip source_message, go_terminal_task = None,
                 go_turns_started = started, go_turns_settled = 0, go_window_turns = started,
                 go_active_ms = 0, go_window_ms = 0, go_usage = no_tokens, go_usage_version = 1,
                 go_usage_coverage = ''complete'', go_usage_started = Some now,
                 go_pause_reason = None, go_blocked_reason = None, go_terminal_reason = None,
                 go_created = now, go_updated = now, go_finished = None\<rparr>)"

definition goal_turn_context :: "goal \<Rightarrow> string \<Rightarrow> bool \<Rightarrow> goal_ctx" where
  "goal_turn_context g task automatic =
     \<lparr>cx_session_id = go_session_id g, cx_epoch = go_epoch g, cx_goal_id = go_id g,
      cx_objective_revision = go_objective_revision g, cx_objective = go_objective g,
      cx_task_id = task, cx_seq = go_seq g, cx_automatic = automatic\<rparr>"

definition goal_snapshot :: "goal \<Rightarrow> string option \<Rightarrow> string option \<Rightarrow> obj" where
  "goal_snapshot g execution_state deferred =
     [(''goalId'', JStr (go_id g)), (''sessionKey'', JStr (go_session_key g)),
      (''sessionId'', JStr (go_session_id g)), (''epoch'', JInt (go_epoch g)),
      (''objective'', JStr (go_objective g)), (''status'', JStr (goal_status_str (go_status g))),
      (''stateRevision'', JInt (go_state_revision g)),
      (''objectiveRevision'', JInt (go_objective_revision g)),
      (''progressRevision'', JInt (go_progress_revision g)),
      (''progress'', (case go_progress g of None \<Rightarrow> JNull | Some d \<Rightarrow> JObj d)),
      (''continuationSeq'', JInt (go_seq g)), (''activeTaskId'', jopt (go_active_task g)),
      (''sourceMessageId'', jopt (go_source_message g)),
      (''terminalTurnId'', jopt (go_terminal_task g)),
      (''executionState'', JStr (case execution_state of
          Some s \<Rightarrow> s | None \<Rightarrow> if go_active_task g \<noteq> None then ''working'' else ''idle'')),
      (''continuationDeferredReason'', jopt deferred),
      (''turnsStarted'', JInt (go_turns_started g)), (''turnsSettled'', JInt (go_turns_settled g)),
      (''windowTurnsStarted'', JInt (go_window_turns g)), (''activeTimeMs'', JInt (go_active_ms g)),
      (''windowActiveTimeMs'', JInt (go_window_ms g)),
      (''usage'', JObj
         [(''inputTokens'', JInt (us_input (go_usage g))), (''outputTokens'', JInt (us_output (go_usage g))),
          (''reasoningTokens'', JInt (us_reasoning (go_usage g))),
          (''cacheReadTokens'', JInt (us_cache_read (go_usage g))),
          (''cacheWriteTokens'', JInt (us_cache_write (go_usage g))),
          (''totalTokens'', JInt (us_total (go_usage g)))]),
      (''usageAccountingStartedAtMs'', jopt_int (go_usage_started g)),
      (''usageCoverage'', JStr (if go_usage_version g = 0 \<and> go_usage_coverage g = ''complete''
          then ''partial_history'' else go_usage_coverage g)),
      (''pauseReason'', jopt (go_pause_reason g)),
      (''blockedReason'', jopt (if go_status g = GBlocked then go_blocked_reason g else None)),
      (''terminalReason'', jopt (go_terminal_reason g)), (''createdAt'', JInt (go_created g)),
      (''updatedAt'', JInt (go_updated g)), (''finishedAt'', jopt_int (go_finished g))]"

section \<open>Reading back what was written\<close>

definition candidate_ok :: "candidate \<Rightarrow> bool" where
  "candidate_ok c \<longleftrightarrow> ca_session_id c \<noteq> [] \<and> 0 \<le> ca_epoch c \<and> ca_goal_id c \<noteq> []"

definition context_ok :: "goal_ctx \<Rightarrow> bool" where
  "context_ok c \<longleftrightarrow>
     cx_session_id c \<noteq> [] \<and> cx_goal_id c \<noteq> [] \<and> cx_task_id c \<noteq> [] \<and> cx_objective c \<noteq> []
   \<and> 0 \<le> cx_epoch c \<and> 1 \<le> cx_objective_revision c \<and> 0 \<le> cx_seq c
   \<and> py_strip (cx_objective c) = cx_objective c \<and> length (cx_objective c) \<le> max_objective_chars"

definition update_ok :: "goal_update \<Rightarrow> bool" where
  "update_ok u \<longleftrightarrow> context_ok (gu_context u) \<and> 1 \<le> gu_state_revision u \<and> 0 \<le> gu_accepted_at u"

lemma context_sound: "context_from v = Some c \<Longrightarrow> context_ok c"
  by (auto simp: context_from_def context_ok_def split: json.splits if_splits option.splits)

lemma candidate_sound: "candidate_from v = Some c \<Longrightarrow> candidate_ok c"
  by (auto simp: candidate_from_def candidate_ok_def split: json.splits if_splits option.splits)

lemma update_sound: "update_from v = Inr (Some u) \<Longrightarrow> update_ok u"
proof -
  have flip: "Some u = map_option f a \<longleftrightarrow> (\<exists>x. a = Some x \<and> f x = u)" for f :: "string \<Rightarrow> goal_update" and a
    by (cases a) auto
  assume "update_from v = Inr (Some u)"
  then show ?thesis
    by (auto simp: update_from_def update_ok_def flip dest: context_sound
        split: json.splits if_splits option.splits)
qed

lemma context_back: "context_ok c \<Longrightarrow> context_from (JObj (context_detail c)) = Some c"
  by (simp add: context_from_def context_detail_def context_ok_def jget_def jget_or_def)

lemma candidate_back: "candidate_ok c \<Longrightarrow> candidate_from (JObj (candidate_detail c)) = Some c"
  by (simp add: candidate_from_def candidate_detail_def candidate_ok_def jget_def)

lemma update_back: "update_ok u \<Longrightarrow> update_from (JObj (update_detail u)) = Inr (Some u)"
  by (cases "gu_status u")
     (simp_all add: update_from_def update_detail_def update_ok_def jget_def context_back
       update_status_of_def)


definition demo_context :: goal_ctx where
  "demo_context = \<lparr>cx_session_id = ''s'', cx_epoch = 2, cx_goal_id = ''g'', cx_objective_revision = 3,
     cx_objective = ''ship it'', cx_task_id = ''t'', cx_seq = 4, cx_automatic = True\<rparr>"


section \<open>Normal forms\<close>

lemma explanation_fixed:
  "normalize_explanation v = Inr x \<Longrightarrow> normalize_explanation (jopt x) = Inr x"
  by (auto simp: normalize_explanation_def jopt_def split: json.splits if_splits)

lemma progress_step_Inr:
  "progress_step_from v = Inr (t, st) \<longleftrightarrow>
     (\<exists>d s. v = JObj d \<and> step_keys d \<and> jget ''step'' d = JStr s \<and> \<not> blank s \<and> t = py_strip s
        \<and> length t \<le> max_progress_step_chars \<and> jget ''status'' d = JStr st
        \<and> st \<in> set progress_statuses)"
proof (cases v)
  case (JObj d)
  show ?thesis
  proof (cases "jget ''step'' d")
    case (JStr s)
    then show ?thesis
      using JObj in_texts_Some [of progress_statuses "jget ''status'' d" st]
      by (auto simp: progress_step_from_def in_texts_Some split: sum.splits option.splits)
  qed (auto simp: progress_step_from_def JObj)
qed (simp_all add: progress_step_from_def)

lemma progress_step_fixed:
  "progress_step_from v = Inr (t, st) \<Longrightarrow>
     progress_step_from (JObj [(''step'', JStr t), (''status'', JStr st)]) = Inr (t, st)"
proof -
  assume "progress_step_from v = Inr (t, st)"
  then obtain s where "t = py_strip s" "\<not> blank s" "length t \<le> max_progress_step_chars"
      "st \<in> set progress_statuses"
    by (auto simp: progress_step_Inr)
  moreover have "step_keys [(''step'', JStr t), (''status'', JStr st)]" by (simp add: step_keys_def)
  moreover have "jget ''step'' [(''step'', JStr t), (''status'', JStr st)] = JStr t"
    "jget ''status'' [(''step'', JStr t), (''status'', JStr st)] = JStr st" by (simp_all add: jget_def)
  ultimately show ?thesis by (simp add: progress_step_Inr blank_def)
qed

lemma progress_steps_fixed:
  "progress_steps_from vs = Inr ss \<Longrightarrow>
     progress_steps_from (map (\<lambda>(t, st). JObj [(''step'', JStr t), (''status'', JStr st)]) ss) = Inr ss
   \<and> length ss = length vs"
proof (induction vs arbitrary: ss)
  case (Cons v vs)
  obtain t st where s: "progress_step_from v = Inr (t, st)"
    using Cons.prems by (auto split: sum.splits)
  then show ?case using Cons progress_step_fixed [OF s] by (auto split: sum.splits)
qed simp

lemma progress_steps_sound:
  "progress_steps_from vs = Inr ss \<Longrightarrow>
     list_all (\<lambda>(t, st). t \<noteq> [] \<and> py_strip t = t \<and> length t \<le> max_progress_step_chars
       \<and> st \<in> set progress_statuses) ss"
proof (induction vs arbitrary: ss)
  case (Cons v vs)
  obtain t st where s: "progress_step_from v = Inr (t, st)"
    using Cons.prems by (auto split: sum.splits)
  then have "t \<noteq> [] \<and> py_strip t = t \<and> length t \<le> max_progress_step_chars
       \<and> st \<in> set progress_statuses"
    by (auto simp: progress_step_Inr blank_def)
  then show ?case using Cons s by (auto split: sum.splits)
qed simp

text \<open>Normal forms of Goals. What the progress normalizer accepts has at most 20 steps, each a
  stripped non-empty text of at most 200 characters with one of three statuses, at most one of them in
  progress, within 16 KiB of JSON; and it is a fixed point: the accepted value, sent again, is accepted
  as it is. A new Goal has a normalized objective, satisfies its fences, and the context frozen for its
  first task can be read back.\<close>

theorem goal_normal_forms:
  "(normalize_progress explanation steps = Inr p \<longrightarrow>
       normalize_progress (jget ''explanation'' (progress_json p)) (jget ''steps'' (progress_json p)) = Inr p
     \<and> length (pr_steps p) \<le> max_progress_steps
     \<and> list_all (\<lambda>(t, st). t \<noteq> [] \<and> py_strip t = t \<and> length t \<le> max_progress_step_chars
         \<and> st \<in> set progress_statuses) (pr_steps p)
     \<and> length (filter (\<lambda>(t, st). st = ''in_progress'') (pr_steps p)) \<le> 1
     \<and> progress_bytes p \<le> max_progress_bytes)
   \<and> (new_goal i key sid epoch objective task message now = Inr g \<longrightarrow>
       normalize_objective (JStr (go_objective g)) = Inr (go_objective g)
     \<and> go_status g = GActive \<and> go_active_task g = task
     \<and> go_turns_started g = (if task = None then 0 else 1)
     \<and> (case task of None \<Rightarrow> True | Some t \<Rightarrow> t \<noteq> [] \<longrightarrow>
          context_from (JObj (context_detail (goal_turn_context g t False)))
            = Some (goal_turn_context g t False)))"
proof (intro conjI impI)
  assume p: "normalize_progress explanation steps = Inr p"
  then obtain vs where v: "steps = JList vs" "normalize_explanation explanation = Inr (pr_explanation p)"
      "progress_steps_from vs = Inr (pr_steps p)" "length vs \<le> max_progress_steps"
      "length (filter (\<lambda>(t, st). st = ''in_progress'') (pr_steps p)) \<le> 1"
      "progress_bytes p \<le> max_progress_bytes"
      "p = \<lparr>pr_explanation = pr_explanation p, pr_steps = pr_steps p\<rparr>"
    by (auto simp: normalize_progress_def Let_def split: sum.splits json.splits if_splits)
  note fixed = progress_steps_fixed [OF v(3)] explanation_fixed [OF v(2)]
  show "length (pr_steps p) \<le> max_progress_steps" using fixed v(4) by simp
  show "length (filter (\<lambda>(t, st). st = ''in_progress'') (pr_steps p)) \<le> 1" by (rule v(5))
  show "progress_bytes p \<le> max_progress_bytes" by (rule v(6))
  show "list_all (\<lambda>(t, st). t \<noteq> [] \<and> py_strip t = t \<and> length t \<le> max_progress_step_chars
         \<and> st \<in> set progress_statuses) (pr_steps p)"
    by (rule progress_steps_sound [OF v(3)])
  show "normalize_progress (jget ''explanation'' (progress_json p)) (jget ''steps'' (progress_json p)) = Inr p"
    using fixed v(4,5,6) arg_cong [OF v(7), of progress_bytes]
    by (simp add: progress_json_def jget_def normalize_progress_def Let_def)
next
  assume g: "new_goal i key sid epoch objective task message now = Inr g"
  then have obj: "normalize_objective objective = Inr (go_objective g)"
    and ids: "i \<noteq> []" "sid \<noteq> []" "0 \<le> epoch" "go_id g = i" "go_session_id g = sid" "go_epoch g = epoch"
      "go_objective_revision g = 1" "go_seq g = 0"
    and rest: "go_status g = GActive" "go_active_task g = task"
      "go_turns_started g = (if task = None then 0 else 1)"
    by (auto simp: new_goal_def Let_def split: sum.splits if_splits)
  show "go_status g = GActive" "go_active_task g = task"
    "go_turns_started g = (if task = None then 0 else 1)" by (rule rest)+
  obtain s where "objective = JStr s" "py_strip s = go_objective g" "go_objective g \<noteq> []"
      "length (go_objective g) \<le> max_objective_chars"
    using obj by (auto simp: normalize_objective_def split: json.splits if_splits)
  then have shape: "py_strip (go_objective g) = go_objective g" "go_objective g \<noteq> []"
      "length (go_objective g) \<le> max_objective_chars"
    by (metis py_strip_idem)+
  then show "normalize_objective (JStr (go_objective g)) = Inr (go_objective g)"
    by (simp add: normalize_objective_def)
  show "case task of None \<Rightarrow> True | Some t \<Rightarrow> t \<noteq> [] \<longrightarrow>
          context_from (JObj (context_detail (goal_turn_context g t False)))
            = Some (goal_turn_context g t False)"
    using shape ids
    by (auto intro!: context_back simp: context_ok_def goal_turn_context_def split: option.splits)
qed

theorem goal_normal_forms_witness:
  "normalize_progress (JStr '' half way '')
     (JList [JObj [(''step'', JStr '' write ''), (''status'', JStr ''completed'')]])
     = Inr \<lparr>pr_explanation = Some ''half way'', pr_steps = [(''write'', ''completed'')]\<rparr>
   \<and> progress_bytes \<lparr>pr_explanation = Some ''half way'', pr_steps = [(''write'', ''completed'')]\<rparr> \<le> 16384"
proof -
  have "normalize_progress (JStr '' half way '')
     (JList [JObj [(''step'', JStr '' write ''), (''status'', JStr ''completed'')]])
     = Inr \<lparr>pr_explanation = Some ''half way'', pr_steps = [(''write'', ''completed'')]\<rparr>" (is ?p)
    by code_simp
  moreover from this have "progress_bytes \<lparr>pr_explanation = Some ''half way'', pr_steps = [(''write'', ''completed'')]\<rparr>
      \<le> max_progress_bytes" using goal_normal_forms by blast
  ultimately show ?thesis by (simp add: max_progress_bytes_def)
qed

end
