(* ===== verification/Plan_Data.thy ===== *)
theory Plan_Data
  imports Goal_Data
begin

text \<open>
  The data of durable plans: \<open>session/plans.py\<close> and the records of \<open>session/models.py\<close>.

  A revision is what \<open>prepare_plan_revision\<close> accepts: its steps are normalized and never change. A run
  is the mutable overlay that an execution writes. What a caller passes as title, steps or states is
  JSON. The SHA-256 digest of the canonical body is the argument \<open>digest\<close>. The messages of the errors
  are left out.
\<close>

section \<open>Records\<close>

datatype run_status = RQueued | RRunning | RPaused | RBlocked | RCompleted | RCancelled | RSuperseded

definition run_active :: "run_status list" where
  "run_active = [RQueued, RRunning, RPaused, RBlocked]"

definition run_terminal :: "run_status list" where
  "run_terminal = [RCompleted, RCancelled, RSuperseded]"

datatype step_status = SPending | SInProgress | SCompleted | SBlocked | SSkipped

fun step_status_str :: "step_status \<Rightarrow> string" where
  "step_status_str SPending = ''pending''"
| "step_status_str SInProgress = ''in_progress''"
| "step_status_str SCompleted = ''completed''"
| "step_status_str SBlocked = ''blocked''"
| "step_status_str SSkipped = ''skipped''"

definition step_statuses :: "step_status list" where
  "step_statuses = [SPending, SInProgress, SCompleted, SBlocked, SSkipped]"

definition step_status_of :: "string \<Rightarrow> step_status" where
  "step_status_of s =
     (if s = ''pending'' then SPending else if s = ''in_progress'' then SInProgress
      else if s = ''completed'' then SCompleted else if s = ''blocked'' then SBlocked else SSkipped)"

record plan_step =
  ps_id :: string
  ps_title :: string
  ps_details :: "string option"

record plan_revision =
  pv_id :: string
  pv_plan_id :: string
  pv_parent :: "string option"
  pv_generation :: int
  pv_session_key :: string
  pv_session_id :: string
  pv_epoch :: int
  pv_turn_id :: "string option"
  pv_message_id :: "string option"
  pv_title :: string
  pv_markdown :: string
  pv_steps :: "plan_step list"
  pv_hash :: string
  pv_created :: int

record step_state =
  ss_id :: string
  ss_title :: string
  ss_status :: step_status
  ss_reason :: "string option"

record plan_run =
  pn_id :: string
  pn_session_key :: string
  pn_session_id :: string
  pn_epoch :: int
  pn_revision_id :: string
  pn_supersedes :: "string option"
  pn_driver_kind :: string
  pn_driver_id :: "string option"
  pn_status :: run_status
  pn_states :: "step_state list"
  pn_current_step :: "string option"
  pn_state_revision :: int
  pn_active_task :: "string option"
  pn_pause_reason :: "string option"
  pn_terminal_reason :: "string option"
  pn_created :: int
  pn_updated :: int
  pn_started :: "int option"
  pn_finished :: "int option"

section \<open>Bounds and texts\<close>

definition max_plan_steps :: nat where
  "max_plan_steps = 64"

definition max_plan_title :: nat where
  "max_plan_title = 512"

definition max_plan_markdown :: nat where
  "max_plan_markdown = 100000"

definition max_step_id :: nat where
  "max_step_id = 128"

definition max_step_title :: nat where
  "max_step_title = 240"

definition max_step_details :: nat where
  "max_step_details = 4000"

definition max_step_reason :: nat where
  "max_step_reason = 2000"

definition bounded_text :: "nat \<Rightarrow> json \<Rightarrow> store_error + string" where
  "bounded_text maximum v =
     (case v of
        JStr s \<Rightarrow>
          if py_strip s = [] then Inl PlanInvalid
          else if maximum < length (py_strip s) then Inl PlanInvalid
          else Inr (py_strip s)
      | _ \<Rightarrow> Inl PlanInvalid)"

section \<open>Steps of a revision\<close>

text \<open>\<open>_STEP_ID_PATTERN\<close>: a letter or digit, then at most 127 of the portable characters.\<close>

definition alnum :: "char \<Rightarrow> bool" where
  "alnum c \<longleftrightarrow>
     (let n = (of_char c :: nat) in (48 \<le> n \<and> n \<le> 57) \<or> (65 \<le> n \<and> n \<le> 90) \<or> (97 \<le> n \<and> n \<le> 122))"

definition step_id_ok :: "string \<Rightarrow> bool" where
  "step_id_ok s \<longleftrightarrow>
     (case s of
        [] \<Rightarrow> False
      | c # cs \<Rightarrow> alnum c \<and> list_all (\<lambda>x. alnum x \<or> x \<in> set ''._:-'') cs \<and> length cs \<le> max_step_id - 1)"

definition raw_step_id :: "nat \<Rightarrow> obj \<Rightarrow> json" where
  "raw_step_id index d =
     jget_or ''step_id'' (jget_or ''stepId'' (JStr (''step-'' @ nat_str (index + 1))) d) d"

definition plan_step_from :: "nat \<Rightarrow> string list \<Rightarrow> json \<Rightarrow> store_error + plan_step" where
  "plan_step_from index seen raw =
     (case raw of
        JObj d \<Rightarrow>
          (case raw_step_id index d of
             JStr s \<Rightarrow>
               if \<not> step_id_ok (py_strip s) then Inl PlanInvalid
               else if py_strip s \<in> set seen then Inl PlanInvalid
               else (case bounded_text max_step_title (jget ''title'' d) of
                       Inl e \<Rightarrow> Inl e
                     | Inr title \<Rightarrow>
                         if jget ''details'' d = JNull
                         then Inr \<lparr>ps_id = py_strip s, ps_title = title, ps_details = None\<rparr>
                         else map_sum id (\<lambda>x. \<lparr>ps_id = py_strip s, ps_title = title, ps_details = Some x\<rparr>)
                                (bounded_text max_step_details (jget ''details'' d)))
           | _ \<Rightarrow> Inl PlanInvalid)
      | _ \<Rightarrow> Inl PlanInvalid)"

fun plan_steps_from :: "nat \<Rightarrow> string list \<Rightarrow> json list \<Rightarrow> store_error + plan_step list" where
  "plan_steps_from index seen [] = Inr []"
| "plan_steps_from index seen (v # vs) =
     (case plan_step_from index seen v of
        Inl e \<Rightarrow> Inl e
      | Inr s \<Rightarrow> map_sum id (\<lambda>ss. s # ss) (plan_steps_from (index + 1) (ps_id s # seen) vs))"

definition normalize_plan_steps :: "json \<Rightarrow> store_error + plan_step list" where
  "normalize_plan_steps v =
     (case v of
        JList vs \<Rightarrow>
          if vs = [] then Inl PlanInvalid
          else if max_plan_steps < length vs then Inl PlanInvalid
          else plan_steps_from 0 [] vs
      | _ \<Rightarrow> Inl PlanInvalid)"

definition plan_step_json :: "plan_step \<Rightarrow> json" where
  "plan_step_json s =
     JObj ([(''step_id'', JStr (ps_id s)), (''title'', JStr (ps_title s))]
           @ (case ps_details s of None \<Rightarrow> [] | Some d \<Rightarrow> [(''details'', JStr d)]))"

text \<open>\<open>prepare_plan_revision\<close> of a revision whose title, markdown, steps and hash are the raw values, and
  \<open>new_plan_revision\<close>, which gives it its lineage. \<open>fresh\<close> is the id that the model creates for a plan
  without a parent.\<close>

definition prepare_plan_revision ::
  "(string \<Rightarrow> string \<Rightarrow> plan_step list \<Rightarrow> string) \<Rightarrow> json \<Rightarrow> json \<Rightarrow> json \<Rightarrow> plan_revision
   \<Rightarrow> store_error + plan_revision" where
  "prepare_plan_revision digest title markdown steps r =
     (case bounded_text max_plan_title title of Inl e \<Rightarrow> Inl e | Inr t \<Rightarrow>
      case bounded_text max_plan_markdown markdown of Inl e \<Rightarrow> Inl e | Inr m \<Rightarrow>
      case normalize_plan_steps steps of Inl e \<Rightarrow> Inl e | Inr ss \<Rightarrow>
        checked
          [(pv_hash r \<noteq> [] \<and> pv_hash r \<noteq> digest t m ss, PlanInvalid),
           (pv_generation r < 1, PlanInvalid),
           (pv_id r = [] \<or> pv_plan_id r = [], PlanInvalid),
           (pv_session_id r = [], PlanInvalid),
           (pv_epoch r < 0, PlanInvalid)]
          (Inr (r\<lparr>pv_title := t, pv_markdown := m, pv_steps := ss, pv_hash := digest t m ss\<rparr>)))"

definition new_plan_revision ::
  "(string \<Rightarrow> string \<Rightarrow> plan_step list \<Rightarrow> string) \<Rightarrow> string \<Rightarrow> string \<Rightarrow> string \<Rightarrow> string \<Rightarrow> int
   \<Rightarrow> json \<Rightarrow> json \<Rightarrow> json \<Rightarrow> plan_revision option \<Rightarrow> string option \<Rightarrow> string option \<Rightarrow> int
   \<Rightarrow> store_error + plan_revision" where
  "new_plan_revision digest revision_id fresh key session_id epoch title markdown steps parent turn message now =
     prepare_plan_revision digest title markdown steps
       \<lparr>pv_id = revision_id,
        pv_plan_id = (case parent of None \<Rightarrow> fresh | Some p \<Rightarrow> pv_plan_id p),
        pv_parent = map_option pv_id parent,
        pv_generation = (case parent of None \<Rightarrow> 1 | Some p \<Rightarrow> pv_generation p + 1),
        pv_session_key = key, pv_session_id = session_id, pv_epoch = epoch, pv_turn_id = turn,
        pv_message_id = message, pv_title = [], pv_markdown = [], pv_steps = [], pv_hash = [],
        pv_created = now\<rparr>"

section \<open>States of a run\<close>

definition initial_step_states :: "plan_step list \<Rightarrow> step_state list" where
  "initial_step_states =
     map (\<lambda>s. \<lparr>ss_id = ps_id s, ss_title = ps_title s, ss_status = SPending, ss_reason = None\<rparr>)"

definition step_state_from :: "plan_step \<Rightarrow> json \<Rightarrow> store_error + step_state" where
  "step_state_from s raw =
     (case raw of
        JObj d \<Rightarrow>
          if jget_or ''step_id'' (jget ''stepId'' d) d \<noteq> JStr (ps_id s) then Inl PlanInvalid
          else (case in_texts (map step_status_str step_statuses) (jget ''status'' d) of
                  Inl e \<Rightarrow> Inl (Raised e)
                | Inr None \<Rightarrow> Inl PlanInvalid
                | Inr (Some st) \<Rightarrow>
                    let status = step_status_of st;
                        row = \<lparr>ss_id = ps_id s, ss_title = ps_title s, ss_status = status, ss_reason = None\<rparr>
                    in if jget ''reason'' d = JNull then Inr row
                       else if status \<notin> {SBlocked, SSkipped} then Inl PlanInvalid
                       else map_sum id (\<lambda>x. row\<lparr>ss_reason := Some x\<rparr>)
                              (bounded_text max_step_reason (jget ''reason'' d)))
      | _ \<Rightarrow> Inl PlanInvalid)"

fun step_states_from :: "plan_step list \<Rightarrow> json list \<Rightarrow> store_error + step_state list" where
  "step_states_from (s # ss) (v # vs) =
     (case step_state_from s v of
        Inl e \<Rightarrow> Inl e
      | Inr row \<Rightarrow> map_sum id (\<lambda>rows. row # rows) (step_states_from ss vs))"
| "step_states_from _ _ = Inr []"

definition normalize_step_states :: "json \<Rightarrow> plan_step list \<Rightarrow> store_error + step_state list" where
  "normalize_step_states v steps =
     (case v of
        JList vs \<Rightarrow> if length vs \<noteq> length steps then Inl PlanInvalid else step_states_from steps vs
      | _ \<Rightarrow> Inl PlanInvalid)"

definition step_state_json :: "step_state \<Rightarrow> json" where
  "step_state_json s =
     JObj ([(''step_id'', JStr (ss_id s)), (''title'', JStr (ss_title s)),
            (''status'', JStr (step_status_str (ss_status s)))]
           @ (case ss_reason s of None \<Rightarrow> [] | Some r \<Rightarrow> [(''reason'', JStr r)]))"

text \<open>\<open>states\<close> are the raw step states of the run; an empty list stands for no states.\<close>

definition prepare_plan_run :: "plan_run \<Rightarrow> json list \<Rightarrow> plan_revision \<Rightarrow> store_error + plan_run" where
  "prepare_plan_run r states v =
     checked
       [(pn_status r \<noteq> RQueued, PlanInvalid),
        (pn_revision_id r \<noteq> pv_id v, PlanInvalid),
        (pn_id r = [] \<or> pn_session_id r = [], PlanInvalid),
        (pn_epoch r < 0, PlanInvalid),
        (pn_driver_kind r \<notin> {''manual'', ''goal''}, PlanInvalid),
        (pn_driver_kind r = ''goal'' \<and> pn_driver_id r \<in> {None, Some []}, PlanInvalid),
        (pn_state_revision r \<noteq> 0, PlanInvalid)]
       (case (case pn_active_task r of
                None \<Rightarrow> Inr None
              | Some t \<Rightarrow> map_sum id Some (bounded_text 256 (JStr t))) of
          Inl e \<Rightarrow> Inl e
        | Inr task \<Rightarrow>
            (case (if states \<noteq> [] then normalize_step_states (JList states) (pv_steps v)
                   else Inr (initial_step_states (pv_steps v))) of
               Inl e \<Rightarrow> Inl e
             | Inr rows \<Rightarrow>
                 if list_ex (\<lambda>s. ss_status s \<noteq> SPending) rows then Inl PlanInvalid
                 else Inr (r\<lparr>pn_states := rows, pn_current_step := None, pn_active_task := task,
                             pn_started := None, pn_finished := None, pn_pause_reason := None,
                             pn_terminal_reason := None\<rparr>)))"

section \<open>Snapshots\<close>

definition plan_revision_snapshot :: "plan_revision \<Rightarrow> bool \<Rightarrow> obj" where
  "plan_revision_snapshot r current =
     [(''revisionId'', JStr (pv_id r)), (''planId'', JStr (pv_plan_id r)),
      (''parentRevisionId'', jopt (pv_parent r)), (''generation'', JInt (pv_generation r)),
      (''title'', JStr (pv_title r)), (''markdown'', JStr (pv_markdown r)),
      (''steps'', JList (map (\<lambda>s. JObj ([(''stepId'', JStr (ps_id s)), (''title'', JStr (ps_title s))]
          @ (case ps_details s of None \<Rightarrow> [] | Some d \<Rightarrow> [(''details'', JStr d)]))) (pv_steps r))),
      (''current'', JBool current), (''createdAt'', JInt (pv_created r))]"

fun run_status_str :: "run_status \<Rightarrow> string" where
  "run_status_str RQueued = ''queued''"
| "run_status_str RRunning = ''running''"
| "run_status_str RPaused = ''paused''"
| "run_status_str RBlocked = ''blocked''"
| "run_status_str RCompleted = ''completed''"
| "run_status_str RCancelled = ''cancelled''"
| "run_status_str RSuperseded = ''superseded''"

definition plan_run_snapshot :: "plan_run \<Rightarrow> obj" where
  "plan_run_snapshot r =
     [(''runId'', JStr (pn_id r)), (''planRevisionId'', JStr (pn_revision_id r)),
      (''status'', JStr (run_status_str (pn_status r))), (''currentStepId'', jopt (pn_current_step r)),
      (''steps'', JList (map (\<lambda>s. JObj ([(''stepId'', JStr (ss_id s)), (''title'', JStr (ss_title s)),
          (''status'', JStr (step_status_str (ss_status s)))]
          @ (case ss_reason s of None \<Rightarrow> [] | Some d \<Rightarrow> [(''reason'', JStr d)]))) (pn_states r))),
      (''stateRevision'', JInt (pn_state_revision r)), (''driverKind'', JStr (pn_driver_kind r)),
      (''driverId'', jopt (pn_driver_id r)), (''activeTaskId'', jopt (pn_active_task r)),
      (''pauseReason'', jopt (pn_pause_reason r)), (''terminalReason'', jopt (pn_terminal_reason r)),
      (''createdAt'', JInt (pn_created r)), (''updatedAt'', JInt (pn_updated r)),
      (''startedAt'', jopt_int (pn_started r)), (''finishedAt'', jopt_int (pn_finished r))]"

end
