(* ===== verification/Session_Ledger.thy ===== *)
theory Session_Ledger
  imports Plan_Data
begin

text \<open>
  The tables that Goal and plan transitions read and write (\<open>session/storage.py\<close>), and the selects
  and fences they share.

  A table is the list of its rows in rowid order. A transaction is a function from the ledger to an
  error, which leaves the ledger as it was, or to a value and the next ledger; the writer lock makes
  each one atomic. An \<open>UPDATE\<close> is a map over the rows that its \<open>WHERE\<close> selects. The constraints of
  the tables are checked where rows are written: the \<open>CHECK\<close>s, the unique keys and the foreign keys
  to \<open>sessions\<close>. The columns that no such transition touches are left out, and a task whose
  \<open>details\<close> are \<open>NULL\<close> has the empty object.
\<close>

section \<open>Results\<close>

definition and_then :: "'e + 'a \<Rightarrow> ('a \<Rightarrow> 'e + 'b) \<Rightarrow> 'e + 'b" where
  "and_then r k = (case r of Inl e \<Rightarrow> Inl e | Inr a \<Rightarrow> k a)"

lemma and_then_Inr [simp]: "and_then r k = Inr b \<longleftrightarrow> (\<exists>a. r = Inr a \<and> k a = Inr b)"
  by (cases r) (simp_all add: and_then_def)

lemma and_then_simps [simp]: "and_then (Inl e) k = Inl e" "and_then (Inr a) k = k a"
  by (simp_all add: and_then_def)

definition present :: "'e \<Rightarrow> 'a option \<Rightarrow> 'e + 'a" where
  "present e x = (case x of None \<Rightarrow> Inl e | Some a \<Rightarrow> Inr a)"

lemma present_Inr [simp]: "present e x = Inr a \<longleftrightarrow> x = Some a"
  by (cases x) (simp_all add: present_def)

section \<open>Rows\<close>

datatype task_status = TQueued | TRunning | TSucceeded | TFailed | TCancelled | TTimeout | TAbandoned

record task =
  tk_id :: string
  tk_session_key :: string
  tk_status :: task_status
  tk_updated :: int
  tk_started :: "int option"
  tk_finished :: "int option"
  tk_terminal_reason :: "string option"
  tk_error_class :: "string option"
  tk_details :: obj

record session_row =
  se_key :: string
  se_session_id :: string
  se_epoch :: int
  se_mode :: string
  se_origin :: obj
  se_collaboration_revision :: int
  se_active_revision :: "string option"

record receipt =
  rc_scope :: string
  rc_session_key :: string
  rc_request_id :: string
  rc_action :: string
  rc_fingerprint :: string
  rc_session_id :: string
  rc_epoch :: int
  rc_response :: obj

record usage_event =
  ue_turn_id :: "string option"
  ue_root_turn_id :: "string option"
  ue_session_id :: string
  ue_epoch :: int
  ue_goal_id :: "string option"
  ue_status :: string
  ue_coverage :: string
  ue_tokens :: tokens

record ledger =
  lg_goals :: "goal list"
  lg_tasks :: "task list"
  lg_sessions :: "session_row list"
  lg_receipts :: "receipt list"
  lg_events :: "usage_event list"
  lg_revisions :: "plan_revision list"
  lg_runs :: "plan_run list"

section \<open>Constraints\<close>

definition tokens_checks :: "tokens \<Rightarrow> bool" where
  "tokens_checks u \<longleftrightarrow> 0 \<le> us_input u \<and> 0 \<le> us_output u \<and> 0 \<le> us_reasoning u
     \<and> 0 \<le> us_cache_read u \<and> 0 \<le> us_cache_write u \<and> 0 \<le> us_total u"

definition goal_checks :: "goal \<Rightarrow> bool" where
  "goal_checks g \<longleftrightarrow>
     0 \<le> go_epoch g \<and> go_objective g \<noteq> [] \<and> length (go_objective g) \<le> max_objective_chars
   \<and> 1 \<le> go_state_revision g \<and> 1 \<le> go_objective_revision g \<and> 0 \<le> go_progress_revision g
   \<and> 0 \<le> go_seq g \<and> 0 \<le> go_turns_started g \<and> 0 \<le> go_turns_settled g \<and> 0 \<le> go_window_turns g
   \<and> 0 \<le> go_active_ms g \<and> 0 \<le> go_window_ms g \<and> tokens_checks (go_usage g)"

definition owners :: "goal list \<Rightarrow> string list" where
  "owners rows = map (the \<circ> go_active_task) (filter (\<lambda>g. go_active_task g \<noteq> None) rows)"

definition goals_unique :: "goal list \<Rightarrow> bool" where
  "goals_unique rows \<longleftrightarrow>
     distinct (map go_session_key rows) \<and> distinct (map go_id rows) \<and> distinct (owners rows)"

definition put_goals :: "goal list \<Rightarrow> ledger \<Rightarrow> store_error + ledger" where
  "put_goals rows l =
     (if list_all goal_checks rows \<and> goals_unique rows then Inr (l\<lparr>lg_goals := rows\<rparr>)
      else Inl IntegrityError)"

definition session_exists :: "string \<Rightarrow> ledger \<Rightarrow> bool" where
  "session_exists k l \<longleftrightarrow> list_ex (\<lambda>s. se_key s = k) (lg_sessions l)"

definition insert_goal :: "goal \<Rightarrow> ledger \<Rightarrow> store_error + ledger" where
  "insert_goal g l =
     (if session_exists (go_session_key g) l then put_goals (lg_goals l @ [g]) l else Inl IntegrityError)"

definition update_goals :: "(goal \<Rightarrow> bool) \<Rightarrow> (goal \<Rightarrow> goal) \<Rightarrow> ledger \<Rightarrow> store_error + ledger" where
  "update_goals P f l = put_goals (update_where P f (lg_goals l)) l"

definition delete_goals :: "(goal \<Rightarrow> bool) \<Rightarrow> ledger \<Rightarrow> ledger" where
  "delete_goals P l = l\<lparr>lg_goals := delete_where P (lg_goals l)\<rparr>"

definition insert_task :: "task \<Rightarrow> ledger \<Rightarrow> store_error + ledger" where
  "insert_task t l =
     (if tk_id t \<in> set (map tk_id (lg_tasks l)) then Inl IntegrityError
      else Inr (l\<lparr>lg_tasks := lg_tasks l @ [t]\<rparr>))"

definition update_task :: "string \<Rightarrow> (task \<Rightarrow> task) \<Rightarrow> ledger \<Rightarrow> ledger" where
  "update_task i f l = l\<lparr>lg_tasks := update_where (\<lambda>t. tk_id t = i) f (lg_tasks l)\<rparr>"

definition write_details :: "string \<Rightarrow> obj \<Rightarrow> int \<Rightarrow> ledger \<Rightarrow> ledger" where
  "write_details i d now = update_task i (\<lambda>t. t\<lparr>tk_details := d, tk_updated := now\<rparr>)"

section \<open>Selects\<close>

definition select_goal :: "string \<Rightarrow> ledger \<Rightarrow> goal option" where
  "select_goal k l = find (\<lambda>g. go_session_key g = k) (lg_goals l)"

definition select_goal_id :: "string \<Rightarrow> ledger \<Rightarrow> goal option" where
  "select_goal_id i l = find (\<lambda>g. go_id g = i) (lg_goals l)"

definition select_task :: "string \<Rightarrow> ledger \<Rightarrow> task option" where
  "select_task i l = find (\<lambda>t. tk_id t = i) (lg_tasks l)"

text \<open>\<open>_goal_execution_state_on_conn\<close>\<close>

definition execution_state :: "goal \<Rightarrow> ledger \<Rightarrow> string" where
  "execution_state g l =
     (case go_active_task g of
        None \<Rightarrow> ''idle''
      | Some t \<Rightarrow>
          (case select_task t l of
             Some row \<Rightarrow> if tk_status row = TQueued then ''queued'' else ''working''
           | None \<Rightarrow> ''working''))"

text \<open>\<open>_refresh_goal_usage_coverage_on_conn\<close>: the executor of an event is its physical task, if that is
  in the ledger, and otherwise its root turn.\<close>

definition event_executor :: "usage_event \<Rightarrow> ledger \<Rightarrow> string option" where
  "event_executor e l =
     (case ue_turn_id e of
        Some t \<Rightarrow> if select_task t l \<noteq> None then Some t else ue_root_turn_id e
      | None \<Rightarrow> ue_root_turn_id e)"

definition event_incomplete :: "ledger \<Rightarrow> usage_event \<Rightarrow> bool" where
  "event_incomplete l e \<longleftrightarrow>
     ue_status e = ''unknown'' \<or> ue_coverage e = ''usage_missing''
   \<or> (ue_status e = ''started''
      \<and> (case event_executor e l of
            None \<Rightarrow> False
          | Some x \<Rightarrow> list_ex (\<lambda>t. tk_id t = x \<and> tk_status t \<notin> {TQueued, TRunning}) (lg_tasks l)))"

definition refresh_coverage :: "string \<Rightarrow> ledger \<Rightarrow> ledger" where
  "refresh_coverage i l =
     l\<lparr>lg_goals := update_where (\<lambda>g. go_id g = i)
        (\<lambda>g. g\<lparr>go_usage_coverage :=
           (if list_ex (\<lambda>e. ue_goal_id e = Some (go_id g) \<and> event_incomplete l e) (lg_events l)
            then ''partial_usage''
            else if go_usage_version g = 0 then ''partial_history'' else ''complete'')\<rparr>) (lg_goals l)\<rparr>"

definition or_row :: "goal option \<Rightarrow> goal \<Rightarrow> goal" where
  "or_row x g = (case x of None \<Rightarrow> g | Some g' \<Rightarrow> g')"

text \<open>\<open>_turn_usage_totals_on_conn\<close>\<close>

definition sum_tokens :: "usage_event list \<Rightarrow> tokens" where
  "sum_tokens es = fold (\<lambda>e u. add_tokens u (ue_tokens e)) es no_tokens"

definition floor_tokens :: "tokens \<Rightarrow> tokens" where
  "floor_tokens u = \<lparr>us_input = max 0 (us_input u), us_output = max 0 (us_output u),
     us_reasoning = max 0 (us_reasoning u), us_cache_read = max 0 (us_cache_read u),
     us_cache_write = max 0 (us_cache_write u), us_total = max 0 (us_total u)\<rparr>"

definition turn_usage :: "goal_ctx \<Rightarrow> ledger \<Rightarrow> tokens" where
  "turn_usage c l =
     floor_tokens (sum_tokens (filter (\<lambda>e. ue_turn_id e = Some (cx_task_id c)
        \<and> ue_session_id e = cx_session_id c \<and> ue_epoch e = cx_epoch c
        \<and> ue_status e = ''finalized'' \<and> ue_goal_id e = None) (lg_events l)))"

section \<open>Fences\<close>

definition require_expected :: "string \<Rightarrow> expected_goal \<Rightarrow> ledger \<Rightarrow> store_error + goal" where
  "require_expected k x l =
     and_then (present (GoalConflict ''GOAL_NOT_FOUND'') (select_goal k l)) (\<lambda>g.
     checked
       [(go_session_id g \<noteq> xg_session_id x \<or> go_epoch g \<noteq> xg_epoch x,
           GoalConflict ''SESSION_GENERATION_CHANGED''),
        (go_id g \<noteq> xg_goal_id x \<or> go_state_revision g \<noteq> xg_state_revision x,
           GoalConflict ''STALE_GOAL'')]
       (Inr g))"

definition goal_session :: "goal \<Rightarrow> ledger \<Rightarrow> session_row option" where
  "goal_session g l =
     find (\<lambda>s. se_key s = go_session_key g \<and> se_session_id s = go_session_id g
               \<and> se_epoch s = go_epoch g) (lg_sessions l)"

fun is_obj :: "json \<Rightarrow> bool" where
  "is_obj (JObj _) = True"
| "is_obj _ = False"

definition require_default_mode :: "goal \<Rightarrow> ledger \<Rightarrow> store_error + session_row" where
  "require_default_mode g l =
     and_then (present (GoalConflict ''SESSION_GENERATION_CHANGED'') (goal_session g l)) (\<lambda>s.
     checked
       [(is_obj (jget ''sidechat'' (se_origin s)), GoalConflict ''SIDECHAT_UNSUPPORTED''),
        (se_mode s \<noteq> ''default'', GoalConflict ''PLAN_MODE_ACTIVE'')]
       (Inr s))"

definition require_idle :: "string \<Rightarrow> ledger \<Rightarrow> store_error + unit" where
  "require_idle k l =
     (if list_ex (\<lambda>t. tk_session_key t = k \<and> tk_status t \<in> {TQueued, TRunning}) (lg_tasks l)
      then Inl (GoalConflict ''GOAL_BUSY'') else Inr ())"

text \<open>\<open>_require_persisted_goal_context_on_conn\<close>\<close>

definition require_context :: "goal_ctx \<Rightarrow> goal \<Rightarrow> ledger \<Rightarrow> store_error + task" where
  "require_context c g l =
     and_then (present (GoalConflict ''STALE_GOAL'') (select_task (cx_task_id c) l)) (\<lambda>t.
     checked
       [(tk_session_key t \<noteq> go_session_key g \<or> effective_context (tk_details t) \<noteq> Some c,
           GoalConflict ''STALE_GOAL'')]
       (Inr t))"

section \<open>Commands and their receipts\<close>

record command_result =
  cr_response :: obj
  cr_goal :: "goal option"
  cr_replayed :: bool

definition prepare_command :: "command \<Rightarrow> string \<Rightarrow> string \<Rightarrow> store_error + command" where
  "prepare_command c action k =
     and_then (validate_command c) (\<lambda>_.
     checked
       [(cm_action c \<noteq> action, GoalInvalid ''INVALID_GOAL_COMMAND''),
        (canonical_key (cm_session_key c) \<noteq> canonical_key k, GoalInvalid ''INVALID_GOAL_COMMAND'')]
       (Inr (c\<lparr>cm_session_key := canonical_key k\<rparr>)))"

definition select_receipt :: "command \<Rightarrow> ledger \<Rightarrow> receipt option" where
  "select_receipt c l =
     find (\<lambda>r. rc_scope r = cm_scope c \<and> rc_session_key r = cm_session_key c
               \<and> rc_request_id r = cm_request_id c) (lg_receipts l)"

definition without_retired :: "obj \<Rightarrow> obj" where
  "without_retired response =
     (case jget ''goal'' response of
        JObj g \<Rightarrow> AList.update ''goal''
          (JObj (filter (\<lambda>(k, v). k \<notin> {''tokenBudget'', ''budgetTokensUsed'', ''executionPolicy''}) g))
          response
      | _ \<Rightarrow> response)"

definition replay :: "command \<Rightarrow> ledger \<Rightarrow> store_error + command_result option" where
  "replay c l =
     (case select_receipt c l of
        None \<Rightarrow> Inr None
      | Some r \<Rightarrow>
          if rc_action r \<noteq> cm_action c \<or> rc_fingerprint r \<noteq> cm_fingerprint c
          then Inl (GoalConflict ''IDEMPOTENCY_CONFLICT'')
          else Inr (Some \<lparr>cr_response = without_retired (rc_response r),
                          cr_goal = select_goal (cm_session_key c) l, cr_replayed = True\<rparr>))"

definition mutation_response ::
  "command \<Rightarrow> goal option \<Rightarrow> string \<Rightarrow> int \<Rightarrow> string option \<Rightarrow> string option \<Rightarrow> obj" where
  "mutation_response c g session_id epoch previous state =
     [(''accepted'', JBool True), (''clientRequestId'', JStr (cm_request_id c)),
      (''sessionKey'', JStr (cm_session_key c)), (''sessionId'', JStr session_id),
      (''epoch'', JInt epoch), (''taskId'', JNull), (''userMessageId'', JNull),
      (''previousGoalId'', jopt previous),
      (''goal'', (case g of None \<Rightarrow> JNull | Some g \<Rightarrow> JObj (goal_snapshot g state None)))]"

definition insert_receipt ::
  "command \<Rightarrow> string \<Rightarrow> int \<Rightarrow> obj \<Rightarrow> ledger \<Rightarrow> store_error + ledger" where
  "insert_receipt c session_id epoch response l =
     (if select_receipt c l \<noteq> None \<or> \<not> session_exists (cm_session_key c) l then Inl IntegrityError
      else Inr (l\<lparr>lg_receipts := lg_receipts l @
        [\<lparr>rc_scope = cm_scope c, rc_session_key = cm_session_key c, rc_request_id = cm_request_id c,
          rc_action = cm_action c, rc_fingerprint = cm_fingerprint c, rc_session_id = session_id,
          rc_epoch = epoch, rc_response = response\<rparr>]\<rparr>))"

text \<open>The end of every command that leaves a Goal: its response and its receipt.\<close>

definition answer :: "command \<Rightarrow> goal \<Rightarrow> ledger \<Rightarrow> store_error + command_result \<times> ledger" where
  "answer c g l =
     (let response = mutation_response c (Some g) (go_session_id g) (go_epoch g) None
                       (Some (execution_state g l))
      in and_then (insert_receipt c (go_session_id g) (go_epoch g) response l) (\<lambda>l'.
         Inr (\<lparr>cr_response = response, cr_goal = Some g, cr_replayed = False\<rparr>, l')))"

text \<open>The frame of every command: prepared, replayed if its receipt is there, else executed.\<close>

definition with_replay ::
  "command \<Rightarrow> string \<Rightarrow> string
   \<Rightarrow> (command \<Rightarrow> ledger \<Rightarrow> store_error + command_result \<times> ledger)
   \<Rightarrow> ledger \<Rightarrow> store_error + command_result \<times> ledger" where
  "with_replay c action k body l =
     and_then (prepare_command c action k) (\<lambda>c'.
     and_then (replay c' l) (\<lambda>old.
       case old of Some r \<Rightarrow> Inr (r, l) | None \<Rightarrow> body c' l))"

end
