(* ===== verification/Goal_Commands.thy ===== *)
theory Goal_Commands
  imports Session_Ledger
begin

text \<open>
  The commands of a user on the Goal of a session (\<open>session/storage.py\<close>): edit, pause, resume, clear,
  and the creation of a Goal by the task that runs. Each command is fenced by the Goal the user saw
  (\<open>expected\<close>) and is executed at most once for a request id.
\<close>

section \<open>Pause and resume\<close>

definition paused_row :: "string \<Rightarrow> int \<Rightarrow> goal \<Rightarrow> goal" where
  "paused_row reason now g =
     g\<lparr>go_status := GPaused, go_state_revision := go_state_revision g + 1, go_terminal_task := None,
       go_pause_reason := Some reason, go_terminal_reason := None, go_updated := now,
       go_finished := None\<rparr>"

definition resumed_row :: "int \<Rightarrow> goal \<Rightarrow> goal" where
  "resumed_row now g =
     g\<lparr>go_status := GActive, go_state_revision := go_state_revision g + 1, go_terminal_task := None,
       go_window_turns := 0, go_window_ms := 0, go_pause_reason := None, go_terminal_reason := None,
       go_updated := now, go_finished := None\<rparr>"

text \<open>\<open>WHERE session_key = ? AND goal_id = ? AND state_revision = ?\<close>\<close>

definition fenced :: "string \<Rightarrow> string \<Rightarrow> int \<Rightarrow> goal \<Rightarrow> bool" where
  "fenced k i r g \<longleftrightarrow> go_session_key g = k \<and> go_id g = i \<and> go_state_revision g = r"

text \<open>\<open>assert updated is not None\<close> after a select.\<close>

definition selected :: "string \<Rightarrow> ledger \<Rightarrow> store_error + goal" where
  "selected k l = present (Raised (RuntimeError ''AssertionError'')) (select_goal k l)"

definition pause_goal ::
  "string \<Rightarrow> expected_goal \<Rightarrow> command \<Rightarrow> json \<Rightarrow> int \<Rightarrow> ledger \<Rightarrow> store_error + command_result \<times> ledger"
  where
  "pause_goal session_key x c reason now l =
     (let k = canonical_key session_key in
      and_then (prepare_command c ''pause'' k) (\<lambda>_.
      and_then (normalize_reason reason) (\<lambda>r.
      with_replay c ''pause'' k (\<lambda>c l.
        and_then (require_expected k x l) (\<lambda>g.
        checked [(go_status g \<noteq> GActive, GoalConflict ''GOAL_NOT_RESUMABLE'')]
        (and_then (update_goals (fenced k (xg_goal_id x) (xg_state_revision x))
           (paused_row (case r of None \<Rightarrow> ''user'' | Some s \<Rightarrow> s) now) l) (\<lambda>l'.
         and_then (selected k l') (\<lambda>g'. answer c g' l'))))) l)))"

definition resume_goal ::
  "string \<Rightarrow> expected_goal \<Rightarrow> command \<Rightarrow> int \<Rightarrow> ledger \<Rightarrow> store_error + command_result \<times> ledger" where
  "resume_goal session_key x c now l =
     (let k = canonical_key session_key in
      with_replay c ''resume'' k (\<lambda>c l.
        and_then (require_expected k x l) (\<lambda>g.
        checked [(go_status g \<notin> {GPaused, GBlocked, GUsageLimited}, GoalConflict ''GOAL_NOT_RESUMABLE'')]
        (and_then (update_goals (fenced k (xg_goal_id x) (xg_state_revision x)) (resumed_row now)
             (refresh_coverage (go_id g) l)) (\<lambda>l'.
         and_then (selected k l') (\<lambda>g'. answer c g' l'))))) l)"

section \<open>Clear\<close>

text \<open>A pending or claimed objective update of the owning task is revoked; one already applied stays.\<close>

definition revoke_update :: "goal \<Rightarrow> ledger \<Rightarrow> store_error + ledger" where
  "revoke_update g l =
     (case go_active_task g of
        None \<Rightarrow> Inr l
      | Some t \<Rightarrow>
          (case select_task t l of
             None \<Rightarrow> Inr l
           | Some row \<Rightarrow>
               (case update_from (jget update_key (tk_details row)) of
                  Inl e \<Rightarrow> Inl (Raised e)
                | Inr None \<Rightarrow> Inr l
                | Inr (Some u) \<Rightarrow>
                    if gu_status u = UApplied then Inr l
                    else Inr (update_task t (\<lambda>row. row\<lparr>tk_details :=
                      AList.update update_key (JObj (update_detail (u\<lparr>gu_status := URevoked\<rparr>)))
                        (tk_details row)\<rparr>) l))))"

definition clear_goal ::
  "string \<Rightarrow> expected_goal \<Rightarrow> command \<Rightarrow> ledger \<Rightarrow> store_error + command_result \<times> ledger" where
  "clear_goal session_key x c l =
     (let k = canonical_key session_key in
      with_replay c ''clear'' k (\<lambda>c l.
        and_then (require_expected k x l) (\<lambda>g.
        and_then (revoke_update g l) (\<lambda>l1.
        checked [(rowcount (fenced k (xg_goal_id x) (xg_state_revision x)) (lg_goals l1) \<noteq> 1,
                  GoalConflict ''STALE_GOAL'')]
        (let l2 = delete_goals (fenced k (xg_goal_id x) (xg_state_revision x)) l1;
             response = mutation_response c None (go_session_id g) (go_epoch g) (Some (go_id g)) None
         in and_then (insert_receipt c (go_session_id g) (go_epoch g) response l2) (\<lambda>l3.
            Inr (\<lparr>cr_response = response, cr_goal = None, cr_replayed = False\<rparr>, l3)))))) l)"

section \<open>Edit\<close>

text \<open>The three updates of an edit, in their order. Every right-hand side reads the row before the
  statement.\<close>

definition edited_row :: "string \<Rightarrow> int \<Rightarrow> goal \<Rightarrow> goal" where
  "edited_row objective now g =
     (let differs = (go_objective g \<noteq> objective); complete = (go_status g = GComplete) in
      g\<lparr>go_objective := objective,
        go_objective_revision := go_objective_revision g + (if differs then 1 else 0),
        go_progress := (if differs then None else go_progress g),
        go_progress_revision := go_progress_revision g + (if differs then 1 else 0),
        go_state_revision := go_state_revision g + 1,
        go_status := (if complete then GActive else go_status g),
        go_terminal_task := None,
        go_window_turns := (if complete then 0 else go_window_turns g),
        go_window_ms := (if complete then 0 else go_window_ms g),
        go_pause_reason := (if complete then None else go_pause_reason g),
        go_blocked_reason := None,
        go_terminal_reason := (if go_status g \<in> {GBlocked, GComplete} then None else go_terminal_reason g),
        go_updated := now,
        go_finished := (if complete then None else go_finished g)\<rparr>)"

definition edit_resumed_row :: "goal \<Rightarrow> goal" where
  "edit_resumed_row g =
     g\<lparr>go_status := GActive, go_pause_reason := None, go_terminal_reason := None,
       go_terminal_task := None, go_finished := None, go_window_turns := 0, go_window_ms := 0\<rparr>"

definition edit_paused_row :: "goal \<Rightarrow> goal" where
  "edit_paused_row g =
     g\<lparr>go_status := GPaused, go_pause_reason := Some ''user'', go_terminal_reason := None,
       go_blocked_reason := None, go_terminal_task := None, go_finished := None\<rparr>"

definition bound_row :: "string \<Rightarrow> int \<Rightarrow> goal \<Rightarrow> goal" where
  "bound_row t n g =
     g\<lparr>go_active_task := Some t, go_turns_started := go_turns_started g + n,
       go_window_turns := go_window_turns g + n\<rparr>"

text \<open>The task that the edit binds to the Goal: it runs, in this session generation, and no other task
  owns the Goal.\<close>

definition binding_task :: "string \<Rightarrow> string option \<Rightarrow> goal \<Rightarrow> ledger \<Rightarrow> store_error + task option" where
  "binding_task k i g l =
     (case i of
        None \<Rightarrow> Inr None
      | Some t \<Rightarrow>
          and_then (require_default_mode g l) (\<lambda>_.
          and_then (present (GoalConflict ''STALE_GOAL'') (select_task t l)) (\<lambda>row.
          checked
            [(tk_session_key row \<noteq> k \<or> tk_status row \<noteq> TRunning
                \<or> jget ''session_id'' (tk_details row) \<noteq> JStr (go_session_id g)
                \<or> \<not> json_int_eq (jget ''session_epoch'' (tk_details row)) (go_epoch g)
                \<or> (case go_active_task g of None \<Rightarrow> False | Some a \<Rightarrow> a \<noteq> t),
              GoalConflict ''STALE_GOAL'')]
            (Inr (Some row)))))"

definition bind_details :: "task \<Rightarrow> goal_ctx \<Rightarrow> obj" where
  "bind_details row c =
     (let d = AList.update effective_key (JObj (context_detail c)) (tk_details row);
          d = (if map_of d ''goal_context'' = None
               then AList.update ''goal_context'' (JObj (context_detail c)) d else d)
      in AList.delete update_key d)"

text \<open>The objective update that an edit leaves for the owning task to adopt, if that task still holds a
  context of this Goal.\<close>

definition offer_update :: "string \<Rightarrow> string option \<Rightarrow> goal \<Rightarrow> int \<Rightarrow> ledger \<Rightarrow> ledger" where
  "offer_update k i g now l =
     (case i of
        None \<Rightarrow> l
      | Some t \<Rightarrow>
          if go_active_task g \<noteq> Some t then l
          else (case select_task t l of
                  None \<Rightarrow> l
                | Some row \<Rightarrow>
                    (case effective_context (tk_details row) of
                       None \<Rightarrow> l
                     | Some a \<Rightarrow>
                         if tk_session_key row = k \<and> tk_status row \<in> {TQueued, TRunning}
                            \<and> cx_session_id a = go_session_id g \<and> cx_epoch a = go_epoch g
                            \<and> cx_goal_id a = go_id g \<and> cx_task_id a = t
                         then
                           let next = (goal_turn_context g t (cx_automatic a))\<lparr>cx_seq := cx_seq a\<rparr>;
                               u = \<lparr>gu_context = next, gu_state_revision = go_state_revision g,
                                    gu_accepted_at = now, gu_status = UPending\<rparr>
                           in write_details t
                                (AList.update update_key (JObj (update_detail u)) (tk_details row)) now l
                         else l)))"

definition apply_edit ::
  "string \<Rightarrow> expected_goal \<Rightarrow> string \<Rightarrow> bool \<Rightarrow> bool \<Rightarrow> task option \<Rightarrow> int \<Rightarrow> goal \<Rightarrow> ledger
   \<Rightarrow> store_error + ledger" where
  "apply_edit k x objective resume pause bound now g l =
     (let n = (if go_active_task g = None then 1 else 0);
          at_id = (\<lambda>r. go_id r = go_id g)
      in checked [(rowcount (fenced k (xg_goal_id x) (xg_state_revision x)) (lg_goals l) \<noteq> 1,
                   GoalConflict ''STALE_GOAL'')]
         (and_then (update_goals (fenced k (xg_goal_id x) (xg_state_revision x)) (edited_row objective now) l) (\<lambda>l1.
          and_then (if resume \<and> go_status g \<noteq> GActive then update_goals at_id edit_resumed_row l1 else Inr l1) (\<lambda>l2.
          and_then (if pause then update_goals at_id edit_paused_row l2 else Inr l2) (\<lambda>l3.
          (case bound of
             None \<Rightarrow> Inr l3
           | Some row \<Rightarrow> update_goals at_id (bound_row (tk_id row) n) l3))))))"

definition edit_body ::
  "string \<Rightarrow> expected_goal \<Rightarrow> string \<Rightarrow> string option \<Rightarrow> string option \<Rightarrow> bool \<Rightarrow> bool \<Rightarrow> int
   \<Rightarrow> command \<Rightarrow> ledger \<Rightarrow> store_error + command_result \<times> ledger" where
  "edit_body k x objective adoption binding resume pause now c l =
     and_then (require_expected k x l) (\<lambda>seen.
     let l = refresh_coverage (go_id seen) l; g = or_row (select_goal_id (go_id seen) l) seen in
     and_then (binding_task k binding g l) (\<lambda>bound.
     checked [(go_status g = GComplete \<and> go_active_task g \<noteq> None \<and> go_active_task g \<noteq> binding,
               GoalConflict ''GOAL_BUSY'')]
     (and_then (apply_edit k x objective resume pause bound now g l) (\<lambda>l1.
      and_then (selected k l1) (\<lambda>g'.
      let l2 = (case bound of
                  None \<Rightarrow> l1
                | Some row \<Rightarrow> write_details (tk_id row)
                    (bind_details row (goal_turn_context g' (tk_id row) False)) now l1);
          l3 = offer_update k adoption g' now l2
      in answer c g' l3)))))"

definition edit_goal ::
  "string \<Rightarrow> expected_goal \<Rightarrow> string \<Rightarrow> command \<Rightarrow> string option \<Rightarrow> string option \<Rightarrow> bool \<Rightarrow> bool \<Rightarrow> int
   \<Rightarrow> ledger \<Rightarrow> store_error + command_result \<times> ledger" where
  "edit_goal session_key x objective c adoption binding resume pause now l =
     (if resume \<and> pause then Inl (GoalInvalid ''INVALID_GOAL_OBJECTIVE'')
      else let k = canonical_key session_key in
      and_then (prepare_command c ''edit'' k) (\<lambda>_.
      and_then (normalize_objective (JStr objective)) (\<lambda>objective.
      with_replay c ''edit'' k (edit_body k x objective adoption binding resume pause now) l)))"

section \<open>Adopting an edited objective\<close>

text \<open>The Goal that an objective update may still change: same generation, same objective, owned by the
  updating task, and active or paused.\<close>

definition adoptable_goal :: "goal_ctx \<Rightarrow> ledger \<Rightarrow> goal option" where
  "adoptable_goal c l =
     (case select_goal_id (cx_goal_id c) l of
        None \<Rightarrow> None
      | Some g \<Rightarrow>
          if go_session_id g \<noteq> cx_session_id c \<or> go_epoch g \<noteq> cx_epoch c
             \<or> go_objective_revision g \<noteq> cx_objective_revision c \<or> go_objective g \<noteq> cx_objective c
             \<or> go_active_task g \<noteq> Some (cx_task_id c) \<or> go_status g \<notin> {GActive, GPaused}
          then None else Some g)"

definition adoptable_update ::
  "goal_update \<Rightarrow> update_status list \<Rightarrow> ledger \<Rightarrow> store_error + (task \<times> goal_update) option" where
  "adoptable_update u allowed l =
     (let c = gu_context u in
      case adoptable_goal c l of
        None \<Rightarrow> Inr None
      | Some g \<Rightarrow>
          (case select_task (cx_task_id c) l of
             None \<Rightarrow> Inr None
           | Some row \<Rightarrow>
               (case update_from (jget update_key (tk_details row)) of
                  Inl e \<Rightarrow> Inl (Raised e)
                | Inr None \<Rightarrow> Inr None
                | Inr (Some stored) \<Rightarrow>
                    if tk_status row \<noteq> TRunning \<or> tk_session_key row \<noteq> go_session_key g
                       \<or> gu_context stored \<noteq> c \<or> gu_state_revision stored \<noteq> gu_state_revision u
                       \<or> gu_status stored \<notin> set allowed
                    then Inr None else Inr (Some (row, stored)))))"

definition claim_update ::
  "goal_update \<Rightarrow> int \<Rightarrow> ledger \<Rightarrow> store_error + goal_update option \<times> ledger" where
  "claim_update u now l =
     and_then (adoptable_update u [UPending, UClaimed] l) (\<lambda>found.
     case found of
       None \<Rightarrow> Inr (None, l)
     | Some (row, stored) \<Rightarrow>
         let claimed = stored\<lparr>gu_status := UClaimed\<rparr> in
         Inr (Some claimed, write_details (cx_task_id (gu_context u))
                (AList.update update_key (JObj (update_detail claimed)) (tk_details row)) now l))"

definition apply_update ::
  "goal_update \<Rightarrow> int \<Rightarrow> string \<Rightarrow> int \<Rightarrow> ledger \<Rightarrow> store_error + goal_update option \<times> ledger" where
  "apply_update u iteration call now l =
     and_then (adoptable_update u [UClaimed] l) (\<lambda>found.
     case found of
       None \<Rightarrow> Inr (None, l)
     | Some (row, stored) \<Rightarrow>
         let applied = stored\<lparr>gu_status := UApplied\<rparr>;
             detail = update_detail applied @
               [(''appliedIteration'', JInt iteration), (''modelCallId'', JStr call),
                (''appliedAtMs'', JInt now)];
             d = AList.update effective_key (JObj (context_detail (gu_context u))) (tk_details row);
             d = AList.update update_key (JObj detail) d
         in Inr (Some applied, write_details (cx_task_id (gu_context u)) d now l))"

section \<open>Creation by a running task\<close>

text \<open>\<open>create_goal_for_running_task\<close>. \<open>create_from_turn\<close> of \<open>gateway/goal_service.py\<close> is its only caller
  and passes what \<open>new_goal\<close> returns.\<close>

definition adopt_source :: "obj \<Rightarrow> goal \<Rightarrow> goal" where
  "adopt_source d g =
     (case nonempty_str (jget ''persisted_user_message_id'' d) of
        None \<Rightarrow> g | Some m \<Rightarrow> g\<lparr>go_source_message := Some m\<rparr>)"

definition insert_for_task :: "goal \<Rightarrow> string \<Rightarrow> goal option \<Rightarrow> ledger \<Rightarrow> store_error + goal \<times> ledger" where
  "insert_for_task g t current l =
     and_then (present (GoalConflict ''STALE_GOAL'') (select_task t l)) (\<lambda>row.
     checked
       [(tk_session_key row \<noteq> go_session_key g \<or> tk_status row \<noteq> TRunning, GoalConflict ''STALE_GOAL''),
        (jget ''session_id'' (tk_details row) \<noteq> JStr (go_session_id g)
           \<or> \<not> json_int_eq (jget ''session_epoch'' (tk_details row)) (go_epoch g), GoalConflict ''STALE_GOAL''),
        (effective_context (tk_details row) \<noteq> None, GoalConflict ''STALE_GOAL'')]
       (let g' = adopt_source (tk_details row) g;
            l1 = (case current of None \<Rightarrow> l | Some old \<Rightarrow> delete_goals (\<lambda>r. go_id r = go_id old) l)
        in and_then (insert_goal g' l1) (\<lambda>l2.
           Inr (g', update_task t (\<lambda>row. row\<lparr>tk_details := AList.update ''goal_context''
             (JObj (context_detail (goal_turn_context g' t False))) (tk_details row)\<rparr>) l2))))"

definition create_for_task :: "goal \<Rightarrow> string \<Rightarrow> ledger \<Rightarrow> store_error + goal \<times> ledger" where
  "create_for_task g t l =
     and_then (require_default_mode g l) (\<lambda>_.
     let current = select_goal (go_session_key g) l in
     case current of
       Some old \<Rightarrow>
         if go_id old = go_id g \<and> go_active_task old = Some t
         then (if go_objective old \<noteq> go_objective g then Inl (GoalConflict ''GOAL_ACTIVE'') else Inr (old, l))
         else if go_status old \<noteq> GComplete \<or> go_active_task old \<noteq> None
         then Inl (GoalConflict ''GOAL_ACTIVE'')
         else insert_for_task g t current l
     | None \<Rightarrow> insert_for_task g t current l)"

end
