(* ===== verification/Goal_Tasks.thy ===== *)
theory Goal_Tasks
  imports Goal_Commands
begin

text \<open>
  The tasks that work on a Goal (\<open>session/storage.py\<close>): the first task of a new Goal, the claim by a
  user's turn, the automatic continuation, the structured terminal result, the settlement of a finished
  task, the compensation of one that never ran to its end, and the pauses of the system.

  \<open>uuid5\<close> is the name-based UUID of the URL namespace, \<open>guard\<close> the error that the project workspace guard
  raises, if any. Of \<open>accept_turn\<close> only the part about Goals is here.
\<close>

section \<open>Ownership written into task details\<close>

text \<open>\<open>_bind_task_session_owner\<close>\<close>

definition bind_owner :: "obj \<Rightarrow> string \<Rightarrow> int \<Rightarrow> store_error + obj" where
  "bind_owner d session_id epoch =
     checked
       [(map_of d ''session_id'' \<noteq> None \<and> nonempty_str (jget ''session_id'' d) = None, Raised (ValueError [])),
        (map_of d ''session_id'' \<noteq> None \<and> nonempty_str (jget ''session_id'' d) \<noteq> Some session_id, StaleEpoch),
        (map_of d ''session_epoch'' \<noteq> None \<and> int_from 0 (jget ''session_epoch'' d) = None, Raised (ValueError [])),
        (map_of d ''session_epoch'' \<noteq> None \<and> int_from 0 (jget ''session_epoch'' d) \<noteq> Some epoch, StaleEpoch)]
       (Inr (AList.update ''session_epoch'' (JInt epoch)
              (AList.update ''session_id'' (JStr session_id) d)))"

definition require_mode_metadata :: "int \<Rightarrow> obj \<Rightarrow> obj" where
  "require_mode_metadata revision d =
     AList.update ''metadata''
       (JObj (AList.update ''required_collaboration_revision'' (JInt revision)
               (AList.update ''required_collaboration_mode'' (JStr ''default'')
                 (as_obj (jget ''metadata'' d))))) d"

section \<open>Automatic continuation\<close>

definition automatic_task_id :: "(string \<Rightarrow> string) \<Rightarrow> string \<Rightarrow> int \<Rightarrow> int \<Rightarrow> store_error + string" where
  "automatic_task_id uuid5 goal_id revision sq =
     (if goal_id = [] \<or> revision < 1 \<or> sq < 1 then Inl (GoalInvalid ''INVALID_GOAL_COMMAND'')
      else Inr (uuid5 (goal_id @ '':'' @ int_str revision @ '':'' @ int_str sq)))"

datatype continuation = Accepted goal goal_ctx | Guardrail goal string

definition guardrail_errors :: "int \<Rightarrow> int \<Rightarrow> (bool \<times> store_error) list" where
  "guardrail_errors max_turns budget =
     [(\<not> (1 \<le> max_turns \<and> max_turns \<le> 500), GoalInvalid ''INVALID_GOAL_GUARDRAIL''),
      (\<not> (60 \<le> budget \<and> budget \<le> 86400), GoalInvalid ''INVALID_GOAL_GUARDRAIL'')]"

definition guardrail_reason :: "int \<Rightarrow> int \<Rightarrow> goal \<Rightarrow> string option" where
  "guardrail_reason max_turns budget g =
     (if max_turns \<le> go_window_turns g then Some ''turn_limit''
      else if budget * 1000 \<le> go_window_ms g then Some ''runtime_limit'' else None)"

definition guardrail_row :: "string \<Rightarrow> int \<Rightarrow> goal \<Rightarrow> goal" where
  "guardrail_row reason now g =
     g\<lparr>go_status := GPaused, go_state_revision := go_state_revision g + 1,
       go_pause_reason := Some reason, go_terminal_reason := Some reason, go_updated := now\<rparr>"

definition continued_row :: "string \<Rightarrow> int \<Rightarrow> int \<Rightarrow> goal \<Rightarrow> goal" where
  "continued_row t sq now g =
     g\<lparr>go_active_task := Some t, go_terminal_task := None, go_seq := sq,
       go_turns_started := go_turns_started g + 1, go_window_turns := go_window_turns g + 1,
       go_state_revision := go_state_revision g + 1, go_updated := now\<rparr>"

text \<open>\<open>... AND active_task_id IS NULL AND status = 'active'\<close>\<close>

definition idle_fence :: "goal \<Rightarrow> goal \<Rightarrow> bool" where
  "idle_fence g r \<longleftrightarrow> fenced (go_session_key g) (go_id g) (go_state_revision g) r
     \<and> go_active_task r = None \<and> go_status r = GActive"

definition accept_continuation ::
  "(string \<Rightarrow> string) \<Rightarrow> store_error option \<Rightarrow> expected_goal \<Rightarrow> int \<Rightarrow> task \<Rightarrow> int \<Rightarrow> int \<Rightarrow> int \<Rightarrow> ledger
   \<Rightarrow> store_error + continuation \<times> ledger" where
  "accept_continuation uuid5 guard x expected_seq row max_turns budget now l =
     checked ((tk_status row \<noteq> TQueued, GoalInvalid ''INVALID_GOAL_COMMAND'') # guardrail_errors max_turns budget)
     (let k = canonical_key (tk_session_key row) in
      and_then (require_expected k x l) (\<lambda>seen.
      checked
        [(go_status seen \<noteq> GActive, GoalConflict ''GOAL_NOT_RESUMABLE''),
         (go_active_task seen \<noteq> None, GoalConflict ''GOAL_BUSY''),
         (go_seq seen \<noteq> expected_seq, GoalConflict ''STALE_GOAL'')]
      (and_then (require_default_mode seen l) (\<lambda>s.
       and_then (case guard of None \<Rightarrow> Inr () | Some e \<Rightarrow> Inl e) (\<lambda>_.
       and_then (require_idle k l) (\<lambda>_.
       let l = refresh_coverage (go_id seen) l; g = or_row (select_goal_id (go_id seen) l) seen in
       (case guardrail_reason max_turns budget g of
          Some reason \<Rightarrow>
            checked [(rowcount (idle_fence g) (lg_goals l) \<noteq> 1, GoalConflict ''STALE_GOAL'')]
            (and_then (update_goals (idle_fence g) (guardrail_row reason now) l) (\<lambda>l1.
             and_then (selected (go_session_key g) l1) (\<lambda>g'. Inr (Guardrail g' reason, l1))))
        | None \<Rightarrow>
            let sq = go_seq g + 1 in
            and_then (automatic_task_id uuid5 (go_id g) (go_objective_revision g) sq) (\<lambda>task_id.
            checked [(tk_id row \<noteq> task_id, GoalInvalid ''INVALID_GOAL_COMMAND'')]
            (let c = (goal_turn_context g (tk_id row) True)\<lparr>cx_seq := sq\<rparr>;
                 d = AList.update ''goal_context'' (JObj (context_detail c))
                       (AList.delete ''goal_candidate'' (tk_details row))
             in and_then (bind_owner d (go_session_id g) (go_epoch g)) (\<lambda>d.
                and_then (insert_task (row\<lparr>tk_session_key := k,
                     tk_details := require_mode_metadata (se_collaboration_revision s) d\<rparr>) l) (\<lambda>l1.
                checked [(rowcount (idle_fence g) (lg_goals l1) \<noteq> 1, GoalConflict ''STALE_GOAL'')]
                (and_then (update_goals (idle_fence g) (continued_row (tk_id row) sq now) l1) (\<lambda>l2.
                 and_then (selected (go_session_key g) l2) (\<lambda>g'. Inr (Accepted g' c, l2)))))))))))))))"

section \<open>Claims by a user's turn\<close>

definition claimed_row :: "string \<Rightarrow> int \<Rightarrow> goal \<Rightarrow> goal" where
  "claimed_row t now g =
     g\<lparr>go_active_task := Some t, go_terminal_task := None, go_turns_started := go_turns_started g + 1,
       go_window_turns := go_window_turns g + 1, go_state_revision := go_state_revision g + 1,
       go_updated := now\<rparr>"

definition claim_queued ::
  "candidate \<Rightarrow> string \<Rightarrow> string \<Rightarrow> int \<Rightarrow> ledger \<Rightarrow> store_error + (goal \<times> goal_ctx) option \<times> ledger" where
  "claim_queued cand t mode now l =
     (if mode \<noteq> ''default'' then Inr (None, l)
      else case find (\<lambda>r. tk_id r = t \<and> tk_status r = TQueued) (lg_tasks l) of
        None \<Rightarrow> Inr (None, l)
      | Some row \<Rightarrow>
          if candidate_from (jget ''goal_candidate'' (tk_details row)) \<noteq> Some cand then Inr (None, l)
          else (case select_goal (tk_session_key row) l of
                  None \<Rightarrow> Inr (None, l)
                | Some seen \<Rightarrow>
                    if go_session_id seen \<noteq> ca_session_id cand \<or> go_epoch seen \<noteq> ca_epoch cand
                       \<or> go_id seen \<noteq> ca_goal_id cand \<or> go_status seen \<noteq> GActive
                       \<or> go_active_task seen \<noteq> None
                    then Inr (None, l)
                    else
                      let l = refresh_coverage (go_id seen) l; g = or_row (select_goal_id (go_id seen) l) seen
                      in (case require_default_mode g l of
                            Inl e \<Rightarrow> if e \<in> {GoalConflict ''SESSION_GENERATION_CHANGED'', GoalConflict ''PLAN_MODE_ACTIVE''}
                                     then Inr (None, l) else Inl e
                          | Inr s \<Rightarrow>
                              if list_ex (\<lambda>r. tk_session_key r = tk_session_key row \<and> tk_id r \<noteq> t
                                           \<and> tk_status r = TRunning) (lg_tasks l)
                              then Inr (None, l)
                              else
                                let c = goal_turn_context g t False;
                                    d = AList.update ''goal_context'' (JObj (context_detail c))
                                          (AList.delete ''goal_candidate'' (tk_details row));
                                    l1 = write_details t (require_mode_metadata (se_collaboration_revision s) d) now l;
                                    P = (\<lambda>r. go_session_key r = tk_session_key row \<and> go_id r = go_id g
                                             \<and> go_active_task r = None)
                                in checked [(rowcount P (lg_goals l1) \<noteq> 1, GoalConflict ''STALE_GOAL'')]
                                   (and_then (update_goals P (claimed_row t now) l1) (\<lambda>l2.
                                    and_then (selected (tk_session_key row) l2) (\<lambda>g'.
                                    Inr (Some (g', c), l2)))))))"

text \<open>The Goal part of \<open>accept_turn\<close> for a new Goal (\<open>StartGoalMutation\<close>), with the task that the turn
  inserts.\<close>

definition fresh_goal_for :: "goal \<Rightarrow> string \<Rightarrow> string \<Rightarrow> bool" where
  "fresh_goal_for g t message \<longleftrightarrow>
     go_status g = GActive \<and> go_state_revision g = 1 \<and> go_objective_revision g = 1
   \<and> go_progress_revision g = 0 \<and> go_seq g = 0 \<and> go_active_task g = Some t
   \<and> go_source_message g = Some message \<and> go_terminal_task g = None \<and> go_turns_started g = 1
   \<and> go_turns_settled g = 0 \<and> go_window_turns g = 1"

definition start_goal ::
  "goal \<Rightarrow> task \<Rightarrow> string \<Rightarrow> string \<Rightarrow> ledger \<Rightarrow> store_error + (goal_ctx \<times> string option) \<times> ledger" where
  "start_goal g row k message l =
     checked [(\<not> fresh_goal_for g (tk_id row) message, GoalInvalid ''INVALID_GOAL_COMMAND'')]
     (let current = select_goal k l in
      checked
        [((case current of None \<Rightarrow> False | Some old \<Rightarrow> go_status old \<in> set goal_unfinished), GoalConflict ''GOAL_ACTIVE''),
         ((case current of None \<Rightarrow> False | Some old \<Rightarrow> go_active_task old \<noteq> None), GoalConflict ''GOAL_BUSY'')]
      (and_then (require_default_mode g l) (\<lambda>_.
       and_then (require_idle k l) (\<lambda>_.
       let l1 = (case current of None \<Rightarrow> l | Some _ \<Rightarrow> delete_goals (\<lambda>r. go_session_key r = k) l);
           c = goal_turn_context g (tk_id row) False;
           d = AList.update ''goal_context'' (JObj (context_detail c))
                 (AList.delete ''goal_candidate'' (tk_details row))
       in and_then (insert_goal g l1) (\<lambda>l2.
          and_then (insert_task (row\<lparr>tk_details := d\<rparr>) l2) (\<lambda>l3.
          Inr ((c, map_option go_id current), l3)))))))"

section \<open>The terminal result\<close>

definition terminal_row :: "goal_status \<Rightarrow> string \<Rightarrow> string option \<Rightarrow> int \<Rightarrow> goal \<Rightarrow> goal" where
  "terminal_row st t reason now g =
     g\<lparr>go_status := st, go_state_revision := go_state_revision g + 1, go_terminal_task := Some t,
       go_blocked_reason := (if st = GBlocked then reason else None),
       go_pause_reason := (if st = GPaused then Some ''user'' else None),
       go_terminal_reason := Some (if st = GBlocked then ''model_blocked''
          else if st = GPaused then ''user'' else ''model_complete''),
       go_updated := now, go_finished := (if st = GComplete then Some now else None)\<rparr>"

definition commit_terminal ::
  "goal_ctx \<Rightarrow> goal_status \<Rightarrow> json \<Rightarrow> int \<Rightarrow> ledger \<Rightarrow> store_error + goal \<times> ledger" where
  "commit_terminal c st blocked now l =
     checked [(st \<notin> {GComplete, GBlocked, GPaused}, GoalInvalid ''INVALID_GOAL_STATUS'')]
     (and_then (normalize_reason blocked) (\<lambda>reason.
      checked [(st \<noteq> GBlocked \<and> reason \<noteq> None, GoalInvalid ''INVALID_GOAL_REASON'')]
      (and_then (present (GoalConflict ''GOAL_NOT_FOUND'') (select_goal_id (cx_goal_id c) l)) (\<lambda>g.
       checked [(go_session_id g \<noteq> cx_session_id c \<or> go_epoch g \<noteq> cx_epoch c
                   \<or> go_objective_revision g \<noteq> cx_objective_revision c, GoalConflict ''STALE_GOAL'')]
       (and_then (require_context c g l) (\<lambda>_.
        if go_status g \<in> {GComplete, GBlocked}
        then (if go_status g = st \<and> go_terminal_task g = Some (cx_task_id c) then Inr (g, l)
              else Inl (GoalConflict ''STALE_GOAL''))
        else checked [(go_status g \<notin> {GActive, GPaused} \<or> go_active_task g \<noteq> Some (cx_task_id c),
                       GoalConflict ''STALE_GOAL'')]
             (and_then (update_goals (\<lambda>r. go_id r = cx_goal_id c
                  \<and> go_objective_revision r = cx_objective_revision c
                  \<and> go_active_task r = Some (cx_task_id c))
                (terminal_row st (cx_task_id c) reason now) l) (\<lambda>l1.
              and_then (present (Raised (RuntimeError ''AssertionError'')) (select_goal_id (cx_goal_id c) l1)) (\<lambda>g'.
              Inr (g', l1))))))))))"

section \<open>Settlement\<close>

definition final_error :: "task \<Rightarrow> string" where
  "final_error t =
     (case tk_error_class t of
        Some (c # cs) \<Rightarrow> c # cs
      | _ \<Rightarrow> (case tk_terminal_reason t of Some (c # cs) \<Rightarrow> c # cs | _ \<Rightarrow> ''turn_error''))"

definition pause_row_for :: "string \<Rightarrow> goal \<Rightarrow> goal" where
  "pause_row_for reason g =
     g\<lparr>go_status := GPaused, go_pause_reason := Some reason, go_terminal_reason := Some reason\<rparr>"

text \<open>The status and the reasons after the end of the owning task \<open>t\<close>; the other columns are untouched.
  \<open>same\<close> says that the task worked on the current objective.\<close>

definition classify_active ::
  "task \<Rightarrow> bool \<Rightarrow> bool \<Rightarrow> bool \<Rightarrow> bool \<Rightarrow> int \<Rightarrow> int \<Rightarrow> int \<Rightarrow> goal \<Rightarrow> store_error + goal" where
  "classify_active t same usage_limited successor restart max_turns budget window_after g =
     (if usage_limited
      then Inr (g\<lparr>go_status := GUsageLimited, go_pause_reason := Some ''usage_limited'',
                  go_blocked_reason := None, go_terminal_reason := Some ''usage_limited'', go_finished := None\<rparr>)
      else if tk_error_class t \<in> {Some ''approval_required'', Some ''human_decision_required''}
      then Inr ((pause_row_for ''approval_required'' g)\<lparr>go_blocked_reason := None, go_finished := None\<rparr>)
      else (case tk_status t of
          TSucceeded \<Rightarrow>
            Inr (if \<not> same then g
                 else if max_turns \<le> go_window_turns g then pause_row_for ''turn_limit'' g
                 else if budget * 1000 \<le> window_after then pause_row_for ''runtime_limit'' g else g)
        | TCancelled \<Rightarrow>
            Inr (if successor then g\<lparr>go_status := GActive, go_pause_reason := None\<rparr>
                 else if restart then pause_row_for ''process_restart'' g
                 else pause_row_for ''user_cancelled'' g)
        | TAbandoned \<Rightarrow> Inr (pause_row_for ''process_restart'' g)
        | TQueued \<Rightarrow> Inr g
        | TRunning \<Rightarrow> Inr g
        | _ \<Rightarrow>
            if tk_error_class t = Some ''goal_checkpoint_required''
            then Inr ((pause_row_for ''goal_checkpoint_required'' g)\<lparr>go_blocked_reason := None\<rparr>)
            else map_sum id (\<lambda>reason. g\<lparr>go_status := GBlocked, go_pause_reason := None,
                   go_blocked_reason := reason, go_terminal_reason := Some ''turn_error'', go_finished := None\<rparr>)
                 (normalize_reason (JStr (final_error t)))))"

definition classify_end ::
  "task \<Rightarrow> bool \<Rightarrow> bool \<Rightarrow> bool \<Rightarrow> bool \<Rightarrow> int \<Rightarrow> int \<Rightarrow> int \<Rightarrow> goal \<Rightarrow> store_error + goal" where
  "classify_end t same usage_limited successor restart max_turns budget window_after g0 =
     (let g = (if same \<and> tk_started t \<noteq> None \<and> go_status g0 \<in> {GActive, GPaused}
               then g0\<lparr>go_blocked_reason := None\<rparr> else g0)
      in if go_status g \<noteq> GActive then Inr g
         else classify_active t same usage_limited successor restart max_turns budget window_after g)"

definition run_duration :: "task \<Rightarrow> int" where
  "run_duration t =
     (case (tk_started t, tk_finished t) of (Some a, Some b) \<Rightarrow> max 0 (b - a) | _ \<Rightarrow> 0)"

definition settled_row :: "goal_ctx \<Rightarrow> tokens \<Rightarrow> int \<Rightarrow> int \<Rightarrow> goal \<Rightarrow> goal \<Rightarrow> goal" where
  "settled_row c usage duration now decided g =
     g\<lparr>go_status := go_status decided, go_state_revision := go_state_revision g + 1,
       go_active_task := None,
       go_terminal_task := (if go_status g \<in> {GComplete, GBlocked} \<and> go_terminal_task g = Some (cx_task_id c)
                            then go_terminal_task g else None),
       go_turns_settled := go_turns_settled g + 1, go_active_ms := go_active_ms g + duration,
       go_window_ms := go_window_ms g + duration, go_usage := add_tokens (go_usage g) usage,
       go_pause_reason := go_pause_reason decided, go_blocked_reason := go_blocked_reason decided,
       go_terminal_reason := go_terminal_reason decided, go_finished := go_finished decided,
       go_updated := now\<rparr>"

definition owned_by :: "goal_ctx \<Rightarrow> goal \<Rightarrow> bool" where
  "owned_by c r \<longleftrightarrow> go_id r = cx_goal_id c \<and> go_active_task r = Some (cx_task_id c)"

definition settle_task ::
  "goal_ctx \<Rightarrow> int \<Rightarrow> int \<Rightarrow> bool \<Rightarrow> bool \<Rightarrow> bool \<Rightarrow> int \<Rightarrow> ledger \<Rightarrow> store_error + goal option \<times> ledger" where
  "settle_task c max_turns budget usage_limited successor restart now l =
     checked (guardrail_errors max_turns budget)
     (and_then (present (GoalConflict ''GOAL_BUSY'') (select_task (cx_task_id c) l)) (\<lambda>t.
      checked
        [(tk_status t \<in> {TQueued, TRunning}, GoalConflict ''GOAL_BUSY''),
         (effective_context (tk_details t) \<noteq> Some c, GoalConflict ''STALE_GOAL'')]
      (let l = refresh_coverage (cx_goal_id c) l in
       case select_goal_id (cx_goal_id c) l of
         None \<Rightarrow> Inr (None, l)
       | Some g \<Rightarrow>
           if go_session_id g \<noteq> cx_session_id c \<or> go_epoch g \<noteq> cx_epoch c
              \<or> tk_session_key t \<noteq> go_session_key g \<or> go_active_task g \<noteq> Some (cx_task_id c)
           then Inr (None, l)
           else
             let usage = (if go_usage_version g = 0 then turn_usage c l else no_tokens);
                 duration = run_duration t;
                 same = (go_objective_revision g = cx_objective_revision c)
             in and_then (classify_end t same usage_limited successor restart max_turns budget
                            (go_window_ms g + duration) g) (\<lambda>decided.
                and_then (update_goals (owned_by c) (settled_row c usage duration now decided) l) (\<lambda>l1.
                Inr (select_goal_id (cx_goal_id c) l1, l1))))))"

section \<open>Compensation\<close>

text \<open>The task that can no longer run is abandoned, and its admission lease is settled. Its
  \<open>admission_owner\<close> is an object.\<close>

definition abandoned_task :: "string \<Rightarrow> int \<Rightarrow> task \<Rightarrow> task" where
  "abandoned_task reason now t =
     t\<lparr>tk_status := TAbandoned, tk_terminal_reason := Some reason, tk_updated := now,
       tk_finished := Some (case tk_finished t of None \<Rightarrow> now | Some f \<Rightarrow> f)\<rparr>"

definition settled_admission :: "task \<Rightarrow> obj" where
  "settled_admission t =
     (let owner = as_obj (jget ''admission_owner'' (tk_details t)) in
      if owner = [] then tk_details t
      else AList.delete ''cancellation_requested''
        (AList.update ''admission_owner''
          (JObj (AList.update ''settlement'' (JStr ''settled'')
            (AList.update ''compute_lease'' (JStr (if tk_started t \<noteq> None then ''released'' else ''not_acquired''))
              (AList.update ''resident_lease'' (JStr ''released'') owner)))) (tk_details t)))"

definition abandon_task :: "string \<Rightarrow> string \<Rightarrow> int \<Rightarrow> ledger \<Rightarrow> ledger" where
  "abandon_task i reason now l =
     l\<lparr>lg_tasks := update_where (\<lambda>t. tk_id t = i \<and> tk_status t \<in> {TQueued, TRunning})
        (\<lambda>t. (abandoned_task reason now t)\<lparr>tk_details := settled_admission t\<rparr>) (lg_tasks l)\<rparr>"

definition compensated_row ::
  "goal_ctx \<Rightarrow> string \<Rightarrow> bool \<Rightarrow> bool \<Rightarrow> tokens \<Rightarrow> int \<Rightarrow> int \<Rightarrow> goal \<Rightarrow> goal" where
  "compensated_row c reason preserve worked usage duration now g =
     g\<lparr>go_status := (if preserve then go_status g else GPaused),
       go_state_revision := go_state_revision g + 1, go_active_task := None,
       go_terminal_task := (if preserve \<and> go_terminal_task g = Some (cx_task_id c)
                            then go_terminal_task g else None),
       go_turns_settled := go_turns_settled g + 1, go_active_ms := go_active_ms g + duration,
       go_window_ms := go_window_ms g + duration, go_usage := add_tokens (go_usage g) usage,
       go_pause_reason := (if preserve then go_pause_reason g else Some reason),
       go_terminal_reason := (if preserve then go_terminal_reason g else Some reason),
       go_blocked_reason := (if go_status g \<in> {GActive, GPaused} \<and> worked then None else go_blocked_reason g),
       go_updated := now\<rparr>"

definition compensate_task ::
  "goal_ctx \<Rightarrow> string \<Rightarrow> bool \<Rightarrow> int \<Rightarrow> ledger \<Rightarrow> store_error + goal option \<times> ledger" where
  "compensate_task c reason unstarted now l =
     (case select_task (cx_task_id c) l of
        None \<Rightarrow> Inr (None, l)
      | Some t \<Rightarrow>
          checked
            [(effective_context (tk_details t) \<noteq> Some c, GoalConflict ''STALE_GOAL''),
             (unstarted \<and> \<not> cx_automatic c, GoalConflict ''STALE_GOAL'')]
          (if unstarted \<and> (tk_status t \<noteq> TQueued \<or> tk_started t \<noteq> None) then Inr (None, l)
           else
             let usage = turn_usage c l;
                 duration = (case tk_started t of
                     None \<Rightarrow> 0
                   | Some a \<Rightarrow> max 0 ((case tk_finished t of None \<Rightarrow> now | Some f \<Rightarrow> f) - a));
                 l1 = abandon_task (cx_task_id c) reason now l
             in case select_goal_id (cx_goal_id c) l1 of
                  None \<Rightarrow> Inr (None, l1)
                | Some g \<Rightarrow>
                    if go_session_id g \<noteq> cx_session_id c \<or> go_epoch g \<noteq> cx_epoch c
                       \<or> go_active_task g \<noteq> Some (cx_task_id c)
                    then Inr (None, l1)
                    else
                      let preserve = (unstarted \<or> go_status g \<in> {GComplete, GBlocked});
                          worked = (tk_started t \<noteq> None \<and> go_objective_revision g = cx_objective_revision c)
                      in and_then (update_goals (owned_by c)
                             (compensated_row c reason preserve worked usage duration now) l1) (\<lambda>l2.
                         Inr (select_goal_id (cx_goal_id c) l2, l2))))"

definition defer_continuation :: "goal_ctx \<Rightarrow> int \<Rightarrow> ledger \<Rightarrow> store_error + goal option \<times> ledger" where
  "defer_continuation c now l = compensate_task c ''owner_disconnected'' True now l"

definition compensate_activation ::
  "goal_ctx \<Rightarrow> string \<Rightarrow> int \<Rightarrow> ledger \<Rightarrow> store_error + goal option \<times> ledger" where
  "compensate_activation c reason now l =
     checked [(reason \<notin> {''activation_failed'', ''feature_disabled'', ''lease_revoked'', ''process_restart''},
               GoalInvalid ''INVALID_GOAL_COMMAND'')]
     (compensate_task c reason False now l)"

definition compensate_persistence :: "goal_ctx \<Rightarrow> int \<Rightarrow> ledger \<Rightarrow> store_error + goal option \<times> ledger" where
  "compensate_persistence c now l = compensate_task c ''persistence_error'' False now l"

section \<open>The system\<close>

definition system_paused_row :: "string \<Rightarrow> int \<Rightarrow> goal \<Rightarrow> goal" where
  "system_paused_row reason now g = (paused_row reason now g)\<lparr>go_terminal_reason := Some reason\<rparr>"

definition pause_for_system ::
  "string \<Rightarrow> string \<Rightarrow> int \<Rightarrow> json \<Rightarrow> int \<Rightarrow> ledger \<Rightarrow> store_error + goal option \<times> ledger" where
  "pause_for_system session_key i revision reason now l =
     (let k = canonical_key session_key in
      and_then (normalize_reason reason) (\<lambda>r.
      case select_goal k l of
        None \<Rightarrow> Inr (None, l)
      | Some g \<Rightarrow>
          if go_id g \<noteq> i \<or> go_state_revision g \<noteq> revision \<or> go_status g \<noteq> GActive then Inr (None, l)
          else and_then (update_goals (fenced k i revision)
                  (system_paused_row (case r of None \<Rightarrow> ''system'' | Some s \<Rightarrow> s) now) l) (\<lambda>l1.
               and_then (selected k l1) (\<lambda>g'. Inr (Some g', l1)))))"

text \<open>\<open>increment_epoch\<close>: a new generation of the session has no Goal.\<close>

definition increment_epoch :: "string \<Rightarrow> ledger \<Rightarrow> store_error + int \<times> ledger" where
  "increment_epoch session_key l =
     (let k = canonical_key session_key;
          l1 = delete_goals (\<lambda>g. go_session_key g = k)
                 (l\<lparr>lg_sessions := update_where (\<lambda>s. se_key s = k)
                     (\<lambda>s. s\<lparr>se_epoch := se_epoch s + 1\<rparr>) (lg_sessions l)\<rparr>)
      in case find (\<lambda>s. se_key s = k) (lg_sessions l1) of
           None \<Rightarrow> Inl (Raised (KeyError k))
         | Some s \<Rightarrow> Inr (se_epoch s, l1))"

text \<open>The Goal part of \<open>finalize_usage_event\<close>: a finalized event of a Goal is added to its totals.\<close>

definition account_usage :: "string \<Rightarrow> tokens \<Rightarrow> int \<Rightarrow> ledger \<Rightarrow> store_error + unit \<times> ledger" where
  "account_usage i usage completed l =
     and_then (update_goals (\<lambda>g. go_id g = i)
        (\<lambda>g. g\<lparr>go_usage := add_tokens (go_usage g) usage, go_updated := max (go_updated g) completed\<rparr>) l) (\<lambda>l1.
     Inr ((), refresh_coverage i l1))"

end
