(* ===== verification/Plan_Runs.thy ===== *)
theory Plan_Runs
  imports Session_Ledger
begin

text \<open>
  Plan revisions and plan runs (\<open>session/storage.py\<close>): a revision is committed against the one that the
  session had, and a run is started, claimed by a task, completed, paused, cancelled or superseded,
  each step against the state revision that the caller saw.

  The transcript entry that \<open>append_plan_revision\<close> stores beside the revision is not modelled. \<open>now\<close> is
  what \<open>_now_ms\<close> returns.
\<close>

section \<open>Tables\<close>

definition select_revision :: "string \<Rightarrow> ledger \<Rightarrow> plan_revision option" where
  "select_revision i l = find (\<lambda>r. pv_id r = i) (lg_revisions l)"

definition select_run :: "string \<Rightarrow> ledger \<Rightarrow> plan_run option" where
  "select_run i l = find (\<lambda>r. pn_id r = i) (lg_runs l)"

definition session_of :: "string \<Rightarrow> ledger \<Rightarrow> session_row option" where
  "session_of k l = find (\<lambda>s. se_key s = k) (lg_sessions l)"

definition is_active :: "plan_run \<Rightarrow> bool" where
  "is_active r \<longleftrightarrow> pn_status r \<in> set run_active"

definition run_checks :: "plan_run \<Rightarrow> bool" where
  "run_checks r \<longleftrightarrow> 0 \<le> pn_epoch r \<and> pn_driver_kind r \<in> {''manual'', ''goal''} \<and> 0 \<le> pn_state_revision r"

text \<open>The primary key, and the unique index on the active run of a session.\<close>

definition runs_unique :: "plan_run list \<Rightarrow> bool" where
  "runs_unique rows \<longleftrightarrow> distinct (map pn_id rows) \<and> distinct (map pn_session_key (filter is_active rows))"

definition put_runs :: "plan_run list \<Rightarrow> ledger \<Rightarrow> store_error + ledger" where
  "put_runs rows l =
     (if list_all run_checks rows \<and> runs_unique rows then Inr (l\<lparr>lg_runs := rows\<rparr>) else Inl IntegrityError)"

definition update_runs :: "(plan_run \<Rightarrow> bool) \<Rightarrow> (plan_run \<Rightarrow> plan_run) \<Rightarrow> ledger \<Rightarrow> store_error + ledger" where
  "update_runs P f l = put_runs (update_where P f (lg_runs l)) l"

text \<open>The first of the newest: \<open>ORDER BY created_at DESC LIMIT 1\<close>.\<close>

definition newest :: "plan_run list \<Rightarrow> plan_run option" where
  "newest rs =
     (case rs of [] \<Rightarrow> None
      | r # rest \<Rightarrow> Some (fold (\<lambda>x best. if pn_created best < pn_created x then x else best) rest r))"

definition active_run_of :: "string \<Rightarrow> ledger \<Rightarrow> plan_run option" where
  "active_run_of k l = newest (filter (\<lambda>r. pn_session_key r = k \<and> is_active r) (lg_runs l))"

definition superseded_row :: "string \<Rightarrow> int \<Rightarrow> plan_run \<Rightarrow> plan_run" where
  "superseded_row reason now r =
     r\<lparr>pn_status := RSuperseded, pn_state_revision := pn_state_revision r + 1, pn_active_task := None,
       pn_terminal_reason := Some reason, pn_updated := now, pn_finished := Some now\<rparr>"

section \<open>Revisions\<close>

text \<open>\<open>_find_idempotent_plan_revision_on_conn\<close>\<close>

definition find_idempotent :: "plan_revision \<Rightarrow> ledger \<Rightarrow> store_error + plan_revision option" where
  "find_idempotent v l =
     (let existing = (case select_revision (pv_id v) l of
          Some e \<Rightarrow> Some e
        | None \<Rightarrow> if pv_message_id v \<in> {None, Some []} then None
                  else find (\<lambda>r. pv_session_id r = pv_session_id v \<and> pv_message_id r = pv_message_id v)
                         (lg_revisions l))
      in case existing of
           None \<Rightarrow> Inr None
         | Some e \<Rightarrow>
             if pv_hash e \<noteq> pv_hash v \<or> pv_parent e \<noteq> pv_parent v \<or> pv_session_key e \<noteq> pv_session_key v
                \<or> pv_session_id e \<noteq> pv_session_id v \<or> pv_epoch e \<noteq> pv_epoch v
             then Inl PlanConflict else Inr (Some e))"

text \<open>The keys of the table: the id, the generation of a plan, the message of a session.\<close>

definition revision_clash :: "plan_revision \<Rightarrow> plan_revision \<Rightarrow> bool" where
  "revision_clash v r \<longleftrightarrow>
     pv_id r = pv_id v \<or> (pv_plan_id r = pv_plan_id v \<and> pv_generation r = pv_generation v)
   \<or> (pv_session_id r = pv_session_id v \<and> pv_message_id v \<noteq> None \<and> pv_message_id r = pv_message_id v)"

text \<open>\<open>updated_at\<close> is the argument of that name, which defaults to the creation of the revision.\<close>

definition create_revision ::
  "plan_revision \<Rightarrow> string option \<Rightarrow> int option \<Rightarrow> ledger \<Rightarrow> store_error + plan_revision \<times> ledger" where
  "create_revision v parent updated_at l =
     and_then (find_idempotent v l) (\<lambda>old.
     case old of
       Some e \<Rightarrow> Inr (e, l)
     | None \<Rightarrow>
         and_then (present (Raised (KeyError (pv_session_key v))) (session_of (pv_session_key v) l)) (\<lambda>s.
         let active = find (\<lambda>r. pn_session_key r = pv_session_key v \<and> is_active r) (lg_runs l);
             now = (case updated_at of None \<Rightarrow> pv_created v | Some t \<Rightarrow> t)
         in checked
           [(se_session_id s \<noteq> pv_session_id v \<or> se_epoch s \<noteq> pv_epoch v, StaleEpoch),
            (se_active_revision s \<noteq> parent, PlanConflict),
            (pv_parent v \<noteq> parent, PlanInvalid),
            ((case active of None \<Rightarrow> False | Some r \<Rightarrow> pn_status r \<in> {RQueued, RRunning}), PlanRunConflict)]
           (and_then
             (case parent of
                None \<Rightarrow> if pv_generation v \<noteq> 1 then Inl PlanInvalid else Inr ()
              | Some p \<Rightarrow>
                  and_then (present PlanConflict (select_revision p l)) (\<lambda>pr.
                  checked
                    [(pv_plan_id v \<noteq> pv_plan_id pr, PlanInvalid),
                     (pv_generation v \<noteq> pv_generation pr + 1, PlanInvalid)]
                    (Inr ()))) (\<lambda>_.
            if list_ex (revision_clash v) (lg_revisions l) then Inl IntegrityError
            else
              let l1 = l\<lparr>lg_revisions := lg_revisions l @ [v],
                         lg_sessions := update_where (\<lambda>s. se_key s = pv_session_key v
                             \<and> se_session_id s = pv_session_id v \<and> se_epoch s = pv_epoch v
                             \<and> se_active_revision s = parent)
                           (\<lambda>s. s\<lparr>se_active_revision := Some (pv_id v),
                                  se_collaboration_revision := se_collaboration_revision s + 1\<rparr>)
                           (lg_sessions l)\<rparr>
              in and_then
                   (case active of
                      None \<Rightarrow> Inr l1
                    | Some r \<Rightarrow> update_runs (\<lambda>x. pn_id x = pn_id r)
                        (superseded_row ''superseded_by_new_revision'' now) l1) (\<lambda>l2.
                 Inr (v, l2))))))"

section \<open>Start\<close>

definition requeued_row :: "string \<Rightarrow> int \<Rightarrow> plan_run \<Rightarrow> plan_run" where
  "requeued_row t now r =
     r\<lparr>pn_status := RQueued, pn_state_revision := pn_state_revision r + 1, pn_active_task := Some t,
       pn_pause_reason := None, pn_terminal_reason := None, pn_updated := now\<rparr>"

definition incoming_task :: "plan_run \<Rightarrow> string" where
  "incoming_task r = py_strip (case pn_active_task r of None \<Rightarrow> [] | Some t \<Rightarrow> t)"

text \<open>\<open>WHERE run_id = ? AND state_revision = ?\<close>\<close>

definition run_fence :: "string \<Rightarrow> int \<Rightarrow> plan_run \<Rightarrow> bool" where
  "run_fence i revision r \<longleftrightarrow> pn_id r = i \<and> pn_state_revision r = revision"

definition selected_run :: "string \<Rightarrow> ledger \<Rightarrow> store_error + plan_run" where
  "selected_run i l = present (Raised (RuntimeError ''AssertionError'')) (select_run i l)"

text \<open>A run id that is there: the same run is returned, or queued again for the incoming task.\<close>

definition resume_run :: "plan_run \<Rightarrow> plan_run \<Rightarrow> int \<Rightarrow> ledger \<Rightarrow> store_error + plan_run \<times> ledger" where
  "resume_run e r now l =
     checked
       [(pn_session_key e \<noteq> pn_session_key r \<or> pn_session_id e \<noteq> pn_session_id r
           \<or> pn_epoch e \<noteq> pn_epoch r \<or> pn_revision_id e \<noteq> pn_revision_id r, PlanRunConflict),
        (pn_driver_kind e \<noteq> pn_driver_kind r \<or> pn_driver_id e \<noteq> pn_driver_id r, PlanRunConflict)]
       (if incoming_task r = [] then Inr (e, l)
        else if pn_status e \<in> {RPaused, RBlocked}
        then checked [(pn_state_revision r \<noteq> pn_state_revision e, PlanRunConflict)]
             (and_then (update_runs (run_fence (pn_id r) (pn_state_revision e))
                 (requeued_row (incoming_task r) now) l) (\<lambda>l1.
              and_then (selected_run (pn_id r) l1) (\<lambda>r'. Inr (r', l1))))
        else if pn_status e = RQueued \<and> pn_active_task e = Some (incoming_task r) then Inr (e, l)
        else Inl PlanRunConflict)"

definition empty_to_none :: "string option \<Rightarrow> string option" where
  "empty_to_none x = (if x = Some [] then None else x)"

text \<open>\<open>states\<close> are the raw step states of the incoming run.\<close>

definition insert_run :: "plan_run \<Rightarrow> json list \<Rightarrow> int \<Rightarrow> ledger \<Rightarrow> store_error + plan_run \<times> ledger" where
  "insert_run r states now l =
     and_then (present (Raised (KeyError (pn_session_key r))) (session_of (pn_session_key r) l)) (\<lambda>s.
     checked
       [(se_session_id s \<noteq> pn_session_id r \<or> se_epoch s \<noteq> pn_epoch r, StaleEpoch),
        (se_active_revision s \<noteq> Some (pn_revision_id r), PlanConflict)]
     (and_then (present PlanConflict (select_revision (pn_revision_id r) l)) (\<lambda>v.
      and_then (prepare_plan_run r states v) (\<lambda>p.
      let active = active_run_of (pn_session_key r) l;
          old = map_option pn_id active;
          last_created = fold max (map pn_created (filter (\<lambda>x. pn_session_key x = pn_session_key r) (lg_runs l))) (-1);
          stamp = max (max (pn_created p) now) (last_created + 1)
      in checked
        [(pn_supersedes p \<noteq> None \<and> pn_supersedes p \<noteq> old, PlanRunConflict),
         ((case active of None \<Rightarrow> False | Some a \<Rightarrow> pn_status a \<in> {RQueued, RRunning}), PlanRunConflict),
         ((case active of None \<Rightarrow> False
           | Some a \<Rightarrow> pn_driver_kind a \<noteq> pn_driver_kind p \<or> empty_to_none (pn_driver_id a) \<noteq> pn_driver_id p),
          PlanRunConflict),
         ((case active of None \<Rightarrow> False | Some a \<Rightarrow> pn_driver_kind a = ''goal''), PlanRunConflict)]
        (let new = p\<lparr>pn_supersedes := old, pn_created := stamp, pn_updated := stamp\<rparr> in
         and_then
           (case old of
              None \<Rightarrow> Inr l
            | Some i \<Rightarrow> update_runs (\<lambda>x. pn_id x = i) (superseded_row ''superseded_by_new_run'' stamp) l) (\<lambda>l1.
         and_then (put_runs (lg_runs l1 @ [new]) l1) (\<lambda>l2. Inr (new, l2))))))))"

definition start_run :: "plan_run \<Rightarrow> json list \<Rightarrow> int \<Rightarrow> ledger \<Rightarrow> store_error + plan_run \<times> ledger" where
  "start_run r0 states now l =
     (let r = r0\<lparr>pn_session_key := canonical_key (pn_session_key r0)\<rparr> in
      case select_run (pn_id r) l of
        Some e \<Rightarrow> resume_run e r now l
      | None \<Rightarrow> insert_run r states now l)"

section \<open>Steps of a run\<close>

definition supersede_active :: "string \<Rightarrow> string \<Rightarrow> int \<Rightarrow> ledger \<Rightarrow> store_error + nat \<times> ledger" where
  "supersede_active session_key reason now l =
     (let k = canonical_key session_key; P = (\<lambda>r. pn_session_key r = k \<and> is_active r) in
      and_then (update_runs P (superseded_row reason now) l) (\<lambda>l1. Inr (rowcount P (lg_runs l), l1)))"

definition load_run :: "string \<Rightarrow> int \<Rightarrow> ledger \<Rightarrow> store_error + plan_run" where
  "load_run i revision l =
     and_then (present (Raised (KeyError i)) (select_run i l)) (\<lambda>r.
     checked
       [(pn_state_revision r \<noteq> revision, PlanRunConflict),
        ((case session_of (pn_session_key r) l of
            None \<Rightarrow> True | Some s \<Rightarrow> se_session_id s \<noteq> pn_session_id r \<or> se_epoch s \<noteq> pn_epoch r),
         PlanRunConflict)]
       (Inr r))"

text \<open>The write that ends every step: the fenced update and the select after it.\<close>

definition write_run ::
  "string \<Rightarrow> int \<Rightarrow> (plan_run \<Rightarrow> plan_run) \<Rightarrow> ledger \<Rightarrow> store_error + plan_run \<times> ledger" where
  "write_run i revision f l =
     and_then (update_runs (run_fence i revision) f l) (\<lambda>l1.
     and_then (selected_run i l1) (\<lambda>r'. Inr (r', l1)))"

definition running_row :: "string \<Rightarrow> int \<Rightarrow> plan_run \<Rightarrow> plan_run" where
  "running_row t now r =
     r\<lparr>pn_status := RRunning, pn_state_revision := pn_state_revision r + 1, pn_active_task := Some t,
       pn_pause_reason := None, pn_terminal_reason := None,
       pn_started := Some (case pn_started r of None \<Rightarrow> now | Some a \<Rightarrow> a), pn_updated := now\<rparr>"

definition mark_running ::
  "string \<Rightarrow> int \<Rightarrow> string \<Rightarrow> int \<Rightarrow> ledger \<Rightarrow> store_error + plan_run \<times> ledger" where
  "mark_running i revision t now l =
     checked [(t = [], PlanInvalid)]
     (and_then (load_run i revision l) (\<lambda>r.
      if (case find (\<lambda>s. se_key s = pn_session_key r \<and> se_session_id s = pn_session_id r
                       \<and> se_epoch s = pn_epoch r) (lg_sessions l) of
            None \<Rightarrow> True | Some s \<Rightarrow> se_active_revision s \<noteq> Some (pn_revision_id r))
      then write_run i revision (superseded_row ''stale_plan_revision'' now) l
      else checked
        [(pn_status r \<notin> {RQueued, RPaused, RBlocked}, PlanRunConflict),
         ((case pn_active_task r of None \<Rightarrow> False | Some a \<Rightarrow> a \<noteq> t), PlanRunConflict)]
        (write_run i revision (running_row t now) l)))"

definition completed_row :: "int \<Rightarrow> plan_run \<Rightarrow> plan_run" where
  "completed_row now r =
     r\<lparr>pn_status := RCompleted, pn_state_revision := pn_state_revision r + 1, pn_active_task := None,
       pn_pause_reason := None, pn_terminal_reason := None, pn_updated := now, pn_finished := Some now\<rparr>"

definition complete_run ::
  "string \<Rightarrow> int \<Rightarrow> string \<Rightarrow> int \<Rightarrow> ledger \<Rightarrow> store_error + plan_run \<times> ledger" where
  "complete_run i revision t now l =
     checked [(t = [], PlanInvalid)]
     (and_then (load_run i revision l) (\<lambda>r.
      checked
        [(pn_status r \<noteq> RRunning, PlanRunConflict), (pn_active_task r \<noteq> Some t, PlanRunConflict)]
        (write_run i revision (completed_row now) l)))"

definition owner_errors :: "string option \<Rightarrow> plan_run \<Rightarrow> (bool \<times> store_error) list" where
  "owner_errors t r =
     [((case t of None \<Rightarrow> False | Some a \<Rightarrow> pn_active_task r \<noteq> Some a), PlanRunConflict)]"

definition paused_run_row :: "string \<Rightarrow> int \<Rightarrow> plan_run \<Rightarrow> plan_run" where
  "paused_run_row reason now r =
     r\<lparr>pn_status := RPaused, pn_state_revision := pn_state_revision r + 1, pn_active_task := None,
       pn_pause_reason := Some reason, pn_updated := now\<rparr>"

definition pause_run ::
  "string \<Rightarrow> int \<Rightarrow> string \<Rightarrow> string option \<Rightarrow> string option \<Rightarrow> string option \<Rightarrow> int \<Rightarrow> ledger
   \<Rightarrow> store_error + plan_run \<times> ledger" where
  "pause_run i revision reason t kind driver now l =
     checked [(py_strip reason = [], PlanInvalid)]
     (and_then (load_run i revision l) (\<lambda>r.
      checked
        ([(pn_status r \<notin> {RQueued, RRunning, RBlocked}, PlanRunConflict)] @ owner_errors t r
         @ [((case kind of None \<Rightarrow> False | Some a \<Rightarrow> pn_driver_kind r \<noteq> a), PlanRunConflict),
            ((case driver of None \<Rightarrow> False | Some a \<Rightarrow> pn_driver_id r \<noteq> Some a), PlanRunConflict)])
        (write_run i revision (paused_run_row (py_strip reason) now) l)))"

definition cancelled_row :: "string \<Rightarrow> int \<Rightarrow> plan_run \<Rightarrow> plan_run" where
  "cancelled_row reason now r =
     r\<lparr>pn_status := RCancelled, pn_state_revision := pn_state_revision r + 1, pn_active_task := None,
       pn_terminal_reason := Some reason, pn_updated := now, pn_finished := Some now\<rparr>"

definition cancel_run ::
  "string \<Rightarrow> int \<Rightarrow> string \<Rightarrow> string option \<Rightarrow> int \<Rightarrow> ledger \<Rightarrow> store_error + plan_run \<times> ledger" where
  "cancel_run i revision reason t now l =
     checked [(py_strip reason = [], PlanInvalid)]
     (and_then (load_run i revision l) (\<lambda>r.
      checked ([(\<not> is_active r, PlanRunConflict)] @ owner_errors t r)
        (write_run i revision (cancelled_row (py_strip reason) now) l)))"

end
