(* ===== verification/Session_Recovery.thy ===== *)
theory Session_Recovery
  imports Goal_Tasks Plan_Runs
begin

text \<open>
  The writes that touch tasks, Goals and plan runs together (\<open>session/storage.py\<close>): the progress of a
  running task with its projections, and the recovery at start-up, which abandons the tasks of the dead
  process, settles and pauses the Goals they owned, and releases their plan runs.

  Of the recovery, the activation permits and the status of the sessions are left out; they touch
  neither table. The columns and keys read from \<open>details\<close> have the types that the program writes.
\<close>

section \<open>Progress\<close>

fun py_int_of :: "json \<Rightarrow> py_exc + int" where
  "py_int_of (JInt i) = Inr i"
| "py_int_of (JBool b) = Inr (if b then 1 else 0)"
| "py_int_of (JFloat r) = Inr (if 0 \<le> r then \<lfloor>r\<rfloor> else \<lceil>r\<rceil>)"
| "py_int_of (JStr s) = (case py_int s of None \<Rightarrow> Inl (ValueError []) | Some i \<Rightarrow> Inr i)"
| "py_int_of _ = Inl (TypeError [])"

definition projected_states :: "progress_step list \<Rightarrow> step_state list" where
  "projected_states steps =
     map (\<lambda>(i, t, st). \<lparr>ss_id = ''progress-'' @ nat_str (i + 1), ss_title = t,
            ss_status = step_status_of st, ss_reason = None\<rparr>) (zip [0..<length steps] steps)"

definition progressed_run :: "progress_step list \<Rightarrow> int \<Rightarrow> plan_run \<Rightarrow> plan_run" where
  "progressed_run steps now r =
     r\<lparr>pn_states := projected_states steps,
       pn_current_step := map_option ss_id (find (\<lambda>s. ss_status s = SInProgress) (projected_states steps)),
       pn_state_revision := pn_state_revision r + 1, pn_updated := now\<rparr>"

definition progressed_goal :: "progress \<Rightarrow> int \<Rightarrow> goal \<Rightarrow> goal" where
  "progressed_goal p now g =
     g\<lparr>go_progress := Some (progress_row p), go_progress_revision := go_progress_revision g + 1,
       go_updated := now\<rparr>"

definition update_progress ::
  "string \<Rightarrow> string \<Rightarrow> string \<Rightarrow> int \<Rightarrow> json \<Rightarrow> json \<Rightarrow> int \<Rightarrow> ledger \<Rightarrow> store_error + obj \<times> ledger" where
  "update_progress t k session_id epoch steps explanation now l =
     and_then (normalize_progress explanation steps) (\<lambda>p.
     checked
       [((case session_of k l of None \<Rightarrow> True | Some s \<Rightarrow> se_session_id s \<noteq> session_id \<or> se_epoch s \<noteq> epoch),
         StaleEpoch)]
     (and_then (present (Raised (ValueError []))
        (find (\<lambda>r. tk_id r = t \<and> tk_session_key r = k) (lg_tasks l))) (\<lambda>row.
      checked [(tk_status row \<noteq> TRunning, Raised (ValueError []))]
      (let metadata = as_obj (jget ''metadata'' (tk_details row)) in
       and_then (map_sum Raised id
           (py_int_of (jget_or ''revision'' (JInt 0) (as_obj (jget ''progress'' metadata))))) (\<lambda>n.
       let value = progress_json p @ [(''revision'', JInt (n + 1))];
           metadata = AList.update ''progress'' (JObj value) metadata;
           d = AList.update ''metadata'' (JObj metadata) (tk_details row);
           l1 = write_details t d now l
       in and_then
            (case nonempty_str (jget ''plan_run_id'' metadata) of
               None \<Rightarrow> Inr l1
             | Some i \<Rightarrow> update_runs (\<lambda>r. pn_id r = i \<and> pn_active_task r = Some t \<and> pn_status r = RRunning)
                 (progressed_run (pr_steps p) now) l1) (\<lambda>l2.
          and_then
            (case effective_context d of
               None \<Rightarrow> Inr l2
             | Some c \<Rightarrow> update_goals (\<lambda>g. go_id g = cx_goal_id c \<and> go_session_key g = k
                 \<and> go_active_task g = Some t) (progressed_goal p now) l2) (\<lambda>l3.
          Inr (value, l3))))))))"

section \<open>Recovery at start-up\<close>

definition unsettled_task :: "task \<Rightarrow> bool" where
  "unsettled_task t \<longleftrightarrow> tk_status t \<in> {TQueued, TRunning}
     \<or> (tk_status t = TAbandoned \<and> tk_terminal_reason t = Some ''process_restart'')"

definition interrupted_details :: "task \<Rightarrow> obj" where
  "interrupted_details t =
     (let d = (case jget ''admission_owner'' (tk_details t) of
          JObj owner \<Rightarrow> AList.update ''admission_owner''
            (JObj (AList.update ''settlement'' (JStr ''settled'')
              (AList.update ''compute_lease''
                (JStr (if jget ''compute_lease'' owner \<in> {JStr ''held'', JStr ''released''}
                          \<or> tk_status t = TRunning then ''released'' else ''not_acquired''))
                (AList.update ''resident_lease'' (JStr ''released'') owner)))) (tk_details t)
        | _ \<Rightarrow> tk_details t)
      in AList.update ''turn_outcome''
           (JObj [(''kind'', JStr ''interrupted''), (''reason'', JStr ''process_restart''),
                  (''error_class'', JStr ''process_restart''), (''retryable'', JBool True)]) d)"

definition restarted_task :: "int \<Rightarrow> task \<Rightarrow> task" where
  "restarted_task now t =
     (if \<not> unsettled_task t then t
      else (if tk_status t \<in> {TQueued, TRunning} then abandoned_task ''process_restart'' now t else t)
           \<lparr>tk_details := interrupted_details t\<rparr>)"

text \<open>The owners of Goals, joined before the tasks are rewritten. An owner whose frozen context does not
  match the Goal is not accounted.\<close>

definition goal_owners :: "ledger \<Rightarrow> (goal \<times> task) list" where
  "goal_owners l =
     concat (map (\<lambda>g. map (Pair g) (filter (\<lambda>t. go_active_task g = Some (tk_id t)) (lg_tasks l))) (lg_goals l))"

definition accounted :: "goal \<times> task \<Rightarrow> goal_ctx option" where
  "accounted o1 =
     (let (g, t) = o1 in
      case effective_context (tk_details t) of
        None \<Rightarrow> None
      | Some c \<Rightarrow>
          if Some (cx_task_id c) \<noteq> go_active_task g \<or> cx_goal_id c \<noteq> go_id g
             \<or> cx_session_id c \<noteq> go_session_id g \<or> cx_epoch c \<noteq> go_epoch g
             \<or> tk_session_key t \<noteq> go_session_key g
          then None else Some c)"

definition downtime_free_duration :: "task \<Rightarrow> int" where
  "downtime_free_duration t =
     (case tk_started t of
        None \<Rightarrow> 0
      | Some a \<Rightarrow> max 0 ((case tk_finished t of None \<Rightarrow> tk_updated t | Some f \<Rightarrow> f) - a))"

definition restart_settled_row :: "string \<Rightarrow> tokens \<Rightarrow> int \<Rightarrow> bool \<Rightarrow> int \<Rightarrow> goal \<Rightarrow> goal" where
  "restart_settled_row reason usage duration worked now g =
     g\<lparr>go_status := (if go_status g = GActive then GPaused else go_status g),
       go_state_revision := go_state_revision g + 1, go_active_task := None,
       go_turns_settled := go_turns_settled g + 1, go_active_ms := go_active_ms g + duration,
       go_window_ms := go_window_ms g + duration, go_usage := add_tokens (go_usage g) usage,
       go_pause_reason := (if go_status g = GActive then Some reason else go_pause_reason g),
       go_terminal_reason := (if go_status g = GActive then Some reason else go_terminal_reason g),
       go_blocked_reason := (if go_status g \<in> {GActive, GPaused} \<and> worked then None else go_blocked_reason g),
       go_updated := now\<rparr>"

definition settle_owner :: "string \<Rightarrow> int \<Rightarrow> goal \<times> task \<Rightarrow> ledger \<Rightarrow> store_error + ledger" where
  "settle_owner reason now o1 l =
     (case accounted o1 of
        None \<Rightarrow> Inr l
      | Some c \<Rightarrow> update_goals (owned_by c)
          (restart_settled_row reason (turn_usage c l) (downtime_free_duration (snd o1))
             (tk_started (snd o1) \<noteq> None) now) l)"

fun settle_owners :: "string \<Rightarrow> int \<Rightarrow> (goal \<times> task) list \<Rightarrow> ledger \<Rightarrow> store_error + ledger" where
  "settle_owners reason now [] l = Inr l"
| "settle_owners reason now (p # ps) l = and_then (settle_owner reason now p l) (settle_owners reason now ps)"

definition released_row :: "string \<Rightarrow> int \<Rightarrow> goal \<Rightarrow> goal" where
  "released_row reason now g =
     g\<lparr>go_status := (if go_status g = GActive then GPaused else go_status g),
       go_state_revision := go_state_revision g + 1, go_active_task := None,
       go_pause_reason := (if go_status g = GActive then Some reason else go_pause_reason g),
       go_terminal_reason := (if go_status g = GActive then Some reason else go_terminal_reason g),
       go_updated := now\<rparr>"

text \<open>Plan runs: first those whose owner was abandoned by a restart, then every other queued or running
  run by the state of its owner. Each update names its run by its key, so the loop is a map.\<close>

definition run_released :: "ledger \<Rightarrow> plan_run \<Rightarrow> bool" where
  "run_released l r \<longleftrightarrow> pn_status r \<in> {RQueued, RRunning}
     \<and> (case pn_active_task r of None \<Rightarrow> False
        | Some t \<Rightarrow> list_ex (\<lambda>k. tk_id k = t \<and> tk_status k = TAbandoned
             \<and> tk_terminal_reason k = Some ''process_restart'') (lg_tasks l))"

definition paused_for :: "string \<Rightarrow> int \<Rightarrow> plan_run \<Rightarrow> plan_run" where
  "paused_for reason now r =
     r\<lparr>pn_status := RPaused, pn_state_revision := pn_state_revision r + 1, pn_active_task := None,
       pn_pause_reason := Some reason, pn_terminal_reason := Some reason, pn_updated := now,
       pn_finished := None\<rparr>"

fun task_status_str :: "task_status \<Rightarrow> string" where
  "task_status_str TQueued = ''queued''"
| "task_status_str TRunning = ''running''"
| "task_status_str TSucceeded = ''succeeded''"
| "task_status_str TFailed = ''failed''"
| "task_status_str TCancelled = ''cancelled''"
| "task_status_str TTimeout = ''timeout''"
| "task_status_str TAbandoned = ''abandoned''"

definition reconcile_run :: "ledger \<Rightarrow> int \<Rightarrow> plan_run \<Rightarrow> plan_run" where
  "reconcile_run l now r =
     (if pn_status r \<notin> {RQueued, RRunning} then r
      else case (case pn_active_task r of None \<Rightarrow> None | Some t \<Rightarrow> select_task t l) of
        None \<Rightarrow> paused_for ''orphaned_plan_run_owner'' now r
      | Some t \<Rightarrow>
          if tk_status t \<in> {TQueued, TRunning} then r
          else if pn_status r = RQueued
          then (cancelled_row ''implementation_turn_ended_before_start'' now r)\<lparr>pn_pause_reason := None\<rparr>
          else if tk_status t = TSucceeded then completed_row now r
          else (paused_run_row ((if pn_driver_kind r = [] then ''manual'' else pn_driver_kind r)
                  @ ''_turn_'' @ task_status_str (tk_status t)) now r)\<lparr>pn_finished := None\<rparr>)"

definition restart :: "string \<Rightarrow> int \<Rightarrow> ledger \<Rightarrow> store_error + nat \<times> ledger" where
  "restart reason now l =
     checked [(reason \<notin> {''process_restart'', ''feature_disabled''}, Raised (ValueError []))]
     (let owned = goal_owners l;
          count = rowcount (\<lambda>t. tk_status t \<in> {TQueued, TRunning}) (lg_tasks l);
          l1 = l\<lparr>lg_tasks := map (restarted_task now) (lg_tasks l)\<rparr>
      in and_then (settle_owners reason now owned l1) (\<lambda>l2.
         and_then (update_goals (\<lambda>g. go_status g = GActive \<or> go_active_task g \<noteq> None)
             (released_row reason now) l2) (\<lambda>l3.
         and_then (update_runs (run_released l3) (paused_for ''process_restart'' now) l3) (\<lambda>l4.
         and_then (put_runs (map (reconcile_run l4 now) (lg_runs l4)) l4) (\<lambda>l5.
         Inr (count, l5))))))"

end
