(* ===== verification/Session_Machine.thy ===== *)
theory Session_Machine
  imports Session_Recovery
begin

text \<open>
  The session ledger as one machine: every transition of Goals and plans, and what the rest of the
  program may do to the tasks, sessions and usage events between them (anything). The invariants of the
  rows, and the proof that every transition keeps them.
\<close>

section \<open>Operations\<close>

text \<open>The two operations that create a Goal do so with what \<open>new_goal\<close> returns for their arguments, as
  their callers do.\<close>

datatype op =
    OEdit string expected_goal string command "string option" "string option" bool bool int
  | OPause string expected_goal command json int
  | OResume string expected_goal command int
  | OClear string expected_goal command
  | OClaimUpdate goal_update int
  | OApplyUpdate goal_update int string int
  | OCreate string string string int json string int
  | OStart string string string int json string int task
  | OContinue "string \<Rightarrow> string" "store_error option" expected_goal int task int int int
  | OClaim candidate string string int
  | OCommit goal_ctx goal_status json int
  | OSettle goal_ctx int int bool bool bool int
  | ODefer goal_ctx int
  | OActivationFailed goal_ctx string int
  | OPersistenceFailed goal_ctx int
  | OSystemPause string string int json int
  | OEpoch string
  | OUsage string tokens int
  | OProgress string string string int json json int
  | ORestart string int
  | ORevise plan_revision "string option" "int option"
  | OStartRun plan_run "json list" int
  | OSupersede string string int
  | OMarkRunning string int string int
  | OCompleteRun string int string int
  | OPauseRun string int string "string option" "string option" "string option" int
  | OCancelRun string int string "string option" int
  | OTasks "task list"
  | OSessions "session_row list"
  | OEvents "usage_event list"

definition drop_value :: "'e + 'a \<times> ledger \<Rightarrow> 'e + ledger" where
  "drop_value = map_sum id snd"

text \<open>\<open>ON DELETE CASCADE\<close>: a Goal or receipt whose session is deleted goes with it.\<close>

definition put_sessions :: "session_row list \<Rightarrow> ledger \<Rightarrow> ledger" where
  "put_sessions ss l =
     l\<lparr>lg_sessions := ss,
       lg_goals := delete_where (\<lambda>g. go_session_key g \<notin> set (map se_key ss)) (lg_goals l),
       lg_receipts := delete_where (\<lambda>r. rc_session_key r \<notin> set (map se_key ss)) (lg_receipts l)\<rparr>"

fun execute :: "op \<Rightarrow> ledger \<Rightarrow> store_error + ledger" where
  "execute (OEdit k x obj c a b r p now) l = drop_value (edit_goal k x obj c a b r p now l)"
| "execute (OPause k x c reason now) l = drop_value (pause_goal k x c reason now l)"
| "execute (OResume k x c now) l = drop_value (resume_goal k x c now l)"
| "execute (OClear k x c) l = drop_value (clear_goal k x c l)"
| "execute (OClaimUpdate u now) l = drop_value (claim_update u now l)"
| "execute (OApplyUpdate u i call now) l = drop_value (apply_update u i call now l)"
| "execute (OCreate i k sid epoch obj t now) l =
     and_then (new_goal i k sid epoch obj (Some t) None now) (\<lambda>g. drop_value (create_for_task g t l))"
| "execute (OStart i k sid epoch obj message now row) l =
     and_then (new_goal i k sid epoch obj (Some (tk_id row)) (Some message) now) (\<lambda>g.
     drop_value (start_goal g row k message l))"
| "execute (OContinue h guard x n row m b now) l = drop_value (accept_continuation h guard x n row m b now l)"
| "execute (OClaim cand t mode now) l = drop_value (claim_queued cand t mode now l)"
| "execute (OCommit c st reason now) l = drop_value (commit_terminal c st reason now l)"
| "execute (OSettle c m b u s r now) l = drop_value (settle_task c m b u s r now l)"
| "execute (ODefer c now) l = drop_value (defer_continuation c now l)"
| "execute (OActivationFailed c reason now) l = drop_value (compensate_activation c reason now l)"
| "execute (OPersistenceFailed c now) l = drop_value (compensate_persistence c now l)"
| "execute (OSystemPause k i r reason now) l = drop_value (pause_for_system k i r reason now l)"
| "execute (OEpoch k) l = drop_value (increment_epoch k l)"
| "execute (OUsage i u now) l = drop_value (account_usage i u now l)"
| "execute (OProgress t k sid epoch steps ex now) l = drop_value (update_progress t k sid epoch steps ex now l)"
| "execute (ORestart reason now) l = drop_value (restart reason now l)"
| "execute (ORevise v p when) l = drop_value (create_revision v p when l)"
| "execute (OStartRun r states now) l = drop_value (start_run r states now l)"
| "execute (OSupersede k reason now) l = drop_value (supersede_active k reason now l)"
| "execute (OMarkRunning i n t now) l = drop_value (mark_running i n t now l)"
| "execute (OCompleteRun i n t now) l = drop_value (complete_run i n t now l)"
| "execute (OPauseRun i n reason t kind d now) l = drop_value (pause_run i n reason t kind d now l)"
| "execute (OCancelRun i n reason t now) l = drop_value (cancel_run i n reason t now l)"
| "execute (OTasks ts) l = Inr (l\<lparr>lg_tasks := ts\<rparr>)"
| "execute (OSessions ss) l = Inr (put_sessions ss l)"
| "execute (OEvents es) l = Inr (l\<lparr>lg_events := es\<rparr>)"

text \<open>A transaction that raises is rolled back.\<close>

definition ledger_step :: "op \<Rightarrow> ledger \<Rightarrow> ledger" where
  "ledger_step a l = (case execute a l of Inl _ \<Rightarrow> l | Inr l' \<Rightarrow> l')"

definition empty_ledger :: ledger where
  "empty_ledger = \<lparr>lg_goals = [], lg_tasks = [], lg_sessions = [], lg_receipts = [], lg_events = [],
     lg_revisions = [], lg_runs = []\<rparr>"

section \<open>The invariant\<close>

definition owner_count :: "goal \<Rightarrow> int" where
  "owner_count g = (if go_active_task g = None then 0 else 1)"

definition goal_ok :: "goal \<Rightarrow> bool" where
  "goal_ok g \<longleftrightarrow>
     goal_checks g
   \<and> go_turns_settled g + owner_count g \<le> go_turns_started g
   \<and> go_window_turns g \<le> go_turns_started g
   \<and> go_seq g \<le> go_turns_started g
   \<and> (go_pause_reason g \<noteq> None \<longleftrightarrow> go_status g \<in> {GPaused, GUsageLimited})
   \<and> (go_finished g \<noteq> None \<longleftrightarrow> go_status g = GComplete)
   \<and> (go_terminal_task g \<noteq> None \<longrightarrow> go_status g \<in> {GComplete, GBlocked, GPaused})"

definition run_ok :: "plan_run \<Rightarrow> bool" where
  "run_ok r \<longleftrightarrow>
     run_checks r
   \<and> (is_active r \<longleftrightarrow> pn_finished r = None)
   \<and> (\<not> is_active r \<longrightarrow> pn_active_task r = None)
   \<and> (pn_status r = RRunning \<longrightarrow> pn_active_task r \<noteq> None \<and> pn_started r \<noteq> None)
   \<and> (pn_status r = RPaused \<longrightarrow> pn_pause_reason r \<noteq> None)
   \<and> (pn_status r \<in> {RQueued, RRunning} \<longrightarrow> pn_pause_reason r = None)"

definition ledger_ok :: "ledger \<Rightarrow> bool" where
  "ledger_ok l \<longleftrightarrow>
     list_all goal_ok (lg_goals l) \<and> goals_unique (lg_goals l)
   \<and> list_all run_ok (lg_runs l) \<and> runs_unique (lg_runs l)"

lemma drop_value_Inr [simp]: "drop_value r = Inr l \<longleftrightarrow> (\<exists>v. r = Inr (v, l))"
  by (auto simp: drop_value_def)

lemma set_update_where: "set (update_where P f rows) = {f r | r. r \<in> set rows \<and> P r} \<union> {r \<in> set rows. \<not> P r}"
  by (auto simp: update_where_def)

lemma put_goals_Inr:
  "put_goals rows l = Inr l' \<longleftrightarrow>
     list_all goal_checks rows \<and> goals_unique rows \<and> l' = l\<lparr>lg_goals := rows\<rparr>"
  by (auto simp: put_goals_def)

lemma put_runs_Inr:
  "put_runs rows l = Inr l' \<longleftrightarrow>
     list_all run_checks rows \<and> runs_unique rows \<and> l' = l\<lparr>lg_runs := rows\<rparr>"
  by (auto simp: put_runs_def)

text \<open>The parts of the ledger that the invariant reads.\<close>

lemma ledger_ok_cong: "lg_goals l' = lg_goals l \<Longrightarrow> lg_runs l' = lg_runs l \<Longrightarrow> ledger_ok l' = ledger_ok l"
  by (simp add: ledger_ok_def)

lemma ok_updates [simp]:
  "ledger_ok (l\<lparr>lg_tasks := ts\<rparr>) = ledger_ok l" "ledger_ok (l\<lparr>lg_sessions := ss\<rparr>) = ledger_ok l"
  "ledger_ok (l\<lparr>lg_events := es\<rparr>) = ledger_ok l" "ledger_ok (l\<lparr>lg_receipts := rs\<rparr>) = ledger_ok l"
  "ledger_ok (l\<lparr>lg_revisions := vs\<rparr>) = ledger_ok l"
  by (simp_all add: ledger_ok_def)

lemma ok_tasks [simp]:
  "ledger_ok (update_task i f l) = ledger_ok l" "ledger_ok (write_details i d now l) = ledger_ok l"
  "ledger_ok (abandon_task i reason now l) = ledger_ok l"
  by (simp_all add: update_task_def write_details_def abandon_task_def)

lemma update_goals_ok:
  assumes "update_goals P f l = Inr l'" and "ledger_ok l"
    and "\<And>g. g \<in> set (lg_goals l) \<Longrightarrow> P g \<Longrightarrow> goal_ok g \<Longrightarrow> goal_checks (f g) \<Longrightarrow> goal_ok (f g)"
  shows "ledger_ok l'"
  using assms by (auto simp: update_goals_def put_goals_Inr ledger_ok_def list_all_iff set_update_where)

lemma update_runs_ok:
  assumes "update_runs P f l = Inr l'" and "ledger_ok l"
    and "\<And>r. r \<in> set (lg_runs l) \<Longrightarrow> P r \<Longrightarrow> run_ok r \<Longrightarrow> run_checks (f r) \<Longrightarrow> run_ok (f r)"
  shows "ledger_ok l'"
  using assms by (auto simp: update_runs_def put_runs_Inr ledger_ok_def list_all_iff set_update_where)

lemma owners_Cons: "owners (g # rows) =
   (case go_active_task g of None \<Rightarrow> owners rows | Some t \<Rightarrow> t # owners rows)"
  by (simp add: owners_def split: option.splits)

lemma owners_filter: "distinct (owners rows) \<Longrightarrow>
   distinct (owners (filter Q rows)) \<and> set (owners (filter Q rows)) \<subseteq> set (owners rows)"
proof (induction rows)
  case Nil
  show ?case by (simp add: owners_def)
next
  case (Cons g rows)
  then show ?case by (cases "go_active_task g"; cases "Q g") (auto simp: owners_Cons)
qed

lemma delete_goals_ok: "ledger_ok l \<Longrightarrow> ledger_ok (delete_goals P l)"
  using owners_filter [of "lg_goals l" "\<lambda>g. \<not> P g"]
  by (simp add: ledger_ok_def delete_goals_def goals_unique_def delete_where_def list_all_iff
      distinct_map_filter)

lemma put_sessions_ok: "ledger_ok l \<Longrightarrow> ledger_ok (put_sessions ss l)"
  using delete_goals_ok [of l "\<lambda>g. go_session_key g \<notin> set (map se_key ss)"]
  by (simp add: ledger_ok_def delete_goals_def put_sessions_def)

lemma map_goals_ok:
  assumes "\<And>g. goal_ok (f g) = goal_ok g" "\<And>g. go_session_key (f g) = go_session_key g"
    "\<And>g. go_id (f g) = go_id g" "\<And>g. go_active_task (f g) = go_active_task g"
  shows "ledger_ok (l\<lparr>lg_goals := map f (lg_goals l)\<rparr>) = ledger_ok l"
proof -
  have "owners (map f rows) = owners rows" for rows
    by (induction rows) (simp_all add: owners_def assms)
  moreover have "map go_session_key (map f rows) = map go_session_key rows"
    "map go_id (map f rows) = map go_id rows" "list_all goal_ok (map f rows) = list_all goal_ok rows" for rows
    by (simp_all add: assms list.pred_map comp_def)
  ultimately show ?thesis by (simp add: ledger_ok_def goals_unique_def del: map_map)
qed

lemma refresh_ok [simp]: "ledger_ok (refresh_coverage i l) = ledger_ok l"
  unfolding refresh_coverage_def update_where_def
  by (rule map_goals_ok) (simp_all add: goal_ok_def goal_checks_def owner_count_def)

end
