(* ===== verification/Session_Invariants.thy ===== *)
theory Session_Invariants
  imports Session_Machine
begin

text \<open>
  Every transition of the session ledger keeps the invariant: first the rewrites of single rows, then
  the transactions, then the machine as an interpretation of the shared locale.
\<close>

section \<open>Rows of Goals\<close>

named_theorems goal_rows \<open>rewrites of a Goal row that keep its invariant\<close>

lemmas goal_ok_defs = goal_ok_def owner_count_def

lemma paused_row_ok [goal_rows]: "goal_ok g \<Longrightarrow> goal_checks (paused_row reason now g) \<Longrightarrow> goal_ok (paused_row reason now g)"
  by (simp add: goal_ok_defs paused_row_def)

lemma system_paused_row_ok [goal_rows]:
  "goal_ok g \<Longrightarrow> goal_checks (system_paused_row reason now g) \<Longrightarrow> goal_ok (system_paused_row reason now g)"
  by (simp add: goal_ok_defs system_paused_row_def paused_row_def)

lemma resumed_row_ok [goal_rows]: "goal_ok g \<Longrightarrow> goal_checks (resumed_row now g) \<Longrightarrow> goal_ok (resumed_row now g)"
  by (auto simp: goal_ok_defs resumed_row_def goal_checks_def)

lemma edited_row_ok [goal_rows]: "goal_ok g \<Longrightarrow> goal_checks (edited_row obj now g) \<Longrightarrow> goal_ok (edited_row obj now g)"
  by (cases "go_status g") (auto simp: goal_ok_defs edited_row_def goal_checks_def Let_def)

lemma edit_resumed_row_ok [goal_rows]: "goal_ok g \<Longrightarrow> goal_checks (edit_resumed_row g) \<Longrightarrow> goal_ok (edit_resumed_row g)"
  by (auto simp: goal_ok_defs edit_resumed_row_def goal_checks_def)

lemma edit_paused_row_ok [goal_rows]: "goal_ok g \<Longrightarrow> goal_checks (edit_paused_row g) \<Longrightarrow> goal_ok (edit_paused_row g)"
  by (simp add: goal_ok_defs edit_paused_row_def)

lemma bound_row_ok [goal_rows]:
  "goal_ok g \<Longrightarrow> goal_checks (bound_row t n g) \<Longrightarrow> n = 1 - owner_count g \<Longrightarrow> goal_ok (bound_row t n g)"
  by (auto simp: goal_ok_defs bound_row_def split: if_splits)

lemma guardrail_row_ok [goal_rows]:
  "goal_ok g \<Longrightarrow> goal_checks (guardrail_row reason now g) \<Longrightarrow> go_status g = GActive \<Longrightarrow> goal_ok (guardrail_row reason now g)"
  by (simp add: goal_ok_defs guardrail_row_def)

lemma continued_row_ok [goal_rows]:
  "goal_ok g \<Longrightarrow> goal_checks (continued_row t (go_seq g + 1) now g) \<Longrightarrow> go_active_task g = None \<Longrightarrow>
     goal_ok (continued_row t (go_seq g + 1) now g)"
  by (simp add: goal_ok_defs continued_row_def)

lemma claimed_row_ok [goal_rows]:
  "goal_ok g \<Longrightarrow> goal_checks (claimed_row t now g) \<Longrightarrow> go_active_task g = None \<Longrightarrow> goal_ok (claimed_row t now g)"
  by (simp add: goal_ok_defs claimed_row_def)

lemma terminal_row_ok [goal_rows]:
  "goal_ok g \<Longrightarrow> goal_checks (terminal_row st t reason now g) \<Longrightarrow> st \<in> {GComplete, GBlocked, GPaused} \<Longrightarrow>
     goal_ok (terminal_row st t reason now g)"
  by (auto simp: goal_ok_defs terminal_row_def)

lemma progressed_goal_ok [goal_rows]:
  "goal_ok g \<Longrightarrow> goal_checks (progressed_goal p now g) \<Longrightarrow> goal_ok (progressed_goal p now g)"
  by (simp add: goal_ok_defs progressed_goal_def)

lemma restart_settled_row_ok [goal_rows]:
  "goal_ok g \<Longrightarrow> goal_checks (restart_settled_row reason u d w now g) \<Longrightarrow> go_active_task g \<noteq> None \<Longrightarrow>
     goal_ok (restart_settled_row reason u d w now g)"
  by (auto simp: goal_ok_defs restart_settled_row_def)

lemma released_row_ok [goal_rows]:
  "goal_ok g \<Longrightarrow> goal_checks (released_row reason now g) \<Longrightarrow> goal_ok (released_row reason now g)"
  by (auto simp: goal_ok_defs released_row_def split: if_splits)

lemma compensated_row_ok [goal_rows]:
  "goal_ok g \<Longrightarrow> goal_checks (compensated_row c reason p w u d now g) \<Longrightarrow> go_active_task g \<noteq> None \<Longrightarrow>
     p \<or> go_status g \<noteq> GComplete \<Longrightarrow> goal_ok (compensated_row c reason p w u d now g)"
  by (auto simp: goal_ok_defs compensated_row_def)

text \<open>What a settlement decides from a Goal that satisfies the invariant.\<close>

definition decided_ok :: "goal \<Rightarrow> goal \<Rightarrow> bool" where
  "decided_ok g d \<longleftrightarrow>
     (go_pause_reason d \<noteq> None \<longleftrightarrow> go_status d \<in> {GPaused, GUsageLimited})
   \<and> (go_finished d \<noteq> None \<longleftrightarrow> go_status d = GComplete)
   \<and> (go_status g \<in> {GComplete, GBlocked} \<longrightarrow> go_status d = go_status g)"

text \<open>The end of a task leaves an active Goal as it is, pauses it, limits it or blocks it.\<close>

lemma pause_row_for_simps [simp]:
  "go_status (pause_row_for reason g) = GPaused" "go_pause_reason (pause_row_for reason g) = Some reason"
  "go_finished (pause_row_for reason g) = go_finished g"
  by (simp_all add: pause_row_for_def)

definition end_ok :: "goal \<Rightarrow> goal \<Rightarrow> bool" where
  "end_ok g d \<longleftrightarrow>
     (go_status d = go_status g \<and> go_pause_reason d = go_pause_reason g \<and> go_finished d = go_finished g)
   \<or> (go_status d = GActive \<and> go_pause_reason d = None \<and> go_finished d = go_finished g)
   \<or> (go_status d \<in> {GPaused, GUsageLimited} \<and> go_pause_reason d \<noteq> None \<and> go_finished d \<in> {None, go_finished g})
   \<or> (go_status d = GBlocked \<and> go_pause_reason d = None \<and> go_finished d = None)"

lemma end_ok_intros:
  "end_ok g g" "end_ok g (pause_row_for reason g)"
  "end_ok g ((pause_row_for reason g)\<lparr>go_blocked_reason := x\<rparr>)"
  "end_ok g ((pause_row_for reason g)\<lparr>go_blocked_reason := x, go_finished := None\<rparr>)"
  "end_ok g (g\<lparr>go_status := GActive, go_pause_reason := None\<rparr>)"
  "end_ok g (g\<lparr>go_status := GUsageLimited, go_pause_reason := Some y, go_blocked_reason := x,
      go_terminal_reason := z, go_finished := None\<rparr>)"
  "end_ok g (g\<lparr>go_status := GBlocked, go_pause_reason := None, go_blocked_reason := x,
      go_terminal_reason := z, go_finished := None\<rparr>)"
  by (simp_all add: end_ok_def)

lemma classify_active_cases: "classify_active t same u s r m b w g = Inr d \<Longrightarrow> end_ok g d"
  unfolding classify_active_def
  by (cases "tk_status t") (force split: if_split_asm intro: end_ok_intros)+

lemma classify_end_ok:
  assumes "classify_end t same u s r m b w g = Inr d" and "goal_ok g"
  shows "decided_ok g d"
proof -
  let ?g = "if same \<and> tk_started t \<noteq> None \<and> go_status g \<in> {GActive, GPaused}
     then g\<lparr>go_blocked_reason := None\<rparr> else g"
  have same: "go_status ?g = go_status g" "go_pause_reason ?g = go_pause_reason g" "go_finished ?g = go_finished g"
    by simp_all
  show ?thesis
  proof (cases "go_status g = GActive")
    case True
    then have "classify_active t same u s r m b w ?g = Inr d"
      using assms(1) unfolding classify_end_def Let_def same by simp
    from classify_active_cases [OF this] show ?thesis
      using True assms(2) unfolding decided_ok_def goal_ok_def end_ok_def same by auto
  next
    case False
    then have "d = ?g" using assms(1) unfolding classify_end_def Let_def same by simp
    then show ?thesis using assms(2) unfolding decided_ok_def goal_ok_def same by simp
  qed
qed

lemma settled_row_ok [goal_rows]:
  assumes "goal_ok g" "goal_checks (settled_row c u d now dec g)" "go_active_task g \<noteq> None" "decided_ok g dec"
  shows "goal_ok (settled_row c u d now dec g)"
  using assms by (auto simp: goal_ok_defs settled_row_def decided_ok_def)

lemma new_goal_ok: "new_goal i k sid epoch obj t m now = Inr g \<Longrightarrow> goal_checks g \<Longrightarrow> goal_ok g"
  unfolding new_goal_def Let_def
  by (simp split: sum.split_asm if_split_asm option.split_asm; (elim conjE)?;
    clarsimp simp: goal_ok_def owner_count_def)

section \<open>Rows of runs\<close>

named_theorems run_rows \<open>rewrites of a run row that keep its invariant\<close>

lemmas run_ok_defs = run_ok_def is_active_def run_active_def run_checks_def

lemma superseded_row_ok [run_rows]: "run_ok r \<Longrightarrow> run_ok (superseded_row reason now r)"
  by (auto simp: run_ok_defs superseded_row_def)

lemma requeued_row_ok [run_rows]: "run_ok r \<Longrightarrow> is_active r \<Longrightarrow> run_ok (requeued_row t now r)"
  by (auto simp: run_ok_defs requeued_row_def)

lemma running_row_ok [run_rows]: "run_ok r \<Longrightarrow> is_active r \<Longrightarrow> run_ok (running_row t now r)"
  by (auto simp: run_ok_defs running_row_def)

lemma completed_row_ok [run_rows]: "run_ok r \<Longrightarrow> run_ok (completed_row now r)"
  by (auto simp: run_ok_defs completed_row_def)

lemma paused_run_row_ok [run_rows]: "run_ok r \<Longrightarrow> is_active r \<Longrightarrow> run_ok (paused_run_row reason now r)"
  by (auto simp: run_ok_defs paused_run_row_def)

lemma cancelled_row_ok [run_rows]: "run_ok r \<Longrightarrow> run_ok (cancelled_row reason now r)"
  by (auto simp: run_ok_defs cancelled_row_def)

lemma progressed_run_ok [run_rows]: "run_ok r \<Longrightarrow> run_ok (progressed_run steps now r)"
  by (simp add: run_ok_def run_checks_def is_active_def progressed_run_def)

lemma paused_for_ok [run_rows]: "run_ok r \<Longrightarrow> run_ok (paused_for reason now r)"
  by (auto simp: run_ok_defs paused_for_def)

lemma reconcile_run_ok [run_rows]: "run_ok r \<Longrightarrow> run_ok (reconcile_run l now r)"
proof -
  assume r: "run_ok r"
  have 1: "run_ok (x\<lparr>pn_finished := None\<rparr>)" if "run_ok x" "is_active x" for x
  proof -
    have "x\<lparr>pn_finished := None\<rparr> = x" using that by (simp add: run_ok_def)
    then show ?thesis using that by simp
  qed
  have 2: "run_ok (x\<lparr>pn_pause_reason := None\<rparr>)" if "run_ok x" "\<not> is_active x" for x
  proof -
    have "pn_status x \<noteq> RPaused" using that by (auto simp: is_active_def run_active_def)
    then show ?thesis using that by (simp add: run_ok_def is_active_def run_checks_def)
  qed
  moreover have "is_active (paused_run_row reason now r)" "\<not> is_active (cancelled_row reason now r)" for reason
    by (simp_all add: is_active_def run_active_def paused_run_row_def cancelled_row_def)
  moreover have "is_active r" if "pn_status r \<in> {RQueued, RRunning}"
    using that by (auto simp: is_active_def run_active_def)
  ultimately show ?thesis using r
    by (auto simp: reconcile_run_def intro!: run_rows 1 split: option.splits)
qed

lemma prepare_run_fields:
  assumes "prepare_plan_run r states v = Inr p"
  shows "pn_status p = RQueued \<and> pn_finished p = None \<and> pn_pause_reason p = None \<and> pn_id p = pn_id r"
proof -
  obtain rows t where "p = r\<lparr>pn_states := rows, pn_current_step := None, pn_active_task := t, pn_started := None,
      pn_finished := None, pn_pause_reason := None, pn_terminal_reason := None\<rparr>"
    using assms unfolding prepare_plan_run_def checked_Inr
    by (elim conjE) (simp split: sum.split_asm if_split_asm, metis+)
  moreover have "pn_status r = RQueued" using assms by (simp add: prepare_plan_run_def checked_Inr)
  ultimately show ?thesis by simp
qed

lemma prepared_run_ok:
  "prepare_plan_run r states v = Inr p \<Longrightarrow> run_checks x \<Longrightarrow> pn_status x = pn_status p \<Longrightarrow>
     pn_finished x = pn_finished p \<Longrightarrow> pn_pause_reason x = pn_pause_reason p \<Longrightarrow> run_ok x"
  by (drule prepare_run_fields) (simp add: run_ok_def is_active_def run_active_def)

section \<open>Transactions on Goals\<close>

lemma insert_receipt_ok: "insert_receipt c sid e response l = Inr l' \<Longrightarrow> ledger_ok l' = ledger_ok l"
  by (auto simp: insert_receipt_def split: if_splits)

lemma answer_ok: "answer c g l = Inr (r, l') \<Longrightarrow> ledger_ok l' = ledger_ok l"
  by (auto simp: answer_def Let_def dest: insert_receipt_ok)

lemma insert_task_ok: "insert_task t l = Inr l' \<Longrightarrow> ledger_ok l' = ledger_ok l"
  by (auto simp: insert_task_def split: if_splits)

lemma insert_goal_ok: "insert_goal g l = Inr l' \<Longrightarrow> ledger_ok l \<Longrightarrow> (goal_checks g \<Longrightarrow> goal_ok g) \<Longrightarrow> ledger_ok l'"
  by (auto simp: insert_goal_def put_goals_Inr ledger_ok_def split: if_splits)

lemma with_replay_ok:
  assumes "with_replay c action k body l = Inr (r, l')" and "ledger_ok l"
    and "\<And>c' r l'. body c' l = Inr (r, l') \<Longrightarrow> ledger_ok l'"
  shows "ledger_ok l'"
  using assms by (auto simp: with_replay_def split: option.splits)

text \<open>The update of a transaction, as an implication that the simplifier can use.\<close>

lemma goal_updates:
  "update_goals P (paused_row s n) l = Inr l' \<Longrightarrow> ledger_ok l \<longrightarrow> ledger_ok l'"
  "update_goals P (system_paused_row s n) l = Inr l' \<Longrightarrow> ledger_ok l \<longrightarrow> ledger_ok l'"
  "update_goals P (resumed_row n) l = Inr l' \<Longrightarrow> ledger_ok l \<longrightarrow> ledger_ok l'"
  "update_goals P (progressed_goal p n) l = Inr l' \<Longrightarrow> ledger_ok l \<longrightarrow> ledger_ok l'"
  "update_goals P (released_row s n) l = Inr l' \<Longrightarrow> ledger_ok l \<longrightarrow> ledger_ok l'"
  "update_goals (idle_fence g) (guardrail_row s n) l = Inr l' \<Longrightarrow> ledger_ok l \<longrightarrow> ledger_ok l'"
  "update_goals (owned_by c) (restart_settled_row s u d w n) l = Inr l' \<Longrightarrow> ledger_ok l \<longrightarrow> ledger_ok l'"
  by (auto elim!: update_goals_ok intro: goal_rows simp: idle_fence_def owned_by_def)

lemma pause_goal_ok: "pause_goal k x c reason now l = Inr (r, l') \<Longrightarrow> ledger_ok l \<Longrightarrow> ledger_ok l'"
  by (auto simp: pause_goal_def Let_def checked_Inr dest!: answer_ok goal_updates elim!: with_replay_ok)

lemma resume_goal_ok: "resume_goal k x c now l = Inr (r, l') \<Longrightarrow> ledger_ok l \<Longrightarrow> ledger_ok l'"
  by (auto simp: resume_goal_def Let_def checked_Inr dest!: answer_ok goal_updates elim!: with_replay_ok)

lemma revoke_update_ok: "revoke_update g l = Inr l' \<Longrightarrow> ledger_ok l' = ledger_ok l"
  by (auto simp: revoke_update_def split: option.splits sum.splits if_splits)

lemma clear_goal_ok: "clear_goal k x c l = Inr (r, l') \<Longrightarrow> ledger_ok l \<Longrightarrow> ledger_ok l'"
  by (auto simp: clear_goal_def Let_def checked_Inr delete_goals_ok dest!: insert_receipt_ok revoke_update_ok
      elim!: with_replay_ok)

text \<open>The binding of an edit counts a turn exactly when the Goal had no owner. All rows with the id of the
  Goal have its owner, as ids are unique.\<close>

lemma edited_fields [simp]:
  "go_active_task (edited_row obj now g) = go_active_task g" "go_id (edited_row obj now g) = go_id g"
  "go_active_task (edit_resumed_row g) = go_active_task g" "go_id (edit_resumed_row g) = go_id g"
  "go_active_task (edit_paused_row g) = go_active_task g" "go_id (edit_paused_row g) = go_id g"
  by (simp_all add: edited_row_def edit_resumed_row_def edit_paused_row_def Let_def)

definition owner_of_id :: "string \<Rightarrow> string option \<Rightarrow> ledger \<Rightarrow> bool" where
  "owner_of_id i a l \<longleftrightarrow> (\<forall>r \<in> set (lg_goals l). go_id r = i \<longrightarrow> go_active_task r = a)"

lemma owner_of_id_update:
  "update_goals P f l = Inr l' \<Longrightarrow> owner_of_id i a l \<Longrightarrow> (\<And>g. go_id (f g) = go_id g) \<Longrightarrow>
     (\<And>g. go_active_task (f g) = go_active_task g) \<Longrightarrow> owner_of_id i a l'"
  by (auto simp: update_goals_def put_goals_Inr owner_of_id_def set_update_where)

lemma find_mem: "find P xs = Some x \<Longrightarrow> x \<in> set xs \<and> P x"
  by (auto simp: find_Some_iff)

lemma select_goal_mem: "select_goal k l = Some g \<Longrightarrow> g \<in> set (lg_goals l) \<and> go_session_key g = k"
  unfolding select_goal_def by (drule find_mem) simp

lemma select_goal_id_mem: "select_goal_id i l = Some g \<Longrightarrow> g \<in> set (lg_goals l) \<and> go_id g = i"
  unfolding select_goal_id_def by (drule find_mem) simp

lemma owner_of_selected:
  assumes "ledger_ok l" "g \<in> set (lg_goals l)"
  shows "owner_of_id (go_id g) (go_active_task g) l"
  using assms by (auto simp: ledger_ok_def goals_unique_def owner_of_id_def distinct_map inj_on_def)

lemma apply_edit_ok:
  assumes "apply_edit k x obj resume pause bound now g l = Inr l'" and "ledger_ok l"
    and "owner_of_id (go_id g) (go_active_task g) l"
  shows "ledger_ok l'"
proof -
  let ?at = "\<lambda>r. go_id r = go_id g"
  obtain l1 l2 l3 where
      u1: "update_goals (fenced k (xg_goal_id x) (xg_state_revision x)) (edited_row obj now) l = Inr l1"
    and u2: "(if resume \<and> go_status g \<noteq> GActive then update_goals ?at edit_resumed_row l1 else Inr l1) = Inr l2"
    and u3: "(if pause then update_goals ?at edit_paused_row l2 else Inr l2) = Inr l3"
    and u4: "(case bound of None \<Rightarrow> Inr l3
       | Some row \<Rightarrow> update_goals ?at (bound_row (tk_id row) (if go_active_task g = None then 1 else 0)) l3) = Inr l'"
    using assms(1) by (auto simp: apply_edit_def Let_def checked_Inr)
  have ok1: "ledger_ok l1" by (rule update_goals_ok [OF u1 assms(2)]) (rule goal_rows)
  have ow1: "owner_of_id (go_id g) (go_active_task g) l1"
    by (rule owner_of_id_update [OF u1 assms(3)]) simp_all
  have ok2: "ledger_ok l2" using u2 ok1
    by (auto split: if_splits elim!: update_goals_ok intro: goal_rows)
  have ow2: "owner_of_id (go_id g) (go_active_task g) l2" using u2 ow1
    by (auto split: if_splits elim!: owner_of_id_update)
  have ok3: "ledger_ok l3" using u3 ok2
    by (auto split: if_splits elim!: update_goals_ok intro: goal_rows)
  have ow3: "owner_of_id (go_id g) (go_active_task g) l3" using u3 ow2
    by (auto split: if_splits elim!: owner_of_id_update)
  show ?thesis
  proof (cases bound)
    case None
    then show ?thesis using u4 ok3 by simp
  next
    case (Some row)
    then have u: "update_goals ?at (bound_row (tk_id row) (if go_active_task g = None then 1 else 0)) l3 = Inr l'"
      using u4 by simp
    show ?thesis
    proof (rule update_goals_ok [OF u ok3])
      fix r assume "r \<in> set (lg_goals l3)" "go_id r = go_id g" "goal_ok r"
        "goal_checks (bound_row (tk_id row) (if go_active_task g = None then 1 else 0) r)"
      moreover from this ow3 have "go_active_task r = go_active_task g" by (simp add: owner_of_id_def)
      ultimately show "goal_ok (bound_row (tk_id row) (if go_active_task g = None then 1 else 0) r)"
        by (intro bound_row_ok) (auto simp: owner_count_def)
    qed
  qed
qed

lemma offer_update_ok [simp]: "ledger_ok (offer_update k i g now l) = ledger_ok l"
  unfolding offer_update_def Let_def by (simp split: option.splits)

lemma refreshed_mem:
  assumes "select_goal k l = Some seen"
  shows "or_row (select_goal_id (go_id seen) (refresh_coverage (go_id seen) l)) seen
      \<in> set (lg_goals (refresh_coverage (go_id seen) l))"
proof -
  have "seen \<in> set (lg_goals l)" using select_goal_mem [OF assms] by simp
  moreover have "map go_id (lg_goals (refresh_coverage i l)) = map go_id (lg_goals l)" for i
    by (simp add: refresh_coverage_def update_where_def)
  then have "go_id ` set (lg_goals (refresh_coverage i l)) = go_id ` set (lg_goals l)" for i
    by (metis set_map)
  ultimately have "\<exists>g \<in> set (lg_goals (refresh_coverage (go_id seen) l)). go_id g = go_id seen"
    by (metis imageE image_eqI)
  then obtain g where g: "select_goal_id (go_id seen) (refresh_coverage (go_id seen) l) = Some g"
    unfolding select_goal_id_def by (metis (mono_tags, lifting) find_None_iff not_None_eq)
  then show ?thesis using select_goal_id_mem [OF g] by (simp add: or_row_def)
qed

lemma edit_body_ok:
  assumes "edit_body k x obj a b r p now c l = Inr (res, l')" and "ledger_ok l"
  shows "ledger_ok l'"
proof -
  obtain seen bound l1 g' where
      seen: "select_goal k l = Some seen"
    and edit: "apply_edit k x obj r p bound now (or_row (select_goal_id (go_id seen)
        (refresh_coverage (go_id seen) l)) seen) (refresh_coverage (go_id seen) l) = Inr l1"
    and ans: "answer c g' (offer_update k a g' now (case bound of None \<Rightarrow> l1
       | Some row \<Rightarrow> write_details (tk_id row)
           (bind_details row (goal_turn_context g' (tk_id row) False)) now l1)) = Inr (res, l')"
    using assms(1) unfolding edit_body_def Let_def and_then_Inr checked_Inr require_expected_def present_Inr
    by blast
  have "ledger_ok (refresh_coverage (go_id seen) l)" using assms(2) by simp
  then have "ledger_ok l1"
    using apply_edit_ok [OF edit] owner_of_selected refreshed_mem [OF seen] by blast
  then show ?thesis using answer_ok [OF ans] by (cases bound) simp_all
qed

lemma edit_goal_ok: "edit_goal k x obj c a b r p now l = Inr (res, l') \<Longrightarrow> ledger_ok l \<Longrightarrow> ledger_ok l'"
  by (auto simp: edit_goal_def Let_def split: if_splits elim!: with_replay_ok intro: edit_body_ok)

end
