(* ===== verification/Session_Reachable.thy ===== *)
theory Session_Reachable
  imports Session_Invariants
begin

text \<open>
  The transactions of tasks, of the system and of plans keep the invariant; every state that the ledger
  reaches satisfies it.
\<close>

section \<open>Tasks\<close>

lemma claim_update_ok: "claim_update u now l = Inr (r, l') \<Longrightarrow> ledger_ok l' = ledger_ok l"
  by (auto simp: claim_update_def Let_def split: option.splits prod.splits)

lemma apply_update_ok: "apply_update u i call now l = Inr (r, l') \<Longrightarrow> ledger_ok l' = ledger_ok l"
  unfolding apply_update_def Let_def and_then_Inr
  by (elim exE conjE) (simp split: option.split_asm prod.split_asm, clarify, simp)

lemma adopt_source_ok: "goal_ok (adopt_source d g) = goal_ok g" "goal_checks (adopt_source d g) = goal_checks g"
  by (cases "nonempty_str (jget ''persisted_user_message_id'' d)";
      simp add: adopt_source_def goal_ok_def goal_checks_def owner_count_def)+

lemma insert_for_task_ok:
  "insert_for_task g t current l = Inr (g', l') \<Longrightarrow> ledger_ok l \<Longrightarrow> (goal_checks g \<Longrightarrow> goal_ok g) \<Longrightarrow> ledger_ok l'"
  by (cases current)
     (auto simp: insert_for_task_def Let_def checked_Inr adopt_source_ok delete_goals_ok
       dest!: insert_goal_ok)

lemma create_for_task_ok:
  "create_for_task g t l = Inr (g', l') \<Longrightarrow> ledger_ok l \<Longrightarrow> (goal_checks g \<Longrightarrow> goal_ok g) \<Longrightarrow> ledger_ok l'"
  unfolding create_for_task_def Let_def and_then_Inr
  by (elim exE conjE, simp split: option.splits if_splits) (auto elim: insert_for_task_ok)

lemma start_goal_ok:
  "start_goal g row k m l = Inr (r, l') \<Longrightarrow> ledger_ok l \<Longrightarrow> (goal_checks g \<Longrightarrow> goal_ok g) \<Longrightarrow> ledger_ok l'"
  by (cases "select_goal k l")
     (auto simp: start_goal_def Let_def checked_Inr delete_goals_ok dest!: insert_task_ok dest: insert_goal_ok)

lemma continued_step:
  "update_goals (idle_fence g) (continued_row t (go_seq g + 1) now) l = Inr l' \<Longrightarrow> g \<in> set (lg_goals l) \<Longrightarrow>
     ledger_ok l \<longrightarrow> ledger_ok l'"
proof
  assume u: "update_goals (idle_fence g) (continued_row t (go_seq g + 1) now) l = Inr l'"
    and g: "g \<in> set (lg_goals l)" and ok: "ledger_ok l"
  show "ledger_ok l'"
  proof (rule update_goals_ok [OF u ok])
    fix r assume r: "r \<in> set (lg_goals l)" "idle_fence g r" "goal_ok r"
      "goal_checks (continued_row t (go_seq g + 1) now r)"
    have "r = g" using ok g r by (auto simp: ledger_ok_def goals_unique_def distinct_map inj_on_def
        idle_fence_def fenced_def)
    then show "goal_ok (continued_row t (go_seq g + 1) now r)" using r
        continued_row_ok [of r t now] by (simp add: idle_fence_def)
  qed
qed

lemma claimed_step:
  "update_goals (\<lambda>r. Q r \<and> go_active_task r = None) (claimed_row t now) l = Inr l' \<Longrightarrow> ledger_ok l \<longrightarrow> ledger_ok l'"
  by (auto elim!: update_goals_ok intro: claimed_row_ok)

lemma accept_continuation_ok:
  assumes "accept_continuation h guard x n row m b now l = Inr (r, l')" and ok: "ledger_ok l"
  shows "ledger_ok l'"
proof -
  let ?k = "canonical_key (tk_session_key row)"
  obtain seen where seen: "select_goal ?k l = Some seen"
    using assms(1) by (auto simp: accept_continuation_def Let_def checked_Inr require_expected_def)
  let ?l = "refresh_coverage (go_id seen) l" and ?g = "or_row (select_goal_id (go_id seen)
      (refresh_coverage (go_id seen) l)) seen"
  have g: "?g \<in> set (lg_goals ?l)" by (rule refreshed_mem [OF seen])
  consider (pause) reason where "update_goals (idle_fence ?g) (guardrail_row reason now) ?l = Inr l'"
    | (run) d l1 where "insert_task (row\<lparr>tk_session_key := ?k, tk_details := d\<rparr>) ?l = Inr l1"
        "update_goals (idle_fence ?g) (continued_row (tk_id row) (go_seq ?g + 1) now) l1 = Inr l'"
    using assms(1) seen
    by (auto simp: accept_continuation_def Let_def checked_Inr require_expected_def split: option.splits)
  then show ?thesis
  proof cases
    case pause
    then show ?thesis using goal_updates(6) ok by fastforce
  next
    case run
    have "lg_goals l1 = lg_goals ?l" using run(1) by (auto simp: insert_task_def split: if_splits)
    then have "?g \<in> set (lg_goals l1)" using g by simp
    then show ?thesis using continued_step [OF run(2)] insert_task_ok [OF run(1)] ok by simp
  qed
qed

lemma claim_queued_cases:
  assumes "claim_queued cand t mode now l = Inr (r, l')"
  obtains "l' = l" | i where "l' = refresh_coverage i l"
  | k i j d where "update_goals (\<lambda>r. go_session_key r = k \<and> go_id r = i \<and> go_active_task r = None)
      (claimed_row t now) (write_details t d now (refresh_coverage j l)) = Inr l'"
  using assms unfolding claim_queued_def Let_def
  by (auto simp: checked_Inr split: if_split_asm option.split_asm sum.split_asm)

lemma claim_queued_ok: "claim_queued cand t mode now l = Inr (r, l') \<Longrightarrow> ledger_ok l \<Longrightarrow> ledger_ok l'"
proof (erule claim_queued_cases)
  fix k i j d
  assume "update_goals (\<lambda>r. go_session_key r = k \<and> go_id r = i \<and> go_active_task r = None)
      (claimed_row t now) (write_details t d now (refresh_coverage j l)) = Inr l'" and "ledger_ok l"
  then show "ledger_ok l'"
    using claimed_step [of "\<lambda>r. go_session_key r = k \<and> go_id r = i"] by (simp add: conj_assoc)
qed simp_all

lemma terminal_step:
  "update_goals P (terminal_row st t x now) l = Inr l' \<Longrightarrow> st \<in> {GComplete, GBlocked, GPaused} \<Longrightarrow>
     ledger_ok l \<longrightarrow> ledger_ok l'"
  by (auto elim!: update_goals_ok intro: terminal_row_ok)

lemma commit_terminal_cases:
  assumes "commit_terminal c st reason now l = Inr (g, l')"
  obtains "l' = l" | x where "st \<in> {GComplete, GBlocked, GPaused}"
    "update_goals (\<lambda>r. go_id r = cx_goal_id c \<and> go_objective_revision r = cx_objective_revision c
        \<and> go_active_task r = Some (cx_task_id c)) (terminal_row st (cx_task_id c) x now) l = Inr l'"
  using assms unfolding commit_terminal_def
  by (auto simp: checked_Inr split: if_split_asm)

lemma commit_terminal_ok: "commit_terminal c st reason now l = Inr (g, l') \<Longrightarrow> ledger_ok l \<Longrightarrow> ledger_ok l'"
  by (erule commit_terminal_cases) (use terminal_step in blast)+

lemma settle_task_ok: "settle_task c m b u s r now l = Inr (g, l') \<Longrightarrow> ledger_ok l \<Longrightarrow> ledger_ok l'"
proof -
  assume settle: "settle_task c m b u s r now l = Inr (g, l')" and ok: "ledger_ok l"
  let ?l = "refresh_coverage (cx_goal_id c) l"
  have ok': "ledger_ok ?l" using ok by simp
  consider "l' = ?l" | row t d usage where "select_goal_id (cx_goal_id c) ?l = Some row"
      "classify_end t (go_objective_revision row = cx_objective_revision c) u s r m b
         (go_window_ms row + run_duration t) row = Inr d"
      "update_goals (owned_by c) (settled_row c usage (run_duration t) now d) ?l = Inr l'"
    using settle unfolding settle_task_def Let_def
    by (simp add: checked_Inr split: option.split_asm if_split_asm) blast+
  then show ?thesis
  proof cases
    case 2
    have row: "row \<in> set (lg_goals ?l)" "go_id row = cx_goal_id c" using select_goal_id_mem [OF 2(1)] by auto
    have dec: "decided_ok row d"
      using classify_end_ok [OF 2(2)] row ok' by (auto simp: ledger_ok_def list_all_iff)
    show ?thesis
    proof (rule update_goals_ok [OF 2(3) ok'])
      fix g assume g: "g \<in> set (lg_goals ?l)" "owned_by c g" "goal_ok g"
        "goal_checks (settled_row c usage (run_duration t) now d g)"
      have "g = row" using g row ok' by (auto simp: ledger_ok_def goals_unique_def distinct_map inj_on_def owned_by_def)
      then show "goal_ok (settled_row c usage (run_duration t) now d g)"
        using g dec by (intro settled_row_ok) (simp_all add: owned_by_def)
    qed
  qed (simp add: ok)
qed

lemma compensated_step:
  assumes "update_goals (owned_by c) (compensated_row c reason (p \<or> go_status row \<in> {GComplete, GBlocked}) w u d now) l = Inr l'"
    and "select_goal_id (cx_goal_id c) l = Some row"
  shows "ledger_ok l \<longrightarrow> ledger_ok l'"
proof
  assume ok: "ledger_ok l"
  show "ledger_ok l'"
  proof (rule update_goals_ok [OF assms(1) ok])
    fix g assume g: "g \<in> set (lg_goals l)" "owned_by c g" "goal_ok g"
      "goal_checks (compensated_row c reason (p \<or> go_status row \<in> {GComplete, GBlocked}) w u d now g)"
    have "g = row" using g select_goal_id_mem [OF assms(2)] ok
      by (auto simp: ledger_ok_def goals_unique_def distinct_map inj_on_def owned_by_def)
    then show "goal_ok (compensated_row c reason (p \<or> go_status row \<in> {GComplete, GBlocked}) w u d now g)"
      using g by (intro compensated_row_ok) (auto simp: owned_by_def)
  qed
qed

lemma compensate_task_cases:
  assumes "compensate_task c reason p now l = Inr (g, l')"
  obtains "l' = l" | "l' = abandon_task (cx_task_id c) reason now l"
  | row w u d where "select_goal_id (cx_goal_id c) (abandon_task (cx_task_id c) reason now l) = Some row"
      "update_goals (owned_by c) (compensated_row c reason (p \<or> go_status row \<in> {GComplete, GBlocked}) w u d now)
         (abandon_task (cx_task_id c) reason now l) = Inr l'"
  using assms unfolding compensate_task_def Let_def
  by (auto simp: checked_Inr split: option.split_asm if_split_asm)

lemma compensate_task_ok: "compensate_task c reason p now l = Inr (g, l') \<Longrightarrow> ledger_ok l \<Longrightarrow> ledger_ok l'"
  by (erule compensate_task_cases) (use compensated_step in \<open>auto\<close>)

lemma pause_for_system_ok: "pause_for_system k i n reason now l = Inr (g, l') \<Longrightarrow> ledger_ok l \<Longrightarrow> ledger_ok l'"
  by (auto simp: pause_for_system_def Let_def dest!: goal_updates split: option.splits if_splits)

lemma increment_epoch_ok: "increment_epoch k l = Inr (n, l') \<Longrightarrow> ledger_ok l \<Longrightarrow> ledger_ok l'"
  by (auto simp: increment_epoch_def Let_def delete_goals_ok split: option.splits)

lemma account_usage_ok: "account_usage i u now l = Inr (x, l') \<Longrightarrow> ledger_ok l \<Longrightarrow> ledger_ok l'"
  by (auto simp: account_usage_def goal_ok_defs elim!: update_goals_ok)

section \<open>Plans\<close>

lemma run_updates:
  "update_runs P (superseded_row s n) l = Inr l' \<Longrightarrow> ledger_ok l \<longrightarrow> ledger_ok l'"
  "update_runs P (completed_row n) l = Inr l' \<Longrightarrow> ledger_ok l \<longrightarrow> ledger_ok l'"
  "update_runs P (cancelled_row s n) l = Inr l' \<Longrightarrow> ledger_ok l \<longrightarrow> ledger_ok l'"
  "update_runs P (progressed_run ss n) l = Inr l' \<Longrightarrow> ledger_ok l \<longrightarrow> ledger_ok l'"
  "update_runs P (paused_for s n) l = Inr l' \<Longrightarrow> ledger_ok l \<longrightarrow> ledger_ok l'"
  by (auto elim!: update_runs_ok intro: run_rows)

lemma run_unique:
  assumes "ledger_ok l" "select_run i l = Some r" "x \<in> set (lg_runs l)" "pn_id x = i"
  shows "x = r"
proof -
  have "r \<in> set (lg_runs l)" "pn_id r = i" using find_mem [OF assms(2) [unfolded select_run_def]] by simp_all
  then show ?thesis using assms by (auto simp: ledger_ok_def runs_unique_def distinct_map inj_on_def)
qed

text \<open>The rewrites that need an active run, at the row that was selected.\<close>

lemma active_run_updates:
  assumes "ledger_ok l" and "select_run i l = Some e" and "is_active e"
  shows "update_runs (run_fence i n) (requeued_row t now) l = Inr l' \<Longrightarrow> ledger_ok l'"
    and "update_runs (run_fence i n) (running_row t now) l = Inr l' \<Longrightarrow> ledger_ok l'"
    and "update_runs (run_fence i n) (paused_run_row s now) l = Inr l' \<Longrightarrow> ledger_ok l'"
  using run_unique [OF assms(1,2)] assms(1,3)
  by (auto elim!: update_runs_ok intro!: run_rows simp: run_fence_def)

lemma resume_run_ok:
  "resume_run e r now l = Inr (x, l') \<Longrightarrow> ledger_ok l \<Longrightarrow> select_run (pn_id r) l = Some e \<Longrightarrow> ledger_ok l'"
  by (auto simp: resume_run_def checked_Inr is_active_def run_active_def
      intro: active_run_updates(1) split: if_splits)

lemma superseded_ok:
  "(case old of None \<Rightarrow> Inr l | Some i \<Rightarrow> update_runs (\<lambda>x. pn_id x = i) (superseded_row a s) l) = Inr l' \<Longrightarrow>
     ledger_ok l \<Longrightarrow> ledger_ok l'"
  by (cases old) (auto dest: run_updates(1))

lemma insert_run_ok:
  assumes "insert_run r states now l = Inr (x, l')" and ok: "ledger_ok l"
  shows "ledger_ok l'"
proof -
  obtain v p old s l1 where p: "prepare_plan_run r states v = Inr p"
    and old: "(case old of None \<Rightarrow> Inr l
       | Some i \<Rightarrow> update_runs (\<lambda>x. pn_id x = i) (superseded_row ''superseded_by_new_run'' s) l) = Inr l1"
    and put: "put_runs (lg_runs l1 @ [p\<lparr>pn_supersedes := old, pn_created := s, pn_updated := s\<rparr>]) l1 = Inr l'"
    using assms(1) unfolding insert_run_def Let_def and_then_Inr checked_Inr
    by (elim exE conjE) (erule that, assumption, simp only: prod.inject sum.inject)
  have "run_ok (p\<lparr>pn_supersedes := old, pn_created := s, pn_updated := s\<rparr>)"
    using put prepared_run_ok [OF p] by (simp add: put_runs_Inr)
  then show ?thesis using put superseded_ok [OF old ok] by (auto simp: put_runs_Inr ledger_ok_def)
qed

lemma start_run_ok: "start_run r states now l = Inr (x, l') \<Longrightarrow> ledger_ok l \<Longrightarrow> ledger_ok l'"
  unfolding start_run_def Let_def
  by (auto split: option.splits intro: insert_run_ok resume_run_ok)

lemma create_revision_ok: "create_revision v p stamp l = Inr (x, l') \<Longrightarrow> ledger_ok l \<Longrightarrow> ledger_ok l'"
  unfolding create_revision_def Let_def
  by (auto simp: checked_Inr split: option.splits if_splits dest!: run_updates(1))

lemma supersede_active_ok: "supersede_active k reason now l = Inr (x, l') \<Longrightarrow> ledger_ok l \<Longrightarrow> ledger_ok l'"
  by (auto simp: supersede_active_def Let_def dest!: run_updates)

lemma load_run_select: "load_run i n l = Inr r \<Longrightarrow> select_run i l = Some r \<and> pn_state_revision r = n"
  by (auto simp: load_run_def checked_Inr)

lemma mark_running_ok: "mark_running i n t now l = Inr (x, l') \<Longrightarrow> ledger_ok l \<Longrightarrow> ledger_ok l'"
  by (auto simp: mark_running_def write_run_def checked_Inr is_active_def run_active_def
      dest!: run_updates load_run_select split: if_splits intro: active_run_updates(2))

lemma complete_run_ok: "complete_run i n t now l = Inr (x, l') \<Longrightarrow> ledger_ok l \<Longrightarrow> ledger_ok l'"
  by (auto simp: complete_run_def write_run_def checked_Inr dest!: run_updates)

lemma pause_run_ok: "pause_run i n reason t k d now l = Inr (x, l') \<Longrightarrow> ledger_ok l \<Longrightarrow> ledger_ok l'"
  by (auto simp: pause_run_def write_run_def checked_Inr is_active_def run_active_def
      dest!: load_run_select intro: active_run_updates(3))

lemma cancel_run_ok: "cancel_run i n reason t now l = Inr (x, l') \<Longrightarrow> ledger_ok l \<Longrightarrow> ledger_ok l'"
  by (auto simp: cancel_run_def write_run_def checked_Inr dest!: run_updates)

section \<open>Progress and recovery\<close>

lemma update_progress_ok: "update_progress t k sid e steps ex now l = Inr (x, l') \<Longrightarrow> ledger_ok l \<Longrightarrow> ledger_ok l'"
  unfolding update_progress_def Let_def
  by (auto simp: checked_Inr split: option.splits dest!: run_updates goal_updates)

lemma settle_owners_ok: "settle_owners reason now ps l = Inr l' \<Longrightarrow> ledger_ok l \<Longrightarrow> ledger_ok l'"
proof (induction ps arbitrary: l)
  case (Cons p ps)
  then obtain l1 where l1: "settle_owner reason now p l = Inr l1" "settle_owners reason now ps l1 = Inr l'"
    by auto
  have "ledger_ok l1" using l1(1) Cons.prems(2)
    by (auto simp: settle_owner_def split: option.splits dest!: goal_updates)
  then show ?case using Cons.IH [OF l1(2)] by simp
qed simp

lemma restart_ok: "restart reason now l = Inr (x, l') \<Longrightarrow> ledger_ok l \<Longrightarrow> ledger_ok l'"
proof -
  assume r: "restart reason now l = Inr (x, l')" and ok: "ledger_ok l"
  obtain l2 l3 l4 where s: "settle_owners reason now (goal_owners l) (l\<lparr>lg_tasks := map (restarted_task now) (lg_tasks l)\<rparr>) = Inr l2"
      "update_goals (\<lambda>g. go_status g = GActive \<or> go_active_task g \<noteq> None) (released_row reason now) l2 = Inr l3"
      "update_runs (run_released l3) (paused_for ''process_restart'' now) l3 = Inr l4"
      "put_runs (map (reconcile_run l4 now) (lg_runs l4)) l4 = Inr l'"
    using r by (auto simp: restart_def Let_def checked_Inr)
  have "ledger_ok l4"
    using settle_owners_ok [OF s(1)] goal_updates(5) [OF s(2)] run_updates(5) [OF s(3)] ok by simp
  then show ?thesis using s(4) reconcile_run_ok
    by (auto simp: put_runs_Inr ledger_ok_def list_all_iff)
qed

section \<open>Every reachable ledger\<close>

lemma execute_ok: "execute a l = Inr l' \<Longrightarrow> ledger_ok l \<Longrightarrow> ledger_ok l'"
  by (cases a; simp only: execute.simps drop_value_Inr and_then_Inr defer_continuation_def
        compensate_activation_def compensate_persistence_def checked_Inr sum.inject;
      (elim exE conjE)?;
      (erule (1) edit_goal_ok | erule (1) pause_goal_ok | erule (1) resume_goal_ok
      | erule (1) clear_goal_ok | erule (1) accept_continuation_ok | erule (1) claim_queued_ok
      | erule (1) commit_terminal_ok | erule (1) settle_task_ok | erule (1) pause_for_system_ok
      | erule (1) increment_epoch_ok | erule (1) account_usage_ok | erule (1) update_progress_ok
      | erule (1) restart_ok | erule (1) create_revision_ok | erule (1) start_run_ok
      | erule (1) supersede_active_ok | erule (1) mark_running_ok | erule (1) complete_run_ok
      | erule (1) pause_run_ok | erule (1) cancel_run_ok | erule (1) compensate_task_ok
      | (erule (1) create_for_task_ok, erule (1) new_goal_ok) | (erule (1) start_goal_ok, erule (1) new_goal_ok)
      | simp add: claim_update_ok apply_update_ok | clarsimp simp: put_sessions_ok))

lemma ledger_step_ok: "ledger_ok l \<Longrightarrow> ledger_ok (ledger_step a l)"
  by (auto simp: ledger_step_def split: sum.splits intro: execute_ok)

lemma empty_ok: "ledger_ok empty_ledger"
  by (simp add: ledger_ok_def empty_ledger_def goals_unique_def owners_def runs_unique_def)

interpretation ledger: invariant_machine ledger_step "\<lambda>l. l = empty_ledger" ledger_ok
  by unfold_locales (simp_all add: empty_ok ledger_step_ok)

end
