(* ===== verification/Session_Moves.thy ===== *)
theory Session_Moves
  imports Session_Reachable
begin

text \<open>
  What one transition may do to a Goal: the lifecycle of its status, the counters that only grow, and
  the state revision as a stamp of everything that a command is fenced on.
\<close>

section \<open>The lifecycle\<close>

text \<open>An active Goal may go anywhere; a paused one may be completed or blocked by the task that still owns
  it, a limited one is paused when its task is compensated. Anything else is up to the user.\<close>

definition lifecycle :: "bool \<Rightarrow> goal_status \<Rightarrow> goal_status \<Rightarrow> bool" where
  "lifecycle user s s' \<longleftrightarrow>
     s' = s \<or> s = GActive
   \<or> (s = GPaused \<and> s' \<in> {GComplete, GBlocked})
   \<or> (s = GUsageLimited \<and> s' = GPaused)
   \<or> (user \<and> s' \<in> {GActive, GPaused})"

definition demotes :: "goal_status \<Rightarrow> goal_status \<Rightarrow> bool" where
  "demotes s s' \<longleftrightarrow> s' = s \<or> (s = GActive \<and> s' = GPaused)"

definition any_status :: "goal_status \<Rightarrow> goal_status \<Rightarrow> bool" where
  "any_status s s' \<longleftrightarrow> True"

text \<open>What the state revision stands for: all but the progress, the usage and the time of the last write.\<close>

definition stamped :: "goal \<Rightarrow> goal" where
  "stamped g = g\<lparr>go_progress := None, go_progress_revision := 0, go_usage := no_tokens,
     go_usage_coverage := [], go_updated := 0\<rparr>"

definition moves :: "(goal_status \<Rightarrow> goal_status \<Rightarrow> bool) \<Rightarrow> goal \<Rightarrow> goal \<Rightarrow> bool" where
  "moves S g g' \<longleftrightarrow>
     go_id g' = go_id g \<and> go_session_key g' = go_session_key g \<and> go_session_id g' = go_session_id g
   \<and> go_epoch g' = go_epoch g \<and> go_created g' = go_created g \<and> S (go_status g) (go_status g')
   \<and> go_turns_started g \<le> go_turns_started g' \<and> go_turns_settled g \<le> go_turns_settled g'
   \<and> go_seq g \<le> go_seq g' \<and> go_objective_revision g \<le> go_objective_revision g'
   \<and> (go_objective_revision g' = go_objective_revision g \<longrightarrow> go_objective g' = go_objective g)
   \<and> go_state_revision g \<le> go_state_revision g'
   \<and> (go_state_revision g' = go_state_revision g \<longrightarrow> stamped g' = stamped g)"

lemma moves_refl: "S (go_status g) (go_status g) \<Longrightarrow> moves S g g"
  by (simp add: moves_def)

lemma moves_trans:
  assumes "moves A g g'" "moves B g' g''"
    and "A (go_status g) (go_status g') \<Longrightarrow> B (go_status g') (go_status g'') \<Longrightarrow> C (go_status g) (go_status g'')"
  shows "moves C g g''"
proof -
  have rev: "go_state_revision g'' = go_state_revision g \<Longrightarrow>
      go_state_revision g' = go_state_revision g \<and> go_state_revision g'' = go_state_revision g'"
    and obj: "go_objective_revision g'' = go_objective_revision g \<Longrightarrow>
      go_objective_revision g' = go_objective_revision g \<and> go_objective_revision g'' = go_objective_revision g'"
    using assms(1,2) unfolding moves_def by linarith+
  have "C (go_status g) (go_status g'')" using assms by (simp add: moves_def)
  then show ?thesis using assms(1,2) rev obj unfolding moves_def
    by (elim conjE) (intro conjI impI; (assumption | linarith | simp))
qed

lemma moves_mono: "moves A g g' \<Longrightarrow> (A (go_status g) (go_status g') \<Longrightarrow> B (go_status g) (go_status g')) \<Longrightarrow> moves B g g'"
  by (simp add: moves_def)

lemma moves_coverage [simp]:
  "moves S (g\<lparr>go_usage_coverage := c\<rparr>) g' = moves S g g'" "moves S g (g'\<lparr>go_usage_coverage := c\<rparr>) = moves S g g'"
  by (simp_all add: moves_def stamped_def)

section \<open>Rewrites of a row\<close>

named_theorems moves_rows \<open>rewrites of a Goal row as moves\<close>

lemma lifecycle_refl [simp]: "lifecycle u s s" "lifecycle u GActive s" "demotes s s"
  by (simp_all add: lifecycle_def demotes_def)

lemma plain_rows [moves_rows]:
  "S (go_status g) GPaused \<Longrightarrow> moves S g (paused_row reason now g)"
  "S (go_status g) GPaused \<Longrightarrow> moves S g (system_paused_row reason now g)"
  "S (go_status g) GActive \<Longrightarrow> moves S g (resumed_row now g)"
  "S (go_status g) GPaused \<Longrightarrow> moves S g (guardrail_row reason now g)"
  "S (go_status g) (go_status g) \<Longrightarrow> moves S g (continued_row t (go_seq g + 1) now g)"
  "S (go_status g) (go_status g) \<Longrightarrow> moves S g (claimed_row t now g)"
  "S (go_status g) st \<Longrightarrow> moves S g (terminal_row st t x now g)"
  "S (go_status g) (go_status g) \<Longrightarrow> moves S g (progressed_goal v now g)"
  "S (go_status g) (go_status d) \<Longrightarrow> moves S g (settled_row c u n now d g)"
  "S (go_status g) (if p then go_status g else GPaused) \<Longrightarrow> moves S g (compensated_row c reason p w u n now g)"
  by (simp_all add: moves_def stamped_def paused_row_def system_paused_row_def resumed_row_def guardrail_row_def
      continued_row_def claimed_row_def terminal_row_def progressed_goal_def settled_row_def compensated_row_def)

lemma demoting_rows [moves_rows]:
  "moves demotes g (restart_settled_row reason u d w now g)" "moves demotes g (released_row reason now g)"
  by (simp_all add: moves_def demotes_def restart_settled_row_def released_row_def)

section \<open>Tables of Goals\<close>

definition moved :: "(goal_status \<Rightarrow> goal_status \<Rightarrow> bool) \<Rightarrow> goal list \<Rightarrow> goal list \<Rightarrow> bool" where
  "moved S gs gs' \<longleftrightarrow> (\<forall>g' \<in> set gs'. \<exists>g \<in> set gs. moves S g g')"

lemma moved_refl: "(\<And>s. S s s) \<Longrightarrow> set gs' \<subseteq> set gs \<Longrightarrow> moved S gs gs'"
  unfolding moved_def using moves_refl by (metis subsetD)

lemma moved_trans:
  assumes "moved A gs gs'" "moved B gs' gs''" and "\<And>s s' s''. A s s' \<Longrightarrow> B s' s'' \<Longrightarrow> C s s''"
  shows "moved C gs gs''"
  unfolding moved_def
proof
  fix g'' assume "g'' \<in> set gs''"
  then obtain g' where g': "g' \<in> set gs'" "moves B g' g''" using assms(2) by (auto simp: moved_def)
  then obtain g where g: "g \<in> set gs" "moves A g g'" using assms(1) by (auto simp: moved_def)
  have "moves C g g''" by (rule moves_trans [OF g(2) g'(2)]) (rule assms(3))
  then show "\<exists>g \<in> set gs. moves C g g''" using g(1) by blast
qed

lemma moved_mono: "moved A gs gs' \<Longrightarrow> (\<And>s s'. A s s' \<Longrightarrow> B s s') \<Longrightarrow> moved B gs gs'"
  unfolding moved_def by (meson moves_mono)

lemma moved_update:
  assumes "update_goals P f l = Inr l'"
    and "\<And>g. g \<in> set (lg_goals l) \<Longrightarrow> P g \<Longrightarrow> moves S g (f g)" and "\<And>s. S s s"
  shows "moved S (lg_goals l) (lg_goals l')"
  using assms(1) unfolding moved_def
  by (auto simp: update_goals_def put_goals_Inr set_update_where intro: assms(2) moves_refl assms(3))

lemma moved_map:
  assumes "\<And>g x. moves S (f g) x = moves S g x" "\<And>g x. moves S x (f g) = moves S x g"
  shows "moved S (map f gs) gs' = moved S gs gs'" "moved S gs (map f gs') = moved S gs gs'"
  by (simp_all add: moved_def assms)

lemma moved_refresh [simp]:
  "moved S (lg_goals (refresh_coverage i l)) gs' = moved S (lg_goals l) gs'"
  "moved S gs (lg_goals (refresh_coverage i l)) = moved S gs (lg_goals l)"
  unfolding refresh_coverage_def update_where_def by (simp_all, (rule moved_map; simp)+)

lemma goals_of_tasks [simp]:
  "lg_goals (update_task i f l) = lg_goals l" "lg_goals (write_details i d now l) = lg_goals l"
  "lg_goals (abandon_task i reason now l) = lg_goals l" "lg_goals (offer_update k x g now l) = lg_goals l"
  by (simp_all add: update_task_def write_details_def abandon_task_def offer_update_def Let_def split: option.splits)

lemma goals_of_receipts:
  "insert_receipt c sid e response l = Inr l' \<Longrightarrow> lg_goals l' = lg_goals l"
  "insert_task t l = Inr l' \<Longrightarrow> lg_goals l' = lg_goals l"
  "revoke_update g l = Inr l' \<Longrightarrow> lg_goals l' = lg_goals l"
  by (auto simp: insert_receipt_def insert_task_def revoke_update_def split: if_splits option.splits sum.splits)

lemma goals_of_answer: "answer c g l = Inr (r, l') \<Longrightarrow> lg_goals l' = lg_goals l"
  by (auto simp: answer_def Let_def dest: goals_of_receipts)

lemma moved_replay:
  assumes "with_replay c action k body l = Inr (r, l')" and "\<And>s. S s s"
    and "\<And>c' r. body c' l = Inr (r, l') \<Longrightarrow> moved S (lg_goals l) (lg_goals l')"
  shows "moved S (lg_goals l) (lg_goals l')"
  using assms by (auto simp: with_replay_def intro: moved_refl split: option.splits)

text \<open>A row that a fence selects is the row that was read.\<close>

lemma goal_of_id:
  "ledger_ok l \<Longrightarrow> g \<in> set (lg_goals l) \<Longrightarrow> r \<in> set (lg_goals l) \<Longrightarrow> go_id r = go_id g \<Longrightarrow> r = g"
  by (auto simp: ledger_ok_def goals_unique_def distinct_map inj_on_def)

lemma fenced_goal:
  assumes "ledger_ok l" "require_expected k x l = Inr g" "r \<in> set (lg_goals l)" "go_id r = xg_goal_id x"
  shows "r = g"
proof -
  have "g \<in> set (lg_goals l)" "go_id g = xg_goal_id x"
    using assms(2) select_goal_mem by (auto simp: require_expected_def checked_Inr)
  then show ?thesis using goal_of_id [OF assms(1)] assms(3,4) by simp
qed

section \<open>Commands\<close>

lemma pause_step:
  "update_goals (fenced k (xg_goal_id x) n) (paused_row s m) l = Inr l' \<Longrightarrow> require_expected k x l = Inr g \<Longrightarrow>
     go_status g = GActive \<Longrightarrow> ledger_ok l \<Longrightarrow> moved (lifecycle u) (lg_goals l) (lg_goals l')"
  by (erule moved_update) (auto simp: fenced_def dest!: fenced_goal intro!: moves_rows)

lemma pause_moved:
  "pause_goal k x c reason now l = Inr (r, l') \<Longrightarrow> ledger_ok l \<Longrightarrow> moved (lifecycle u) (lg_goals l) (lg_goals l')"
  by (auto simp: pause_goal_def Let_def checked_Inr dest!: goals_of_answer elim!: moved_replay) (erule (3) pause_step)

lemma resume_step:
  "update_goals P (resumed_row n) l = Inr l' \<Longrightarrow> moved (lifecycle True) (lg_goals l) (lg_goals l')"
  by (erule moved_update) (auto intro: moves_rows simp: lifecycle_def)

lemma resume_moved:
  "resume_goal k x c now l = Inr (r, l') \<Longrightarrow> moved (lifecycle True) (lg_goals l) (lg_goals l')"
  by (auto simp: resume_goal_def Let_def checked_Inr dest!: goals_of_answer resume_step elim!: moved_replay)

lemma moved_filter: "moved (lifecycle u) gs (filter P gs)"
  by (rule moved_refl) auto

lemma clear_moved: "clear_goal k x c l = Inr (r, l') \<Longrightarrow> moved (lifecycle u) (lg_goals l) (lg_goals l')"
  by (auto simp: clear_goal_def Let_def checked_Inr delete_goals_def delete_where_def
      dest!: goals_of_receipts elim!: moved_replay) (rule moved_filter)

text \<open>An edit rewrites its row once with a new state revision, and then up to three times more.\<close>

definition after_edit :: "(goal \<Rightarrow> goal) \<Rightarrow> bool" where
  "after_edit h \<longleftrightarrow> (\<forall>g obj now. moves (lifecycle True) g (h (edited_row obj now g))) \<and> (\<forall>g. go_id (h g) = go_id g)"

lemma after_edit_cases:
  "after_edit id" "after_edit edit_resumed_row" "after_edit edit_paused_row" "after_edit (edit_paused_row \<circ> edit_resumed_row)"
  "0 \<le> n \<Longrightarrow> after_edit (bound_row t n)" "0 \<le> n \<Longrightarrow> after_edit (bound_row t n \<circ> edit_resumed_row)"
  "0 \<le> n \<Longrightarrow> after_edit (bound_row t n \<circ> edit_paused_row)"
  "0 \<le> n \<Longrightarrow> after_edit (bound_row t n \<circ> (edit_paused_row \<circ> edit_resumed_row))"
  by (simp_all add: after_edit_def moves_def edited_row_def edit_resumed_row_def edit_paused_row_def bound_row_def
      Let_def lifecycle_def)

lemma update_rows: "update_goals P f l = Inr l' \<Longrightarrow> lg_goals l' = update_where P f (lg_goals l)"
  by (auto simp: update_goals_def put_goals_Inr)

lemma update_where_twice:
  "(\<And>g. go_id (f g) = go_id g) \<Longrightarrow>
     update_where (\<lambda>r. go_id r = i) h (update_where (\<lambda>r. go_id r = i) f rows) = update_where (\<lambda>r. go_id r = i) (h \<circ> f) rows"
  by (induction rows) (auto simp: update_where_def)

lemma apply_edit_rows:
  assumes "apply_edit k x obj resume pause bound now g l = Inr l'"
  shows "\<exists>h. after_edit h \<and> lg_goals l' = update_where (\<lambda>r. go_id r = go_id g) h
     (update_where (fenced k (xg_goal_id x) (xg_state_revision x)) (edited_row obj now) (lg_goals l))"
proof -
  let ?at = "\<lambda>r. go_id r = go_id g" let ?n = "if go_active_task g = None then 1 else 0 :: int"
  obtain l1 l2 l3 where
      u1: "update_goals (fenced k (xg_goal_id x) (xg_state_revision x)) (edited_row obj now) l = Inr l1"
    and u2: "(if resume \<and> go_status g \<noteq> GActive then update_goals ?at edit_resumed_row l1 else Inr l1) = Inr l2"
    and u3: "(if pause then update_goals ?at edit_paused_row l2 else Inr l2) = Inr l3"
    and u4: "(case bound of None \<Rightarrow> Inr l3 | Some row \<Rightarrow> update_goals ?at (bound_row (tk_id row) ?n) l3) = Inr l'"
    using assms by (auto simp: apply_edit_def Let_def checked_Inr)
  let ?h2 = "if resume \<and> go_status g \<noteq> GActive then edit_resumed_row else id"
  let ?h3 = "if pause then edit_paused_row else id"
  let ?h4 = "case bound of None \<Rightarrow> id | Some row \<Rightarrow> bound_row (tk_id row) ?n"
  have same: "update_where P id rows = rows" for P :: "goal \<Rightarrow> bool" and rows by (simp add: update_where_def map_idI)
  have g2: "lg_goals l2 = update_where ?at ?h2 (lg_goals l1)"
    using u2 by (auto simp: same update_rows split: if_splits)
  have g3: "lg_goals l3 = update_where ?at ?h3 (lg_goals l2)" using u3 by (auto simp: same update_rows split: if_splits)
  have g4: "lg_goals l' = update_where ?at ?h4 (lg_goals l3)" using u4 by (auto simp: same update_rows split: option.splits)
  have "lg_goals l' = update_where ?at (?h4 \<circ> (?h3 \<circ> ?h2)) (lg_goals l1)"
    unfolding g4 g3 g2 by (subst update_where_twice, simp)+ simp
  moreover have "after_edit (?h4 \<circ> (?h3 \<circ> ?h2))"
    using after_edit_cases by (cases bound) (simp_all add: o_id id_o)
  ultimately show ?thesis using update_rows [OF u1] by auto
qed

lemma goal_of_key:
  "ledger_ok l \<Longrightarrow> g \<in> set (lg_goals l) \<Longrightarrow> r \<in> set (lg_goals l) \<Longrightarrow> go_session_key r = go_session_key g \<Longrightarrow> r = g"
  by (auto simp: ledger_ok_def goals_unique_def distinct_map inj_on_def)

lemma apply_edit_moved:
  assumes edit: "apply_edit k x obj resume pause bound now g l = Inr l'"
    and ok: "ledger_ok l" and g: "g \<in> set (lg_goals l)" "fenced k (xg_goal_id x) (xg_state_revision x) g"
  shows "moved (lifecycle True) (lg_goals l) (lg_goals l')"
proof -
  let ?F = "fenced k (xg_goal_id x) (xg_state_revision x)"
  obtain h where h: "after_edit h" and rows: "lg_goals l' = update_where (\<lambda>r. go_id r = go_id g) h
      (update_where ?F (edited_row obj now) (lg_goals l))"
    using apply_edit_rows [OF edit] by blast
  have only: "?F r \<Longrightarrow> r = g" "go_id r = go_id g \<Longrightarrow> r = g" if "r \<in> set (lg_goals l)" for r
    using goal_of_id [OF ok g(1) that] goal_of_key [OF ok g(1) that] g(2) by (auto simp: fenced_def)
  show ?thesis unfolding moved_def rows
  proof
    fix g' assume "g' \<in> set (update_where (\<lambda>r. go_id r = go_id g) h (update_where ?F (edited_row obj now) (lg_goals l)))"
    then obtain r where r: "r \<in> set (lg_goals l)"
      "g' = (let y = if ?F r then edited_row obj now r else r in if go_id y = go_id g then h y else y)"
      by (auto simp: update_where_def Let_def)
    show "\<exists>a \<in> set (lg_goals l). moves (lifecycle True) a g'"
    proof (cases "r = g")
      case True
      then have "moves (lifecycle True) g g'" using r(2) g(2) h by (simp add: after_edit_def)
      then show ?thesis using g(1) by blast
    next
      case False
      then have "\<not> ?F r" "go_id r \<noteq> go_id g" using only [OF r(1)] by auto
      then have "g' = r" using r(2) by simp
      then show ?thesis using r(1) moves_refl [of "lifecycle True" r] by auto
    qed
  qed
qed

lemma refreshed_fence:
  assumes "require_expected k x l = Inr seen" and ok: "ledger_ok l"
  shows "fenced k (xg_goal_id x) (xg_state_revision x)
     (or_row (select_goal_id (go_id seen) (refresh_coverage (go_id seen) l)) seen)"
proof -
  have seen: "select_goal k l = Some seen" "go_id seen = xg_goal_id x" "go_state_revision seen = xg_state_revision x"
    using assms(1) by (auto simp: require_expected_def checked_Inr)
  let ?g = "or_row (select_goal_id (go_id seen) (refresh_coverage (go_id seen) l)) seen"
  have "?g \<in> set (lg_goals (refresh_coverage (go_id seen) l))" by (rule refreshed_mem [OF seen(1)])
  then obtain r c where r: "r \<in> set (lg_goals l)" "?g = r \<or> ?g = r\<lparr>go_usage_coverage := c\<rparr>"
    unfolding refresh_coverage_def update_where_def by fastforce
  have "go_id ?g = go_id seen"
    by (auto simp: or_row_def split: option.splits dest: select_goal_id_mem)
  then have "go_id r = go_id seen" using r(2) by auto
  then have "r = seen" using goal_of_id [OF ok _ r(1)] select_goal_mem [OF seen(1)] by blast
  then show ?thesis using r(2) seen select_goal_mem [OF seen(1)] by (auto simp: fenced_def)
qed

lemma edit_body_moved:
  assumes "edit_body k x obj a b r p now c l = Inr (res, l')" and ok: "ledger_ok l"
  shows "moved (lifecycle True) (lg_goals l) (lg_goals l')"
proof -
  obtain seen bound l1 g' where
      seen: "require_expected k x l = Inr seen"
    and edit: "apply_edit k x obj r p bound now (or_row (select_goal_id (go_id seen)
        (refresh_coverage (go_id seen) l)) seen) (refresh_coverage (go_id seen) l) = Inr l1"
    and ans: "answer c g' (offer_update k a g' now (case bound of None \<Rightarrow> l1
       | Some row \<Rightarrow> write_details (tk_id row)
           (bind_details row (goal_turn_context g' (tk_id row) False)) now l1)) = Inr (res, l')"
    using assms(1) unfolding edit_body_def Let_def and_then_Inr checked_Inr by blast
  have sel: "select_goal k l = Some seen" using seen by (auto simp: require_expected_def checked_Inr)
  have "moved (lifecycle True) (lg_goals (refresh_coverage (go_id seen) l)) (lg_goals l1)"
    using apply_edit_moved [OF edit _ refreshed_mem [OF sel] refreshed_fence [OF seen ok]] ok by simp
  moreover have "lg_goals l' = lg_goals l1" using goals_of_answer [OF ans] by (simp split: option.splits)
  ultimately show ?thesis by simp
qed

lemma edit_moved:
  "edit_goal k x obj c a b r p now l = Inr (res, l') \<Longrightarrow> ledger_ok l \<Longrightarrow> moved (lifecycle True) (lg_goals l) (lg_goals l')"
  by (auto simp: edit_goal_def Let_def split: if_splits elim!: moved_replay intro: edit_body_moved)

section \<open>Tasks\<close>

lemma fresh_source: "go_id (adopt_source d g) = go_id g"
  by (simp add: adopt_source_def split: option.splits)

text \<open>A creation leaves the new Goal beside what was there.\<close>

definition created :: "string \<Rightarrow> goal list \<Rightarrow> goal list \<Rightarrow> bool" where
  "created i gs gs' \<longleftrightarrow> (\<forall>g' \<in> set gs'. g' \<in> set gs \<or> go_id g' = i)"

lemma insert_goal_rows: "insert_goal g l = Inr l' \<Longrightarrow> lg_goals l' = lg_goals l @ [g]"
  by (auto simp: insert_goal_def put_goals_Inr split: if_splits)

lemma insert_for_task_created:
  "insert_for_task g t current l = Inr (g', l') \<Longrightarrow> created (go_id g) (lg_goals l) (lg_goals l')"
  by (cases current)
     (auto simp: insert_for_task_def Let_def checked_Inr created_def fresh_source delete_goals_def delete_where_def
       dest!: insert_goal_rows)

lemma create_for_task_created:
  "create_for_task g t l = Inr (g', l') \<Longrightarrow> created (go_id g) (lg_goals l) (lg_goals l')"
  unfolding create_for_task_def Let_def and_then_Inr
  by (elim exE conjE, simp split: option.splits if_splits)
     (auto dest!: insert_for_task_created simp: created_def)

lemma start_goal_created:
  "start_goal g row k m l = Inr (r, l') \<Longrightarrow> created (go_id g) (lg_goals l) (lg_goals l')"
  by (cases "select_goal k l")
     (auto simp: start_goal_def Let_def checked_Inr created_def delete_goals_def delete_where_def
       dest!: goals_of_receipts insert_goal_rows)

lemma new_goal_id: "new_goal i k sid epoch obj t m now = Inr g \<Longrightarrow> go_id g = i"
  unfolding new_goal_def Let_def by (auto split: sum.split_asm if_split_asm option.split_asm)

lemma accept_continuation_cases:
  assumes "accept_continuation h guard x n row m b now l = Inr (r, l')"
  obtains (pause) i g reason where "update_goals (idle_fence g) (guardrail_row reason now) (refresh_coverage i l) = Inr l'"
    | (run) i g l1 where "lg_goals l1 = lg_goals (refresh_coverage i l)" "g \<in> set (lg_goals l1)"
        "update_goals (idle_fence g) (continued_row (tk_id row) (go_seq g + 1) now) l1 = Inr l'"
proof -
  let ?k = "canonical_key (tk_session_key row)"
  obtain seen where seen: "select_goal ?k l = Some seen"
    using assms by (auto simp: accept_continuation_def Let_def checked_Inr require_expected_def)
  let ?l = "refresh_coverage (go_id seen) l" and ?g = "or_row (select_goal_id (go_id seen)
      (refresh_coverage (go_id seen) l)) seen"
  consider reason where "update_goals (idle_fence ?g) (guardrail_row reason now) ?l = Inr l'"
    | d l1 where "insert_task (row\<lparr>tk_session_key := ?k, tk_details := d\<rparr>) ?l = Inr l1"
        "update_goals (idle_fence ?g) (continued_row (tk_id row) (go_seq ?g + 1) now) l1 = Inr l'"
    using assms seen
    by (auto simp: accept_continuation_def Let_def checked_Inr require_expected_def split: option.splits)
  then show ?thesis
  proof cases
    case 1
    then show ?thesis by (rule pause)
  next
    case 2
    have "lg_goals l1 = lg_goals ?l" using goals_of_receipts(2) [OF 2(1)] .
    moreover from this have "?g \<in> set (lg_goals l1)" using refreshed_mem [OF seen] by simp
    ultimately show ?thesis using 2(2) by (rule run)
  qed
qed

lemma continuation_moved:
  assumes "accept_continuation h guard x n row m b now l = Inr (r, l')" and ok: "ledger_ok l"
  shows "moved (lifecycle u) (lg_goals l) (lg_goals l')"
  using assms(1)
proof (cases rule: accept_continuation_cases)
  case (pause i g reason)
  have "moved (lifecycle u) (lg_goals (refresh_coverage i l)) (lg_goals l')"
    by (rule moved_update [OF pause]) (auto simp: idle_fence_def intro: moves_rows)
  then show ?thesis by simp
next
  case (run i g l1)
  have unique: "r = g" if "r \<in> set (lg_goals l1)" "idle_fence g r" for r
  proof (rule goal_of_key)
    show "ledger_ok (refresh_coverage i l)" using ok by simp
  qed (use run(1,2) that in \<open>auto simp: idle_fence_def fenced_def\<close>)
  have "moved (lifecycle u) (lg_goals l1) (lg_goals l')"
    by (rule moved_update [OF run(3)]) (drule (1) unique, simp_all add: plain_rows)
  then show ?thesis using run(1) by simp
qed

lemma claim_queued_moved:
  "claim_queued cand t mode now l = Inr (r, l') \<Longrightarrow> moved (lifecycle u) (lg_goals l) (lg_goals l')"
proof (erule claim_queued_cases)
  fix k i j d
  assume "update_goals (\<lambda>r. go_session_key r = k \<and> go_id r = i \<and> go_active_task r = None)
      (claimed_row t now) (write_details t d now (refresh_coverage j l)) = Inr l'"
  then have "moved (lifecycle u) (lg_goals (write_details t d now (refresh_coverage j l))) (lg_goals l')"
    by (rule moved_update) (auto intro: moves_rows)
  then show ?thesis by simp
qed (simp_all add: moved_refl)

text \<open>The row of a task's transactions is the one that its context names.\<close>

lemma commit_moved:
  assumes "commit_terminal c st reason now l = Inr (g, l')" and ok: "ledger_ok l"
  shows "moved (lifecycle u) (lg_goals l) (lg_goals l')"
proof -
  consider "l' = l" | row x where "select_goal_id (cx_goal_id c) l = Some row" "go_status row \<in> {GActive, GPaused}"
      "st \<in> {GComplete, GBlocked, GPaused}"
      "update_goals (\<lambda>r. go_id r = cx_goal_id c \<and> go_objective_revision r = cx_objective_revision c
        \<and> go_active_task r = Some (cx_task_id c)) (terminal_row st (cx_task_id c) x now) l = Inr l'"
    using assms(1) unfolding commit_terminal_def by (auto simp: checked_Inr split: if_split_asm)
  then show ?thesis
  proof cases
    case 2
    have row: "row \<in> set (lg_goals l)" "go_id row = cx_goal_id c" using select_goal_id_mem [OF 2(1)] by auto
    show ?thesis
    proof (rule moved_update [OF 2(4)])
      fix r assume "r \<in> set (lg_goals l)" "go_id r = cx_goal_id c \<and> go_objective_revision r = cx_objective_revision c
        \<and> go_active_task r = Some (cx_task_id c)"
      then have "r = row" using goal_of_id [OF ok row(1)] row(2) by simp
      then show "moves (lifecycle u) r (terminal_row st (cx_task_id c) x now r)"
        using 2(2,3) by (auto intro!: moves_rows simp: lifecycle_def)
    qed simp
  qed (simp add: moved_refl)
qed

lemma settle_moved:
  assumes "settle_task c m b us s r now l = Inr (g, l')" and ok: "ledger_ok l"
  shows "moved (lifecycle u) (lg_goals l) (lg_goals l')"
proof -
  let ?l = "refresh_coverage (cx_goal_id c) l"
  consider "l' = ?l" | row t d usage where "select_goal_id (cx_goal_id c) ?l = Some row"
      "classify_end t (go_objective_revision row = cx_objective_revision c) us s r m b
         (go_window_ms row + run_duration t) row = Inr d"
      "update_goals (owned_by c) (settled_row c usage (run_duration t) now d) ?l = Inr l'"
    using assms(1) unfolding settle_task_def Let_def
    by (simp add: checked_Inr split: option.split_asm if_split_asm) blast+
  then show ?thesis
  proof cases
    case 2
    have row: "row \<in> set (lg_goals ?l)" "go_id row = cx_goal_id c" using select_goal_id_mem [OF 2(1)] by auto
    have d: "lifecycle u (go_status row) (go_status d)"
    proof (cases "go_status row = GActive")
      case False
      then have "go_status d = go_status row" using 2(2) by (auto simp: classify_end_def Let_def split: if_splits)
      then show ?thesis by simp
    qed simp
    have "moved (lifecycle u) (lg_goals ?l) (lg_goals l')"
    proof (rule moved_update [OF 2(3)])
      fix r assume "r \<in> set (lg_goals ?l)" "owned_by c r"
      then have "r = row" using goal_of_id [of ?l row r] row ok by (simp add: owned_by_def)
      then show "moves (lifecycle u) r (settled_row c usage (run_duration t) now d r)"
        using d by (auto intro!: moves_rows)
    qed simp
    then show ?thesis by simp
  qed (simp add: moved_refl)
qed

lemma compensate_moved:
  assumes "compensate_task c reason p now l = Inr (g, l')" and ok: "ledger_ok l"
  shows "moved (lifecycle u) (lg_goals l) (lg_goals l')"
  using assms(1)
proof (cases rule: compensate_task_cases)
  case (3 row w us d)
  let ?l = "abandon_task (cx_task_id c) reason now l"
  have row: "row \<in> set (lg_goals ?l)" "go_id row = cx_goal_id c" using select_goal_id_mem [OF 3(1)] by auto
  have "moved (lifecycle u) (lg_goals ?l) (lg_goals l')"
  proof (rule moved_update [OF 3(2)])
    fix r assume "r \<in> set (lg_goals ?l)" "owned_by c r"
    then have "r = row" using goal_of_id [of ?l row r] row ok by (simp add: owned_by_def)
    then show "moves (lifecycle u) r (compensated_row c reason (p \<or> go_status row \<in> {GComplete, GBlocked}) w us d now r)"
      by (cases "go_status row") (auto intro!: moves_rows simp: lifecycle_def)
  qed simp
  then show ?thesis by simp
qed (simp_all add: moved_refl)

section \<open>The system, progress and recovery\<close>

lemma system_pause_moved:
  assumes "pause_for_system k i n reason now l = Inr (g, l')" and ok: "ledger_ok l"
  shows "moved (lifecycle u) (lg_goals l) (lg_goals l')"
proof -
  consider "l' = l" | row s where "select_goal (canonical_key k) l = Some row" "go_status row = GActive"
      "update_goals (fenced (canonical_key k) i n) (system_paused_row s now) l = Inr l'"
    using assms(1) by (auto simp: pause_for_system_def Let_def split: option.splits if_splits)
  then show ?thesis
  proof cases
    case 2
    have row: "row \<in> set (lg_goals l)" "go_session_key row = canonical_key k" using select_goal_mem [OF 2(1)] by auto
    show ?thesis
    proof (rule moved_update [OF 2(3)])
      fix r assume "r \<in> set (lg_goals l)" "fenced (canonical_key k) i n r"
      then have "r = row" using goal_of_key [OF ok row(1)] row(2) by (simp add: fenced_def)
      then show "moves (lifecycle u) r (system_paused_row s now r)" using 2(2) by (auto intro!: moves_rows)
    qed simp
  qed (simp add: moved_refl)
qed

lemma epoch_moved: "increment_epoch k l = Inr (n, l') \<Longrightarrow> moved (lifecycle u) (lg_goals l) (lg_goals l')"
  by (auto simp: increment_epoch_def Let_def delete_goals_def delete_where_def moved_filter split: option.splits)

lemma usage_moved: "account_usage i v now l = Inr (x, l') \<Longrightarrow> moved (lifecycle u) (lg_goals l) (lg_goals l')"
  by (auto simp: account_usage_def) (erule moved_update; simp add: moves_def stamped_def)

lemma goals_of_runs:
  "update_runs P f l = Inr l' \<Longrightarrow> lg_goals l' = lg_goals l" "put_runs rs l = Inr l' \<Longrightarrow> lg_goals l' = lg_goals l"
  by (auto simp: update_runs_def put_runs_Inr)

lemma moved_same [simp]: "moved (lifecycle u) gs gs"
  by (rule moved_refl) simp_all

lemma progress_step:
  "update_goals P (progressed_goal v now) l = Inr l' \<Longrightarrow> moved (lifecycle u) (lg_goals l) (lg_goals l')"
  by (erule moved_update) (auto intro: moves_rows)

lemma progress_moved:
  "update_progress t k sid e steps ex now l = Inr (x, l') \<Longrightarrow> moved (lifecycle u) (lg_goals l) (lg_goals l')"
  unfolding update_progress_def Let_def
  by (auto simp: checked_Inr split: option.splits dest!: goals_of_runs(1) progress_step [where u = u])

lemma demotes_trans: "demotes s s' \<Longrightarrow> demotes s' s'' \<Longrightarrow> demotes s s''"
  by (auto simp: demotes_def)

lemma settle_owners_moved: "settle_owners reason now ps l = Inr l' \<Longrightarrow> moved demotes (lg_goals l) (lg_goals l')"
proof (induction ps arbitrary: l)
  case (Cons p ps)
  then obtain l1 where l1: "settle_owner reason now p l = Inr l1" "settle_owners reason now ps l1 = Inr l'"
    by auto
  have "moved demotes (lg_goals l) (lg_goals l1)" using l1(1)
    by (auto simp: settle_owner_def moved_refl split: option.splits elim!: moved_update intro: moves_rows)
  then show ?case by (rule moved_trans [OF _ Cons.IH [OF l1(2)] demotes_trans])
qed (simp add: moved_refl)

lemma restart_demotes:
  assumes "restart reason now l = Inr (x, l')"
  shows "moved demotes (lg_goals l) (lg_goals l')"
proof -
  obtain l2 l3 where s: "settle_owners reason now (goal_owners l) (l\<lparr>lg_tasks := map (restarted_task now) (lg_tasks l)\<rparr>) = Inr l2"
      "update_goals (\<lambda>g. go_status g = GActive \<or> go_active_task g \<noteq> None) (released_row reason now) l2 = Inr l3"
      "lg_goals l' = lg_goals l3"
    using assms by (auto simp: restart_def Let_def checked_Inr dest!: goals_of_runs)
  have "moved demotes (lg_goals l) (lg_goals l2)" using settle_owners_moved [OF s(1)] by simp
  moreover have "moved demotes (lg_goals l2) (lg_goals l3)"
    by (rule moved_update [OF s(2)]) (auto intro: moves_rows)
  ultimately have "moved demotes (lg_goals l) (lg_goals l3)"
    by (rule moved_trans [OF _ _ demotes_trans])
  then show ?thesis using s(3) by simp
qed

lemma restart_moved:
  assumes "restart reason now l = Inr (x, l')"
  shows "moved (lifecycle u) (lg_goals l) (lg_goals l')"
  by (rule moved_mono [OF restart_demotes [OF assms]]) (auto simp: demotes_def)

lemma goals_of_plans:
  "create_revision v p stamp l = Inr (a, l') \<Longrightarrow> lg_goals l' = lg_goals l"
  "start_run r states now l = Inr (b, l') \<Longrightarrow> lg_goals l' = lg_goals l"
  "supersede_active k reason now l = Inr (d, l') \<Longrightarrow> lg_goals l' = lg_goals l"
  "write_run i n f l = Inr (b, l') \<Longrightarrow> lg_goals l' = lg_goals l"
  by (auto simp: create_revision_def start_run_def resume_run_def insert_run_def supersede_active_def write_run_def
      Let_def checked_Inr split: option.splits if_splits dest!: goals_of_runs)

lemma goals_of_run_steps:
  "mark_running i n t now l = Inr (b, l') \<Longrightarrow> lg_goals l' = lg_goals l"
  "complete_run i n t now l = Inr (b, l') \<Longrightarrow> lg_goals l' = lg_goals l"
  "pause_run i n reason x kind d now l = Inr (b, l') \<Longrightarrow> lg_goals l' = lg_goals l"
  "cancel_run i n reason x now l = Inr (b, l') \<Longrightarrow> lg_goals l' = lg_goals l"
  by (auto simp: mark_running_def complete_run_def pause_run_def cancel_run_def checked_Inr
      split: option.splits if_splits dest!: goals_of_plans(4))

lemma goals_of_updates:
  "claim_update v now l = Inr (r, l') \<Longrightarrow> lg_goals l' = lg_goals l"
  "apply_update v i call now l = Inr (r, l') \<Longrightarrow> lg_goals l' = lg_goals l"
  by (auto simp: claim_update_def apply_update_def Let_def split: option.split_asm prod.split_asm)

section \<open>Every step\<close>

fun creates :: "op \<Rightarrow> string option" where
  "creates (OCreate i _ _ _ _ _ _) = Some i"
| "creates (OStart i _ _ _ _ _ _ _) = Some i"
| "creates _ = None"

text \<open>The commands by which a user sets a Goal going again.\<close>

fun by_user :: "op \<Rightarrow> bool" where
  "by_user (OEdit _ _ _ _ _ _ _ _ _) = True"
| "by_user (OResume _ _ _ _) = True"
| "by_user _ = False"

lemma execute_moved:
  "execute a l = Inr l' \<Longrightarrow> ledger_ok l \<Longrightarrow> creates a = None \<Longrightarrow> moved (lifecycle (by_user a)) (lg_goals l) (lg_goals l')"
  by (cases a; simp only: execute.simps creates.simps by_user.simps option.distinct drop_value_Inr
        defer_continuation_def compensate_activation_def compensate_persistence_def checked_Inr sum.inject;
      (elim exE conjE)?;
      (erule (1) edit_moved | erule (1) pause_moved | erule resume_moved | erule clear_moved
      | erule (1) continuation_moved | erule claim_queued_moved | erule (1) commit_moved | erule (1) settle_moved
      | erule (1) compensate_moved | erule (1) system_pause_moved | erule epoch_moved | erule usage_moved
      | erule progress_moved | erule restart_moved
      | clarsimp simp: goals_of_plans goals_of_run_steps goals_of_updates put_sessions_def delete_where_def moved_filter))

lemma execute_created:
  "execute a l = Inr l' \<Longrightarrow> creates a = Some i \<Longrightarrow> created i (lg_goals l) (lg_goals l')"
  by (cases a) (auto dest!: create_for_task_created start_goal_created new_goal_id)

lemma step_moved:
  assumes "ledger_ok l" and g': "g' \<in> set (lg_goals (ledger_step a l))" and "creates a \<noteq> Some (go_id g')"
  shows "\<exists>g \<in> set (lg_goals l). moves (lifecycle (by_user a)) g g'"
proof (cases "execute a l")
  case (Inl e)
  then show ?thesis using g' moves_refl [of "lifecycle (by_user a)" g'] by (auto simp: ledger_step_def)
next
  case (Inr l')
  have g': "g' \<in> set (lg_goals l')" using g' Inr by (simp add: ledger_step_def)
  show ?thesis
  proof (cases "creates a")
    case None
    then show ?thesis using execute_moved [OF Inr assms(1)] g' by (simp add: moved_def)
  next
    case (Some i)
    then have "g' \<in> set (lg_goals l)" using execute_created [OF Inr Some] g' assms(3) by (auto simp: created_def)
    then show ?thesis using moves_refl [of "lifecycle (by_user a)" g'] by auto
  qed
qed

lemma run_moved:
  assumes "ledger_ok l" and "g' \<in> set (lg_goals (fold ledger_step ops l))" and "\<forall>a \<in> set ops. creates a \<noteq> Some (go_id g')"
  shows "\<exists>g \<in> set (lg_goals l). moves any_status g g'"
  using assms
proof (induction ops arbitrary: l)
  case Nil
  have "moves any_status g' g'" by (simp add: moves_refl any_status_def)
  then show ?case using Nil by auto
next
  case (Cons a ops)
  have later: "g' \<in> set (lg_goals (fold ledger_step ops (ledger_step a l)))"
    "\<forall>a \<in> set ops. creates a \<noteq> Some (go_id g')" using Cons.prems(2,3) by simp_all
  obtain g1 where g1: "g1 \<in> set (lg_goals (ledger_step a l))" "moves any_status g1 g'"
    using Cons.IH [OF ledger_step_ok [OF Cons.prems(1)] later] by blast
  have "go_id g1 = go_id g'" using g1(2) by (simp add: moves_def)
  then obtain g where g: "g \<in> set (lg_goals l)" "moves (lifecycle (by_user a)) g g1"
    using step_moved [OF Cons.prems(1) g1(1)] Cons.prems(3) by auto
  have "moves any_status g g'" by (rule moves_trans [OF g(2) g1(2)]) (simp add: any_status_def)
  then show ?case using g(1) by blast
qed

end
