(* ===== verification/Run_Moves.thy ===== *)
theory Run_Moves
  imports Session_Moves
begin

text \<open>
  What one transition may do to a plan run: its identity stays, every change raises the state revision,
  and a run that has ended stays as it ended, but for one branch of \<open>mark_plan_run_running\<close>.
\<close>

section \<open>Goal transactions leave the runs alone\<close>

lemma runs_of_goals:
  "update_goals P f l = Inr l' \<Longrightarrow> lg_runs l' = lg_runs l" "put_goals gs l = Inr l' \<Longrightarrow> lg_runs l' = lg_runs l"
  "insert_goal g l = Inr l' \<Longrightarrow> lg_runs l' = lg_runs l"
  by (auto simp: update_goals_def insert_goal_def put_goals_Inr split: if_splits)

lemma runs_of_tasks [simp]:
  "lg_runs (update_task i f l) = lg_runs l" "lg_runs (write_details i d now l) = lg_runs l"
  "lg_runs (abandon_task i reason now l) = lg_runs l" "lg_runs (offer_update k x g now l) = lg_runs l"
  "lg_runs (refresh_coverage i l) = lg_runs l" "lg_runs (delete_goals D l) = lg_runs l"
  by (simp_all add: update_task_def write_details_def abandon_task_def offer_update_def refresh_coverage_def
      delete_goals_def Let_def split: option.splits)

lemma runs_of_receipts:
  "insert_receipt c sid e response l = Inr l' \<Longrightarrow> lg_runs l' = lg_runs l"
  "insert_task t l = Inr l' \<Longrightarrow> lg_runs l' = lg_runs l"
  "revoke_update g l = Inr l' \<Longrightarrow> lg_runs l' = lg_runs l"
  by (auto simp: insert_receipt_def insert_task_def revoke_update_def split: if_splits option.splits sum.splits)

lemma runs_of_answer: "answer c g l = Inr (r, l') \<Longrightarrow> lg_runs l' = lg_runs l"
  by (auto simp: answer_def Let_def dest: runs_of_receipts)

lemma runs_of_replay:
  assumes "with_replay c action k body l = Inr (r, l')"
    and "\<And>c' r. body c' l = Inr (r, l') \<Longrightarrow> lg_runs l' = lg_runs l"
  shows "lg_runs l' = lg_runs l"
  using assms by (auto simp: with_replay_def split: option.splits)

lemmas runs_of = runs_of_goals runs_of_receipts runs_of_answer

lemma runs_of_commands:
  "pause_goal k x c reason now l = Inr (r, l') \<Longrightarrow> lg_runs l' = lg_runs l"
  "resume_goal k x c now l = Inr (r, l') \<Longrightarrow> lg_runs l' = lg_runs l"
  "clear_goal k x c l = Inr (r, l') \<Longrightarrow> lg_runs l' = lg_runs l"
  by (auto simp: pause_goal_def resume_goal_def clear_goal_def Let_def checked_Inr dest!: runs_of elim!: runs_of_replay)

lemma runs_of_edit: "edit_goal k x obj c a b r p now l = Inr (res, l') \<Longrightarrow> lg_runs l' = lg_runs l"
  by (auto simp: edit_goal_def edit_body_def apply_edit_def Let_def checked_Inr
      dest!: runs_of split: if_splits option.splits elim!: runs_of_replay)

lemma runs_of_creation:
  "create_for_task g t l = Inr (g', l') \<Longrightarrow> lg_runs l' = lg_runs l"
  "start_goal g row k m l = Inr (r, l') \<Longrightarrow> lg_runs l' = lg_runs l"
  by (auto simp: create_for_task_def insert_for_task_def start_goal_def Let_def checked_Inr
      dest!: runs_of split: option.splits if_splits)

lemma runs_of_work:
  "accept_continuation h guard x n row m b now l = Inr (y, l') \<Longrightarrow> lg_runs l' = lg_runs l"
  "claim_queued cand t mode now l = Inr (z, l') \<Longrightarrow> lg_runs l' = lg_runs l"
  "commit_terminal c st reason now l = Inr (g, l') \<Longrightarrow> lg_runs l' = lg_runs l"
proof -
  show "accept_continuation h guard x n row m b now l = Inr (y, l') \<Longrightarrow> lg_runs l' = lg_runs l"
    by (auto simp: accept_continuation_def Let_def checked_Inr dest!: runs_of split: option.splits)
  show "claim_queued cand t mode now l = Inr (z, l') \<Longrightarrow> lg_runs l' = lg_runs l"
    by (erule claim_queued_cases) (auto dest!: runs_of)
  show "commit_terminal c st reason now l = Inr (g, l') \<Longrightarrow> lg_runs l' = lg_runs l"
    by (erule commit_terminal_cases) (auto dest!: runs_of)
qed

lemma runs_of_ends:
  "settle_task c m b us s r now l = Inr (v, l') \<Longrightarrow> lg_runs l' = lg_runs l"
  "compensate_task c reason p now l = Inr (v, l') \<Longrightarrow> lg_runs l' = lg_runs l"
  "pause_for_system k i n why now l = Inr (v, l') \<Longrightarrow> lg_runs l' = lg_runs l"
  "increment_epoch k l = Inr (e, l') \<Longrightarrow> lg_runs l' = lg_runs l"
  "account_usage i u now l = Inr (x, l') \<Longrightarrow> lg_runs l' = lg_runs l"
proof -
  show "settle_task c m b us s r now l = Inr (v, l') \<Longrightarrow> lg_runs l' = lg_runs l"
    unfolding settle_task_def Let_def
    by (auto simp: checked_Inr dest!: runs_of split: option.split_asm if_split_asm)
  show "compensate_task c reason p now l = Inr (v, l') \<Longrightarrow> lg_runs l' = lg_runs l"
    by (erule compensate_task_cases) (auto dest!: runs_of)
qed (auto simp: pause_for_system_def increment_epoch_def account_usage_def Let_def dest!: runs_of
      split: option.splits if_splits)

lemma runs_of_updates:
  "claim_update v now l = Inr (r, l') \<Longrightarrow> lg_runs l' = lg_runs l"
  "apply_update v i call now l = Inr (r, l') \<Longrightarrow> lg_runs l' = lg_runs l"
  by (auto simp: claim_update_def apply_update_def Let_def split: option.split_asm prod.split_asm)

section \<open>Moves of a run\<close>

definition run_moves :: "(plan_run \<Rightarrow> plan_run \<Rightarrow> bool) \<Rightarrow> plan_run \<Rightarrow> plan_run \<Rightarrow> bool" where
  "run_moves Z r r' \<longleftrightarrow>
     pn_id r' = pn_id r \<and> pn_session_key r' = pn_session_key r \<and> pn_session_id r' = pn_session_id r
   \<and> pn_epoch r' = pn_epoch r \<and> pn_revision_id r' = pn_revision_id r \<and> pn_created r' = pn_created r
   \<and> (r' = r \<or> pn_state_revision r < pn_state_revision r') \<and> (is_active r \<or> r' = r \<or> Z r r')"

definition never :: "plan_run \<Rightarrow> plan_run \<Rightarrow> bool" where
  "never r r' \<longleftrightarrow> False"

lemma run_moves_refl [simp]: "run_moves Z r r"
  by (simp add: run_moves_def)

lemma run_moves_trans: "run_moves never r r' \<Longrightarrow> run_moves never r' r'' \<Longrightarrow> run_moves never r r''"
  by (auto simp: run_moves_def never_def)

lemma run_moves_never: "run_moves never r r' \<Longrightarrow> run_moves Z r r'"
  by (auto simp: run_moves_def never_def)

lemma run_row_moves:
  assumes "is_active r \<or> Z r (superseded_row s now r)"
  shows "run_moves Z r (superseded_row s now r)"
  using assms by (auto simp: run_moves_def superseded_row_def)

lemma active_row_moves:
  assumes "is_active r"
  shows "run_moves Z r (requeued_row t now r)" "run_moves Z r (running_row t now r)"
    "run_moves Z r (completed_row now r)" "run_moves Z r (paused_run_row s now r)"
    "run_moves Z r (cancelled_row s now r)" "run_moves Z r (progressed_run steps now r)"
    "run_moves Z r (paused_for s now r)" "run_moves Z r (superseded_row s now r)"
  using assms by (simp_all add: run_moves_def requeued_row_def running_row_def completed_row_def paused_run_row_def
      cancelled_row_def progressed_run_def paused_for_def superseded_row_def)

lemma run_moves_raise:
  "is_active r \<Longrightarrow> pn_state_revision r < pn_state_revision r' \<Longrightarrow>
     (pn_id r', pn_session_key r', pn_session_id r', pn_epoch r', pn_revision_id r', pn_created r')
       = (pn_id r, pn_session_key r, pn_session_id r, pn_epoch r, pn_revision_id r, pn_created r) \<Longrightarrow>
     run_moves Z r r'"
  by (simp add: run_moves_def)

lemma reconciled_moves: "run_moves Z r (reconcile_run l now r)"
proof (cases "pn_status r \<in> {RQueued, RRunning}")
  case True
  then have active: "is_active r" by (auto simp: is_active_def run_active_def)
  have "run_moves Z r ((cancelled_row s now r)\<lparr>pn_pause_reason := None\<rparr>)"
    "run_moves Z r ((paused_run_row s now r)\<lparr>pn_finished := None\<rparr>)" for s
    by (rule run_moves_raise [OF active]; simp add: paused_run_row_def cancelled_row_def)+
  then show ?thesis using True active_row_moves [OF active] unfolding reconcile_run_def
    by (auto split: option.split)
qed (simp add: reconcile_run_def)

section \<open>Tables of runs\<close>

definition runs_moved :: "(plan_run \<Rightarrow> plan_run \<Rightarrow> bool) \<Rightarrow> plan_run list \<Rightarrow> plan_run list \<Rightarrow> bool" where
  "runs_moved Z rs rs' \<longleftrightarrow>
     (\<forall>r' \<in> set rs'. (\<exists>r \<in> set rs. run_moves Z r r') \<or> pn_id r' \<notin> set (map pn_id rs))"

lemma runs_moved_same [simp]: "runs_moved Z rs rs"
  unfolding runs_moved_def using run_moves_refl by blast

lemma runs_moved_update:
  assumes "update_runs P f l = Inr l'" and "\<And>r. r \<in> set (lg_runs l) \<Longrightarrow> P r \<Longrightarrow> run_moves Z r (f r)"
  shows "runs_moved Z (lg_runs l) (lg_runs l')"
  using assms(1) by (auto simp: update_runs_def put_runs_Inr runs_moved_def set_update_where
      intro: assms(2) run_moves_refl)

lemma run_moves_id: "run_moves Z r r' \<Longrightarrow> pn_id r' = pn_id r"
  by (simp add: run_moves_def)

lemma runs_moved_trans:
  assumes "runs_moved never rs rs'" "runs_moved never rs' rs''" and "set (map pn_id rs') \<supseteq> set (map pn_id rs)"
  shows "runs_moved never rs rs''"
  unfolding runs_moved_def
proof (intro ballI)
  fix r'' assume r'': "r'' \<in> set rs''"
  show "(\<exists>r \<in> set rs. run_moves never r r'') \<or> pn_id r'' \<notin> set (map pn_id rs)"
  proof (cases "pn_id r'' \<in> set (map pn_id rs)")
    case True
    then obtain r' where r': "r' \<in> set rs'" "run_moves never r' r''"
      using assms(2,3) r'' unfolding runs_moved_def by blast
    then obtain r where r: "r \<in> set rs" "run_moves never r r'"
      using assms(1) True run_moves_id [OF r'(2)] unfolding runs_moved_def by metis
    then show ?thesis using run_moves_trans [OF r(2) r'(2)] by blast
  qed simp
qed

lemma runs_moved_never: "runs_moved never rs rs' \<Longrightarrow> runs_moved Z rs rs'"
  unfolding runs_moved_def by (meson run_moves_never)

lemma update_run_ids:
  assumes "update_runs P f l = Inr l'" and "\<And>r. pn_id (f r) = pn_id r"
  shows "map pn_id (lg_runs l') = map pn_id (lg_runs l)"
  using assms(1) by (auto simp: update_runs_def put_runs_Inr update_where_def assms(2))

lemma run_of_id:
  "ledger_ok l \<Longrightarrow> r \<in> set (lg_runs l) \<Longrightarrow> x \<in> set (lg_runs l) \<Longrightarrow> pn_id x = pn_id r \<Longrightarrow> x = r"
  by (auto simp: ledger_ok_def runs_unique_def distinct_map inj_on_def)

text \<open>A rewrite of a run that was read as active.\<close>

lemma active_update:
  assumes "update_runs P f l = Inr l'" and "ledger_ok l" "a \<in> set (lg_runs l)" "is_active a"
    and "\<And>r. P r \<Longrightarrow> pn_id r = pn_id a" and "\<And>r. is_active r \<Longrightarrow> run_moves Z r (f r)"
  shows "runs_moved Z (lg_runs l) (lg_runs l')"
  using assms(1)
proof (rule runs_moved_update)
  fix r assume "r \<in> set (lg_runs l)" "P r"
  then have "r = a" using run_of_id [OF assms(2,3)] assms(5) by blast
  then show "run_moves Z r (f r)" using assms(4,6) by blast
qed

section \<open>Plan transactions\<close>

lemma active_run_read:
  "find (\<lambda>r. pn_session_key r = k \<and> is_active r) (lg_runs l) = Some a \<Longrightarrow> a \<in> set (lg_runs l) \<and> is_active a"
  by (drule find_mem) simp

lemma newest_mem: "newest rs = Some r \<Longrightarrow> r \<in> set rs"
proof -
  have "fold (\<lambda>x best. if pn_created best < pn_created x then x else best) xs a \<in> insert a (set xs)" for xs a
  proof (induction xs arbitrary: a)
    case (Cons x xs)
    show ?case using Cons.IH [of "if pn_created a < pn_created x then x else a"] by (auto split: if_splits)
  qed simp
  moreover assume "newest rs = Some r"
  ultimately show ?thesis by (cases rs) (auto simp: newest_def)
qed

lemma active_run_of_read: "active_run_of k l = Some a \<Longrightarrow> a \<in> set (lg_runs l) \<and> is_active a"
  unfolding active_run_of_def by (drule newest_mem) simp

lemma supersede_one:
  assumes "(case old of None \<Rightarrow> Inr l | Some i \<Rightarrow> update_runs (\<lambda>x. pn_id x = i) (superseded_row why s) l) = Inr l'"
    and "ledger_ok l" and "old = map_option pn_id active" and "\<And>a. active = Some a \<Longrightarrow> a \<in> set (lg_runs l) \<and> is_active a"
  shows "runs_moved Z (lg_runs l) (lg_runs l') \<and> map pn_id (lg_runs l') = map pn_id (lg_runs l)"
proof (cases active)
  case None
  then show ?thesis using assms(1,3) by simp
next
  case (Some a)
  then have u: "update_runs (\<lambda>x. pn_id x = pn_id a) (superseded_row why s) l = Inr l'" using assms(1,3) by simp
  have "runs_moved Z (lg_runs l) (lg_runs l')"
    using active_update [OF u assms(2)] assms(4) [OF Some] active_row_moves(8) by blast
  then show ?thesis using update_run_ids [OF u] by (simp add: superseded_row_def)
qed

lemma create_revision_runs:
  assumes "create_revision v p stamp l = Inr (x, l')" and ok: "ledger_ok l"
  shows "runs_moved Z (lg_runs l) (lg_runs l')"
proof -
  let ?active = "find (\<lambda>r. pn_session_key r = pv_session_key v \<and> is_active r) (lg_runs l)"
  consider "l' = l" | vs ss s where "(case map_option pn_id ?active of None \<Rightarrow> Inr (l\<lparr>lg_revisions := vs, lg_sessions := ss\<rparr>)
      | Some i \<Rightarrow> update_runs (\<lambda>x. pn_id x = i) (superseded_row ''superseded_by_new_revision'' s)
          (l\<lparr>lg_revisions := vs, lg_sessions := ss\<rparr>)) = Inr l'"
    using assms(1) unfolding create_revision_def Let_def
    by (cases ?active) (auto simp: checked_Inr split: option.splits if_splits)
  then show ?thesis
  proof cases
    case 2
    then show ?thesis using supersede_one [OF 2 _ refl] active_run_read ok by fastforce
  qed simp
qed

lemma resume_run_runs:
  assumes "resume_run e r now l = Inr (x, l')" and "ledger_ok l" and "select_run (pn_id r) l = Some e"
  shows "runs_moved Z (lg_runs l) (lg_runs l')"
proof -
  have e: "e \<in> set (lg_runs l)" "pn_id e = pn_id r" using find_mem [OF assms(3) [unfolded select_run_def]] by simp_all
  consider "l' = l" | "is_active e" "update_runs (run_fence (pn_id r) (pn_state_revision e)) (requeued_row (incoming_task r) now) l = Inr l'"
    using assms(1) by (auto simp: resume_run_def checked_Inr is_active_def run_active_def split: if_splits)
  then show ?thesis
  proof cases
    case 2
    show ?thesis by (rule active_update [OF 2(2) assms(2) e(1) 2(1)]) (auto simp: run_fence_def e active_row_moves)
  qed simp
qed

lemma prepared_id: "prepare_plan_run r states v = Inr p \<Longrightarrow> pn_id p = pn_id r"
  using prepare_run_fields by blast

lemma insert_run_runs:
  assumes "insert_run r states now l = Inr (x, l')" and ok: "ledger_ok l" and new: "select_run (pn_id r) l = None"
  shows "runs_moved Z (lg_runs l) (lg_runs l')"
proof -
  obtain v p s l1 where p: "prepare_plan_run r states v = Inr p"
    and old: "(case map_option pn_id (active_run_of (pn_session_key r) l) of None \<Rightarrow> Inr l
       | Some i \<Rightarrow> update_runs (\<lambda>x. pn_id x = i) (superseded_row ''superseded_by_new_run'' s) l) = Inr l1"
    and put: "put_runs (lg_runs l1 @ [p\<lparr>pn_supersedes := map_option pn_id (active_run_of (pn_session_key r) l),
        pn_created := s, pn_updated := s\<rparr>]) l1 = Inr l'"
    using assms(1) unfolding insert_run_def Let_def and_then_Inr checked_Inr
    by (elim exE conjE) (erule that, assumption, simp only: prod.inject sum.inject)
  have moved: "runs_moved Z (lg_runs l) (lg_runs l1)"
    using supersede_one [OF old ok refl] active_run_of_read by blast
  have "pn_id p = pn_id r" using p by (rule prepared_id)
  moreover have "pn_id r \<notin> set (map pn_id (lg_runs l))"
    using new by (auto simp: select_run_def find_None_iff)
  ultimately show ?thesis using moved put by (auto simp: put_runs_Inr runs_moved_def)
qed

lemma start_run_runs: "start_run r states now l = Inr (x, l') \<Longrightarrow> ledger_ok l \<Longrightarrow> runs_moved Z (lg_runs l) (lg_runs l')"
  unfolding start_run_def Let_def
  by (auto split: option.splits dest: insert_run_runs resume_run_runs)

lemma supersede_active_runs:
  "supersede_active k reason now l = Inr (x, l') \<Longrightarrow> runs_moved Z (lg_runs l) (lg_runs l')"
  by (auto simp: supersede_active_def Let_def elim!: runs_moved_update intro: active_row_moves)

text \<open>The revision that a run executes is no longer the active one of its session.\<close>

definition left_behind :: "plan_run \<Rightarrow> ledger \<Rightarrow> bool" where
  "left_behind r l \<longleftrightarrow>
     (case find (\<lambda>s. se_key s = pn_session_key r \<and> se_session_id s = pn_session_id r
              \<and> se_epoch s = pn_epoch r) (lg_sessions l) of
        None \<Rightarrow> True | Some s \<Rightarrow> se_active_revision s \<noteq> Some (pn_revision_id r))"

definition stale_claim :: "op \<Rightarrow> ledger \<Rightarrow> plan_run \<Rightarrow> plan_run \<Rightarrow> bool" where
  "stale_claim a l r r' \<longleftrightarrow>
     (case a of
        OMarkRunning i n t now \<Rightarrow>
          i = pn_id r \<and> n = pn_state_revision r \<and> left_behind r l
          \<and> r' = superseded_row ''stale_plan_revision'' now r
      | _ \<Rightarrow> False)"

lemma loaded_run:
  "load_run i n l = Inr r \<Longrightarrow> r \<in> set (lg_runs l) \<and> pn_id r = i \<and> pn_state_revision r = n"
  unfolding load_run_def select_run_def by (auto simp: checked_Inr dest!: find_mem)

lemma write_run_runs:
  assumes "write_run i n f l = Inr (x, l')" and "ledger_ok l" and "load_run i n l = Inr r" and "run_moves Z r (f r)"
  shows "runs_moved Z (lg_runs l) (lg_runs l')"
proof -
  have u: "update_runs (run_fence i n) f l = Inr l'" using assms(1) by (auto simp: write_run_def)
  show ?thesis
  proof (rule runs_moved_update [OF u])
    fix y assume "y \<in> set (lg_runs l)" "run_fence i n y"
    then have "y = r" using run_of_id [OF assms(2)] loaded_run [OF assms(3)] by (simp add: run_fence_def)
    then show "run_moves Z y (f y)" using assms(4) by simp
  qed
qed

lemma mark_running_runs:
  assumes "mark_running i n t now l = Inr (x, l')" and ok: "ledger_ok l"
  shows "runs_moved (stale_claim (OMarkRunning i n t now) l) (lg_runs l) (lg_runs l')"
proof -
  obtain r where r: "load_run i n l = Inr r"
    and w: "left_behind r l \<and> write_run i n (superseded_row ''stale_plan_revision'' now) l = Inr (x, l')
      \<or> is_active r \<and> write_run i n (running_row t now) l = Inr (x, l')"
    using assms(1)
    by (auto simp: mark_running_def left_behind_def checked_Inr is_active_def run_active_def split: if_splits)
  from w show ?thesis
  proof
    assume stale: "left_behind r l \<and> write_run i n (superseded_row ''stale_plan_revision'' now) l = Inr (x, l')"
    show ?thesis
      by (rule write_run_runs [OF _ ok r]) (use stale loaded_run [OF r] in \<open>auto intro!: run_row_moves simp: stale_claim_def\<close>)
  next
    assume "is_active r \<and> write_run i n (running_row t now) l = Inr (x, l')"
    then show ?thesis using write_run_runs [OF _ ok r] active_row_moves(2) by blast
  qed
qed

lemma ending_runs:
  "complete_run i n t now l = Inr (x, l') \<Longrightarrow> ledger_ok l \<Longrightarrow> runs_moved Z (lg_runs l) (lg_runs l')"
  "pause_run i n why y kind d now l = Inr (x, l') \<Longrightarrow> ledger_ok l \<Longrightarrow> runs_moved Z (lg_runs l) (lg_runs l')"
  "cancel_run i n why y now l = Inr (x, l') \<Longrightarrow> ledger_ok l \<Longrightarrow> runs_moved Z (lg_runs l) (lg_runs l')"
  by (auto simp: complete_run_def pause_run_def cancel_run_def checked_Inr is_active_def run_active_def
      intro!: write_run_runs active_row_moves)

lemma progress_runs:
  assumes "update_progress t k sid e steps ex now l = Inr (x, l')"
  shows "runs_moved Z (lg_runs l) (lg_runs l')"
proof -
  have step: "update_runs (\<lambda>r. pn_id r = i \<and> pn_active_task r = Some t \<and> pn_status r = RRunning)
      (progressed_run s now) l0 = Inr l1 \<Longrightarrow> runs_moved Z (lg_runs l0) (lg_runs l1)" for i s l0 l1
    by (erule runs_moved_update) (auto intro!: active_row_moves simp: is_active_def run_active_def)
  show ?thesis using assms unfolding update_progress_def Let_def
    by (auto simp: checked_Inr split: option.splits dest!: runs_of_goals(1) step)
qed

lemma settle_owners_runs: "settle_owners reason now ps l = Inr l' \<Longrightarrow> lg_runs l' = lg_runs l"
proof (induction ps arbitrary: l)
  case (Cons p ps)
  then show ?case by (auto simp: settle_owner_def split: option.splits dest!: runs_of_goals)
qed simp

lemma restart_runs:
  assumes "restart reason now l = Inr (x, l')"
  shows "runs_moved Z (lg_runs l) (lg_runs l')"
proof -
  obtain l2 l3 l4 where s: "settle_owners reason now (goal_owners l) (l\<lparr>lg_tasks := map (restarted_task now) (lg_tasks l)\<rparr>) = Inr l2"
      "update_goals (\<lambda>g. go_status g = GActive \<or> go_active_task g \<noteq> None) (released_row reason now) l2 = Inr l3"
      "update_runs (run_released l3) (paused_for ''process_restart'' now) l3 = Inr l4"
      "put_runs (map (reconcile_run l4 now) (lg_runs l4)) l4 = Inr l'"
    using assms by (auto simp: restart_def Let_def checked_Inr)
  have l3: "lg_runs l3 = lg_runs l" using settle_owners_runs [OF s(1)] runs_of_goals(1) [OF s(2)] by simp
  have first: "runs_moved never (lg_runs l3) (lg_runs l4)"
    by (rule runs_moved_update [OF s(3)])
       (auto intro!: active_row_moves simp: run_released_def is_active_def run_active_def)
  have second: "runs_moved never (lg_runs l4) (lg_runs l')"
  proof -
    have rows: "lg_runs l' = map (reconcile_run l4 now) (lg_runs l4)" using s(4) by (simp add: put_runs_Inr)
    show ?thesis unfolding runs_moved_def
    proof (intro ballI disjI1)
      fix r' assume "r' \<in> set (lg_runs l')"
      then obtain r where "r \<in> set (lg_runs l4)" "r' = reconcile_run l4 now r" unfolding rows by auto
      then show "\<exists>r \<in> set (lg_runs l4). run_moves never r r'" using reconciled_moves by blast
    qed
  qed
  have ids: "map pn_id (lg_runs l4) = map pn_id (lg_runs l3)"
    by (rule update_run_ids [OF s(3)]) (simp add: paused_for_def)
  have "runs_moved never (lg_runs l3) (lg_runs l')"
    by (rule runs_moved_trans [OF first second]) (simp only: ids order_refl)
  then show ?thesis using l3 runs_moved_never by simp
qed

section \<open>Every step\<close>

lemmas run_transactions =
  create_revision_runs start_run_runs supersede_active_runs ending_runs progress_runs restart_runs

lemma execute_runs:
  "execute a l = Inr l' \<Longrightarrow> ledger_ok l \<Longrightarrow> runs_moved (stale_claim a l) (lg_runs l) (lg_runs l')"
  by (cases a; simp only: execute.simps drop_value_Inr and_then_Inr defer_continuation_def
        compensate_activation_def compensate_persistence_def checked_Inr sum.inject;
      (elim exE conjE)?;
      (erule (1) mark_running_runs | erule (1) run_transactions | erule run_transactions
      | clarsimp simp: runs_of_commands runs_of_edit runs_of_creation runs_of_work runs_of_ends runs_of_updates
          put_sessions_def))

lemma step_runs:
  assumes "ledger_ok l" and "r' \<in> set (lg_runs (ledger_step a l))" and "r \<in> set (lg_runs l)" "pn_id r' = pn_id r"
  shows "run_moves (stale_claim a l) r r'"
proof (cases "execute a l")
  case (Inl e)
  then have "r' = r" using assms run_of_id by (auto simp: ledger_step_def)
  then show ?thesis by simp
next
  case (Inr l')
  then have "r' \<in> set (lg_runs l')" using assms(2) by (simp add: ledger_step_def)
  then obtain x where x: "x \<in> set (lg_runs l)" "run_moves (stale_claim a l) x r'"
    using execute_runs [OF Inr assms(1)] assms(3,4) unfolding runs_moved_def by (metis image_eqI set_map)
  then show ?thesis using run_of_id [OF assms(1,3) x(1)] run_moves_id [OF x(2)] assms(4) by simp
qed

end
