(* ===== verification/Session_Receipts.thy ===== *)
theory Session_Receipts
  imports Session_Moves
begin

text \<open>
  The receipts of commands: nothing but the deletion of a session removes one, and a command whose
  receipt is there is answered from it.
\<close>

section \<open>Receipts are append-only\<close>

definition receipts_grow :: "ledger \<Rightarrow> ledger \<Rightarrow> bool" where
  "receipts_grow l l' \<longleftrightarrow> (\<exists>new. lg_receipts l' = lg_receipts l @ new)"

lemma receipts_grow_same [simp]: "receipts_grow l l"
  by (simp add: receipts_grow_def)

lemma receipts_grow_eq: "lg_receipts l' = lg_receipts l \<Longrightarrow> receipts_grow l l'"
  by (simp add: receipts_grow_def)

lemma receipts_of_rows:
  "update_goals P f l = Inr l' \<Longrightarrow> lg_receipts l' = lg_receipts l" "put_goals gs l = Inr l' \<Longrightarrow> lg_receipts l' = lg_receipts l"
  "insert_goal g l = Inr l' \<Longrightarrow> lg_receipts l' = lg_receipts l" "insert_task t l = Inr l' \<Longrightarrow> lg_receipts l' = lg_receipts l"
  "update_runs Q h l = Inr l' \<Longrightarrow> lg_receipts l' = lg_receipts l" "put_runs rs l = Inr l' \<Longrightarrow> lg_receipts l' = lg_receipts l"
  "revoke_update x l = Inr l' \<Longrightarrow> lg_receipts l' = lg_receipts l"
  by (auto simp: update_goals_def insert_goal_def put_goals_Inr insert_task_def update_runs_def put_runs_Inr
      revoke_update_def update_task_def split: if_splits option.splits sum.splits)

lemma receipts_of_tasks [simp]:
  "lg_receipts (update_task i f l) = lg_receipts l" "lg_receipts (write_details i d now l) = lg_receipts l"
  "lg_receipts (abandon_task i reason now l) = lg_receipts l" "lg_receipts (offer_update k x g now l) = lg_receipts l"
  "lg_receipts (refresh_coverage i l) = lg_receipts l" "lg_receipts (delete_goals D l) = lg_receipts l"
  by (simp_all add: update_task_def write_details_def abandon_task_def offer_update_def refresh_coverage_def
      delete_goals_def Let_def split: option.splits)

lemma insert_receipt_grows: "insert_receipt c sid e response l = Inr l' \<Longrightarrow> receipts_grow l l'"
  by (auto simp: insert_receipt_def receipts_grow_def split: if_splits)

lemma answer_grows: "answer c g l = Inr (r, l') \<Longrightarrow> receipts_grow l l'"
  by (auto simp: answer_def Let_def dest: insert_receipt_grows)

lemma receipts_grow_cong: "lg_receipts a = lg_receipts b \<Longrightarrow> receipts_grow a l' = receipts_grow b l'"
  by (simp add: receipts_grow_def)

lemma replay_grows:
  assumes "with_replay c action k body l = Inr (r, l')" and "\<And>c' r. body c' l = Inr (r, l') \<Longrightarrow> receipts_grow l l'"
  shows "receipts_grow l l'"
  using assms by (auto simp: with_replay_def split: option.splits)

lemma commands_grow:
  "pause_goal k x c reason now l = Inr (r, l') \<Longrightarrow> receipts_grow l l'"
  "resume_goal k x c now l = Inr (r, l') \<Longrightarrow> receipts_grow l l'"
  "clear_goal k x c l = Inr (r, l') \<Longrightarrow> receipts_grow l l'"
proof -
  show "pause_goal k x c reason now l = Inr (r, l') \<Longrightarrow> receipts_grow l l'"
    by (auto simp: pause_goal_def Let_def checked_Inr dest!: receipts_of_rows answer_grows elim!: replay_grows)
       (simp_all add: receipts_grow_def)
  show "resume_goal k x c now l = Inr (r, l') \<Longrightarrow> receipts_grow l l'"
    by (auto simp: resume_goal_def Let_def checked_Inr dest!: receipts_of_rows answer_grows elim!: replay_grows)
       (simp_all add: receipts_grow_def)
  show "clear_goal k x c l = Inr (r, l') \<Longrightarrow> receipts_grow l l'"
    by (auto simp: clear_goal_def Let_def checked_Inr dest!: receipts_of_rows insert_receipt_grows elim!: replay_grows)
       (simp_all add: receipts_grow_def)
qed

lemma apply_edit_receipts: "apply_edit k x obj resume pause bound now g l = Inr l' \<Longrightarrow> lg_receipts l' = lg_receipts l"
  by (auto simp: apply_edit_def Let_def checked_Inr dest!: receipts_of_rows split: if_splits option.splits)

lemma edit_grows: "edit_goal k x obj c a b re pa now l = Inr (r, l') \<Longrightarrow> receipts_grow l l'"
proof -
  have body: "edit_body k x obj a b re pa now c' l = Inr (r, l') \<Longrightarrow> receipts_grow l l'" for k obj c' r
    unfolding edit_body_def Let_def
    by (auto simp: checked_Inr receipts_grow_def split: option.splits
        dest!: apply_edit_receipts answer_grows)
  show "edit_goal k x obj c a b re pa now l = Inr (r, l') \<Longrightarrow> receipts_grow l l'"
    by (auto simp: edit_goal_def Let_def split: if_splits elim!: replay_grows intro: body)
qed

lemma receipts_of_tasks_work:
  "create_for_task g t l = Inr (g', l') \<Longrightarrow> lg_receipts l' = lg_receipts l"
  "start_goal g row k m l = Inr (r, l') \<Longrightarrow> lg_receipts l' = lg_receipts l"
  by (auto simp: create_for_task_def insert_for_task_def start_goal_def Let_def checked_Inr
      dest!: receipts_of_rows split: option.splits if_splits)

lemma receipts_of_work:
  "accept_continuation h guard x n row m b now l = Inr (y, l') \<Longrightarrow> lg_receipts l' = lg_receipts l"
  "claim_queued cand t mode now l = Inr (z, l') \<Longrightarrow> lg_receipts l' = lg_receipts l"
  "commit_terminal c st reason now l = Inr (g, l') \<Longrightarrow> lg_receipts l' = lg_receipts l"
proof -
  show "accept_continuation h guard x n row m b now l = Inr (y, l') \<Longrightarrow> lg_receipts l' = lg_receipts l"
    by (auto simp: accept_continuation_def Let_def checked_Inr dest!: receipts_of_rows split: option.splits)
  show "claim_queued cand t mode now l = Inr (z, l') \<Longrightarrow> lg_receipts l' = lg_receipts l"
    by (erule claim_queued_cases) (auto dest!: receipts_of_rows)
  show "commit_terminal c st reason now l = Inr (g, l') \<Longrightarrow> lg_receipts l' = lg_receipts l"
    by (erule commit_terminal_cases) (auto dest!: receipts_of_rows)
qed

lemma receipts_of_ends:
  "settle_task c m b us s r now l = Inr (v, l') \<Longrightarrow> lg_receipts l' = lg_receipts l"
  "compensate_task c reason p now l = Inr (v, l') \<Longrightarrow> lg_receipts l' = lg_receipts l"
  "pause_for_system k i n why now l = Inr (v, l') \<Longrightarrow> lg_receipts l' = lg_receipts l"
  "increment_epoch k l = Inr (e, l') \<Longrightarrow> lg_receipts l' = lg_receipts l"
  "account_usage i u now l = Inr (x, l') \<Longrightarrow> lg_receipts l' = lg_receipts l"
proof -
  show "settle_task c m b us s r now l = Inr (v, l') \<Longrightarrow> lg_receipts l' = lg_receipts l"
    unfolding settle_task_def Let_def
    by (auto simp: checked_Inr dest!: receipts_of_rows split: option.split_asm if_split_asm)
  show "compensate_task c reason p now l = Inr (v, l') \<Longrightarrow> lg_receipts l' = lg_receipts l"
    by (erule compensate_task_cases) (auto dest!: receipts_of_rows)
qed (auto simp: pause_for_system_def increment_epoch_def account_usage_def Let_def dest!: receipts_of_rows
      split: option.splits if_splits)

lemma receipts_of_updates:
  "claim_update v now l = Inr (r, l') \<Longrightarrow> lg_receipts l' = lg_receipts l"
  "apply_update v i call now l = Inr (r, l') \<Longrightarrow> lg_receipts l' = lg_receipts l"
  by (auto simp: claim_update_def apply_update_def Let_def split: option.split_asm prod.split_asm)

lemma receipts_of_plans:
  "create_revision v p stamp l = Inr (a, l') \<Longrightarrow> lg_receipts l' = lg_receipts l"
  "start_run r states now l = Inr (b, l') \<Longrightarrow> lg_receipts l' = lg_receipts l"
  "supersede_active k reason now l = Inr (d, l') \<Longrightarrow> lg_receipts l' = lg_receipts l"
  "write_run i n f l = Inr (b, l') \<Longrightarrow> lg_receipts l' = lg_receipts l"
  by (auto simp: create_revision_def start_run_def resume_run_def insert_run_def supersede_active_def write_run_def
      Let_def checked_Inr split: option.splits if_splits dest!: receipts_of_rows)

lemma receipts_of_run_steps:
  "mark_running i n t now l = Inr (b, l') \<Longrightarrow> lg_receipts l' = lg_receipts l"
  "complete_run i n t now l = Inr (b, l') \<Longrightarrow> lg_receipts l' = lg_receipts l"
  "pause_run i n reason x kind d now l = Inr (b, l') \<Longrightarrow> lg_receipts l' = lg_receipts l"
  "cancel_run i n reason x now l = Inr (b, l') \<Longrightarrow> lg_receipts l' = lg_receipts l"
  by (auto simp: mark_running_def complete_run_def pause_run_def cancel_run_def checked_Inr
      split: option.splits if_splits dest!: receipts_of_plans(4))

lemma receipts_of_progress: "update_progress t k sid e steps ex now l = Inr (x, l') \<Longrightarrow> lg_receipts l' = lg_receipts l"
  unfolding update_progress_def Let_def
  by (auto simp: checked_Inr split: option.splits dest!: receipts_of_rows)

lemma settle_owners_receipts: "settle_owners reason now ps l = Inr l' \<Longrightarrow> lg_receipts l' = lg_receipts l"
proof (induction ps arbitrary: l)
  case (Cons p ps)
  then show ?case by (auto simp: settle_owner_def split: option.splits dest!: receipts_of_rows)
qed simp

lemma receipts_of_restart: "restart reason now l = Inr (x, l') \<Longrightarrow> lg_receipts l' = lg_receipts l"
  by (auto simp: restart_def Let_def checked_Inr dest!: settle_owners_receipts receipts_of_rows)

section \<open>A receipt stays\<close>

definition keeps_session :: "string \<Rightarrow> op \<Rightarrow> bool" where
  "keeps_session k a \<longleftrightarrow> (case a of OSessions ss \<Rightarrow> k \<in> set (map se_key ss) | _ \<Rightarrow> True)"

lemma execute_grows:
  "execute a l = Inr l' \<Longrightarrow> (\<forall>ss. a \<noteq> OSessions ss) \<Longrightarrow> receipts_grow l l'"
  by (cases a; simp only: execute.simps drop_value_Inr and_then_Inr defer_continuation_def
        compensate_activation_def compensate_persistence_def checked_Inr sum.inject;
      (elim exE conjE)?;
      (erule commands_grow | erule edit_grows
      | clarsimp simp: receipts_grow_eq receipts_of_tasks_work receipts_of_work receipts_of_ends receipts_of_updates
          receipts_of_plans receipts_of_run_steps receipts_of_progress receipts_of_restart))

lemma find_append_Some: "find P xs = Some x \<Longrightarrow> find P (xs @ ys) = Some x"
  by (simp add: find_append)

lemma find_filter_Some: "find P xs = Some x \<Longrightarrow> (\<And>y. P y \<Longrightarrow> Q y) \<Longrightarrow> find P (filter Q xs) = Some x"
  by (induction xs) (auto split: if_splits)

lemma receipt_step:
  assumes "select_receipt c l = Some r" and "keeps_session (cm_session_key c) a"
  shows "select_receipt c (ledger_step a l) = Some r"
proof (cases "\<exists>ss. a = OSessions ss")
  case True
  then show ?thesis using assms
    by (auto simp: ledger_step_def select_receipt_def put_sessions_def delete_where_def keeps_session_def
        intro!: find_filter_Some)
next
  case False
  show ?thesis
  proof (cases "execute a l")
    case (Inr l')
    then have "receipts_grow l l'" using execute_grows False by blast
    then show ?thesis using assms(1) Inr
      by (auto simp: receipts_grow_def ledger_step_def select_receipt_def intro: find_append_Some)
  qed (simp add: ledger_step_def assms(1))
qed

lemma receipt_run:
  "select_receipt c l = Some r \<Longrightarrow> list_all (keeps_session (cm_session_key c)) ops \<Longrightarrow>
     select_receipt c (fold ledger_step ops l) = Some r"
  by (induction ops arbitrary: l) (simp_all add: receipt_step)

section \<open>Replays\<close>

lemma snapshot_kept: "filter (\<lambda>(k, v). k \<notin> {''tokenBudget'', ''budgetTokensUsed'', ''executionPolicy''}) (goal_snapshot g s d)
    = goal_snapshot g s d"
  by (simp add: goal_snapshot_def)

lemma response_kept: "without_retired (mutation_response c g sid e prev state) = mutation_response c g sid e prev state"
proof (cases g)
  case None
  then show ?thesis by (simp add: without_retired_def mutation_response_def jget_def)
next
  case (Some x)
  then show ?thesis
    by (simp add: without_retired_def mutation_response_def jget_def snapshot_kept del: mem_simps)
qed

text \<open>The ledger holds a receipt that answers the prepared command with this response.\<close>

definition replays_to :: "command \<Rightarrow> obj \<Rightarrow> ledger \<Rightarrow> bool" where
  "replays_to c response l \<longleftrightarrow>
     (\<exists>rc. select_receipt c l = Some rc \<and> rc_action rc = cm_action c \<and> rc_fingerprint rc = cm_fingerprint c
        \<and> without_retired (rc_response rc) = response)"

lemma find_snoc: "find P xs = None \<Longrightarrow> P y \<Longrightarrow> find P (xs @ [y]) = Some y"
  by (simp add: find_append)

lemma insert_receipt_replays:
  assumes "insert_receipt c sid e response l = Inr l'" and "without_retired response = response"
  shows "replays_to c response l'"
proof -
  let ?rc = "\<lparr>rc_scope = cm_scope c, rc_session_key = cm_session_key c, rc_request_id = cm_request_id c,
     rc_action = cm_action c, rc_fingerprint = cm_fingerprint c, rc_session_id = sid, rc_epoch = e,
     rc_response = response\<rparr>"
  have "select_receipt c l = None" "lg_receipts l' = lg_receipts l @ [?rc]"
    using assms(1) by (auto simp: insert_receipt_def split: if_splits)
  then have "select_receipt c l' = Some ?rc" unfolding select_receipt_def by (simp add: find_snoc)
  then show ?thesis using assms(2) by (auto simp: replays_to_def)
qed

lemma answer_replays: "answer c g l = Inr (r, l') \<Longrightarrow> replays_to c (cr_response r) l'"
  by (auto simp: answer_def Let_def response_kept intro: insert_receipt_replays)

lemma with_replay_receipt:
  assumes "with_replay c action k body l = Inr (r, l')"
    and "\<And>c' r. body c' l = Inr (r, l') \<Longrightarrow> replays_to c' (cr_response r) l'"
  obtains c' where "prepare_command c action k = Inr c'" "replays_to c' (cr_response r) l'"
proof -
  obtain c' old where c': "prepare_command c action k = Inr c'" "replay c' l = Inr old"
    "(case old of Some x \<Rightarrow> Inr (x, l) | None \<Rightarrow> body c' l) = Inr (r, l')"
    using assms(1) by (auto simp: with_replay_def)
  show ?thesis
  proof (cases old)
    case None
    then show ?thesis using that [OF c'(1)] assms(2) c'(3) by simp
  next
    case (Some x)
    then have "replays_to c' (cr_response r) l'"
      using c'(2,3) by (auto simp: replay_def replays_to_def split: option.splits if_splits)
    then show ?thesis using that [OF c'(1)] by blast
  qed
qed

lemma with_replay_again:
  assumes "prepare_command c action k = Inr c'" "replays_to c' response l"
  shows "with_replay c action k body l
     = Inr (\<lparr>cr_response = response, cr_goal = select_goal (cm_session_key c') l, cr_replayed = True\<rparr>, l)"
  using assms by (auto simp: with_replay_def replay_def replays_to_def)

lemma replays_later:
  "replays_to c response l \<Longrightarrow> list_all (keeps_session (cm_session_key c)) ops \<Longrightarrow>
     replays_to c response (fold ledger_step ops l)"
  unfolding replays_to_def using receipt_run by blast

lemma prepared_key: "prepare_command c action k = Inr c' \<Longrightarrow> cm_session_key c' = canonical_key k"
  by (auto simp: prepare_command_def checked_Inr)

text \<open>The same command, sent again later, and its answer: the response of the receipt, with the Goal that is
  there now.\<close>

definition replayed :: "string \<Rightarrow> command_result \<Rightarrow> ledger \<Rightarrow> command_result \<times> ledger" where
  "replayed k r l =
     (\<lparr>cr_response = cr_response r, cr_goal = select_goal (canonical_key k) l, cr_replayed = True\<rparr>, l)"

lemma replay_again:
  assumes "with_replay c action k body l = Inr (r, l')"
    and "\<And>c' r. body c' l = Inr (r, l') \<Longrightarrow> replays_to c' (cr_response r) l'"
    and "list_all (keeps_session (canonical_key k)) ops"
  shows "with_replay c action k body' (fold ledger_step ops l') = Inr (replayed k r (fold ledger_step ops l'))"
proof -
  obtain c' where c': "prepare_command c action k = Inr c'" "replays_to c' (cr_response r) l'"
    by (rule with_replay_receipt [OF assms(1,2)])
  have "replays_to c' (cr_response r) (fold ledger_step ops l')"
    using replays_later [OF c'(2)] assms(3) prepared_key [OF c'(1)] by simp
  from with_replay_again [OF c'(1) this] show ?thesis using prepared_key [OF c'(1)] by (simp add: replayed_def)
qed

lemma pause_again:
  assumes "pause_goal k x c reason now l = Inr (r, l')" and "list_all (keeps_session (canonical_key (canonical_key k))) ops"
  shows "pause_goal k y c reason now' (fold ledger_step ops l') = Inr (replayed (canonical_key k) r (fold ledger_step ops l'))"
proof -
  obtain c' s body where pre: "prepare_command c ''pause'' (canonical_key k) = Inr c'" "normalize_reason reason = Inr s"
    and run: "with_replay c ''pause'' (canonical_key k) body l = Inr (r, l')"
    and body: "\<And>c' r. body c' l = Inr (r, l') \<Longrightarrow> replays_to c' (cr_response r) l'"
    using assms(1) unfolding pause_goal_def Let_def and_then_Inr
    by (elim exE conjE) (erule (2) that, auto simp: checked_Inr intro: answer_replays)
  show ?thesis unfolding pause_goal_def Let_def using pre replay_again [OF run body assms(2)] by simp
qed

lemma resume_again:
  assumes "resume_goal k x c now l = Inr (r, l')" and "list_all (keeps_session (canonical_key (canonical_key k))) ops"
  shows "resume_goal k y c now' (fold ledger_step ops l') = Inr (replayed (canonical_key k) r (fold ledger_step ops l'))"
  using assms(1) unfolding resume_goal_def Let_def
  by (rule replay_again) (auto simp: checked_Inr intro: answer_replays assms(2))

lemma clear_again:
  assumes "clear_goal k x c l = Inr (r, l')" and "list_all (keeps_session (canonical_key (canonical_key k))) ops"
  shows "clear_goal k y c (fold ledger_step ops l') = Inr (replayed (canonical_key k) r (fold ledger_step ops l'))"
  using assms(1) unfolding clear_goal_def Let_def
  by (rule replay_again) (auto simp: checked_Inr response_kept intro: insert_receipt_replays assms(2))

lemma edit_again:
  assumes "edit_goal k x obj c a b re pa now l = Inr (r, l')" and "list_all (keeps_session (canonical_key (canonical_key k))) ops"
  shows "edit_goal k y obj c a' b' re pa now' (fold ledger_step ops l')
     = Inr (replayed (canonical_key k) r (fold ledger_step ops l'))"
proof -
  obtain c' n where pre: "\<not> (re \<and> pa)" "prepare_command c ''edit'' (canonical_key k) = Inr c'"
      "normalize_objective (JStr obj) = Inr n"
    and run: "with_replay c ''edit'' (canonical_key k) (edit_body (canonical_key k) x n a b re pa now) l = Inr (r, l')"
    using assms(1) unfolding edit_goal_def Let_def by (auto split: if_splits)
  have body: "edit_body (canonical_key k) x n a b re pa now c' l = Inr (r, l') \<Longrightarrow> replays_to c' (cr_response r) l'" for c' r
    unfolding edit_body_def Let_def by (auto simp: checked_Inr intro: answer_replays)
  show ?thesis unfolding edit_goal_def Let_def using pre replay_again [OF run body assms(2)] by simp
qed

end
