(* ===== verification/Session_Claims.thy ===== *)
theory Session_Claims
  imports Run_Moves Session_Receipts
begin

text \<open>
  The properties of the session ledger: its invariants, the lifecycle and the stamps of Goals, commands
  and their replays, the end of a task, recovery, and plan runs.
\<close>

section \<open>A concrete ledger\<close>

definition demo_session :: session_row where
  "demo_session = \<lparr>se_key = ''s'', se_session_id = ''i'', se_epoch = 0, se_mode = ''default'', se_origin = [],
     se_collaboration_revision = 0, se_active_revision = None\<rparr>"

definition demo_task :: "task_status \<Rightarrow> int option \<Rightarrow> obj \<Rightarrow> task" where
  "demo_task st finished d = \<lparr>tk_id = ''t'', tk_session_key = ''s'', tk_status = st, tk_updated = 0,
     tk_started = Some 10, tk_finished = finished, tk_terminal_reason = None, tk_error_class = None,
     tk_details = [(''session_id'', JStr ''i''), (''session_epoch'', JInt 0)] @ d\<rparr>"

definition demo_ops :: "op list" where
  "demo_ops = [OSessions [demo_session], OTasks [demo_task TRunning None []],
     OCreate ''g'' ''s'' ''i'' 0 (JStr ''ship it'') ''t'' 10]"

definition demo_goal :: goal where
  "demo_goal = (case new_goal ''g'' ''s'' ''i'' 0 (JStr ''ship it'') (Some ''t'') None 10 of Inr g \<Rightarrow> g)"

definition reached :: "op list \<Rightarrow> ledger" where
  "reached ops = fold ledger_step ops empty_ledger"

lemma reached_ok: "ledger_ok (reached ops)"
  using ledger.inv_reachable by (simp add: reached_def ledger.run_def)

lemma reached_more: "fold ledger_step bs (reached as) = reached (as @ bs)"
  by (simp add: reached_def)

definition demo_ledger :: ledger where
  "demo_ledger = reached demo_ops"

lemma demo_goals: "lg_goals demo_ledger = [demo_goal]"
  by code_simp

section \<open>Invariants\<close>

text \<open>C1: Soundness of the session ledger. In every state that the ledger reaches, whatever transactions
  are run on it and whatever happens to tasks, sessions and usage events between them: a session has at
  most one Goal, Goal ids are unique and a task owns at most one Goal; a Goal counts at least as many turns
  started as turns settled and still owned, so no turn is settled twice; its pause reason is there exactly
  while it is paused or limited, its end exactly while it is complete; and at most one plan run of a
  session is active, a run that ended has its end time and no owner, a running one has both an owner and a
  start.\<close>

theorem ledger_sound:
  "distinct (map go_session_key (lg_goals (reached ops))) \<and> distinct (map go_id (lg_goals (reached ops)))
   \<and> distinct (owners (lg_goals (reached ops)))
   \<and> list_all (\<lambda>g. 1 \<le> go_state_revision g \<and> 1 \<le> go_objective_revision g
        \<and> 1 \<le> length (go_objective g) \<and> length (go_objective g) \<le> 4000
        \<and> 0 \<le> go_turns_settled g
        \<and> go_turns_settled g + (if go_active_task g = None then 0 else 1) \<le> go_turns_started g
        \<and> go_window_turns g \<le> go_turns_started g \<and> go_seq g \<le> go_turns_started g
        \<and> (go_pause_reason g \<noteq> None) = (go_status g \<in> {GPaused, GUsageLimited})
        \<and> (go_finished g \<noteq> None) = (go_status g = GComplete)) (lg_goals (reached ops))
   \<and> distinct (map pn_id (lg_runs (reached ops)))
   \<and> distinct (map pn_session_key (filter is_active (lg_runs (reached ops))))
   \<and> list_all (\<lambda>r. is_active r = (pn_finished r = None)
        \<and> (if is_active r then True else pn_active_task r = None)
        \<and> (if pn_status r = RRunning then pn_active_task r \<noteq> None \<and> pn_started r \<noteq> None else True))
       (lg_runs (reached ops))"
  using reached_ok [of ops]
  by (auto simp: ledger_ok_def goals_unique_def runs_unique_def list_all_iff goal_ok_def goal_checks_def
      owner_count_def max_objective_chars_def run_ok_def Suc_le_eq)

section \<open>The lifecycle of a Goal\<close>

text \<open>C15: The lifecycle of a Goal, as a refinement. Every transaction, seen through the status of a Goal
  that it does not create, is a move of the abstract lifecycle: an active Goal may go anywhere, a paused
  one may only be completed or blocked by its task, a limited one only be paused; a completed or blocked
  Goal, and a paused one, become active again by a user's edit or resume alone, never by a task, a
  continuation, a settlement or a restart. Revisions and counters never fall, the objective only changes
  with its revision, and the state revision stamps the row: when it is the same, so is everything that
  commands decide on.\<close>

theorem goal_lifecycle:
  assumes "g' \<in> set (lg_goals (ledger_step a (reached ops)))" and "creates a \<noteq> Some (go_id g')"
  shows "\<exists>g \<in> set (lg_goals (reached ops)). go_id g' = go_id g
   \<and> lifecycle (by_user a) (go_status g) (go_status g')
   \<and> go_turns_started g \<le> go_turns_started g' \<and> go_turns_settled g \<le> go_turns_settled g'
   \<and> go_objective_revision g \<le> go_objective_revision g'
   \<and> (go_objective_revision g' = go_objective_revision g \<longrightarrow> go_objective g' = go_objective g)
   \<and> go_state_revision g \<le> go_state_revision g'
   \<and> (go_state_revision g' = go_state_revision g \<longrightarrow> stamped g' = stamped g)"
  using step_moved [OF reached_ok assms] unfolding moves_def by blast

definition demo_x :: expected_goal where
  "demo_x = \<lparr>xg_session_id = ''i'', xg_epoch = 0, xg_goal_id = ''g'', xg_state_revision = 1\<rparr>"

definition demo_command :: "string \<Rightarrow> command" where
  "demo_command action = \<lparr>cm_scope = ''web'', cm_session_key = ''s'',
     cm_request_id = ''01234567-89ab-4def-8123-456789abcdef'', cm_action = action,
     cm_fingerprint = replicate 64 (CHR ''a'')\<rparr>"

lemma demo_pause: "lg_goals (ledger_step (OPause ''s'' demo_x (demo_command ''pause'') JNull 20) demo_ledger)
    = [paused_row ''user'' 20 demo_goal]"
  by code_simp

theorem goal_lifecycle_witness:
  "lifecycle False GActive (go_status (paused_row ''user'' 20 demo_goal))"
proof -
  let ?a = "OPause ''s'' demo_x (demo_command ''pause'') JNull 20"
  have "paused_row ''user'' 20 demo_goal \<in> set (lg_goals (ledger_step ?a (reached demo_ops)))"
    using demo_pause by (simp add: demo_ledger_def)
  moreover have "creates ?a \<noteq> Some (go_id (paused_row ''user'' 20 demo_goal))" by simp
  ultimately have "\<exists>g \<in> set (lg_goals (reached demo_ops)).
      lifecycle (by_user ?a) (go_status g) (go_status (paused_row ''user'' 20 demo_goal))"
    using goal_lifecycle by blast
  moreover have "go_status demo_goal = GActive" by code_simp
  ultimately show ?thesis using demo_goals by (simp add: demo_ledger_def)
qed

section \<open>Commands see what their user saw\<close>

definition expected_of :: "goal \<Rightarrow> expected_goal" where
  "expected_of g = \<lparr>xg_session_id = go_session_id g, xg_epoch = go_epoch g, xg_goal_id = go_id g,
     xg_state_revision = go_state_revision g\<rparr>"

lemma replayed_or_run:
  assumes "with_replay c action k body l = Inr (r, l')" and "lg_receipts l' \<noteq> lg_receipts l"
  shows "\<exists>c'. body c' l = Inr (r, l')"
  using assms by (auto simp: with_replay_def split: option.splits)

lemma command_expects:
  assumes "lg_receipts l' \<noteq> lg_receipts l"
  shows "pause_goal k x c reason now l = Inr (r, l') \<Longrightarrow> \<exists>g. require_expected (canonical_key k) x l = Inr g"
    and "resume_goal k x c now l = Inr (r, l') \<Longrightarrow> \<exists>g. require_expected (canonical_key k) x l = Inr g"
    and "clear_goal k x c l = Inr (r, l') \<Longrightarrow> \<exists>g. require_expected (canonical_key k) x l = Inr g"
    and "edit_goal k x obj c a b re pa now l = Inr (r, l') \<Longrightarrow> \<exists>g. require_expected (canonical_key k) x l = Inr g"
  using replayed_or_run [OF _ assms]
  by (fastforce simp: pause_goal_def resume_goal_def clear_goal_def edit_goal_def edit_body_def Let_def split: if_splits)+

text \<open>C8: Commands are fenced. A user who saw a Goal and then edits, pauses, resumes or clears it acts on
  exactly the Goal that was seen: if the command is executed at all, however many transactions ran in
  between, the session's Goal still has everything of it but its progress, its usage and the time of its
  last write. In every other case the command is a replay or an error, and the ledger stays as it is.\<close>

theorem command_sees_current:
  assumes "g \<in> set (lg_goals (reached as))" and "list_all (\<lambda>b. creates b \<noteq> Some (go_id g)) bs"
    and "a \<in> {OPause k (expected_of g) c reason now, OResume k (expected_of g) c now, OClear k (expected_of g) c,
          OEdit k (expected_of g) obj c adopt bind resume pause now}"
    and "execute a (reached (as @ bs)) = Inr l'" and "lg_receipts l' \<noteq> lg_receipts (reached (as @ bs))"
  shows "\<exists>h. select_goal (canonical_key k) (reached (as @ bs)) = Some h \<and> stamped h = stamped g"
proof -
  let ?l = "reached (as @ bs)"
  obtain h where h: "require_expected (canonical_key k) (expected_of g) ?l = Inr h"
    using assms(3,4) command_expects [OF assms(5)]
    by (elim insertE emptyE; simp only: execute.simps drop_value_Inr; elim exE; metis)
  then have sel: "select_goal (canonical_key k) ?l = Some h" "go_id h = go_id g"
      "go_state_revision h = go_state_revision g"
    by (auto simp: require_expected_def expected_of_def checked_Inr)
  have h_now: "h \<in> set (lg_goals (fold ledger_step bs (reached as)))"
    using select_goal_mem [OF sel(1)] by (simp add: reached_more)
  have "\<forall>b \<in> set bs. creates b \<noteq> Some (go_id h)" using assms(2) by (simp add: list_all_iff sel(2))
  then have "\<exists>g0 \<in> set (lg_goals (reached as)). moves any_status g0 h" by (rule run_moved [OF reached_ok h_now])
  then obtain g0 where g0: "g0 \<in> set (lg_goals (reached as))" "moves any_status g0 h" by (rule bexE)
  have "go_id g0 = go_id g" using g0(2) sel(2) by (simp add: moves_def)
  then have "g0 = g" by (rule goal_of_id [OF reached_ok assms(1) g0(1)])
  then show ?thesis using sel g0(2) by (simp add: moves_def)
qed

definition demo_pause_op :: op where
  "demo_pause_op = OPause ''s'' demo_x (demo_command ''pause'') JNull 20"

lemma demo_expected: "expected_of demo_goal = demo_x"
  by code_simp

lemma demo_pause_runs: "lg_receipts (ledger_step demo_pause_op (reached (demo_ops @ [OUsage ''g'' no_tokens 15])))
    \<noteq> lg_receipts (reached (demo_ops @ [OUsage ''g'' no_tokens 15]))"
  by code_simp

theorem command_sees_current_witness:
  "\<exists>h. select_goal (canonical_key ''s'') (reached (demo_ops @ [OUsage ''g'' no_tokens 15])) = Some h
     \<and> stamped h = stamped demo_goal"
proof -
  let ?l = "reached (demo_ops @ [OUsage ''g'' no_tokens 15])"
  obtain l' where l': "execute demo_pause_op ?l = Inr l'"
    using demo_pause_runs by (cases "execute demo_pause_op ?l") (auto simp: ledger_step_def)
  show ?thesis
  proof (rule command_sees_current [OF _ _ _ l'])
    show "demo_goal \<in> set (lg_goals (reached demo_ops))" using demo_goals by (simp add: demo_ledger_def)
    show "demo_pause_op \<in> {OPause ''s'' (expected_of demo_goal) (demo_command ''pause'') JNull 20,
        OResume ''s'' (expected_of demo_goal) (demo_command ''pause'') 20, OClear ''s'' (expected_of demo_goal) (demo_command ''pause''),
        OEdit ''s'' (expected_of demo_goal) [] (demo_command ''pause'') None None False False 20}"
      by (simp add: demo_pause_op_def demo_expected)
    show "lg_receipts l' \<noteq> lg_receipts ?l" using demo_pause_runs l' by (simp add: ledger_step_def)
  qed simp
qed

section \<open>Replays\<close>

text \<open>C14: Commands are idempotent. A command that was answered, sent again at any later time while its
  session exists, gets the same response from its receipt and changes nothing; it does not matter which
  Goal the second request expects, or what has become of the Goal.\<close>

theorem command_replay:
  assumes "list_all (keeps_session (canonical_key (canonical_key k))) ops"
  shows "(pause_goal k x c reason now l = Inr (r, l') \<longrightarrow>
      pause_goal k y c reason later (fold ledger_step ops l') = Inr (replayed (canonical_key k) r (fold ledger_step ops l')))
   \<and> (resume_goal k x c now l = Inr (r, l') \<longrightarrow>
      resume_goal k y c later (fold ledger_step ops l') = Inr (replayed (canonical_key k) r (fold ledger_step ops l')))
   \<and> (clear_goal k x c l = Inr (r, l') \<longrightarrow>
      clear_goal k y c (fold ledger_step ops l') = Inr (replayed (canonical_key k) r (fold ledger_step ops l')))
   \<and> (edit_goal k x obj c a b re pa now l = Inr (r, l') \<longrightarrow>
      edit_goal k y obj c a' b' re pa later (fold ledger_step ops l')
        = Inr (replayed (canonical_key k) r (fold ledger_step ops l')))"
  by (intro conjI impI; rule pause_again resume_again clear_again edit_again; (assumption | rule assms))

theorem command_replay_witness:
  "\<exists>r l'. pause_goal ''s'' demo_x (demo_command ''pause'') JNull 20 demo_ledger = Inr (r, l') \<and>
     pause_goal ''s'' demo_x (demo_command ''pause'') JNull 90 (ledger_step (OEpoch ''s'') l')
       = Inr (replayed (canonical_key ''s'') r (ledger_step (OEpoch ''s'') l'))"
proof -
  have "\<not> isl (pause_goal ''s'' demo_x (demo_command ''pause'') JNull 20 demo_ledger)" by code_simp
  then obtain r l' where run: "pause_goal ''s'' demo_x (demo_command ''pause'') JNull 20 demo_ledger = Inr (r, l')"
    by (cases "pause_goal ''s'' demo_x (demo_command ''pause'') JNull 20 demo_ledger") auto
  have "list_all (keeps_session (canonical_key (canonical_key ''s''))) [OEpoch ''s'']" by (simp add: keeps_session_def)
  from conjunct1 [OF command_replay [OF this], rule_format, OF run, of demo_x 90] run show ?thesis by auto
qed

section \<open>The end of a task\<close>

lemma select_updated:
  assumes "update_goals P f l = Inr l'" and "\<And>g. go_id (f g) = go_id g"
  shows "select_goal_id i l' = map_option (\<lambda>g. if P g then f g else g) (select_goal_id i l)"
  using update_rows [OF assms(1)] assms(2)
  by (simp add: select_goal_id_def update_where_def find_map_same)

lemma tasks_of_rows: "update_goals P f l = Inr l' \<Longrightarrow> lg_tasks l' = lg_tasks l"
  by (auto simp: update_goals_def put_goals_Inr)

text \<open>C13: The terminal result. A structured result is taken only from a task whose persisted context is the
  one given, for the Goal of that context in the same generation and with the same objective; either it is
  the result that is there already, and nothing changes, or the task still owns the Goal and the Goal is
  active or paused. The result is stored with the task that gave it, which goes on owning the Goal; and a
  final result, sent again, is answered with the same Goal and changes nothing.\<close>

theorem terminal_result_fenced:
  assumes "commit_terminal c st blocked now l = Inr (g', l')"
  shows "\<exists>g t. select_goal_id (cx_goal_id c) l = Some g \<and> select_task (cx_task_id c) l = Some t
     \<and> effective_context (tk_details t) = Some c \<and> tk_session_key t = go_session_key g
     \<and> go_session_id g = cx_session_id c \<and> go_epoch g = cx_epoch c
     \<and> go_objective_revision g = cx_objective_revision c
     \<and> (if go_status g \<in> {GComplete, GBlocked}
        then l' = l \<and> g' = g \<and> go_status g = st
        else go_status g \<in> {GActive, GPaused} \<and> go_active_task g = Some (cx_task_id c) \<and> go_active_task g' = go_active_task g)
     \<and> go_status g' = st \<and> st \<in> {GComplete, GBlocked, GPaused} \<and> go_terminal_task g' = Some (cx_task_id c)
     \<and> (if st = GPaused then True else commit_terminal c st blocked later l' = Inr (g', l'))"
proof -
  obtain reason g t where pre: "st \<in> {GComplete, GBlocked, GPaused}" "normalize_reason blocked = Inr reason"
      "\<not> (st \<noteq> GBlocked \<and> reason \<noteq> None)"
    and g: "select_goal_id (cx_goal_id c) l = Some g" "go_session_id g = cx_session_id c" "go_epoch g = cx_epoch c"
      "go_objective_revision g = cx_objective_revision c"
    and t: "require_context c g l = Inr t"
    and run: "(if go_status g \<in> {GComplete, GBlocked}
        then (if go_status g = st \<and> go_terminal_task g = Some (cx_task_id c) then Inr (g, l)
              else Inl (GoalConflict ''STALE_GOAL''))
        else checked [(go_status g \<notin> {GActive, GPaused} \<or> go_active_task g \<noteq> Some (cx_task_id c),
                       GoalConflict ''STALE_GOAL'')]
             (and_then (update_goals (\<lambda>r. go_id r = cx_goal_id c
                  \<and> go_objective_revision r = cx_objective_revision c
                  \<and> go_active_task r = Some (cx_task_id c))
                (terminal_row st (cx_task_id c) reason now) l) (\<lambda>l1.
              and_then (present (Raised (RuntimeError ''AssertionError'')) (select_goal_id (cx_goal_id c) l1)) (\<lambda>g'.
              Inr (g', l1))))) = Inr (g', l')"
    using assms unfolding commit_terminal_def and_then_Inr checked_Inr present_Inr
    by (elim exE conjE) (rule that, simp, assumption, simp, assumption, simp, simp, simp, assumption, assumption)
  have task: "select_task (cx_task_id c) l = Some t" "effective_context (tk_details t) = Some c"
      "tk_session_key t = go_session_key g"
    using t by (auto simp: require_context_def checked_Inr)
  show ?thesis
  proof (cases "go_status g \<in> {GComplete, GBlocked}")
    case True
    then have eq: "go_status g = st" "go_terminal_task g = Some (cx_task_id c)" "g' = g" "l' = l"
      using run by (auto split: if_splits)
    have "commit_terminal c st blocked later l' = Inr (g', l')"
      using True eq pre g t by (simp add: commit_terminal_def checked_def)
    then show ?thesis using True eq pre(1) g task by auto
  next
    case False
    let ?P = "\<lambda>r. go_id r = cx_goal_id c \<and> go_objective_revision r = cx_objective_revision c
       \<and> go_active_task r = Some (cx_task_id c)"
    let ?g = "terminal_row st (cx_task_id c) reason now g"
    have own: "go_status g \<in> {GActive, GPaused}" "go_active_task g = Some (cx_task_id c)"
      and up: "update_goals ?P (terminal_row st (cx_task_id c) reason now) l = Inr l'"
      and g': "select_goal_id (cx_goal_id c) l' = Some g'"
      using run False by (auto simp: checked_Inr)
    have id: "go_id g = cx_goal_id c" using select_goal_id_mem [OF g(1)] by simp
    have same: "select_goal_id (cx_goal_id c) l' = Some ?g"
      using select_updated [OF up, of "cx_goal_id c"] g own id by (simp add: terminal_row_def)
    then have row: "g' = ?g" using g' by simp
    have "require_context c ?g l' = Inr t"
      using task tasks_of_rows [OF up] by (simp add: require_context_def select_task_def terminal_row_def checked_def present_def)
    then have "commit_terminal c st blocked later l' = Inr (g', l')" if "st \<noteq> GPaused"
      using that pre g row g' by (auto simp: commit_terminal_def checked_def terminal_row_def)
    then show ?thesis using False own row pre(1) g task by (auto simp: terminal_row_def)
  qed
qed

definition demo_ctx :: goal_ctx where
  "demo_ctx = goal_turn_context demo_goal ''t'' False"

theorem terminal_result_fenced_witness:
  "\<exists>g' l'. commit_terminal demo_ctx GComplete JNull 30 demo_ledger = Inr (g', l') \<and> go_status g' = GComplete
     \<and> commit_terminal demo_ctx GComplete JNull 90 l' = Inr (g', l')"
proof -
  have "\<not> isl (commit_terminal demo_ctx GComplete JNull 30 demo_ledger)" by code_simp
  then obtain g' l' where run: "commit_terminal demo_ctx GComplete JNull 30 demo_ledger = Inr (g', l')"
    by (cases "commit_terminal demo_ctx GComplete JNull 30 demo_ledger") auto
  from terminal_result_fenced [OF this, of 90] show ?thesis using run by auto
qed

lemma refreshed_select:
  assumes "select_goal_id j (refresh_coverage i l) = Some g"
  obtains h cov where "select_goal_id j l = Some h" "g = h\<lparr>go_usage_coverage := cov\<rparr>"
proof -
  define f :: "goal \<Rightarrow> goal" where "f = (\<lambda>g. if go_id g = i then g\<lparr>go_usage_coverage :=
      (if list_ex (\<lambda>e. ue_goal_id e = Some (go_id g) \<and> event_incomplete l e) (lg_events l)
       then ''partial_usage'' else if go_usage_version g = 0 then ''partial_history'' else ''complete'')\<rparr> else g)"
  have "find (\<lambda>g. go_id g = j) (map f (lg_goals l)) = Some g"
    using assms by (simp add: select_goal_id_def refresh_coverage_def update_where_def f_def)
  then obtain h where h: "select_goal_id j l = Some h" "g = f h"
    by (subst (asm) find_map_same) (auto simp: select_goal_id_def f_def)
  have "f h = h\<lparr>go_usage_coverage := go_usage_coverage (f h)\<rparr>" by (simp add: f_def)
  then show thesis using that h by blast
qed

lemma refreshed_tasks [simp]: "select_task i (refresh_coverage j l) = select_task i l"
  by (simp add: refresh_coverage_def select_task_def)

text \<open>C9: A task is settled once. A settlement that finds its Goal is about a task that has ended and still
  owns the Goal; it releases the Goal and counts one turn and the time between start and end of the task;
  a Goal that was not active keeps its status. After it, the same task cannot be settled again, whatever
  the arguments: the second call finds no Goal and changes nothing but the usage coverage.\<close>

theorem settled_once:
  assumes "settle_task c m b usage succ restarted now l = Inr (Some g', l')"
    and "1 \<le> m2 \<and> m2 \<le> 500" "60 \<le> b2 \<and> b2 \<le> 86400"
  shows "\<exists>g t. select_goal_id (cx_goal_id c) l = Some g \<and> go_active_task g = Some (cx_task_id c)
     \<and> select_task (cx_task_id c) l = Some t \<and> tk_status t \<notin> {TQueued, TRunning}
     \<and> effective_context (tk_details t) = Some c
     \<and> go_active_task g' = None \<and> go_turns_settled g' = go_turns_settled g + 1
     \<and> go_active_ms g' = go_active_ms g + run_duration t \<and> 0 \<le> run_duration t
     \<and> (if go_status g = GActive then go_status g' \<noteq> GComplete else go_status g' = go_status g)
     \<and> settle_task c m2 b2 usage2 succ2 restarted2 later l'
          = Inr (None, refresh_coverage (cx_goal_id c) l')"
proof -
  let ?l = "refresh_coverage (cx_goal_id c) l"
  obtain t x d u where t: "select_task (cx_task_id c) l = Some t" "tk_status t \<notin> {TQueued, TRunning}"
      "effective_context (tk_details t) = Some c"
    and x: "select_goal_id (cx_goal_id c) ?l = Some x" "go_active_task x = Some (cx_task_id c)"
    and d: "classify_end t (go_objective_revision x = cx_objective_revision c) usage succ restarted m b
         (go_window_ms x + run_duration t) x = Inr d"
    and up: "update_goals (owned_by c) (settled_row c u (run_duration t) now d) ?l = Inr l'"
    and g': "select_goal_id (cx_goal_id c) l' = Some g'"
    using assms(1) unfolding settle_task_def Let_def
    by (simp add: checked_Inr split: option.split_asm if_split_asm) blast+
  obtain g cov where g: "select_goal_id (cx_goal_id c) l = Some g" "x = g\<lparr>go_usage_coverage := cov\<rparr>"
    by (rule refreshed_select [OF x(1)])
  have own: "owned_by c x" using x select_goal_id_mem [OF x(1)] by (simp add: owned_by_def)
  have row: "g' = settled_row c u (run_duration t) now d x"
    using select_updated [OF up, of "cx_goal_id c"] x(1) own g' by (simp add: settled_row_def)
  have status: "if go_status x = GActive then go_status d \<noteq> GComplete else go_status d = go_status x"
  proof (cases "go_status x = GActive")
    case True
    then obtain y where "go_status y = GActive"
        "classify_active t (go_objective_revision x = cx_objective_revision c) usage succ restarted m b
           (go_window_ms x + run_duration t) y = Inr d"
      using d by (auto simp: classify_end_def Let_def split: if_splits)
    then show ?thesis using True classify_active_cases [of t] unfolding end_ok_def by fastforce
  next
    case False
    then show ?thesis using d by (auto simp: classify_end_def Let_def split: if_splits)
  qed
  have again: "settle_task c m2 b2 usage2 succ2 restarted2 later l' = Inr (None, refresh_coverage (cx_goal_id c) l')"
  proof -
    have task: "select_task (cx_task_id c) l' = Some t"
      using tasks_of_rows [OF up] t(1) by (simp add: select_task_def refresh_coverage_def)
    show ?thesis
    proof (cases "select_goal_id (cx_goal_id c) (refresh_coverage (cx_goal_id c) l')")
      case None
      then show ?thesis using task t assms(2,3) by (simp add: settle_task_def guardrail_errors_def checked_def)
    next
      case (Some z)
      then obtain h cov' where "select_goal_id (cx_goal_id c) l' = Some h" "z = h\<lparr>go_usage_coverage := cov'\<rparr>"
        by (rule refreshed_select)
      then have "z = g'\<lparr>go_usage_coverage := cov'\<rparr>" using g' by simp
      moreover have "go_active_task g' = None" unfolding row by (simp add: settled_row_def)
      ultimately have "go_active_task z = None" by simp
      then show ?thesis using Some task t assms(2,3) by (simp add: settle_task_def guardrail_errors_def checked_def Let_def)
    qed
  qed
  have "0 \<le> run_duration t" by (simp add: run_duration_def split: option.split)
  then show ?thesis using g t x(2) row status again by (simp add: settled_row_def)
qed

definition ended_ledger :: ledger where
  "ended_ledger = reached (demo_ops @ [OTasks [demo_task TSucceeded (Some 50) [(''goal_context'', JObj (context_detail demo_ctx))]]])"

theorem settled_once_witness:
  "\<exists>g' l'. settle_task demo_ctx 25 600 False False False 60 ended_ledger = Inr (Some g', l')
     \<and> settle_task demo_ctx 25 600 False False False 70 l' = Inr (None, refresh_coverage ''g'' l')"
proof -
  have "case settle_task demo_ctx 25 600 False False False 60 ended_ledger of Inl _ \<Rightarrow> False | Inr (g, _) \<Rightarrow> g \<noteq> None"
    by code_simp
  then obtain g' l' where run: "settle_task demo_ctx 25 600 False False False 60 ended_ledger = Inr (Some g', l')"
    by (auto split: sum.split_asm prod.split_asm)
  have id: "cx_goal_id demo_ctx = ''g''" by code_simp
  have "settle_task demo_ctx 25 600 False False False 70 l' = Inr (None, refresh_coverage ''g'' l')"
    using settled_once [OF run, of 25 600 False False False 70] by (auto simp: id)
  then show ?thesis using run by blast
qed

end
