(* ===== verification/Session_Progress.thy ===== *)
theory Session_Progress
  imports Session_Claims
begin

text \<open>
  What the ledger can always do: an update that releases owners never violates a constraint, so a task that
  has ended can be settled and its Goal resumed; a restart leaves nothing at work; and the revisions of plan
  runs.
\<close>

section \<open>Updates that go through\<close>

lemma owners_sub:
  assumes "\<And>g. g \<in> set rows \<Longrightarrow> go_active_task (h g) \<in> {None, go_active_task g}"
  shows "set (owners (map h rows)) \<subseteq> set (owners rows) \<and> (distinct (owners rows) \<longrightarrow> distinct (owners (map h rows)))"
  using assms
proof (induction rows)
  case (Cons g rows)
  from Cons.prems have "go_active_task (h g) \<in> {None, go_active_task g}" by simp
  with Cons show ?case by (cases "go_active_task g") (auto simp: owners_Cons split: option.split)
qed (simp add: owners_def)

lemma update_goes_through:
  assumes "ledger_ok l"
    and same: "\<And>g. go_session_key (f g) = go_session_key g" "\<And>g. go_id (f g) = go_id g"
    and row: "\<And>g. g \<in> set (lg_goals l) \<Longrightarrow> P g \<Longrightarrow>
       goal_checks (f g) \<and> go_active_task (f g) \<in> {None, go_active_task g}"
  shows "update_goals P f l = Inr (l\<lparr>lg_goals := update_where P f (lg_goals l)\<rparr>)"
proof -
  let ?h = "\<lambda>g. if P g then f g else g"
  have rows: "update_where P f (lg_goals l) = map ?h (lg_goals l)" by (simp add: update_where_def)
  have keys: "map go_session_key (map ?h (lg_goals l)) = map go_session_key (lg_goals l)"
    "map go_id (map ?h (lg_goals l)) = map go_id (lg_goals l)"
    by (simp_all add: same)
  have "set (owners (map ?h (lg_goals l))) \<subseteq> set (owners (lg_goals l))
     \<and> (distinct (owners (lg_goals l)) \<longrightarrow> distinct (owners (map ?h (lg_goals l))))"
    by (rule owners_sub) (use row in auto)
  then have "goals_unique (map ?h (lg_goals l))"
    using assms(1) unfolding ledger_ok_def goals_unique_def keys by blast
  moreover have "list_all goal_checks (map ?h (lg_goals l))"
    using assms(1) row by (auto simp: ledger_ok_def list_all_iff goal_ok_def)
  ultimately show ?thesis by (simp add: update_goals_def put_goals_def rows)
qed

lemma goal_in_ok: "ledger_ok l \<Longrightarrow> g \<in> set (lg_goals l) \<Longrightarrow> goal_ok g"
  by (simp add: ledger_ok_def list_all_iff)

section \<open>A Goal is never stuck\<close>

lemma classify_end_total:
  assumes "length (py_strip (final_error t)) \<le> max_reason_chars"
  obtains d where "classify_end t same u s r m b w g = Inr d"
proof -
  have "\<exists>d. classify_active t same u s r m b w y = Inr d" for y
    using assms by (cases "tk_status t") (auto simp: classify_active_def normalize_reason_def)
  then show thesis using that unfolding classify_end_def Let_def by (metis (full_types))
qed

lemma settled_checks: "goal_ok g \<Longrightarrow> 0 \<le> d \<Longrightarrow> goal_checks (settled_row c no_tokens d now dec g)"
  by (simp add: goal_ok_def goal_checks_def settled_row_def tokens_checks_def add_tokens_def no_tokens_def)

lemma settlement_goes_through:
  assumes ok: "ledger_ok l" and goal: "select_goal_id (cx_goal_id c) l = Some g"
    and own: "go_active_task g = Some (cx_task_id c)" and version: "go_usage_version g \<noteq> 0"
    and task: "select_task (cx_task_id c) l = Some t" "tk_status t \<notin> {TQueued, TRunning}"
      "effective_context (tk_details t) = Some c" "tk_session_key t = go_session_key g"
    and generation: "go_session_id g = cx_session_id c" "go_epoch g = cx_epoch c"
    and limits: "1 \<le> m \<and> m \<le> 500" "60 \<le> b \<and> b \<le> 86400"
    and error: "length (py_strip (final_error t)) \<le> max_reason_chars"
  obtains g' l' where "settle_task c m b usage succ restarted now l = Inr (Some g', l')"
    "go_active_task g' = None" "go_session_key g' = go_session_key g" "go_id g' = cx_goal_id c"
    "select_goal_id (cx_goal_id c) l' = Some g'" "ledger_ok l'"
    "lg_receipts l' = lg_receipts l" "lg_sessions l' = lg_sessions l"
proof -
  let ?l = "refresh_coverage (cx_goal_id c) l"
  obtain x where x: "select_goal_id (cx_goal_id c) ?l = Some x" and same: "go_active_task x = go_active_task g"
      "go_usage_version x = go_usage_version g" "go_session_key x = go_session_key g"
      "go_session_id x = go_session_id g" "go_epoch x = go_epoch g" "go_id x = go_id g"
  proof -
    have "select_goal_id (cx_goal_id c) ?l \<noteq> None"
      using goal unfolding select_goal_id_def refresh_coverage_def update_where_def
      by (simp add: find_map_same)
    then obtain x where x: "select_goal_id (cx_goal_id c) ?l = Some x" by blast
    obtain h cov where "select_goal_id (cx_goal_id c) l = Some h" "x = h\<lparr>go_usage_coverage := cov\<rparr>"
      by (rule refreshed_select [OF x])
    then show thesis using goal by (intro that [OF x]) simp_all
  qed
  obtain d where d: "classify_end t (go_objective_revision x = cx_objective_revision c) usage succ restarted m b
      (go_window_ms x + run_duration t) x = Inr d"
    by (rule classify_end_total [OF error])
  let ?f = "settled_row c no_tokens (run_duration t) now d"
  have okl: "ledger_ok ?l" using ok by simp
  have up: "update_goals (owned_by c) ?f ?l = Inr (?l\<lparr>lg_goals := update_where (owned_by c) ?f (lg_goals ?l)\<rparr>)"
  proof (rule update_goes_through [OF okl])
    fix r assume "r \<in> set (lg_goals ?l)"
    then show "goal_checks (?f r) \<and> go_active_task (?f r) \<in> {None, go_active_task r}"
      using settled_checks [OF goal_in_ok [OF okl]] by (simp add: settled_row_def run_duration_def split: option.split)
  qed (simp_all add: settled_row_def)
  let ?l' = "?l\<lparr>lg_goals := update_where (owned_by c) ?f (lg_goals ?l)\<rparr>"
  have owned: "owned_by c x" using select_goal_id_mem [OF x] same own by (simp add: owned_by_def)
  have new: "select_goal_id (cx_goal_id c) ?l' = Some (?f x)"
    using select_updated [OF up, of "cx_goal_id c"] x owned by (simp add: settled_row_def)
  have run: "settle_task c m b usage succ restarted now l = Inr (Some (?f x), ?l')"
    using goal task generation limits own version same x d up new
    by (simp add: settle_task_def Let_def guardrail_errors_def checked_def present_def)
  show thesis
    by (rule that [OF run]) (use new same select_goal_id_mem [OF x] settle_task_ok [OF run ok] in
      \<open>simp_all add: settled_row_def refresh_coverage_def\<close>)
qed


definition expected_of :: "goal \<Rightarrow> expected_goal" where
  "expected_of g = \<lparr>xg_session_id = go_session_id g, xg_epoch = go_epoch g, xg_goal_id = go_id g,
     xg_state_revision = go_state_revision g\<rparr>"

lemma select_goal_of: "ledger_ok l \<Longrightarrow> g \<in> set (lg_goals l) \<Longrightarrow> select_goal (go_session_key g) l = Some g"
proof -
  assume ok: "ledger_ok l" and g: "g \<in> set (lg_goals l)"
  obtain h where h: "select_goal (go_session_key g) l = Some h"
    using g by (cases "select_goal (go_session_key g) l") (auto simp: select_goal_def find_None_iff)
  then show ?thesis using goal_of_key [OF ok g] select_goal_mem [OF h] by metis
qed

lemma resume_goes_through:
  assumes ok: "ledger_ok l" and goal: "select_goal (canonical_key k) l = Some g"
    and status: "go_status g \<in> {GPaused, GBlocked, GUsageLimited}"
    and command: "prepare_command cmd ''resume'' (canonical_key k) = Inr cmd'" "select_receipt cmd' l = None"
      "session_exists (cm_session_key cmd') l"
  obtains r l' g' where "resume_goal k (expected_of g) cmd now l = Inr (r, l')"
    "select_goal (canonical_key k) l' = Some g'" "go_status g' = GActive" "go_id g' = go_id g"
proof -
  let ?k = "canonical_key k" and ?l = "refresh_coverage (go_id g) l"
  let ?P = "fenced ?k (go_id g) (go_state_revision g)"
  have okl: "ledger_ok ?l" using ok by simp
  have up: "update_goals ?P (resumed_row now) ?l = Inr (?l\<lparr>lg_goals := update_where ?P (resumed_row now) (lg_goals ?l)\<rparr>)"
  proof (rule update_goes_through [OF okl])
    fix r assume "r \<in> set (lg_goals ?l)"
    from goal_in_ok [OF okl this]
    show "goal_checks (resumed_row now r) \<and> go_active_task (resumed_row now r) \<in> {None, go_active_task r}"
      by (auto simp: resumed_row_def goal_ok_def goal_checks_def)
  qed (simp_all add: resumed_row_def)
  let ?l' = "?l\<lparr>lg_goals := update_where ?P (resumed_row now) (lg_goals ?l)\<rparr>"
  obtain h where h: "select_goal ?k ?l = Some h" "go_id h = go_id g" "go_state_revision h = go_state_revision g"
      "go_session_key h = ?k"
    using goal select_goal_mem [OF goal] unfolding select_goal_def refresh_coverage_def update_where_def
    by (simp add: find_map_same)
  have g': "select_goal ?k ?l' = Some (resumed_row now h)"
    using h unfolding select_goal_def update_where_def
    by (simp add: find_map_same resumed_row_def fenced_def)
  have "select_receipt cmd' ?l' = None" "session_exists (cm_session_key cmd') ?l'"
    using command by (simp_all add: refresh_coverage_def select_receipt_def session_exists_def)
  then obtain r l2 where ans: "answer cmd' (resumed_row now h) ?l' = Inr (r, l2)"
    by (auto simp: answer_def Let_def insert_receipt_def)
  have run: "resume_goal k (expected_of g) cmd now l = Inr (r, l2)"
    using command goal status up g' ans
    by (auto simp: resume_goal_def Let_def with_replay_def replay_def require_expected_def expected_of_def
        checked_def present_def selected_def)
  show thesis
    by (rule that [OF run, of "resumed_row now h"])
      (use g' goals_of_answer [OF ans] h in \<open>simp_all add: select_goal_def resumed_row_def\<close>)
qed



definition failed_ledger :: ledger where
  "failed_ledger = reached (demo_ops @ [OTasks [demo_task TFailed (Some 50) [(''goal_context'', JObj (context_detail demo_ctx))]]])"

definition demo_prepared :: command where
  "demo_prepared = (demo_command ''resume'')\<lparr>cm_session_key := canonical_key (canonical_key ''s'')\<rparr>"



section \<open>Recovery\<close>

lemma tasks_of_settle: "settle_owners reason now ps l = Inr l' \<Longrightarrow> lg_tasks l' = lg_tasks l"
  by (induction ps arbitrary: l) (auto simp: settle_owner_def split: option.split_asm dest!: tasks_of_rows)

lemma restarted_ended: "tk_status (restarted_task now t) \<notin> {TQueued, TRunning}"
  by (simp add: restarted_task_def unsettled_task_def abandoned_task_def)

lemma restart_phases:
  assumes "restart reason now l = Inr (n, l')"
  obtains l2 l3 l4 :: ledger where "lg_tasks l' = map (restarted_task now) (lg_tasks l)" "lg_tasks l4 = lg_tasks l'"
    "lg_goals l' = update_where (\<lambda>g. go_status g = GActive \<or> go_active_task g \<noteq> None) (released_row reason now) (lg_goals l2)"
    "lg_runs l' = map (reconcile_run l4 now) (lg_runs l4)"
    "lg_runs l4 = update_where (run_released l3) (paused_for ''process_restart'' now) (lg_runs l3)"
    "n = rowcount (\<lambda>t. tk_status t \<in> {TQueued, TRunning}) (lg_tasks l)"
    "reason \<in> {''process_restart'', ''feature_disabled''}"
proof -
  obtain l2 l3 l4 where s: "settle_owners reason now (goal_owners l) (l\<lparr>lg_tasks := map (restarted_task now) (lg_tasks l)\<rparr>) = Inr l2"
      "update_goals (\<lambda>g. go_status g = GActive \<or> go_active_task g \<noteq> None) (released_row reason now) l2 = Inr l3"
      "update_runs (run_released l3) (paused_for ''process_restart'' now) l3 = Inr l4"
      "put_runs (map (reconcile_run l4 now) (lg_runs l4)) l4 = Inr l'"
      "n = rowcount (\<lambda>t. tk_status t \<in> {TQueued, TRunning}) (lg_tasks l)"
      "reason \<in> {''process_restart'', ''feature_disabled''}"
    using assms by (auto simp: restart_def Let_def checked_Inr)
  show thesis
    by (rule that [of l4 l2 l3]) (use s tasks_of_settle [OF s(1)] tasks_of_rows [OF s(2)] update_rows [OF s(2)] in
      \<open>auto simp: update_runs_def put_runs_Inr\<close>)
qed

lemma restart_settles_runs:
  assumes "pn_status r \<in> {RQueued, RRunning}" "\<forall>t \<in> set (lg_tasks l). tk_status t \<notin> {TQueued, TRunning}"
  shows "pn_status (reconcile_run l now r) \<notin> {RQueued, RRunning}"
proof (cases "case pn_active_task r of None \<Rightarrow> None | Some t \<Rightarrow> select_task t l")
  case None
  then show ?thesis using assms(1) by (simp add: reconcile_run_def paused_for_def)
next
  case (Some t)
  then have "t \<in> set (lg_tasks l)" by (auto simp: select_task_def split: option.split_asm dest: find_mem)
  then show ?thesis using Some assms
    by (simp add: reconcile_run_def cancelled_row_def completed_row_def paused_run_row_def)
qed

lemma reconcile_idle: "pn_status r \<notin> {RQueued, RRunning} \<Longrightarrow> reconcile_run l now r = r"
  by (simp add: reconcile_run_def)

text \<open>The state that recovery leaves: no Goal active or owned, no task and no run at work.\<close>

definition quiet :: "ledger \<Rightarrow> bool" where
  "quiet l \<longleftrightarrow>
     list_all (\<lambda>g. go_status g \<noteq> GActive \<and> go_active_task g = None) (lg_goals l)
   \<and> list_all (\<lambda>t. tk_status t \<notin> {TQueued, TRunning}) (lg_tasks l)
   \<and> list_all (\<lambda>r. pn_status r \<notin> {RQueued, RRunning}) (lg_runs l)"

lemma restart_quiet: "restart reason now l = Inr (n, l') \<Longrightarrow> quiet l'"
proof -
  assume run: "restart reason now l = Inr (n, l')"
  obtain l2 l4 :: ledger where p: "lg_tasks l' = map (restarted_task now) (lg_tasks l)" "lg_tasks l4 = lg_tasks l'"
    "lg_goals l' = update_where (\<lambda>g. go_status g = GActive \<or> go_active_task g \<noteq> None) (released_row reason now) (lg_goals l2)"
    "lg_runs l' = map (reconcile_run l4 now) (lg_runs l4)"
    by (rule restart_phases [OF run]) (erule (3) that)
  have tasks: "\<forall>t \<in> set (lg_tasks l4). tk_status t \<notin> {TQueued, TRunning}" using p(1,2) restarted_ended by auto
  have "pn_status (reconcile_run l4 now r) \<notin> {RQueued, RRunning}" for r
    using restart_settles_runs [OF _ tasks] reconcile_idle [of r] by metis
  then have "list_all (\<lambda>r. pn_status r \<notin> {RQueued, RRunning}) (lg_runs l')" using p(4) by (auto simp: list_all_iff)
  moreover have "list_all (\<lambda>t. tk_status t \<notin> {TQueued, TRunning}) (lg_tasks l')" using tasks p(2) by (simp add: list_all_iff)
  moreover have "go_status (released_row reason now g) \<noteq> GActive" "go_active_task (released_row reason now g) = None" for g
    by (simp_all add: released_row_def)
  then have "list_all (\<lambda>g. go_status g \<noteq> GActive \<and> go_active_task g = None) (lg_goals l')"
    unfolding p(3) list_all_iff set_update_where by auto
  ultimately show ?thesis by (simp add: quiet_def)
qed

lemma nothing_to_update: "(\<And>r. r \<in> set rows \<Longrightarrow> \<not> P r) \<Longrightarrow> update_where P f rows = rows"
  by (simp add: update_where_def map_idI)

lemma restart_again:
  assumes "ledger_ok l" "quiet l" "reason \<in> {''process_restart'', ''feature_disabled''}"
  shows "\<exists>l'. restart reason now l = Inr (0, l') \<and> lg_goals l' = lg_goals l \<and> lg_runs l' = lg_runs l"
proof -
  let ?l = "l\<lparr>lg_tasks := map (restarted_task now) (lg_tasks l)\<rparr>"
  have idle: "goal_owners l = []" using assms(2) by (auto simp: goal_owners_def quiet_def list_all_iff)
  have none: "rowcount (\<lambda>t. tk_status t \<in> {TQueued, TRunning}) (lg_tasks l) = 0"
    using assms(2) by (auto simp: rowcount_def quiet_def list_all_iff filter_empty_conv)
  have same: "update_where (\<lambda>g. go_status g = GActive \<or> go_active_task g \<noteq> None) f (lg_goals l) = lg_goals l"
    "update_where (run_released x) h (lg_runs l) = lg_runs l" for f x h
    using assms(2) by (auto intro!: nothing_to_update simp: quiet_def list_all_iff run_released_def)
  have map: "map (reconcile_run x now) (lg_runs l) = lg_runs l" for x
    using assms(2) by (auto intro!: map_idI reconcile_idle simp: quiet_def list_all_iff)
  have fits: "list_all goal_checks (lg_goals l)" "goals_unique (lg_goals l)" "list_all run_checks (lg_runs l)"
      "runs_unique (lg_runs l)"
    using assms(1) by (auto simp: ledger_ok_def list_all_iff goal_ok_def run_ok_def)
  show ?thesis using assms(3) fits
    by (simp add: restart_def Let_def idle none [simplified] same [simplified] map checked_def update_goals_def put_goals_def
        update_runs_def put_runs_def)
qed

text \<open>C10: Recovery quiesces. When the start-up recovery commits on a reachable ledger, no Goal is active or
  owned, no task is queued or running, no plan run is queued or running; it reports the number of tasks that
  were at work; no Goal was completed, reactivated or created by it; and a second recovery, after a crash or
  at the next start, commits again, finds nothing and leaves every Goal and run as it is.\<close>

theorem restart_quiesces:
  assumes "restart reason now (reached ops) = Inr (n, l')"
  shows "quiet l' \<and> n = rowcount (\<lambda>t. tk_status t \<in> {TQueued, TRunning}) (lg_tasks (reached ops))
     \<and> (\<forall>g' \<in> set (lg_goals l'). \<exists>g \<in> set (lg_goals (reached ops)). go_id g' = go_id g
          \<and> go_status g' = (if go_status g = GActive then GPaused else go_status g))
     \<and> (\<exists>l''. restart reason later l' = Inr (0, l'') \<and> lg_goals l'' = lg_goals l' \<and> lg_runs l'' = lg_runs l')"
proof -
  have p: "n = rowcount (\<lambda>t. tk_status t \<in> {TQueued, TRunning}) (lg_tasks (reached ops))"
      "reason \<in> {''process_restart'', ''feature_disabled''}"
    by (rule restart_phases [OF assms], assumption)+
  have quiet: "quiet l'" by (rule restart_quiet [OF assms])
  have again: "\<exists>l''. restart reason later l' = Inr (0, l'') \<and> lg_goals l'' = lg_goals l' \<and> lg_runs l'' = lg_runs l'"
    by (rule restart_again [OF restart_ok [OF assms reached_ok] quiet p(2)])
  have "\<exists>g \<in> set (lg_goals (reached ops)). go_id g' = go_id g
          \<and> go_status g' = (if go_status g = GActive then GPaused else go_status g)" if "g' \<in> set (lg_goals l')" for g'
  proof -
    note all = bspec [OF restart_demotes [OF assms, unfolded moved_def] that]
    obtain g where "g \<in> set (lg_goals (reached ops))" "moves demotes g g'"
      using all by (elim bexE)
    moreover have "go_status g' \<noteq> GActive" using quiet that by (simp add: quiet_def list_all_iff)
    ultimately show ?thesis by (intro bexI [of _ g]) (auto simp: moves_def demotes_def)
  qed
  then show ?thesis using quiet p(1) again by blast
qed

definition busy_ledger :: ledger where
  "busy_ledger = reached (demo_ops @ [OTasks [demo_task TRunning None [(''goal_context'', JObj (context_detail demo_ctx))]]])"

theorem restart_quiesces_witness:
  "\<exists>l'. restart ''process_restart'' 90 busy_ledger = Inr (1, l') \<and> quiet l' \<and> map go_status (lg_goals l') = [GPaused]"
proof -
  have "case restart ''process_restart'' 90 busy_ledger of Inl _ \<Rightarrow> False
     | Inr (n, l') \<Rightarrow> n = 1 \<and> map go_status (lg_goals l') = [GPaused]"
    by code_simp
  then obtain l' where run: "restart ''process_restart'' 90 busy_ledger = Inr (1, l')" "map go_status (lg_goals l') = [GPaused]"
    by (auto split: sum.split_asm prod.split_asm)
  have "quiet l'" using restart_quiesces [OF run(1) [unfolded busy_ledger_def]] by simp
  then show ?thesis using run by (intro exI [of _ l'] conjI)
qed


section \<open>Revisions of plan runs\<close>

definition demo_revision :: "string \<Rightarrow> string option \<Rightarrow> int \<Rightarrow> plan_revision" where
  "demo_revision i parent generation = \<lparr>pv_id = i, pv_plan_id = ''p'', pv_parent = parent, pv_generation = generation,
     pv_session_key = canonical_key ''s'', pv_session_id = ''i'', pv_epoch = 0, pv_turn_id = None, pv_message_id = None,
     pv_title = ''plan'', pv_markdown = ''1. ship'', pv_steps = [\<lparr>ps_id = ''a'', ps_title = ''ship'', ps_details = None\<rparr>],
     pv_hash = replicate 64 (CHR ''a''), pv_created = 10\<rparr>"

definition demo_run :: plan_run where
  "demo_run = \<lparr>pn_id = ''r'', pn_session_key = ''s'', pn_session_id = ''i'', pn_epoch = 0, pn_revision_id = ''v1'',
     pn_supersedes = None, pn_driver_kind = ''manual'', pn_driver_id = None, pn_status = RQueued, pn_states = [],
     pn_current_step = None, pn_state_revision = 0, pn_active_task = None, pn_pause_reason = None,
     pn_terminal_reason = None, pn_created = 20, pn_updated = 20, pn_started = None, pn_finished = None\<rparr>"

definition plan_ops :: "op list" where
  "plan_ops = [OSessions [demo_session], ORevise (demo_revision ''v1'' None 1) None None, OStartRun demo_run [] 20,
     OMarkRunning ''r'' 0 ''t'' 30, OCompleteRun ''r'' 1 ''t'' 40,
     ORevise (demo_revision ''v2'' (Some ''v1'') 2) (Some ''v1'') None]"

definition finished_run :: plan_run where
  "finished_run = hd (lg_runs (reached plan_ops))"

lemma finished_run_row: "lg_runs (reached plan_ops) = [finished_run]" "pn_id finished_run = ''r''"
    "pn_status finished_run = RCompleted"
    "lg_runs (ledger_step (OMarkRunning ''r'' 2 ''u'' 60) (reached plan_ops))
     = [superseded_row ''stale_plan_revision'' 60 finished_run]"
  by code_simp+

text \<open>C34: Revisions of plan runs. Whatever transaction is run, a plan run that is there before and after it
  keeps its identity, session generation, plan revision and creation time; when anything of it changed, its
  state revision rose; and a run that has ended stays as it ended, with one exception: a claim of the run
  (\<open>mark_plan_run_running\<close>) whose plan revision is no longer the active one of the session rewrites it,
  ended or not, to superseded, with a new end. The second part shows the exception at work: a completed
  run becomes superseded.\<close>

theorem run_versions:
  assumes "r \<in> set (lg_runs (reached ops))" "r' \<in> set (lg_runs (ledger_step a (reached ops)))" "pn_id r' = pn_id r"
  shows "pn_session_key r' = pn_session_key r \<and> pn_session_id r' = pn_session_id r \<and> pn_epoch r' = pn_epoch r
     \<and> pn_revision_id r' = pn_revision_id r \<and> pn_created r' = pn_created r
     \<and> (r' = r \<or> pn_state_revision r < pn_state_revision r')
     \<and> (is_active r \<or> r' = r
        \<or> (\<exists>t now. a = OMarkRunning (pn_id r) (pn_state_revision r) t now \<and> left_behind r (reached ops)
             \<and> r' = superseded_row ''stale_plan_revision'' now r))
     \<and> map pn_status (lg_runs (ledger_step (OMarkRunning ''r'' 2 ''u'' 60) (reached plan_ops))) = [RSuperseded]
     \<and> map pn_status (lg_runs (reached plan_ops)) = [RCompleted]"
  using step_runs [OF reached_ok assms(2,1,3)] finished_run_row
  by (cases a) (auto simp: run_moves_def stale_claim_def superseded_row_def)

theorem run_versions_witness:
  "pn_state_revision finished_run < pn_state_revision (superseded_row ''stale_plan_revision'' 60 finished_run)
     \<and> left_behind finished_run (reached plan_ops)"
proof -
  let ?r = "superseded_row ''stale_plan_revision'' 60 finished_run" and ?a = "OMarkRunning ''r'' 2 ''u'' 60"
  have "finished_run \<in> set (lg_runs (reached plan_ops))" "?r \<in> set (lg_runs (ledger_step ?a (reached plan_ops)))"
      "pn_id ?r = pn_id finished_run"
    using finished_run_row by (simp_all add: superseded_row_def)
  note moves = run_versions [OF this]
  moreover have "\<not> is_active finished_run" "?r \<noteq> finished_run" by code_simp+
  ultimately show ?thesis by blast
qed

end
