(* ===== verification/Plan_Forms.thy ===== *)
theory Plan_Forms
  imports Plan_Data
begin

text \<open>
  Normal forms of plans: which lists of steps the normalizer gives, and that its results, written out as
  JSON, are read back unchanged; the same for revisions with their digest and for the states of a run.
\<close>

section \<open>Texts\<close>

lemma bounded_text_Inr:
  "bounded_text n v = Inr t \<longleftrightarrow> (\<exists>s. v = JStr s \<and> t = py_strip s \<and> t \<noteq> [] \<and> length t \<le> n)"
  by (cases v) (auto simp: bounded_text_def)

definition text_ok :: "nat \<Rightarrow> string \<Rightarrow> bool" where
  "text_ok n t \<longleftrightarrow> t \<noteq> [] \<and> py_strip t = t \<and> length t \<le> n"

lemma bounded_text_sound: "bounded_text n v = Inr t \<Longrightarrow> text_ok n t"
  by (auto simp: bounded_text_Inr text_ok_def)

lemma bounded_text_fixed: "bounded_text n (JStr t) = Inr t \<longleftrightarrow> text_ok n t"
  by (auto simp: bounded_text_Inr text_ok_def)

lemma alnum_not_space: "alnum c \<Longrightarrow> \<not> py_isspace c"
  by (auto simp: alnum_def py_isspace_def Let_def)

lemma step_id_stripped: "step_id_ok s \<Longrightarrow> py_strip s = s"
proof (cases s)
  case (Cons c cs)
  assume "step_id_ok s"
  then have s: "alnum c" "list_all (\<lambda>x. alnum x \<or> x \<in> set ''._:-'') cs"
    unfolding Cons step_id_ok_def by (simp_all only: list.case)
  have "list_all (\<lambda>x. \<not> py_isspace x) ''._:-''" by code_simp
  then have "x \<in> set ''._:-'' \<Longrightarrow> \<not> py_isspace x" for x unfolding list_all_iff by (rule bspec)
  then have "list_all (\<lambda>x. \<not> py_isspace x) cs"
    by (intro list.pred_mono_strong [OF s(2)]) (use alnum_not_space in blast)
  then show ?thesis using alnum_not_space [OF s(1)] Cons by (intro strip_no_space) (simp_all add: list_all_iff)
qed (simp add: step_id_ok_def)

section \<open>Steps\<close>

definition step_ok :: "plan_step \<Rightarrow> bool" where
  "step_ok s \<longleftrightarrow> step_id_ok (ps_id s) \<and> text_ok max_step_title (ps_title s)
     \<and> (case ps_details s of None \<Rightarrow> True | Some d \<Rightarrow> text_ok max_step_details d)"

definition steps_ok :: "plan_step list \<Rightarrow> bool" where
  "steps_ok ss \<longleftrightarrow> ss \<noteq> [] \<and> length ss \<le> max_plan_steps \<and> distinct (map ps_id ss) \<and> list_all step_ok ss"

lemma plan_step_sound: "plan_step_from i seen v = Inr s \<Longrightarrow> step_ok s \<and> ps_id s \<notin> set seen"
  unfolding plan_step_from_def
  by (auto simp: step_ok_def split: json.splits if_splits sum.splits dest: bounded_text_sound)

lemma plan_step_back:
  "plan_step_from i seen (plan_step_json s) = Inr s \<longleftrightarrow> step_ok s \<and> ps_id s \<notin> set seen"
proof (cases "step_ok s \<and> ps_id s \<notin> set seen")
  case True
  then have "bounded_text max_step_title (JStr (ps_title s)) = Inr (ps_title s)"
    "ps_details s = Some d \<Longrightarrow> bounded_text max_step_details (JStr d) = Inr d" for d
    by (simp_all add: bounded_text_fixed step_ok_def)
  then show ?thesis using True
    by (cases s) (auto simp: plan_step_from_def plan_step_json_def raw_step_id_def jget_def jget_or_def
        step_ok_def step_id_stripped split: option.splits)
qed (use plan_step_sound in blast)

lemma plan_steps_sound:
  "plan_steps_from i seen vs = Inr ss \<Longrightarrow>
     list_all step_ok ss \<and> distinct (map ps_id ss) \<and> set (map ps_id ss) \<inter> set seen = {} \<and> length ss = length vs"
proof (induction vs arbitrary: i seen ss)
  case (Cons v vs)
  obtain s rest where s: "plan_step_from i seen v = Inr s" "plan_steps_from (i + 1) (ps_id s # seen) vs = Inr rest"
      "ss = s # rest"
    using Cons.prems by (auto split: sum.splits)
  show ?case using Cons.IH [OF s(2)] plan_step_sound [OF s(1)] s(3) by auto
qed simp

lemma plan_steps_back:
  "list_all step_ok ss \<Longrightarrow> distinct (map ps_id ss) \<Longrightarrow> set (map ps_id ss) \<inter> set seen = {} \<Longrightarrow>
     plan_steps_from i seen (map plan_step_json ss) = Inr ss"
proof (induction ss arbitrary: i seen)
  case (Cons s ss)
  then have "plan_step_from i seen (plan_step_json s) = Inr s" by (simp add: plan_step_back)
  then show ?case using Cons.IH [of "ps_id s # seen" "i + 1"] Cons.prems by simp
qed simp

lemma plan_steps_form: "normalize_plan_steps v = Inr ss \<Longrightarrow> steps_ok ss"
  by (auto simp: normalize_plan_steps_def steps_ok_def split: json.splits if_splits dest!: plan_steps_sound)

lemma plan_steps_fixed: "normalize_plan_steps (JList (map plan_step_json ss)) = Inr ss \<longleftrightarrow> steps_ok ss"
  using plan_steps_form [of "JList (map plan_step_json ss)" ss] plan_steps_back [of ss "[]" 0]
  by (auto simp: normalize_plan_steps_def steps_ok_def)

lemma revision_form:
  assumes "prepare_plan_revision digest title markdown steps r = Inr v"
  shows "text_ok max_plan_title (pv_title v) \<and> text_ok max_plan_markdown (pv_markdown v) \<and> steps_ok (pv_steps v)
     \<and> pv_hash v = digest (pv_title v) (pv_markdown v) (pv_steps v)
     \<and> prepare_plan_revision digest (JStr (pv_title v)) (JStr (pv_markdown v)) (JList (map plan_step_json (pv_steps v))) v
         = Inr v"
proof -
  obtain t m ss where s: "bounded_text max_plan_title title = Inr t" "bounded_text max_plan_markdown markdown = Inr m"
      "normalize_plan_steps steps = Inr ss" "v = r\<lparr>pv_title := t, pv_markdown := m, pv_steps := ss, pv_hash := digest t m ss\<rparr>"
      "1 \<le> pv_generation r" "pv_id r \<noteq> []" "pv_plan_id r \<noteq> []" "pv_session_id r \<noteq> []" "0 \<le> pv_epoch r"
    using assms by (auto simp: prepare_plan_revision_def checked_Inr split: sum.splits)
  have ok: "text_ok max_plan_title t" "text_ok max_plan_markdown m" "steps_ok ss"
    using s(1-3) bounded_text_sound plan_steps_form by blast+
  then have "bounded_text max_plan_title (JStr t) = Inr t" "bounded_text max_plan_markdown (JStr m) = Inr m"
    "normalize_plan_steps (JList (map plan_step_json ss)) = Inr ss"
    by (simp_all add: bounded_text_fixed plan_steps_fixed)
  then show ?thesis using ok s(4-9) by (simp add: prepare_plan_revision_def checked_def)
qed

section \<open>States\<close>

lemma status_back [simp]: "step_status_of (step_status_str st) = st"
  by (cases st) (simp_all add: step_status_of_def)

lemma status_listed [simp]: "step_status_str st \<in> step_status_str ` set step_statuses"
  by (cases st) (simp_all add: step_statuses_def)

definition state_ok :: "plan_step \<Rightarrow> step_state \<Rightarrow> bool" where
  "state_ok s row \<longleftrightarrow> ss_id row = ps_id s \<and> ss_title row = ps_title s
     \<and> (case ss_reason row of None \<Rightarrow> True
        | Some r \<Rightarrow> ss_status row \<in> {SBlocked, SSkipped} \<and> text_ok max_step_reason r)"

lemma step_state_sound: "step_state_from s v = Inr row \<Longrightarrow> state_ok s row"
  unfolding step_state_from_def Let_def
  by (auto simp: state_ok_def split: json.splits if_splits sum.splits option.splits dest: bounded_text_sound)

lemma step_state_back: "step_state_from s (step_state_json row) = Inr row \<longleftrightarrow> state_ok s row"
proof (cases "state_ok s row")
  case True
  then have "ss_reason row = Some r \<Longrightarrow> bounded_text max_step_reason (JStr r) = Inr r" for r
    by (simp add: bounded_text_fixed state_ok_def)
  then show ?thesis using True
    by (cases row) (auto simp: step_state_from_def step_state_json_def state_ok_def jget_def jget_or_def
        split: option.splits)
qed (use step_state_sound in blast)

lemma step_states_sound: "length vs = length ss \<Longrightarrow> step_states_from ss vs = Inr rows \<Longrightarrow> list_all2 state_ok ss rows"
proof (induction ss vs arbitrary: rows rule: step_states_from.induct)
  case (1 s ss v vs)
  then show ?case by (auto split: sum.splits dest: step_state_sound)
qed auto

lemma step_states_back:
  "list_all2 state_ok ss rows \<Longrightarrow> step_states_from ss (map step_state_json rows) = Inr rows"
  by (induction rule: list_all2_induct) (simp_all add: step_state_back [THEN iffD2])

lemma step_states_fixed:
  "normalize_step_states (JList (map step_state_json rows)) ss = Inr rows \<longleftrightarrow> list_all2 state_ok ss rows"
  using step_states_back [of ss rows] step_states_sound [of "map step_state_json rows" ss rows]
  by (auto simp: normalize_step_states_def dest: list_all2_lengthD)

lemma step_states_form: "normalize_step_states v ss = Inr rows \<Longrightarrow> list_all2 state_ok ss rows"
  by (auto simp: normalize_step_states_def split: json.splits if_splits dest: step_states_sound)

text \<open>C39: Normal forms of plans. The lists of steps that the normalizer gives are exactly those it reads back
  from their JSON: 1 to 64 steps with distinct ids of the portable pattern and stripped titles and details
  within their limits. A prepared revision satisfies its limits, carries the digest of its body and, prepared
  again from its own body, is itself. The states of a run that the normalizer gives are exactly those it reads
  back: one for each step, with its id and title, and a reason only where the step is blocked or skipped; the
  initial states are among them.\<close>

theorem plan_normal_forms:
  "(normalize_plan_steps (JList (map plan_step_json ss)) = Inr ss) = steps_ok ss
   \<and> ((\<exists>v. normalize_plan_steps v = Inr ss) = steps_ok ss)
   \<and> (normalize_step_states (JList (map step_state_json rows)) ss = Inr rows) = list_all2 state_ok ss rows
   \<and> ((\<exists>v. normalize_step_states v ss = Inr rows) = list_all2 state_ok ss rows)
   \<and> normalize_step_states (JList (map step_state_json (initial_step_states ss))) ss = Inr (initial_step_states ss)
   \<and> (case prepare_plan_revision digest title markdown steps r of Inl _ \<Rightarrow> True
      | Inr v \<Rightarrow> text_ok 512 (pv_title v) \<and> text_ok 100000 (pv_markdown v) \<and> steps_ok (pv_steps v)
         \<and> pv_hash v = digest (pv_title v) (pv_markdown v) (pv_steps v)
         \<and> prepare_plan_revision digest (JStr (pv_title v)) (JStr (pv_markdown v))
             (JList (map plan_step_json (pv_steps v))) v = Inr v)"
proof -
  have initial: "list_all2 state_ok ss (initial_step_states ss)"
    by (induction ss) (simp_all add: initial_step_states_def state_ok_def)
  have "(\<exists>v. normalize_plan_steps v = Inr ss) = steps_ok ss" using plan_steps_form plan_steps_fixed by blast
  moreover have "(\<exists>v. normalize_step_states v ss = Inr rows) = list_all2 state_ok ss rows"
    using step_states_form step_states_fixed by blast
  ultimately show ?thesis
    using initial revision_form [of digest title markdown steps r]
    by (simp add: plan_steps_fixed step_states_fixed max_plan_title_def max_plan_markdown_def split: sum.split)
qed

end
