(* ===== verification/Approvals.thy ===== *)
theory Approvals
  imports Json Regex
begin

text \<open>
  The approval queue of \<open>application/approval_queue.py\<close>: what a run asks a person before it acts, and what
  becomes of the answer.

  \<^item> \<open>approval\<close> is a row of the table \<open>approval_queue\<close> and the \<open>PendingApproval\<close> read from it,
    \<open>channel_code\<close> a row of \<open>channel_approval_codes\<close>, \<open>queue\<close> the object with its two tables.
  \<^item> An operation is a function on the queue that returns its value or its exception with the new queue:
    stale claims are released in a transaction of their own, so they stay released when the operation
    raises. The locks make every operation one step; it reads the clock once, as its argument \<open>now\<close>.
  \<^item> \<open>qu_events\<close> is what the listeners are told. The cache \<open>_pending\<close> with the \<open>asyncio\<close> events, which
    only wakes waiters before their next poll, and the connection are left out; so are the branches for a
    row that changed between a read and a write of one transaction.
\<close>

section \<open>Command patterns\<close>

text \<open>\<open>fnmatch.fnmatchcase\<close>: the characters of a bracket expression are its chunks, cut at the hyphens that
  make ranges; an empty range takes its ends away.\<close>

definition char_le :: "char \<Rightarrow> char \<Rightarrow> bool" where
  "char_le a b \<longleftrightarrow> (of_char a :: nat) \<le> of_char b"

fun cut_chunks :: "nat \<Rightarrow> string \<Rightarrow> string \<Rightarrow> string list" where
  "cut_chunks skip acc [] = [rev acc]"
| "cut_chunks (Suc n) acc (c # cs) = cut_chunks n (c # acc) cs"
| "cut_chunks 0 acc (c # cs) =
     (if c = CHR ''-'' then rev acc # cut_chunks 2 [] cs else cut_chunks 0 (c # acc) cs)"

definition chunks_of :: "string \<Rightarrow> string list" where
  "chunks_of stuff =
     (let ws = cut_chunks (if take 1 stuff = ''!'' then 2 else 1) [] stuff in
      if last ws = [] \<and> 1 < length ws
      then butlast (butlast ws) @ [last (butlast ws) @ ''-''] else ws)"

fun drop_empty_ranges :: "string list \<Rightarrow> string list" where
  "drop_empty_ranges [] = []"
| "drop_empty_ranges (v # ws) =
     (case drop_empty_ranges ws of
        [] \<Rightarrow> [v]
      | w # rest \<Rightarrow> if char_le (last v) (hd w) then v # w # rest else (butlast v @ tl w) # rest)"

fun in_chunks :: "string list \<Rightarrow> char \<Rightarrow> bool" where
  "in_chunks [] c \<longleftrightarrow> False"
| "in_chunks [w] c \<longleftrightarrow> c \<in> set w"
| "in_chunks (v # w # ws) c \<longleftrightarrow>
     c \<in> set v \<or> (char_le (last v) c \<and> char_le c (hd w)) \<or> in_chunks (w # ws) c"

definition in_bracket :: "string \<Rightarrow> char \<Rightarrow> bool" where
  "in_bracket stuff c =
     (let ws = drop_empty_ranges (chunks_of stuff) in
      if ws = [[]] then False
      else if ws = [''!''] then True
      else if take 1 (hd ws) = ''!'' then \<not> in_chunks (tl (hd ws) # tl ws) c
      else in_chunks ws c)"

text \<open>The bracket expression after an opening bracket and what follows it, if it is closed.\<close>

definition bracket_end :: "string \<Rightarrow> (string \<times> string) option" where
  "bracket_end p =
     (let i = (if take 1 p = ''!'' then 1 else 0);
          j = (if take 1 (drop i p) = '']'' then i + 1 else i);
          body = takeWhile (\<lambda>c. c \<noteq> CHR '']'') (drop j p)
      in if CHR '']'' \<in> set (drop j p)
         then Some (take j p @ body, drop (j + length body + 1) p) else None)"

lemma bracket_end_shorter [termination_simp]: "Some (x, y) = bracket_end p \<Longrightarrow> length y < Suc (length p)"
  by (auto simp: bracket_end_def Let_def split: if_splits)

function (sequential) glob :: "string \<Rightarrow> string \<Rightarrow> bool" where
  "glob [] s = (s = [])"
| "glob (p # ps) s =
     (if p = CHR ''*'' then glob ps s \<or> (case s of [] \<Rightarrow> False | _ # t \<Rightarrow> glob (p # ps) t)
      else case s of
        [] \<Rightarrow> False
      | c # t \<Rightarrow>
          if p = CHR ''?'' then glob ps t
          else if p = CHR ''['' then
            (case bracket_end ps of
               Some (stuff, rest) \<Rightarrow> in_bracket stuff c \<and> glob rest t
             | None \<Rightarrow> c = p \<and> glob ps t)
          else c = p \<and> glob ps t)"
  by pat_completeness auto
termination
  by (relation "measure (\<lambda>(p, s). length p + length s)") (auto dest: bracket_end_shorter [OF sym])

definition command_matches :: "string \<Rightarrow> string \<Rightarrow> bool" where
  "command_matches command pattern =
     (let p = py_strip pattern in
      if p = [] then False else glob p command \<or> py_in p command)"

definition classify_approval :: "string \<Rightarrow> string list \<Rightarrow> string list \<Rightarrow> string option" where
  "classify_approval command allows denies =
     (if command = [] then None
      else if list_ex (command_matches command) denies then Some ''deny''
      else if list_ex (command_matches command) allows then Some ''allow''
      else None)"

section \<open>State\<close>

record approval =
  ap_id :: string
  ap_namespace :: string
  ap_params :: obj
  ap_created :: real
  ap_resolved :: bool
  ap_approved :: bool
  ap_consumed :: bool
  ap_deadline :: real
  ap_resolution :: string
  ap_claim :: "string option"
  ap_claimed_at :: "real option"

record channel_code =
  cc_code :: string
  cc_approval :: string
  cc_namespace :: string
  cc_session_key :: string
  cc_owner :: string
  cc_channel_name :: string
  cc_channel_id :: string
  cc_thread_id :: string
  cc_policy :: string
  cc_created :: real

record approval_settings =
  as_mode :: string
  as_allow :: "string list"
  as_deny :: "string list"

record queue =
  qu_timeout :: "real option"
  qu_poll :: real
  qu_ttl :: real
  qu_rows :: "approval list"
  qu_codes :: "channel_code list"
  qu_run_modes :: "(string, string) dict"
  qu_global :: approval_settings
  qu_nodes :: "(string, approval_settings) dict"
  qu_events :: "(string \<times> approval) list"

type_synonym 'a queue_res = "(py_exc + 'a) \<times> queue"

definition new_queue :: "real option \<Rightarrow> real \<Rightarrow> real \<Rightarrow> queue" where
  "new_queue timeout poll ttl =
     \<lparr>qu_timeout = map_option (max 0) timeout, qu_poll = max (1 / 100) poll, qu_ttl = max 0 ttl,
      qu_rows = [], qu_codes = [], qu_run_modes = [],
      qu_global = \<lparr>as_mode = ''prompt'', as_allow = [], as_deny = []\<rparr>, qu_nodes = [], qu_events = []\<rparr>"

definition update_rows_where :: "(approval \<Rightarrow> bool) \<Rightarrow> (approval \<Rightarrow> approval) \<Rightarrow> queue \<Rightarrow> queue" where
  "update_rows_where P f q = q\<lparr>qu_rows := update_where P f (qu_rows q)\<rparr>"

definition get_row :: "string \<Rightarrow> queue \<Rightarrow> approval option" where
  "get_row i q = find (\<lambda>r. ap_id r = i) (qu_rows q)"

definition notify :: "string \<Rightarrow> approval \<Rightarrow> queue \<Rightarrow> queue" where
  "notify event r q = q\<lparr>qu_events := qu_events q @ [(event, r)]\<rparr>"

section \<open>Claims that went stale\<close>

definition stale :: "real \<Rightarrow> real \<Rightarrow> approval \<Rightarrow> bool" where
  "stale ttl now r \<longleftrightarrow>
     \<not> ap_resolved r \<and> ap_claim r \<noteq> None
   \<and> (case ap_claimed_at r of None \<Rightarrow> True | Some t \<Rightarrow> t \<le> now - ttl)"

definition unclaimed :: "approval \<Rightarrow> approval" where
  "unclaimed r = r\<lparr>ap_claim := None, ap_claimed_at := None\<rparr>"

definition release_stale :: "real \<Rightarrow> queue \<Rightarrow> queue" where
  "release_stale now q = update_rows_where (stale (qu_ttl q) now) unclaimed q"

text \<open>A new process on the tables of an old one: \<open>__init__\<close> with \<open>_load_pending\<close>.\<close>

definition reopen_tables :: "real \<Rightarrow> queue \<Rightarrow> queue" where
  "reopen_tables now q =
     release_stale now (q\<lparr>qu_run_modes := [], qu_global := \<lparr>as_mode = ''prompt'', as_allow = [], as_deny = []\<rparr>,
       qu_nodes := [], qu_events := []\<rparr>)"

section \<open>Channel codes\<close>

definition code_of_approval :: "string \<Rightarrow> queue \<Rightarrow> string option" where
  "code_of_approval i q = map_option cc_code (find (\<lambda>c. cc_approval c = i) (qu_codes q))"

definition bind_channel_code :: "channel_code \<Rightarrow> queue \<Rightarrow> bool \<times> queue" where
  "bind_channel_code c q =
     (case code_of_approval (cc_approval c) q of
        Some existing \<Rightarrow> (existing = cc_code c, q)
      | None \<Rightarrow>
          if list_ex (\<lambda>d. cc_code d = cc_code c) (qu_codes q) then (False, q)
          else (True, q\<lparr>qu_codes := qu_codes q @ [c]\<rparr>))"

definition resolve_channel_code :: "string \<Rightarrow> queue \<Rightarrow> (string, string) dict option" where
  "resolve_channel_code code q =
     map_option (\<lambda>c. [(''code'', cc_code c), (''approval_id'', cc_approval c), (''namespace'', cc_namespace c),
        (''session_key'', cc_session_key c), (''owner_sender_id'', cc_owner c),
        (''origin_channel_name'', cc_channel_name c), (''origin_channel_id'', cc_channel_id c),
        (''origin_thread_id'', cc_thread_id c), (''approver_policy'', cc_policy c)])
       (find (\<lambda>c. cc_code c = code) (qu_codes q))"

definition release_channel_code :: "string \<Rightarrow> queue \<Rightarrow> queue" where
  "release_channel_code i q = q\<lparr>qu_codes := delete_where (\<lambda>c. cc_approval c = i) (qu_codes q)\<rparr>"

definition clear_channel_codes :: "queue \<Rightarrow> queue" where
  "clear_channel_codes q = q\<lparr>qu_codes := []\<rparr>"

section \<open>Reading and asking\<close>

definition missing :: "string \<Rightarrow> py_exc" where
  "missing i = KeyError (''Approval not found: '' @ i)"

definition refused :: "string \<Rightarrow> string \<Rightarrow> py_exc" where
  "refused why i = ValueError (''Approval '' @ why @ '': '' @ i)"

definition with_row :: "string \<Rightarrow> queue \<Rightarrow> (approval \<Rightarrow> 'a queue_res) \<Rightarrow> 'a queue_res" where
  "with_row i q k = (case get_row i q of None \<Rightarrow> (Inl (missing i), q) | Some r \<Rightarrow> k r)"

definition get_approval :: "string \<Rightarrow> real \<Rightarrow> queue \<Rightarrow> approval queue_res" where
  "get_approval i now q = (let q = release_stale now q in with_row i q (\<lambda>r. (Inr r, q)))"

text \<open>The read after a write, and what the listeners are told of the row it finds.\<close>

definition reread :: "string \<Rightarrow> real \<Rightarrow> queue \<Rightarrow> (approval \<Rightarrow> queue \<Rightarrow> 'a queue_res) \<Rightarrow> 'a queue_res" where
  "reread i now q k = (let q = release_stale now q in with_row i q (\<lambda>r. k r q))"

text \<open>\<open>candidates\<close> are the identifiers that \<open>uuid4\<close> draws; the loop ends at the first that is free.\<close>

fun request_approval ::
  "string \<Rightarrow> obj \<Rightarrow> string list \<Rightarrow> real \<Rightarrow> queue \<Rightarrow> (string \<times> queue) option" where
  "request_approval ns params [] now q = None"
| "request_approval ns params (i # is) now q =
     (if get_row i q \<noteq> None then request_approval ns params is now q
      else
        let deadline = (case qu_timeout q of None \<Rightarrow> 0 | Some s \<Rightarrow> if s = 0 then 0 else now + s);
            r = \<lparr>ap_id = i, ap_namespace = ns, ap_params = params, ap_created = now, ap_resolved = False,
                 ap_approved = False, ap_consumed = False, ap_deadline = deadline, ap_resolution = [],
                 ap_claim = None, ap_claimed_at = None\<rparr>
        in Some (i, notify ''requested'' r (q\<lparr>qu_rows := qu_rows q @ [r]\<rparr>)))"

text \<open>\<open>WHERE approval_id = ? AND resolved = 0 AND claim_token IS NULL\<close>\<close>

definition open_row :: "string \<Rightarrow> approval \<Rightarrow> bool" where
  "open_row i r \<longleftrightarrow> ap_id r = i \<and> \<not> ap_resolved r \<and> ap_claim r = None"

definition update_params :: "string \<Rightarrow> obj \<Rightarrow> real \<Rightarrow> queue \<Rightarrow> unit queue_res" where
  "update_params i params now q0 =
     (let q = release_stale now q0 in
      with_row i q (\<lambda>r.
        guarded [(ap_resolved r \<or> ap_claim r \<noteq> None, refused ''is not pending'' i)] q
          (let actionable = (jget ''humanActionable'' (ap_params r) = JBool False
                             \<and> jget ''humanActionable'' params = JBool True)
           in reread i now (update_rows_where (open_row i) (\<lambda>x. x\<lparr>ap_params := params\<rparr>) q) (\<lambda>x q.
              (Inr (), if actionable then notify ''requested'' x q else q)))))"

definition rearm_deadline :: "string \<Rightarrow> real \<Rightarrow> real \<Rightarrow> queue \<Rightarrow> unit queue_res" where
  "rearm_deadline i deadline now q0 =
     (let q = release_stale now q0 in
      if rowcount (open_row i) (qu_rows q) \<noteq> 1 then (Inr (), q)
      else reread i now (update_rows_where (open_row i) (\<lambda>x. x\<lparr>ap_deadline := deadline\<rparr>) q) (\<lambda>x q.
           (Inr (), notify ''updated'' x q)))"

definition extend_approval :: "string \<Rightarrow> real \<Rightarrow> real \<Rightarrow> queue \<Rightarrow> real queue_res" where
  "extend_approval i seconds now q0 =
     guarded [(seconds \<le> 0, ValueError ''seconds must be positive'')] q0
     (let q = release_stale now q0 in
      with_row i q (\<lambda>r.
        guarded [(ap_claim r \<noteq> None, refused ''resolution in progress'' i)] q
          (if ap_resolved r then (Inr (ap_deadline r), q)
           else
             let deadline = (if ap_deadline r = 0 then now else ap_deadline r) + seconds
             in reread i now (update_rows_where (open_row i) (\<lambda>x. x\<lparr>ap_deadline := deadline\<rparr>) q) (\<lambda>x q.
                (Inr (ap_deadline x), notify ''updated'' x q)))))"

section \<open>Expiry\<close>

definition expired_row :: "approval \<Rightarrow> approval" where
  "expired_row r =
     (unclaimed r)\<lparr>ap_resolved := True, ap_approved := False, ap_resolution := ''expired''\<rparr>"

definition expire_if_unresolved :: "bool \<Rightarrow> string \<Rightarrow> real \<Rightarrow> queue \<Rightarrow> bool option queue_res" where
  "expire_if_unresolved force i now q0 =
     (let q = release_stale now q0 in
      with_row i q (\<lambda>r.
        guarded [(ap_claim r \<noteq> None \<and> \<not> force, refused ''resolution in progress'' i)] q
          (if ap_resolved r then (Inr (Some (ap_approved r)), q)
           else if \<not> force \<and> now < ap_deadline r then (Inr None, q)
           else reread i now
             (update_rows_where (\<lambda>x. ap_id x = i \<and> \<not> ap_resolved x \<and> (force \<or> ap_claim x = None)) expired_row q)
             (\<lambda>x q. (Inr (Some (ap_approved x)), notify ''resolved'' x q)))))"

text \<open>The loops of the batch operations over the identifiers that were unresolved when they began.\<close>

fun expire_each :: "string list \<Rightarrow> real \<Rightarrow> queue \<Rightarrow> nat queue_res" where
  "expire_each [] now q = (Inr 0, q)"
| "expire_each (i # is) now q =
     (case expire_if_unresolved True i now q of
        (Inl e, q') \<Rightarrow> (Inl e, q')
      | (Inr outcome, q') \<Rightarrow>
          (case expire_each is now q' of
             (Inl e, q'') \<Rightarrow> (Inl e, q'')
           | (Inr n, q'') \<Rightarrow> (Inr (if outcome = None then n else n + 1), q'')))"

fun json_true :: "json \<Rightarrow> bool" where
  "json_true JNull = False"
| "json_true (JBool b) = b"
| "json_true (JInt i) = (i \<noteq> 0)"
| "json_true (JFloat x) = (x \<noteq> 0)"
| "json_true (JStr s) = (s \<noteq> [])"
| "json_true (JList vs) = (vs \<noteq> [])"
| "json_true (JObj d) = (d \<noteq> [])"

text \<open>\<open>str(v)\<close>; \<open>show\<close> is the representation of a fraction, a list or a dictionary.\<close>

fun json_text :: "(json \<Rightarrow> string) \<Rightarrow> json \<Rightarrow> string" where
  "json_text show JNull = ''None''"
| "json_text show (JBool b) = (if b then ''True'' else ''False'')"
| "json_text show (JInt i) = int_str i"
| "json_text show (JStr s) = s"
| "json_text show v = show v"

definition owner_key :: "(json \<Rightarrow> string) \<Rightarrow> obj \<Rightarrow> string" where
  "owner_key show params =
     (let a = jget ''sessionKey'' params; b = jget ''session_key'' params
      in py_strip (if json_true a then json_text show a else if json_true b then json_text show b else []))"

definition expire_for_session :: "(json \<Rightarrow> string) \<Rightarrow> string \<Rightarrow> real \<Rightarrow> queue \<Rightarrow> nat queue_res" where
  "expire_for_session show session_key now q =
     (let key = py_strip session_key in
      if key = [] then (Inr 0, q)
      else expire_each (map ap_id (filter (\<lambda>r. \<not> ap_resolved r \<and> owner_key show (ap_params r) = key) (qu_rows q)))
             now q)"

definition expire_pending :: "string \<Rightarrow> real \<Rightarrow> queue \<Rightarrow> bool queue_res" where
  "expire_pending i now q = apfst (map_sum id (\<lambda>x. x \<noteq> None)) (expire_if_unresolved True i now q)"

definition expire_all_pending :: "real \<Rightarrow> queue \<Rightarrow> nat queue_res" where
  "expire_all_pending now q = expire_each (map ap_id (filter (\<lambda>r. \<not> ap_resolved r) (qu_rows q))) now q"

definition expire_claimed :: "string \<Rightarrow> string \<Rightarrow> real \<Rightarrow> queue \<Rightarrow> unit queue_res" where
  "expire_claimed i token now q =
     with_row i q (\<lambda>r.
       guarded [(ap_claim r \<noteq> Some token, refused ''resolution claim mismatch'' i)] q
         (reread i now
            (update_rows_where (\<lambda>x. ap_id x = i \<and> ap_claim x = Some token)
               (\<lambda>x. (expired_row x)\<lparr>ap_consumed := False\<rparr>) q)
            (\<lambda>x q. (Inr (), notify ''resolved'' x q))))"

section \<open>Decisions\<close>

definition decision :: "bool \<Rightarrow> string" where
  "decision b = (if b then ''approved'' else ''denied'')"

definition merge_params :: "obj \<Rightarrow> obj \<Rightarrow> obj" where
  "merge_params metadata params = foldl (\<lambda>d (k, v). AList.update k v d) params metadata"

definition decided_row :: "bool \<Rightarrow> obj \<Rightarrow> approval \<Rightarrow> approval" where
  "decided_row b metadata r =
     r\<lparr>ap_resolved := True, ap_approved := b, ap_resolution := decision b,
       ap_params := merge_params metadata (ap_params r)\<rparr>"

definition resolve_approval ::
  "string \<Rightarrow> bool \<Rightarrow> bool \<Rightarrow> obj \<Rightarrow> real \<Rightarrow> queue \<Rightarrow> unit queue_res" where
  "resolve_approval i b idempotent metadata now q0 =
     (let q = release_stale now q0 in
      with_row i q (\<lambda>r.
        guarded [(ap_claim r \<noteq> None, refused ''resolution in progress'' i)] q
          (if ap_resolved r
           then guarded [(\<not> (idempotent \<and> ap_approved r = b), refused ''already resolved'' i)] q (Inr (), q)
           else reread i now (update_rows_where (open_row i) (decided_row b metadata) q) (\<lambda>x q.
                (Inr (), notify ''resolved'' (x\<lparr>ap_approved := b, ap_resolved := True\<rparr>) q)))))"

definition claim_resolution ::
  "string \<Rightarrow> string \<Rightarrow> obj \<Rightarrow> real \<Rightarrow> queue \<Rightarrow> string queue_res" where
  "claim_resolution i token metadata now q0 =
     (let q = release_stale now q0 in
      with_row i q (\<lambda>r.
        guarded [(ap_claim r \<noteq> None, refused ''resolution in progress'' i),
                 (ap_resolved r, refused ''already resolved'' i)] q
          (reread i now
             (update_rows_where (open_row i)
                (\<lambda>x. x\<lparr>ap_claim := Some token, ap_claimed_at := Some now,
                       ap_params := merge_params metadata (ap_params x)\<rparr>) q)
             (\<lambda>x q. (Inr token, q)))))"

definition finalize_claimed :: "string \<Rightarrow> string \<Rightarrow> bool \<Rightarrow> queue \<Rightarrow> unit queue_res" where
  "finalize_claimed i token b q =
     with_row i q (\<lambda>r.
       guarded [(ap_resolved r, refused ''already resolved'' i),
                (ap_claim r \<noteq> Some token, refused ''resolution claim mismatch'' i)] q
         (Inr (),
          update_rows_where (\<lambda>x. ap_id x = i \<and> \<not> ap_resolved x \<and> ap_claim x = Some token)
            (decided_row b []) q))"

definition complete_claimed :: "string \<Rightarrow> string \<Rightarrow> real \<Rightarrow> queue \<Rightarrow> unit queue_res" where
  "complete_claimed i token now q =
     with_row i q (\<lambda>r.
       if ap_resolved r \<and> ap_approved r \<and> ap_claim r = None then (Inr (), q)
       else guarded
         [(\<not> ap_resolved r \<or> \<not> ap_approved r, refused ''is not approved'' i),
          (ap_claim r \<noteq> Some token, refused ''resolution claim mismatch'' i)] q
         (reread i now
            (update_rows_where (\<lambda>x. ap_id x = i \<and> ap_resolved x \<and> ap_approved x \<and> ap_claim x = Some token)
               unclaimed q)
            (\<lambda>x q. (Inr (), notify ''resolved'' x q))))"

definition release_claim :: "string \<Rightarrow> string \<Rightarrow> real \<Rightarrow> queue \<Rightarrow> unit queue_res" where
  "release_claim i token now q =
     with_row i q (\<lambda>r.
       if ap_resolved r \<or> ap_claim r \<noteq> Some token then (Inr (), q)
       else reread i now
         (update_rows_where (\<lambda>x. ap_id x = i \<and> \<not> ap_resolved x \<and> ap_claim x = Some token) unclaimed q)
         (\<lambda>x q. (Inr (), q)))"

definition reopened_row :: "approval \<Rightarrow> approval" where
  "reopened_row r =
     (unclaimed r)\<lparr>ap_resolved := False, ap_approved := False, ap_consumed := False, ap_resolution := []\<rparr>"

definition reopen_resolved :: "string \<Rightarrow> bool \<Rightarrow> real \<Rightarrow> queue \<Rightarrow> unit queue_res" where
  "reopen_resolved i expected now q =
     with_row i q (\<lambda>r.
       if \<not> ap_resolved r then (Inr (), q)
       else guarded [(ap_approved r \<noteq> expected, refused ''resolved state mismatch'' i)] q
         (reread i now
            (update_rows_where (\<lambda>x. ap_id x = i \<and> ap_resolved x \<and> ap_approved x = expected) reopened_row q)
            (\<lambda>x q. (Inr (), q))))"

definition consume_approval :: "string \<Rightarrow> real \<Rightarrow> queue \<Rightarrow> unit queue_res" where
  "consume_approval i now q0 =
     (let q = release_stale now q0 in
      with_row i q (\<lambda>r.
        guarded
          [(ap_claim r \<noteq> None, refused ''resolution in progress'' i),
           (\<not> ap_resolved r \<or> \<not> ap_approved r, refused ''is not approved'' i),
           (ap_consumed r, refused ''already consumed'' i)] q
          (reread i now
             (update_rows_where (\<lambda>x. ap_id x = i \<and> ap_resolved x \<and> ap_approved x \<and> \<not> ap_consumed x
                 \<and> ap_claim x = None) (\<lambda>x. x\<lparr>ap_consumed := True\<rparr>) q)
             (\<lambda>x q. (Inr (), q)))))"

section \<open>Views and waiting\<close>

definition approval_status :: "string \<Rightarrow> real \<Rightarrow> queue \<Rightarrow> obj queue_res" where
  "approval_status i now q0 =
     reread i now q0 (\<lambda>r q.
       let ready = (ap_resolved r \<and> ap_claim r = None) in
       (Inr [(''id'', JStr (ap_id r)), (''namespace'', JStr (ap_namespace r)), (''params'', JObj (ap_params r)),
             (''created_at'', JFloat (ap_created r)), (''deadline'', JFloat (ap_deadline r)),
             (''resolved'', JBool ready), (''approved'', JBool (ready \<and> ap_approved r)),
             (''resolution'', JStr (if ready then ap_resolution r else [])),
             (''consumed'', JBool (ready \<and> ap_consumed r))], q))"

definition list_pending :: "string option \<Rightarrow> real \<Rightarrow> queue \<Rightarrow> obj list \<times> queue" where
  "list_pending ns now q0 =
     (let q = release_stale now q0 in
      (map (\<lambda>r. [(''id'', JStr (ap_id r)), (''namespace'', JStr (ap_namespace r)),
                 (''params'', JObj (ap_params r)), (''created_at'', JFloat (ap_created r)),
                 (''deadline'', JFloat (ap_deadline r)), (''resolution'', JStr (ap_resolution r))])
         (filter (\<lambda>r. \<not> ap_resolved r \<and> ap_claim r = None
            \<and> (case ns of None \<Rightarrow> True | Some n \<Rightarrow> n = [] \<or> ap_namespace r = n)) (qu_rows q)), q))"

text \<open>One turn of the loop of \<open>wait_async\<close>: an answer, at once another turn, or a sleep.\<close>

datatype wait_turn = Answer bool | Turn_again | Sleep_for real

definition wait_turn_of :: "string \<Rightarrow> real \<Rightarrow> queue \<Rightarrow> wait_turn queue_res" where
  "wait_turn_of i now q0 =
     reread i now q0 (\<lambda>r q.
       if ap_resolved r \<and> ap_claim r = None then (Inr (Answer (ap_approved r)), q)
       else if 0 < ap_deadline r \<and> ap_deadline r - now \<le> 0
       then apfst (map_sum id (\<lambda>x. case x of None \<Rightarrow> Turn_again | Some b \<Rightarrow> Answer b))
              (expire_if_unresolved False i now q)
       else (Inr (Sleep_for (if 0 < ap_deadline r then min (qu_poll q) (ap_deadline r - now) else qu_poll q)), q))"

fun resolve_each :: "bool \<Rightarrow> string list \<Rightarrow> real \<Rightarrow> queue \<Rightarrow> nat queue_res" where
  "resolve_each b [] now q = (Inr 0, q)"
| "resolve_each b (i # is) now q =
     (case resolve_approval i b True [] now q of
        (Inl e, q') \<Rightarrow> (Inl e, q')
      | (Inr _, q') \<Rightarrow> apfst (map_sum id Suc) (resolve_each b is now q'))"

definition resolve_for_session ::
  "(json \<Rightarrow> string) \<Rightarrow> string \<Rightarrow> bool \<Rightarrow> real \<Rightarrow> queue \<Rightarrow> nat queue_res" where
  "resolve_for_session show session_key b now q0 =
     (let key = py_strip session_key in
      if key = [] then (Inr 0, q0)
      else let q = release_stale now q0;
               owned = (\<lambda>r. let v = jget ''sessionKey'' (ap_params r)
                            in py_strip (if json_true v then json_text show v else []) = key)
           in resolve_each b (map ap_id (filter (\<lambda>r. \<not> ap_resolved r \<and> ap_claim r = None
                \<and> ap_namespace r = ''exec'' \<and> owned r) (qu_rows q))) now q)"

section \<open>Run modes\<close>

datatype run_mode = SAFE | FULL

fun run_mode_value :: "run_mode \<Rightarrow> string" where
  "run_mode_value SAFE = ''safe''"
| "run_mode_value FULL = ''full''"

definition run_mode_aliases :: "(string \<times> run_mode) list" where
  "run_mode_aliases =
     [(''safe'', SAFE), (''on'', SAFE), (''off'', SAFE), (''bypass'', FULL), (''standard'', SAFE),
      (''standard-sandbox'', SAFE), (''standard_sandbox'', SAFE), (''trust'', SAFE), (''trusted'', SAFE),
      (''trusted-sandbox'', SAFE), (''trusted_sandbox'', SAFE), (''managed'', SAFE), (''full'', FULL),
      (''full-host-access'', FULL), (''full_host_access'', FULL)]"

text \<open>The default is a mode, so the call for a missing value ends at once. The message of the error lists
  the aliases.\<close>

definition normalize_run_mode :: "string option \<Rightarrow> run_mode \<Rightarrow> py_exc + run_mode" where
  "normalize_run_mode v dflt =
     (case v of
        None \<Rightarrow> Inr dflt
      | Some s \<Rightarrow>
          if py_strip s = [] then Inr dflt
          else (case map_of run_mode_aliases (py_lower (py_strip s)) of
                  Some m \<Rightarrow> Inr m
                | None \<Rightarrow> Inl (ValueError ''run_mode must be one of'')))"

definition set_run_mode :: "string \<Rightarrow> string option \<Rightarrow> queue \<Rightarrow> unit queue_res" where
  "set_run_mode session_key mode q =
     (let key = py_strip session_key in
      guarded [(key = [], ValueError ''session_key is required'')] q
        (if mode \<in> {None, Some [], Some ''off''}
         then (Inr (), q\<lparr>qu_run_modes := AList.delete key (qu_run_modes q)\<rparr>)
         else (case normalize_run_mode mode SAFE of
                 Inl _ \<Rightarrow> (Inl (ValueError ''mode must be one of: safe, full, off''), q)
               | Inr m \<Rightarrow>
                   (Inr (), q\<lparr>qu_run_modes := AList.update key (run_mode_value m) (qu_run_modes q)\<rparr>))))"

definition get_run_mode :: "string option \<Rightarrow> queue \<Rightarrow> string option" where
  "get_run_mode session_key q =
     (let key = py_strip (case session_key of None \<Rightarrow> [] | Some k \<Rightarrow> k) in
      if key = [] then None else map_of (qu_run_modes q) key)"

definition set_elevated_mode :: "string \<Rightarrow> string option \<Rightarrow> queue \<Rightarrow> unit queue_res" where
  "set_elevated_mode session_key mode q =
     (let key = py_strip session_key in
      guarded [(key = [], ValueError ''session_key is required'')] q
        (if mode \<in> {None, Some [], Some ''off''}
         then (Inr (), q\<lparr>qu_run_modes := AList.delete key (qu_run_modes q)\<rparr>)
         else guarded [(mode \<notin> {Some ''on'', Some ''bypass'', Some ''full''},
                        ValueError ''mode must be one of: on, bypass, full, off'')] q
                (set_run_mode key (Some (if mode = Some ''full'' then ''full'' else ''safe'')) q)))"

definition get_elevated_mode :: "string option \<Rightarrow> queue \<Rightarrow> string option" where
  "get_elevated_mode session_key q = (if get_run_mode session_key q = Some ''full'' then Some ''full'' else None)"

section \<open>Settings\<close>

definition get_settings :: "string option \<Rightarrow> queue \<Rightarrow> approval_settings" where
  "get_settings node q =
     (case node of
        None \<Rightarrow> qu_global q
      | Some n \<Rightarrow> if n = [] then qu_global q
                  else (case map_of (qu_nodes q) n of None \<Rightarrow> qu_global q | Some s \<Rightarrow> s))"

definition has_node_settings :: "string \<Rightarrow> queue \<Rightarrow> bool" where
  "has_node_settings node q \<longleftrightarrow> map_of (qu_nodes q) node \<noteq> None"

definition set_settings ::
  "string \<Rightarrow> string list \<Rightarrow> string list \<Rightarrow> string option \<Rightarrow> queue \<Rightarrow> approval_settings queue_res" where
  "set_settings mode allows denies node q =
     guarded [(mode \<notin> {''auto-approve'', ''auto-deny'', ''prompt''},
               ValueError ''mode must be one of: auto-approve, auto-deny, prompt'')] q
       (let s = \<lparr>as_mode = mode, as_allow = allows, as_deny = denies\<rparr> in
        case node of
          None \<Rightarrow> (Inr s, q\<lparr>qu_global := s\<rparr>)
        | Some n \<Rightarrow> (Inr s, q\<lparr>qu_nodes := AList.update n s (qu_nodes q)\<rparr>))"

section \<open>The queue as a machine\<close>

datatype queue_op =
    QRequest string obj "string list" real
  | QParams string obj real
  | QRearm string real real
  | QExtend string real real
  | QExpire bool string real
  | QExpireSession "json \<Rightarrow> string" string real
  | QExpireAll real
  | QExpireClaimed string string real
  | QResolve string bool bool obj real
  | QResolveSession "json \<Rightarrow> string" string bool real
  | QClaim string string obj real
  | QFinalize string string bool
  | QComplete string string real
  | QRelease string string real
  | QReopen string bool real
  | QConsume string real
  | QRead string real
  | QWait string real
  | QList "string option" real
  | QRestart real
  | QBind channel_code
  | QUnbind string
  | QClear
  | QRunMode string "string option"
  | QElevated string "string option"
  | QSettings string "string list" "string list" "string option"

fun queue_step :: "queue_op \<Rightarrow> queue \<Rightarrow> queue" where
  "queue_step (QRequest ns params is now) q =
     (case request_approval ns params is now q of None \<Rightarrow> q | Some (i, q') \<Rightarrow> q')"
| "queue_step (QParams i params now) q = snd (update_params i params now q)"
| "queue_step (QRearm i deadline now) q = snd (rearm_deadline i deadline now q)"
| "queue_step (QExtend i seconds now) q = snd (extend_approval i seconds now q)"
| "queue_step (QExpire force i now) q = snd (expire_if_unresolved force i now q)"
| "queue_step (QExpireSession show k now) q = snd (expire_for_session show k now q)"
| "queue_step (QExpireAll now) q = snd (expire_all_pending now q)"
| "queue_step (QExpireClaimed i token now) q = snd (expire_claimed i token now q)"
| "queue_step (QResolve i b idem metadata now) q = snd (resolve_approval i b idem metadata now q)"
| "queue_step (QResolveSession show k b now) q = snd (resolve_for_session show k b now q)"
| "queue_step (QClaim i token metadata now) q = snd (claim_resolution i token metadata now q)"
| "queue_step (QFinalize i token b) q = snd (finalize_claimed i token b q)"
| "queue_step (QComplete i token now) q = snd (complete_claimed i token now q)"
| "queue_step (QRelease i token now) q = snd (release_claim i token now q)"
| "queue_step (QReopen i expected now) q = snd (reopen_resolved i expected now q)"
| "queue_step (QConsume i now) q = snd (consume_approval i now q)"
| "queue_step (QRead i now) q = snd (approval_status i now q)"
| "queue_step (QWait i now) q = snd (wait_turn_of i now q)"
| "queue_step (QList ns now) q = snd (list_pending ns now q)"
| "queue_step (QRestart now) q = reopen_tables now q"
| "queue_step (QBind c) q = snd (bind_channel_code c q)"
| "queue_step (QUnbind i) q = release_channel_code i q"
| "queue_step QClear q = clear_channel_codes q"
| "queue_step (QRunMode k mode) q = snd (set_run_mode k mode q)"
| "queue_step (QElevated k mode) q = snd (set_elevated_mode k mode q)"
| "queue_step (QSettings mode allows denies node) q = snd (set_settings mode allows denies node q)"

end
