(* ===== verification/Approval_Moves.thy ===== *)
theory Approval_Moves
  imports Approvals
begin

text \<open>
  What an operation of the approval queue may do to one row: a labelled step relation on rows, and the
  proof that every operation moves every row along it and adds rows only by a request.
\<close>

section \<open>Moves of a row\<close>

fun op_time :: "queue_op \<Rightarrow> real option" where
  "op_time (QRequest ns params is now) = Some now"
| "op_time (QParams i params now) = Some now"
| "op_time (QRearm i deadline now) = Some now"
| "op_time (QExtend i seconds now) = Some now"
| "op_time (QExpire force i now) = Some now"
| "op_time (QExpireSession show k now) = Some now"
| "op_time (QExpireAll now) = Some now"
| "op_time (QExpireClaimed i token now) = Some now"
| "op_time (QResolve i b idem metadata now) = Some now"
| "op_time (QResolveSession show k b now) = Some now"
| "op_time (QClaim i token metadata now) = Some now"
| "op_time (QComplete i token now) = Some now"
| "op_time (QRelease i token now) = Some now"
| "op_time (QReopen i expected now) = Some now"
| "op_time (QConsume i now) = Some now"
| "op_time (QRead i now) = Some now"
| "op_time (QWait i now) = Some now"
| "op_time (QList ns now) = Some now"
| "op_time (QRestart now) = Some now"
| "op_time _ = None"

text \<open>The operations that may end a row whatever its claim, and those that may decide it with \<open>b\<close>.\<close>

fun forces :: "queue_op \<Rightarrow> string \<Rightarrow> bool" where
  "forces (QExpire force i now) j = (force \<and> i = j)"
| "forces (QExpireSession show k now) j = True"
| "forces (QExpireAll now) j = True"
| "forces _ j = False"

fun lapses :: "queue_op \<Rightarrow> string \<Rightarrow> bool" where
  "lapses (QExpire force i now) j = (i = j)"
| "lapses (QWait i now) j = (i = j)"
| "lapses _ j = False"

fun decides :: "queue_op \<Rightarrow> bool \<Rightarrow> string \<Rightarrow> bool" where
  "decides (QResolve i b idem metadata now) b' j = (i = j \<and> b = b')"
| "decides (QResolveSession show k b now) b' j = (b = b')"
| "decides _ b' j = False"

fun edits :: "queue_op \<Rightarrow> string \<Rightarrow> bool" where
  "edits (QParams i params now) j = (i = j)"
| "edits (QRearm i deadline now) j = (i = j)"
| "edits (QExtend i seconds now) j = (i = j)"
| "edits _ j = False"

inductive row_move :: "queue_op \<Rightarrow> real \<Rightarrow> approval \<Rightarrow> approval \<Rightarrow> bool" for a ttl where
  lapse: "stale ttl now r \<Longrightarrow> op_time a = Some now \<Longrightarrow> row_move a ttl r (unclaimed r)"
| edit: "edits a (ap_id r) \<Longrightarrow> \<not> ap_resolved r \<Longrightarrow> ap_claim r = None \<Longrightarrow>
    row_move a ttl r (r\<lparr>ap_params := params, ap_deadline := deadline\<rparr>)"
| expire: "lapses a (ap_id r) \<and> ap_claim r = None \<or> forces a (ap_id r) \<Longrightarrow> \<not> ap_resolved r \<Longrightarrow>
    row_move a ttl r (expired_row r)"
| decide: "decides a b (ap_id r) \<Longrightarrow> \<not> ap_resolved r \<Longrightarrow> ap_claim r = None \<Longrightarrow>
    row_move a ttl r (decided_row b metadata r)"
| claim: "a = QClaim (ap_id r) token metadata now \<Longrightarrow> \<not> ap_resolved r \<Longrightarrow> ap_claim r = None \<Longrightarrow>
    row_move a ttl r (r\<lparr>ap_claim := Some token, ap_claimed_at := Some now,
      ap_params := merge_params metadata (ap_params r)\<rparr>)"
| finalize: "a = QFinalize (ap_id r) token b \<Longrightarrow> \<not> ap_resolved r \<Longrightarrow> ap_claim r = Some token \<Longrightarrow>
    row_move a ttl r (decided_row b [] r)"
| complete: "a = QComplete (ap_id r) token now \<Longrightarrow> ap_resolved r \<Longrightarrow> ap_approved r \<Longrightarrow> ap_claim r = Some token \<Longrightarrow>
    row_move a ttl r (unclaimed r)"
| release: "a = QRelease (ap_id r) token now \<Longrightarrow> \<not> ap_resolved r \<Longrightarrow> ap_claim r = Some token \<Longrightarrow>
    row_move a ttl r (unclaimed r)"
| expire_claim: "a = QExpireClaimed (ap_id r) token now \<Longrightarrow> ap_claim r = Some token \<Longrightarrow>
    row_move a ttl r ((expired_row r)\<lparr>ap_consumed := False\<rparr>)"
| reopen: "a = QReopen (ap_id r) expected now \<Longrightarrow> ap_resolved r \<Longrightarrow> ap_approved r = expected \<Longrightarrow>
    row_move a ttl r (reopened_row r)"
| use: "a = QConsume (ap_id r) now \<Longrightarrow> ap_resolved r \<Longrightarrow> ap_approved r \<Longrightarrow> \<not> ap_consumed r \<Longrightarrow> ap_claim r = None \<Longrightarrow>
    row_move a ttl r (r\<lparr>ap_consumed := True\<rparr>)"

inductive_cases row_move_cases: "row_move a ttl r r'"

section \<open>Moves of the queue\<close>

definition evolves :: "queue_op \<Rightarrow> queue \<Rightarrow> queue \<Rightarrow> bool" where
  "evolves a q q' \<longleftrightarrow> qu_ttl q' = qu_ttl q \<and> list_all2 (row_move a (qu_ttl q))\<^sup>*\<^sup>* (qu_rows q) (qu_rows q')"

named_theorems evolving \<open>what a part of an operation does to the rows\<close>

lemma evolves_refl [evolving, simp]: "evolves a q q"
  by (simp add: evolves_def list_all2_refl)

lemma evolves_trans: "evolves a q q' \<Longrightarrow> evolves a q' q'' \<Longrightarrow> evolves a q q''"
  unfolding evolves_def by (auto elim: list_all2_trans [rotated] intro: rtranclp_trans)

lemma evolves_same: "qu_rows q' = qu_rows q \<Longrightarrow> qu_ttl q' = qu_ttl q \<Longrightarrow> evolves a q q'"
  by (simp add: evolves_def list_all2_refl)

lemma evolves_notify [evolving]: "evolves a q q' \<Longrightarrow> evolves a q (notify e r q')"
  by (simp add: evolves_def notify_def)

lemma evolves_update [evolving]:
  assumes "\<And>r. P r \<Longrightarrow> row_move a (qu_ttl q) r (f r)"
  shows "evolves a q (update_rows_where P f q)"
  using assms by (auto simp: evolves_def update_rows_where_def update_where_def list_all2_conv_all_nth intro: r_into_rtranclp)

lemma evolves_release [evolving]: "op_time a = Some now \<Longrightarrow> evolves a q (release_stale now q)"
  unfolding release_stale_def by (rule evolves_update) (rule row_move.lapse)

lemma evolves_with_row [evolving]:
  assumes "evolves a q q'" "\<And>r. evolves a q (snd (k r))"
  shows "evolves a q (snd (with_row i q' k))"
  using assms by (simp add: with_row_def split: option.split)

lemma evolves_reread [evolving]:
  assumes "evolves a q q'" "op_time a = Some now" "\<And>r q''. evolves a q q'' \<Longrightarrow> evolves a q (snd (k r q''))"
  shows "evolves a q (snd (reread i now q' k))"
  unfolding reread_def Let_def
  by (intro evolves_with_row assms(3)) (rule evolves_trans [OF assms(1) evolves_release [OF assms(2)]])+

lemma evolves_guarded [evolving]:
  "evolves a q q' \<Longrightarrow> evolves a q (snd k) \<Longrightarrow> evolves a q (snd (guarded gs q' k))"
  by (rule guarded_inv)

lemma evolves_if [evolving]: "evolves a q (snd x) \<Longrightarrow> evolves a q (snd y) \<Longrightarrow> evolves a q (snd (if b then x else y))"
  by simp

lemma evolves_value [evolving]: "evolves a q q' \<Longrightarrow> evolves a q (snd (v, q'))"
  by simp

lemma evolves_then_update:
  assumes "evolves a q q'" "\<And>r. P r \<Longrightarrow> row_move a (qu_ttl q') r (f r)"
  shows "evolves a q (update_rows_where P f q')"
  by (rule evolves_trans [OF assms(1) evolves_update [OF assms(2)]])

lemma snd_apfst [simp]: "snd (apfst f x) = snd x"
  by (cases x) simp

section \<open>Every operation\<close>

lemma evolves_if_state: "evolves a q x \<Longrightarrow> evolves a q y \<Longrightarrow> evolves a q (if b then x else y)"
  by simp

lemmas evolves_intros =
  evolves_with_row evolves_guarded evolves_reread evolves_then_update evolves_release evolves_value evolves_if
  evolves_if_state evolves_notify evolves_refl

lemma edit_params:
  "edits a (ap_id r) \<Longrightarrow> \<not> ap_resolved r \<Longrightarrow> ap_claim r = None \<Longrightarrow> row_move a ttl r (r\<lparr>ap_params := params\<rparr>)"
  using row_move.edit [of a r ttl "ap_deadline r" params] by simp

lemma edit_deadline:
  "edits a (ap_id r) \<Longrightarrow> \<not> ap_resolved r \<Longrightarrow> ap_claim r = None \<Longrightarrow> row_move a ttl r (r\<lparr>ap_deadline := d\<rparr>)"
  using row_move.edit [of a r ttl d "ap_params r"] by simp

lemma update_params_evolves: "evolves (QParams i params now) q (snd (update_params i params now q))"
  unfolding update_params_def Let_def
  by (intro evolves_intros) (auto simp: open_row_def intro: edit_params)

lemma rearm_evolves: "evolves (QRearm i deadline now) q (snd (rearm_deadline i deadline now q))"
  unfolding rearm_deadline_def Let_def
  by (intro evolves_intros) (auto simp: open_row_def intro: edit_deadline)

lemma extend_evolves: "evolves (QExtend i seconds now) q (snd (extend_approval i seconds now q))"
  unfolding extend_approval_def Let_def
  by (intro evolves_intros) (auto simp: open_row_def intro: edit_deadline)

text \<open>Expiry is used by four operations.\<close>

lemma expire_evolves:
  assumes "op_time a = Some now" "lapses a i \<or> force" "force \<Longrightarrow> forces a i"
  shows "evolves a q (snd (expire_if_unresolved force i now q))"
  unfolding expire_if_unresolved_def Let_def
  by (intro evolves_intros) (use assms in \<open>auto intro: row_move.expire\<close>)

lemma expire_each_evolves:
  assumes "op_time a = Some now" "\<And>i. i \<in> set is \<Longrightarrow> forces a i"
  shows "evolves a q (snd (expire_each is now q))"
  using assms(2)
proof (induction "is" arbitrary: q)
  case (Cons i "is")
  have one: "evolves a q (snd (expire_if_unresolved True i now q))"
    by (rule expire_evolves) (use assms(1) Cons.prems in auto)
  obtain x q' where x: "expire_if_unresolved True i now q = (x, q')" by fastforce
  have rest: "evolves a q' (snd (expire_each is now q'))" using Cons by simp
  show ?case using one rest evolves_trans [of a q q']
    by (auto simp: x split: sum.split prod.split)
qed simp

lemma expire_for_session_evolves: "evolves (QExpireSession show k now) q (snd (expire_for_session show k now q))"
  unfolding expire_for_session_def Let_def by (auto intro: expire_each_evolves)

lemma expire_all_evolves: "evolves (QExpireAll now) q (snd (expire_all_pending now q))"
  unfolding expire_all_pending_def by (rule expire_each_evolves) auto

lemma expire_claimed_evolves: "evolves (QExpireClaimed i token now) q (snd (expire_claimed i token now q))"
  unfolding expire_claimed_def
  by (intro evolves_intros) (auto intro: row_move.expire_claim)

lemma resolve_evolves:
  assumes "op_time a = Some now" "decides a b i"
  shows "evolves a q (snd (resolve_approval i b idem metadata now q))"
  unfolding resolve_approval_def Let_def
  by (intro evolves_intros) (use assms in \<open>auto simp: open_row_def intro: row_move.decide\<close>)

lemma resolve_each_evolves:
  assumes "op_time a = Some now" "\<And>i. decides a b i"
  shows "evolves a q (snd (resolve_each b is now q))"
proof (induction "is" arbitrary: q)
  case (Cons i "is")
  obtain x q' where x: "resolve_approval i b True [] now q = (x, q')" by fastforce
  show ?case using resolve_evolves [OF assms, of q i True "[]"] Cons evolves_trans [of a q q']
    by (auto simp: x split: sum.split)
qed simp

lemma resolve_for_session_evolves: "evolves (QResolveSession show k b now) q (snd (resolve_for_session show k b now q))"
  unfolding resolve_for_session_def Let_def
  by (auto intro!: evolves_trans [OF evolves_release resolve_each_evolves])

lemma claim_evolves: "evolves (QClaim i token metadata now) q (snd (claim_resolution i token metadata now q))"
  unfolding claim_resolution_def Let_def
  by (intro evolves_intros) (auto simp: open_row_def intro: row_move.claim)

lemma finalize_evolves: "evolves (QFinalize i token b) q (snd (finalize_claimed i token b q))"
  unfolding finalize_claimed_def
  by (intro evolves_intros) (auto intro: row_move.finalize)

lemma complete_evolves: "evolves (QComplete i token now) q (snd (complete_claimed i token now q))"
  unfolding complete_claimed_def
  by (intro evolves_intros) (auto intro: row_move.complete)

lemma release_claim_evolves: "evolves (QRelease i token now) q (snd (release_claim i token now q))"
  unfolding release_claim_def
  by (intro evolves_intros) (auto intro: row_move.release)

lemma reopen_evolves: "evolves (QReopen i expected now) q (snd (reopen_resolved i expected now q))"
  unfolding reopen_resolved_def
  by (intro evolves_intros) (auto intro: row_move.reopen)

lemma consume_evolves: "evolves (QConsume i now) q (snd (consume_approval i now q))"
  unfolding consume_approval_def Let_def
  by (intro evolves_intros) (auto intro: row_move.use)

lemma status_evolves: "evolves (QRead i now) q (snd (approval_status i now q))"
  unfolding approval_status_def Let_def by (intro evolves_intros) auto

lemma wait_evolves: "evolves (QWait i now) q (snd (wait_turn_of i now q))"
  unfolding wait_turn_of_def
  by (intro evolves_intros) (simp_all, erule evolves_trans, rule expire_evolves, simp_all)

lemma restart_evolves: "evolves (QRestart now) q (reopen_tables now q)"
  unfolding reopen_tables_def
  by (rule evolves_trans [OF evolves_same evolves_release]) auto

lemma evolves_sum [evolving]:
  "(\<And>e. evolves a q (snd (f e))) \<Longrightarrow> (\<And>v. evolves a q (snd (g v))) \<Longrightarrow>
     evolves a q (snd (case x of Inl e \<Rightarrow> f e | Inr v \<Rightarrow> g v))"
  by (cases x) simp_all

lemma evolves_option [evolving]:
  "evolves a q (snd f) \<Longrightarrow> (\<And>v. evolves a q (snd (g v))) \<Longrightarrow>
     evolves a q (snd (case x of None \<Rightarrow> f | Some v \<Rightarrow> g v))"
  by (cases x) simp_all

lemma quiet_evolves:
  "evolves a q (snd (bind_channel_code c q))" "evolves a q (release_channel_code i q)"
  "evolves a q (clear_channel_codes q)" "evolves a q (snd (set_run_mode k mode q))"
  "evolves a q (snd (set_elevated_mode k mode q))" "evolves a q (snd (set_settings m allows denies node q))"
proof -
  have mode: "evolves a q (snd (set_run_mode k mode q))" for k mode
    unfolding set_run_mode_def Let_def
    by (intro evolves_guarded evolves_if evolves_sum evolves_value evolves_refl evolves_same) simp_all
  show "evolves a q (snd (set_run_mode k mode q))" by (rule mode)
  show "evolves a q (snd (set_elevated_mode k mode q))"
    unfolding set_elevated_mode_def Let_def
    by (intro evolves_guarded evolves_if evolves_value evolves_refl evolves_same mode) simp_all
  show "evolves a q (snd (bind_channel_code c q))"
    unfolding bind_channel_code_def
    by (intro evolves_option evolves_if evolves_value evolves_refl evolves_same) simp_all
  show "evolves a q (snd (set_settings m allows denies node q))"
    unfolding set_settings_def Let_def
    by (intro evolves_guarded evolves_option evolves_value evolves_refl evolves_same) simp_all
qed (simp_all add: release_channel_code_def clear_channel_codes_def evolves_same)

text \<open>A request adds one row with an identifier that no row has.\<close>

definition fresh_row :: "string \<Rightarrow> string \<Rightarrow> obj \<Rightarrow> real \<Rightarrow> approval \<Rightarrow> bool" where
  "fresh_row i ns params now r \<longleftrightarrow>
     ap_id r = i \<and> ap_namespace r = ns \<and> ap_params r = params \<and> ap_created r = now \<and> \<not> ap_resolved r
   \<and> \<not> ap_approved r \<and> \<not> ap_consumed r \<and> ap_resolution r = [] \<and> ap_claim r = None"

lemma request_adds:
  assumes "request_approval ns params is now q = Some (i, q')"
  shows "i \<in> set is \<and> get_row i q = None \<and> qu_ttl q' = qu_ttl q
     \<and> (\<exists>r. qu_rows q' = qu_rows q @ [r] \<and> fresh_row i ns params now r)"
  using assms
  by (induction ns params "is" now q rule: request_approval.induct)
     (auto simp: Let_def notify_def fresh_row_def split: if_splits)

definition asks :: "queue_op \<Rightarrow> bool" where
  "asks a = (case a of QRequest ns params is now \<Rightarrow> True | _ \<Rightarrow> False)"

lemma step_evolves: "\<not> asks a \<Longrightarrow> evolves a q (queue_step a q)"
  by (cases a; simp only: queue_step.simps asks_def queue_op.case not_True_eq_False;
      (rule update_params_evolves rearm_evolves extend_evolves expire_for_session_evolves expire_all_evolves
        expire_claimed_evolves resolve_evolves resolve_for_session_evolves claim_evolves finalize_evolves
        complete_evolves release_claim_evolves reopen_evolves consume_evolves status_evolves wait_evolves
        restart_evolves quiet_evolves expire_evolves evolves_release | simp add: list_pending_def Let_def evolves_release)+)

end
