(* ===== verification/Approval_Claims.thy ===== *)
theory Approval_Claims
  imports Approval_Moves
begin

text \<open>
  The properties of the approval queue: an approval is used at most once, a claim keeps everybody else
  out, a decision is final, and what a waiter is told.
\<close>

section \<open>Rows over a run\<close>

interpretation approvals: machine queue_step .

lemma row_move_id: "row_move a ttl r r' \<Longrightarrow> ap_id r' = ap_id r"
  by (erule row_move_cases) (simp_all add: unclaimed_def expired_row_def decided_row_def reopened_row_def)

lemma row_moves_id: "(row_move a ttl)\<^sup>*\<^sup>* r r' \<Longrightarrow> ap_id r' = ap_id r"
  by (induction rule: rtranclp_induct) (auto dest: row_move_id)

lemma moved_find:
  assumes "list_all2 (row_move a ttl)\<^sup>*\<^sup>* rs rs'"
  shows "rel_option (row_move a ttl)\<^sup>*\<^sup>* (find (\<lambda>r. ap_id r = i) rs) (find (\<lambda>r. ap_id r = i) rs')"
  using assms by (induction rule: list_all2_induct) (auto dest: row_moves_id)

lemma step_ttl [simp]: "qu_ttl (queue_step a q) = qu_ttl q"
proof (cases "asks a")
  case True
  then obtain ns params "is" now where "a = QRequest ns params is now" by (auto simp: asks_def split: queue_op.splits)
  then show ?thesis by (auto split: option.split dest: request_adds)
next
  case False
  then show ?thesis using step_evolves by (simp add: evolves_def)
qed

lemma step_row:
  assumes "get_row i q = Some r"
  obtains r' where "get_row i (queue_step a q) = Some r'" "(row_move a (qu_ttl q))\<^sup>*\<^sup>* r r'"
proof (cases "asks a")
  case True
  then obtain ns params "is" now where a: "a = QRequest ns params is now" by (auto simp: asks_def split: queue_op.splits)
  have "get_row i (queue_step a q) = Some r"
    using assms by (auto simp: a get_row_def find_append split: option.split dest!: request_adds)
  then show thesis using that by blast
next
  case False
  then have "rel_option (row_move a (qu_ttl q))\<^sup>*\<^sup>* (get_row i q) (get_row i (queue_step a q))"
    using step_evolves [OF False, of q] moved_find unfolding evolves_def get_row_def by blast
  then show thesis using assms that by (cases "get_row i (queue_step a q)") auto
qed

lemma step_new_row:
  assumes "get_row i q = None" "get_row i (queue_step a q) = Some r"
  obtains ns params now where "fresh_row i ns params now r"
proof (cases "asks a")
  case True
  then obtain ns params "is" now where a: "a = QRequest ns params is now" by (auto simp: asks_def split: queue_op.splits)
  then obtain j q' where j: "request_approval ns params is now q = Some (j, q')"
    using assms by (auto split: option.split_asm)
  then have "fresh_row j ns params now r \<and> j = i"
    using assms request_adds [OF j] by (auto simp: a get_row_def find_append fresh_row_def split: if_splits option.split_asm)
  then show thesis using that by blast
next
  case False
  then have "rel_option (row_move a (qu_ttl q))\<^sup>*\<^sup>* (get_row i q) (get_row i (queue_step a q))"
    using step_evolves [OF False, of q] moved_find unfolding evolves_def get_row_def by blast
  then show thesis using assms by simp
qed

text \<open>A property of one row that its moves keep, under the operations that satisfy \<open>A\<close>.\<close>

lemma row_kept:
  assumes "get_row i q = Some r" "I r" "list_all A ops"
    and step: "\<And>a x y. A a \<Longrightarrow> row_move a (qu_ttl q) x y \<Longrightarrow> ap_id x = i \<Longrightarrow> I x \<Longrightarrow> I y"
  shows "\<exists>r'. get_row i (approvals.run ops q) = Some r' \<and> I r'"
  using assms
proof (induction ops arbitrary: q r)
  case (Cons a ops)
  obtain r' where r': "get_row i (queue_step a q) = Some r'" "(row_move a (qu_ttl q))\<^sup>*\<^sup>* r r'"
    by (rule step_row [OF Cons.prems(1)])
  have "ap_id r = i" using Cons.prems(1) by (auto simp: get_row_def find_Some_iff)
  have "ap_id r' = i \<and> I r'" using r'(2)
  proof (induction rule: rtranclp_induct)
    case base
    show ?case using \<open>ap_id r = i\<close> Cons.prems(2) by simp
  next
    case (step y z)
    then show ?case using Cons.prems(3) Cons.prems(4) [of a y z] row_move_id [OF step(2)] by simp
  qed
  then show ?case using Cons.IH [OF r'(1)] Cons.prems(3,4) by simp
qed auto

section \<open>The invariant of a row\<close>

definition approval_ok :: "approval \<Rightarrow> bool" where
  "approval_ok r \<longleftrightarrow>
     (if ap_resolved r then ap_resolution r \<in> (if ap_approved r then {''approved''} else {''denied'', ''expired''})
      else \<not> ap_approved r \<and> \<not> ap_consumed r \<and> ap_resolution r = [])
   \<and> (ap_consumed r \<longrightarrow> ap_approved r \<and> ap_claim r = None)"

lemma row_move_ok: "row_move a ttl r r' \<Longrightarrow> approval_ok r \<Longrightarrow> approval_ok r'"
  by (erule row_move_cases) (auto simp: approval_ok_def unclaimed_def expired_row_def decided_row_def reopened_row_def
      decision_def stale_def split: if_splits)

lemma row_moves_ok: "(row_move a ttl)\<^sup>*\<^sup>* r r' \<Longrightarrow> approval_ok r \<Longrightarrow> approval_ok r'"
  by (induction rule: rtranclp_induct) (auto dest: row_move_ok)

definition queue_ok :: "queue \<Rightarrow> bool" where
  "queue_ok q \<longleftrightarrow> distinct (map ap_id (qu_rows q)) \<and> list_all approval_ok (qu_rows q)"

lemma evolves_ok: "evolves a q q' \<Longrightarrow> queue_ok q \<Longrightarrow> queue_ok q'"
proof -
  assume e: "evolves a q q'" and ok: "queue_ok q"
  then have rows: "list_all2 (row_move a (qu_ttl q))\<^sup>*\<^sup>* (qu_rows q) (qu_rows q')" by (simp add: evolves_def)
  have "map ap_id (qu_rows q') = map ap_id (qu_rows q)"
    using rows by (induction rule: list_all2_induct) (simp_all add: row_moves_id)
  moreover have "list_all approval_ok (qu_rows q) \<longrightarrow> list_all approval_ok (qu_rows q')"
    using rows by (induction rule: list_all2_induct) (auto intro: row_moves_ok)
  ultimately show "queue_ok q'" using ok by (simp add: queue_ok_def)
qed

lemma request_ok:
  assumes "request_approval ns params is now q = Some (i, q')" "queue_ok q"
  shows "queue_ok q'"
proof -
  obtain r where r: "qu_rows q' = qu_rows q @ [r]" "fresh_row i ns params now r" "get_row i q = None"
    using request_adds [OF assms(1)] by blast
  then have "approval_ok r" "ap_id r \<notin> set (map ap_id (qu_rows q))"
    by (auto simp: approval_ok_def fresh_row_def get_row_def find_None_iff)
  then show ?thesis using assms(2) r(1) by (simp add: queue_ok_def)
qed

lemma queue_ok_step: "queue_ok q \<Longrightarrow> queue_ok (queue_step a q)"
proof (cases "asks a")
  case True
  then obtain ns params "is" now where a: "a = QRequest ns params is now" by (auto simp: asks_def split: queue_op.splits)
  assume "queue_ok q"
  then show ?thesis using request_ok by (auto simp: a split: option.split)
qed (rule evolves_ok [OF step_evolves])

interpretation approvals: invariant_machine queue_step "\<lambda>q. qu_rows q = []" queue_ok
  by unfold_locales (simp add: queue_ok_def, rule queue_ok_step)

section \<open>What an operation answers\<close>

lemma get_updated:
  "(\<And>r. ap_id (f r) = ap_id r) \<Longrightarrow>
     get_row i (update_rows_where P f q) = map_option (\<lambda>r. if P r then f r else r) (get_row i q)"
  by (simp add: get_row_def update_rows_where_def update_where_def find_map_same)

lemma get_released: "get_row i (release_stale now q) = map_option (\<lambda>r. if stale (qu_ttl q) now r then unclaimed r else r) (get_row i q)"
  unfolding release_stale_def by (rule get_updated) (simp add: unclaimed_def)

lemma get_notified [simp]: "get_row i (notify e r q) = get_row i q"
  by (simp add: get_row_def notify_def)

lemma ttl_updated [simp]: "qu_ttl (update_rows_where P f q) = qu_ttl q" "qu_ttl (release_stale now q) = qu_ttl q"
  by (simp_all add: update_rows_where_def release_stale_def)

lemma get_id: "get_row i q = Some r \<Longrightarrow> ap_id r = i"
  by (auto simp: get_row_def find_Some_iff)

lemma fresh_kept: "get_row i q = Some r \<Longrightarrow> \<not> stale (qu_ttl q) now r \<Longrightarrow> get_row i (release_stale now q) = Some r"
  by (simp add: get_released)

lemma settled_fresh: "ap_resolved r \<or> ap_claim r = None \<Longrightarrow> \<not> stale ttl now r"
  by (auto simp: stale_def)

section \<open>An approval is used once\<close>

fun approves :: "queue_op \<Rightarrow> string \<Rightarrow> bool" where
  "approves (QFinalize i token b) j = (i = j \<and> b)"
| "approves a j = decides a True j"

fun reopens :: "queue_op \<Rightarrow> string \<Rightarrow> bool" where
  "reopens (QReopen i expected now) j = (i = j)"
| "reopens a j = False"

lemma approved_by: "row_move a ttl r r' \<Longrightarrow> ap_approved r' \<Longrightarrow> ap_approved r \<or> approves a (ap_id r)"
  by (erule row_move_cases) (auto simp: unclaimed_def expired_row_def decided_row_def reopened_row_def elim: decides.elims)

lemma approval_history:
  "get_row i (approvals.run ops (new_queue timeout poll ttl)) = Some r \<Longrightarrow> ap_approved r \<Longrightarrow>
     list_ex (\<lambda>a. approves a i) ops"
proof (induction ops arbitrary: r rule: rev_induct)
  case Nil
  then show ?case by (simp add: new_queue_def get_row_def)
next
  case (snoc a ops)
  let ?q = "approvals.run ops (new_queue timeout poll ttl)"
  have q: "get_row i (queue_step a ?q) = Some r" using snoc.prems(1) by (simp add: approvals.run_append)
  show ?case
  proof (cases "get_row i ?q")
    case None
    show ?thesis by (rule step_new_row [OF None q]) (use snoc.prems(2) in \<open>simp add: fresh_row_def\<close>)
  next
    case (Some x)
    obtain r' where "get_row i (queue_step a ?q) = Some r'" and moves: "(row_move a (qu_ttl ?q))\<^sup>*\<^sup>* x r'"
      by (rule step_row [OF Some])
    then have "r' = r" using q by simp
    have "ap_approved r' \<Longrightarrow> ap_approved x \<or> approves a i" using moves
      by (induction rule: rtranclp_induct) (use get_id [OF Some] approved_by row_moves_id in \<open>metis+\<close>)
    then show ?thesis using snoc.IH [OF Some] snoc.prems(2) \<open>r' = r\<close> by auto
  qed
qed

lemma consumed_stays:
  assumes "row_move a ttl r r'" "\<not> reopens a (ap_id r)" "ap_consumed r" "ap_claim r = None" "ap_resolved r" "ap_approved r"
  shows "ap_consumed r' \<and> ap_claim r' = None \<and> ap_resolved r' \<and> ap_approved r'"
  using assms by (elim row_move_cases) (auto simp: stale_def)

lemma consume_cases:
  assumes "consume_approval i now q = (Inr (), q')"
  obtains r where "get_row i (release_stale now q) = Some r" "ap_resolved r" "ap_approved r" "\<not> ap_consumed r" "ap_claim r = None"
    "get_row i q' = Some (r\<lparr>ap_consumed := True\<rparr>)" "qu_ttl q' = qu_ttl q"
proof -
  let ?P = "\<lambda>x. ap_id x = i \<and> ap_resolved x \<and> ap_approved x \<and> \<not> ap_consumed x \<and> ap_claim x = None"
  let ?f = "\<lambda>x. x\<lparr>ap_consumed := True\<rparr>"
  obtain r where r: "get_row i (release_stale now q) = Some r" "ap_resolved r" "ap_approved r" "\<not> ap_consumed r" "ap_claim r = None"
      "reread i now (update_rows_where ?P ?f (release_stale now q)) (\<lambda>x q. (Inr (), q)) = (Inr (), q')"
    using assms by (auto simp: consume_approval_def Let_def with_row_def guarded_Inr split: option.split_asm)
  have "get_row i (update_rows_where ?P ?f (release_stale now q)) = Some (?f r)"
    using r(1-5) get_id [OF r(1)] by (simp add: get_updated)
  then have "get_row i (release_stale now (update_rows_where ?P ?f (release_stale now q))) = Some (?f r)"
    using r(2) by (intro fresh_kept) (simp_all add: settled_fresh)
  then show thesis using r that by (auto simp: reread_def Let_def with_row_def)
qed

text \<open>C4: The approval gate. An approval can be consumed only after some operation decided it with yes; what is
  consumed was resolved, approved, under no claim and not consumed before; and after that, whatever is done
  to the queue (other decisions, expiries, claims, restarts), as long as nobody reopens this approval it is
  refused as already consumed.\<close>

theorem approval_gate:
  assumes "consume_approval i now (fold queue_step ops (new_queue timeout poll ttl)) = (Inr (), q')"
    and "list_all (\<lambda>a. \<not> reopens a i) later"
  shows "list_ex (\<lambda>a. approves a i) ops
     \<and> (\<exists>r. get_row i (release_stale now (fold queue_step ops (new_queue timeout poll ttl))) = Some r \<and> ap_resolved r
          \<and> ap_approved r \<and> ap_claim r = None \<and> \<not> ap_consumed r)
     \<and> fst (consume_approval i again (fold queue_step later q')) = Inl (refused ''already consumed'' i)"
proof -
  let ?q = "fold queue_step ops (new_queue timeout poll ttl)"
  obtain r where r: "get_row i (release_stale now ?q) = Some r" "ap_resolved r" "ap_approved r" "\<not> ap_consumed r" "ap_claim r = None"
      "get_row i q' = Some (r\<lparr>ap_consumed := True\<rparr>)"
    by (rule consume_cases [OF assms(1)])
  have "get_row i (approvals.run (ops @ [QRead i now]) (new_queue timeout poll ttl)) = Some r"
    using r(1) by (simp add: approvals.run_def approval_status_def reread_def with_row_def Let_def)
  from approval_history [OF this r(3)] have "list_ex (\<lambda>a. approves a i) ops" by simp
  moreover have "\<exists>x. get_row i (approvals.run later q') = Some x
      \<and> (ap_consumed x \<and> ap_claim x = None \<and> ap_resolved x \<and> ap_approved x)"
    by (rule row_kept [OF r(6) _ assms(2)]) (use r consumed_stays in simp_all)
  then obtain x where x: "get_row i (approvals.run later q') = Some x"
      "ap_consumed x \<and> ap_claim x = None \<and> ap_resolved x \<and> ap_approved x" by blast
  have "get_row i (release_stale again (fold queue_step later q')) = Some x"
    using x by (intro fresh_kept) (simp_all add: settled_fresh approvals.run_def)
  then have "fst (consume_approval i again (fold queue_step later q')) = Inl (refused ''already consumed'' i)"
    using x(2) by (simp add: consume_approval_def Let_def with_row_def guarded_def)
  ultimately show ?thesis using r by blast
qed


definition demo_queue_ops :: "queue_op list" where
  "demo_queue_ops = [QRequest ''exec'' [(''sessionKey'', JStr ''s'')] [''a''] 1,
     QClaim ''a'' ''token'' [(''resolutionSource'', JStr ''user_web'')] 2, QFinalize ''a'' ''token'' True, QComplete ''a'' ''token'' 3]"

definition demo_queue :: queue where
  "demo_queue = fold queue_step demo_queue_ops (new_queue None (1/4) 60)"

theorem approval_gate_witness:
  "\<exists>q'. consume_approval ''a'' 5 demo_queue = (Inr (), q')
     \<and> fst (consume_approval ''a'' 9 (queue_step (QResolve ''a'' False True [] 8) q')) = Inl (refused ''already consumed'' ''a'')"
proof -
  have "fst (consume_approval ''a'' 5 demo_queue) = Inr ()" by code_simp
  then obtain q' where q': "consume_approval ''a'' 5 demo_queue = (Inr (), q')"
    by (cases "consume_approval ''a'' 5 demo_queue") auto
  have "list_all (\<lambda>a. \<not> reopens a ''a'') [QResolve ''a'' False True [] 8]" by simp
  from approval_gate [OF q' [unfolded demo_queue_def] this, of 9] show ?thesis using q' by simp
qed

section \<open>A claim keeps everybody else out\<close>

text \<open>The operations that respect a claim: not its own, no forced expiry, and before it goes stale.\<close>

definition observes :: "string \<Rightarrow> string \<Rightarrow> real \<Rightarrow> queue_op \<Rightarrow> bool" where
  "observes i token limit a \<longleftrightarrow>
     \<not> forces a i \<and> (case op_time a of None \<Rightarrow> True | Some now \<Rightarrow> now < limit)
   \<and> (case a of QFinalize j t b \<Rightarrow> j \<noteq> i \<or> t \<noteq> token
      | QRelease j t now \<Rightarrow> j \<noteq> i \<or> t \<noteq> token
      | QExpireClaimed j t now \<Rightarrow> j \<noteq> i \<or> t \<noteq> token
      | _ \<Rightarrow> True)"

definition held :: "string \<Rightarrow> real \<Rightarrow> approval \<Rightarrow> bool" where
  "held token t0 r \<longleftrightarrow> \<not> ap_resolved r \<and> ap_claim r = Some token \<and> ap_claimed_at r = Some t0"

lemma held_move:
  assumes "row_move a ttl r r'" "observes (ap_id r) token (t0 + ttl) a" "held token t0 r"
  shows "held token t0 r'"
  using assms by (elim row_move_cases) (auto simp: observes_def held_def stale_def)

lemma claim_cases:
  assumes "claim_resolution i token metadata t0 q = (Inr token', q')"
  obtains r where "token' = token" "get_row i q' = Some r" "held token t0 r \<or> qu_ttl q \<le> 0" "qu_ttl q' = qu_ttl q"
proof -
  let ?f = "\<lambda>x. x\<lparr>ap_claim := Some token, ap_claimed_at := Some t0, ap_params := merge_params metadata (ap_params x)\<rparr>"
  let ?q = "release_stale t0 q"
  obtain r where r: "get_row i ?q = Some r" "\<not> ap_resolved r" "ap_claim r = None"
      "reread i t0 (update_rows_where (open_row i) ?f ?q) (\<lambda>x q. (Inr token, q)) = (Inr token', q')"
    using assms by (auto simp: claim_resolution_def Let_def with_row_def guarded_Inr split: option.split_asm)
  have "get_row i (update_rows_where (open_row i) ?f ?q) = Some (?f r)"
    using r(1-3) get_id [OF r(1)] by (simp add: get_updated open_row_def)
  then have new: "get_row i (release_stale t0 (update_rows_where (open_row i) ?f ?q))
      = Some (if stale (qu_ttl q) t0 (?f r) then unclaimed (?f r) else ?f r)"
    by (simp add: get_released)
  moreover have "stale (qu_ttl q) t0 (?f r) \<longrightarrow> qu_ttl q \<le> 0" by (simp add: stale_def)
  ultimately show thesis using r that
    by (fastforce simp: reread_def Let_def with_row_def held_def split: if_splits)
qed

text \<open>C16: A claim excludes. Once a resolver has claimed an approval, then for the time to live of claims,
  whatever others do short of forcing its expiry, the approval stays unresolved under this claim: every other
  decision and every other claim is refused as in progress, a holder of another token cannot finalize it,
  and the holder's own decision goes through and is the one recorded.\<close>

theorem claim_excludes:
  assumes "claim_resolution i token metadata t0 q = (Inr token', q')" "0 < qu_ttl q"
    and "list_all (observes i token (t0 + qu_ttl q)) ops" and "now < t0 + qu_ttl q" and "other \<noteq> token"
  shows "token' = token
     \<and> fst (resolve_approval i b idem md now (fold queue_step ops q')) = Inl (refused ''resolution in progress'' i)
     \<and> fst (claim_resolution i other md now (fold queue_step ops q')) = Inl (refused ''resolution in progress'' i)
     \<and> fst (finalize_claimed i other b (fold queue_step ops q')) = Inl (refused ''resolution claim mismatch'' i)
     \<and> fst (finalize_claimed i token b (fold queue_step ops q')) = Inr ()
     \<and> (\<exists>r. get_row i (snd (finalize_claimed i token b (fold queue_step ops q'))) = Some r
          \<and> ap_resolved r \<and> ap_approved r = b \<and> ap_resolution r = decision b)"
proof -
  obtain r where r: "token' = token" "get_row i q' = Some r" "held token t0 r" "qu_ttl q' = qu_ttl q"
    by (rule claim_cases [OF assms(1)]) (use assms(2) in auto)
  have "\<exists>x. get_row i (approvals.run ops q') = Some x \<and> held token t0 x"
    by (rule row_kept [OF r(2) _ assms(3)])
      (use r(3,4) held_move in auto)
  then obtain x where x: "get_row i (fold queue_step ops q') = Some x" "held token t0 x"
    by (auto simp: approvals.run_def)
  have ttl: "qu_ttl (fold queue_step ops q') = qu_ttl q"
    using r(4) by (induction ops arbitrary: q') simp_all
  have "\<not> stale (qu_ttl (fold queue_step ops q')) now x"
    using x(2) assms(4) by (simp add: stale_def held_def ttl)
  then have "get_row i (release_stale now (fold queue_step ops q')) = Some x" by (rule fresh_kept [OF x(1)])
  then show ?thesis
    using r(1) x assms(5) get_id [OF x(1)]
    by (simp add: resolve_approval_def claim_resolution_def finalize_claimed_def Let_def with_row_def guarded_def held_def
        get_updated decided_row_def)
qed


definition asked_queue :: queue where
  "asked_queue = fold queue_step (take 1 demo_queue_ops) (new_queue None (1/4) 60)"

theorem claim_excludes_witness:
  "\<exists>q'. claim_resolution ''a'' ''token'' [] 2 asked_queue = (Inr ''token'', q')
     \<and> fst (resolve_approval ''a'' True True [] 61 (fold queue_step [QConsume ''a'' 7, QRestart 60] q'))
         = Inl (refused ''resolution in progress'' ''a'')"
proof -
  let ?q = asked_queue
  have "fst (claim_resolution ''a'' ''token'' [] 2 ?q) = Inr ''token''" by code_simp
  then obtain q' where q': "claim_resolution ''a'' ''token'' [] 2 ?q = (Inr ''token'', q')"
    by (cases "claim_resolution ''a'' ''token'' [] 2 ?q") auto
  have ttl: "qu_ttl ?q = 60" by code_simp
  have "list_all (observes ''a'' ''token'' (2 + qu_ttl ?q)) [QConsume ''a'' 7, QRestart 60]"
    by (simp add: observes_def ttl)
  from claim_excludes [OF q' _ this, of 61 "''other''" True True "[]"] show ?thesis using q' ttl by simp
qed

section \<open>Decisions and waiters\<close>

fun expires_claim :: "queue_op \<Rightarrow> string \<Rightarrow> bool" where
  "expires_claim (QExpireClaimed i token now) j = (i = j)"
| "expires_claim a j = False"

lemma decision_kept:
  assumes "row_move a ttl x y" "\<not> reopens a (ap_id x)" "\<not> expires_claim a (ap_id x)" "ap_resolved x"
  shows "ap_resolved y \<and> ap_approved y = ap_approved x \<and> ap_resolution y = ap_resolution x
     \<and> (ap_claim x = None \<longrightarrow> ap_claim y = None) \<and> (\<not> ap_approved x \<and> ap_claim x \<noteq> None \<longrightarrow> ap_claim y \<noteq> None)"
  using assms by (elim row_move_cases) (auto simp: unclaimed_def stale_def)

lemma reread_row: "reread i now q k = (case get_row i (release_stale now q) of
    None \<Rightarrow> (Inl (missing i), release_stale now q) | Some r \<Rightarrow> k r (release_stale now q))"
  by (simp add: reread_def with_row_def Let_def)

lemma waits_for_answer: "get_row i q = Some r \<Longrightarrow> ap_resolved r \<Longrightarrow> ap_claim r = None \<Longrightarrow>
    fst (wait_turn_of i now q) = Inr (Answer (ap_approved r))"
  using fresh_kept [of i q r now] by (simp add: wait_turn_of_def reread_row settled_fresh)

lemma waits_on: "get_row i q = Some r \<Longrightarrow> ap_resolved r \<Longrightarrow> ap_claim r \<noteq> None \<Longrightarrow>
    fst (wait_turn_of i now q) \<noteq> Inr (Answer b)"
  using fresh_kept [of i q r now] fresh_kept [of i "release_stale now q" r now]
  by (auto simp: wait_turn_of_def reread_row settled_fresh expire_if_unresolved_def Let_def with_row_def guarded_def)

lemma expiry_lapsed:
  assumes "get_row i q = Some r" "\<not> ap_resolved r" "ap_claim r = None" "ap_deadline r \<le> now"
  shows "\<exists>q'. expire_if_unresolved False i now q = (Inr (Some False), q') \<and> get_row i q' = Some (expired_row r)"
proof -
  let ?P = "\<lambda>x. ap_id x = i \<and> \<not> ap_resolved x \<and> (False \<or> ap_claim x = None)"
  have "get_row i (release_stale now q) = Some r" using assms by (intro fresh_kept) (simp_all add: settled_fresh)
  moreover from this have "get_row i (update_rows_where ?P expired_row (release_stale now q)) = Some (expired_row r)"
    using assms get_id [OF assms(1)] by (simp add: get_updated expired_row_def unclaimed_def)
  then have "get_row i (release_stale now (update_rows_where ?P expired_row (release_stale now q))) = Some (expired_row r)"
    by (intro fresh_kept) (simp_all add: settled_fresh expired_row_def)
  ultimately show ?thesis using assms
    by (simp add: expire_if_unresolved_def Let_def with_row_def guarded_def reread_def expired_row_def)
qed

lemma release_twice [simp]: "release_stale now (release_stale now q) = release_stale now q"
  by (simp add: release_stale_def update_rows_where_def update_where_def stale_def unclaimed_def)

lemma answers_sound:
  assumes "wait_turn_of i now q = (Inr (Answer b), q')"
  shows "\<exists>r. get_row i q' = Some r \<and> ap_resolved r \<and> ap_claim r = None \<and> ap_approved r = b"
proof -
  let ?q = "release_stale now q"
  obtain r where r: "get_row i ?q = Some r" using assms by (auto simp: wait_turn_of_def reread_row split: option.split_asm)
  consider "ap_resolved r" "ap_claim r = None" | "ap_resolved r" "ap_claim r \<noteq> None" | "\<not> ap_resolved r" by blast
  then show ?thesis
  proof cases
    case 1
    then show ?thesis using assms r by (auto simp: wait_turn_of_def reread_row)
  next
    case 2
    then show ?thesis using assms r
      by (auto simp: wait_turn_of_def reread_row expire_if_unresolved_def Let_def with_row_def guarded_def
          release_twice split: if_splits)
  next
    case 3
    have lapsed: "0 < ap_deadline r" "ap_deadline r \<le> now" and run: "apfst (map_sum id (\<lambda>x. case x of None \<Rightarrow> Turn_again | Some b \<Rightarrow> Answer b))
        (expire_if_unresolved False i now ?q) = (Inr (Answer b), q')"
      using assms r 3 by (auto simp: wait_turn_of_def reread_row split: if_splits)
    show ?thesis
    proof (cases "ap_claim r")
      case None
      then obtain q2 where "expire_if_unresolved False i now ?q = (Inr (Some False), q2)" "get_row i q2 = Some (expired_row r)"
        using expiry_lapsed [OF r 3 None lapsed(2)] by blast
      then show ?thesis using run by (simp add: expired_row_def unclaimed_def)
    next
      case (Some t)
      then show ?thesis using run r by (simp add: expire_if_unresolved_def Let_def with_row_def guarded_def release_twice)
    qed
  qed
qed


definition denied_queue :: queue where
  "denied_queue = fold queue_step [QRequest ''exec'' [] [''a''] 1, QClaim ''a'' ''token'' [] 2, QFinalize ''a'' ''token'' False]
     (new_queue None (1/4) 60)"


end
