(* ===== verification/Access_Policy.thy ===== *)
theory Access_Policy
  imports Json Session_Key "HOL-Library.Char_ord" "HOL-Library.List_Lexorder"
begin

text \<open>
  The scope policy of the gateway (\<open>gateway/scopes.py\<close>) and the structural guard in front of it
  (\<open>gateway/rpc/ingress.py\<close>): which scope a method needs, which scopes satisfy it, and who may call.
  A \<open>frozenset\<close> of scopes is a set of texts.
\<close>

section \<open>Scopes\<close>

definition admin_scope :: string where "admin_scope = ''operator.admin''"
definition read_scope :: string where "read_scope = ''operator.read''"
definition write_scope :: string where "write_scope = ''operator.write''"
definition approvals_scope :: string where "approvals_scope = ''operator.approvals''"
definition pairing_scope :: string where "pairing_scope = ''operator.pairing''"
definition node_scope :: string where "node_scope = ''node''"
definition operator_namespace :: string where "operator_namespace = ''operator.''"

lemmas scope_defs = admin_scope_def read_scope_def write_scope_def approvals_scope_def pairing_scope_def
  node_scope_def operator_namespace_def

definition guest_safe :: string where "guest_safe = ''guest.safe''"

definition local_owner_capabilities :: "string set" where
  "local_owner_capabilities = {''host.execute'', ''host.read'', ''task.read'', ''task.submit''}"

definition human_token_capabilities :: "string set" where
  "human_token_capabilities = {''host.execute'', ''host.read'', ''task.read'', ''task.submit''}"

definition guest_safe_capabilities :: "string set" where
  "guest_safe_capabilities = {guest_safe}"

definition cli_default_scopes :: "string set" where
  "cli_default_scopes = {admin_scope, read_scope, write_scope, approvals_scope, pairing_scope}"

definition remote_operator_scopes :: "string set" where
  "remote_operator_scopes = {read_scope, write_scope}"

definition node_default_scopes :: "string set" where
  "node_default_scopes = {node_scope}"

section \<open>The classification of the methods\<close>

definition node_role_methods :: "string list" where
  "node_role_methods = [''skills.bins'']"

definition admin_method_prefixes :: "string list" where
  "admin_method_prefixes = [''config.'', ''exec.approvals.'', ''wizard.'', ''update.'']"

definition read_methods :: "(string \<times> string) list" where
  "read_methods =
    [(''health'', read_scope), (''status'', read_scope), (''config.get'', read_scope),
     (''config.effective'', read_scope), (''config.schema.lookup'', read_scope),
     (''sessions.get'', read_scope), (''sessions.list'', read_scope), (''sessions.search'', read_scope),
     (''sessions.messages.search'', read_scope), (''sessions.preview'', read_scope),
     (''sessions.resolve'', read_scope), (''sessions.bootstrap'', read_scope),
     (''sessions.executionLog.read'', read_scope), (''sessions.processes.list'', read_scope),
     (''sessions.processes.log'', read_scope), (''sessions.processes.stop'', write_scope),
     (''terminal.create'', write_scope), (''terminal.write'', write_scope),
     (''terminal.resize'', write_scope), (''terminal.close'', write_scope),
     (''terminal.consume'', write_scope), (''sessions.subscribe'', read_scope),
     (''sessions.unsubscribe'', read_scope), (''workspaces.list'', read_scope),
     (''workspaces.references.read'', read_scope), (''sessions.messages.snapshot'', read_scope),
     (''sessions.messages.snapshot.read'', read_scope), (''sessions.messages.resume'', read_scope),
     (''sessions.messages.snapshot.release'', read_scope), (''transport.flow.update'', read_scope),
     (''transport.sessionFlow.update.v2'', read_scope), (''sessions.messages.subscribe'', read_scope),
     (''sessions.messages.hydrate'', read_scope), (''sessions.messages.unsubscribe'', read_scope),
     (''sessions.read.open.v2'', read_scope), (''sessions.read.state.v2'', read_scope),
     (''sessions.read.install.v2'', read_scope), (''sessions.read.close.v2'', read_scope),
     (''sessions.history.page.v2'', read_scope), (''sessions.routing.get'', read_scope),
     (''sessions.pending_inputs.list'', read_scope), (''sessions.promptCacheKeepalive.status'', read_scope),
     (''artifacts.list'', read_scope), (''artifacts.get'', read_scope),
     (''artifacts.edit.capabilities'', read_scope), (''artifacts.documents.list'', read_scope),
     (''artifacts.documents.get'', read_scope), (''artifacts.revisions.list'', read_scope),
     (''artifacts.changes.list'', read_scope), (''artifacts.changes.get'', read_scope),
     (''artifacts.prompt_annotations.list'', read_scope), (''artifacts.source.read'', read_scope),
     (''workbench.resources.list'', read_scope), (''workbench.resources.get'', read_scope),
     (''workbench.previews.create'', read_scope), (''gateway.identity.get'', read_scope),
     (''last-heartbeat'', read_scope), (''doctor.status'', read_scope),
     (''doctor.memory.status'', read_scope), (''diagnostics.status'', read_scope),
     (''logs.status'', read_scope), (''logs.tail'', read_scope), (''logs.trace'', read_scope),
     (''models.list'', read_scope), (''models.capacity.resolve'', read_scope),
     (''models.routing.get'', read_scope), (''models.recommendations.get'', read_scope),
     (''providers.status'', read_scope), (''routing.hold.get'', read_scope),
     (''search.status'', read_scope), (''memory.list'', read_scope), (''memory.search'', read_scope),
     (''memory.show'', read_scope), (''memory.import.info'', read_scope), (''tools.catalog'', read_scope),
     (''tools.effective'', read_scope), (''tools.search_provider'', read_scope),
     (''sandbox.status'', read_scope), (''sandbox.setup.status'', read_scope),
     (''sandbox.capability.status'', read_scope), (''sandbox.policy.get'', read_scope),
     (''sandbox.policy.defaults'', read_scope), (''sandbox.runtime.status'', read_scope),
     (''sandbox.tokens.list'', read_scope), (''sandbox.explain'', read_scope),
     (''sandbox.run_context.get'', read_scope), (''sandbox.run_mode.preference.get'', read_scope),
     (''sandbox.path.list'', read_scope), (''channels.status'', read_scope),
     (''commands.list_for_surface'', read_scope), (''chat.history'', read_scope),
     (''agents.list'', read_scope), (''agents.files.list'', read_scope), (''agents.files.get'', read_scope),
     (''agent.identity.get'', read_scope), (''skills.status'', read_scope), (''skills.list'', read_scope),
     (''skills.candidates'', read_scope), (''skills.get'', read_scope), (''skills.search'', read_scope),
     (''skills.doctor'', read_scope), (''cron.list'', read_scope), (''cron.status'', read_scope),
     (''cron.runs'', read_scope), (''cron.subscribe'', read_scope), (''cron.unsubscribe'', read_scope),
     (''usage.status'', read_scope), (''usage.cost'', read_scope), (''usage.query'', read_scope),
     (''router.decisions.list'', read_scope), (''onboarding.status'', read_scope),
     (''onboarding.catalog'', read_scope), (''onboarding.router.catalog'', read_scope)]"

definition write_methods :: "(string \<times> string) list" where
  "write_methods =
    [(''chat.send'', write_scope), (''chat.abort'', write_scope), (''chat.clarify_submit'', write_scope),
     (''artifacts.documents.open'', write_scope), (''artifacts.documents.close'', write_scope),
     (''artifacts.documents.rename'', write_scope), (''artifacts.revisions.restore'', write_scope),
     (''artifacts.changes.revert'', write_scope), (''artifacts.mutations.resolve'', write_scope),
     (''workbench.resources.open'', write_scope), (''documents.import'', write_scope),
     (''documents.publish'', write_scope), (''search.query'', write_scope),
     (''sessions.create'', write_scope), (''sessions.fork'', write_scope),
     (''sessions.forkThroughTurn'', write_scope), (''sessions.sidechat.create'', write_scope),
     (''sessions.sidechat.close'', write_scope), (''sessions.send'', write_scope),
     (''sessions.routing.set'', write_scope), (''sessions.pending_inputs.enqueue'', write_scope),
     (''sessions.pending_inputs.update'', write_scope), (''sessions.pending_inputs.reorder'', write_scope),
     (''sessions.pending_inputs.cancel'', write_scope), (''sessions.pending_inputs.dispatch'', write_scope),
     (''sessions.pending_inputs.steer'', write_scope), (''plans.capabilities'', read_scope),
     (''plans.setMode'', write_scope), (''plans.implement'', write_scope), (''plans.revise'', write_scope),
     (''plans.cancelRun'', write_scope), (''plans.setPresentation'', write_scope),
     (''goals.capabilities'', read_scope), (''goals.status'', read_scope), (''goals.set'', write_scope),
     (''goals.edit'', write_scope), (''goals.clear'', write_scope), (''goals.pause'', write_scope),
     (''goals.resume'', write_scope), (''goals.reattach'', write_scope),
     (''sessions.steer.v2'', write_scope), (''turns.receipt.get'', read_scope),
     (''sessions.abort'', write_scope), (''sessions.reset'', write_scope),
     (''sessions.contextCompact'', write_scope), (''sessions.truncate'', write_scope),
     (''workspaces.create'', write_scope), (''workspaces.open'', write_scope),
     (''workspaces.update'', write_scope), (''workspaces.pin'', write_scope),
     (''workspaces.remove'', write_scope), (''workspaces.history.delete'', write_scope),
     (''models.routing.set'', write_scope), (''models.routing.resetRecommended'', admin_scope),
     (''models.recommendations.apply'', admin_scope), (''models.recommendations.acknowledge'', write_scope),
     (''sessions.delete'', write_scope), (''sessions.rename'', write_scope),
     (''sessions.promptCacheKeepalive.set'', write_scope), (''sandbox.workspace.set'', write_scope),
     (''sandbox.mount.add'', write_scope), (''sandbox.mount.remove'', write_scope),
     (''sandbox.domain.add'', write_scope), (''sandbox.domain.remove'', write_scope),
     (''sandbox.bundle.enable'', write_scope), (''sandbox.bundle.disable'', write_scope),
     (''sandbox.setup.ensure'', write_scope), (''sandbox.policy.update'', write_scope),
     (''sandbox.tokens.create'', write_scope), (''sandbox.tokens.revoke'', write_scope),
     (''sandbox.resume'', write_scope), (''sandbox.run_context.set'', write_scope),
     (''sandbox.run_mode.preference.set'', write_scope), (''sandbox.path.pick'', write_scope),
     (''sandbox.path.create-directory'', write_scope), (''config.patch.safe'', write_scope),
     (''telemetry.consent.set'', write_scope), (''telemetry.client_launch.record'', write_scope),
     (''telemetry.product_active.record'', write_scope)]"

definition approval_methods :: "(string \<times> string) list" where
  "approval_methods =
    [(''exec.approvals.get'', approvals_scope), (''exec.approvals.set'', approvals_scope),
     (''exec.approval.request'', approvals_scope), (''exec.approval.waitDecision'', approvals_scope),
     (''exec.approval.status'', approvals_scope), (''exec.approval.snapshot'', approvals_scope),
     (''exec.approval.resolve'', approvals_scope), (''exec.approval.extend'', approvals_scope),
     (''plugin.approval.request'', approvals_scope), (''plugin.approval.waitDecision'', approvals_scope),
     (''plugin.approval.status'', approvals_scope), (''plugin.approval.resolve'', approvals_scope),
     (''plugin.approval.extend'', approvals_scope), (''channels.pairings'', pairing_scope),
     (''channels.pairing.approve'', pairing_scope), (''channels.pairing.revoke'', pairing_scope),
     (''channels.admin.set'', pairing_scope)]"

definition admin_methods :: "(string \<times> string) list" where
  "admin_methods =
    [(''config.reload'', admin_scope), (''chat.inject'', admin_scope), (''set-heartbeats'', admin_scope),
     (''agents.files.set'', admin_scope), (''skills.install'', admin_scope),
     (''skills.install.cancel'', admin_scope), (''skills.install.status'', admin_scope),
     (''skills.update'', admin_scope), (''skills.uninstall'', admin_scope),
     (''skills.reload'', admin_scope), (''skills.setEnabled'', admin_scope),
     (''skills.deps.install'', admin_scope), (''sandbox.runtime.install'', admin_scope),
     (''sandbox.runtime.cancel'', admin_scope), (''sandbox.runtime.discard_download'', admin_scope),
     (''sandbox.runtime.remove'', admin_scope), (''channels.logout'', admin_scope),
     (''channels.restart'', admin_scope), (''channels.get'', admin_scope),
     (''channels.probe'', admin_scope), (''diagnostics.set'', admin_scope),
     (''onboarding.provider.credential.reveal'', admin_scope),
     (''onboarding.provider.credential.clear'', admin_scope), (''cron.create'', admin_scope),
     (''cron.update'', admin_scope), (''cron.remove'', admin_scope), (''cron.run'', admin_scope),
     (''sessions.patch'', admin_scope), (''routing.hold.set'', admin_scope),
     (''routing.hold.clear'', admin_scope), (''memory.index'', admin_scope),
     (''memory.import.preview'', admin_scope), (''memory.import.start'', admin_scope),
     (''memory.import.status'', admin_scope), (''memory.import.cancel'', admin_scope),
     (''memory.import.retry'', admin_scope), (''memory.import.apply'', admin_scope),
     (''memory.import.undo'', admin_scope), (''memory.import.discard'', admin_scope),
     (''migration.sources.list'', admin_scope), (''migration.sources.preview'', admin_scope),
     (''onboarding.provider.configure'', admin_scope), (''onboarding.provider.probe'', admin_scope),
     (''onboarding.llmProfile.upsert'', admin_scope),
     (''onboarding.llmProfile.upsertAndActivate'', admin_scope),
     (''onboarding.llmProfile.credential.clear'', admin_scope),
     (''onboarding.llmProfile.remove'', admin_scope),
     (''onboarding.llmProfile.active.remove'', admin_scope),
     (''onboarding.llmProfile.activate'', admin_scope), (''onboarding.llmProfile.probe'', admin_scope),
     (''onboarding.llmProfile.models.discover'', admin_scope),
     (''onboarding.llmProfile.draft.probe'', admin_scope),
     (''onboarding.llmProfile.draft.models.discover'', admin_scope),
     (''onboarding.models.discover'', admin_scope), (''onboarding.router.configure'', admin_scope),
     (''onboarding.ensemble.configure'', admin_scope),
     (''onboarding.memory_embedding.configure'', admin_scope),
     (''onboarding.search.configure'', admin_scope),
     (''onboarding.imageGeneration.configure'', admin_scope),
     (''onboarding.imageGeneration.models.discover'', admin_scope),
     (''onboarding.videoGeneration.models.discover'', admin_scope),
     (''onboarding.audio.configure'', admin_scope), (''onboarding.capability.reset'', admin_scope),
     (''onboarding.channel.probe'', admin_scope), (''onboarding.channel.upsert'', admin_scope),
     (''onboarding.channel.remove'', admin_scope), (''onboarding.channel.enable'', admin_scope),
     (''onboarding.channel.disable'', admin_scope)]"

definition method_scopes :: "(string \<times> string) list" where
  "method_scopes = read_methods @ write_methods @ approval_methods @ admin_methods"

definition has_admin_prefix :: "string \<Rightarrow> bool" where
  "has_admin_prefix m \<longleftrightarrow> list_ex (\<lambda>p. prefix p m) admin_method_prefixes"

definition resolve_required_scope :: "string \<Rightarrow> string option" where
  "resolve_required_scope m =
     (case map_of method_scopes m of
        Some s \<Rightarrow> Some s
      | None \<Rightarrow> if has_admin_prefix m then Some admin_scope else None)"

definition is_classified :: "string \<Rightarrow> bool" where
  "is_classified m \<longleftrightarrow>
     map_of method_scopes m \<noteq> None \<or> m \<in> set node_role_methods \<or> has_admin_prefix m"

section \<open>What the scopes allow\<close>

definition operator_scope_satisfies :: "string \<Rightarrow> string set \<Rightarrow> bool" where
  "operator_scope_satisfies required granted =
     (if required = admin_scope then admin_scope \<in> granted
      else if prefix operator_namespace required
      then if admin_scope \<in> granted then True
           else if required = read_scope then read_scope \<in> granted \<or> write_scope \<in> granted
           else required \<in> granted
      else if required = node_scope then node_scope \<in> granted \<or> admin_scope \<in> granted
      else required \<in> granted)"

definition normalize_operator_scopes :: "string set \<Rightarrow> string set" where
  "normalize_operator_scopes scopes =
     (if admin_scope \<in> scopes then scopes \<union> {read_scope, write_scope}
      else if write_scope \<in> scopes then insert read_scope scopes
      else scopes)"

text \<open>\<open>(True, None)\<close> is \<open>None\<close>; \<open>(False, scope)\<close> is \<open>Some scope\<close>, the scope that is missing.\<close>

definition authorize_call :: "string \<Rightarrow> string \<Rightarrow> string \<Rightarrow> string set \<Rightarrow> string option" where
  "authorize_call method required role granted =
     (if role = ''node''
      then if method \<in> set node_role_methods \<or> required = node_scope
           then if node_scope \<in> granted then None else Some node_scope
           else Some node_scope
      else if required = node_scope
      then if admin_scope \<in> granted then None else Some admin_scope
      else if operator_scope_satisfies required granted then None
      else Some required)"

section \<open>Loopback\<close>

definition octet_ok :: "string \<Rightarrow> bool" where
  "octet_ok p = (case py_int p of Some n \<Rightarrow> 0 \<le> n \<and> n \<le> 255 | None \<Rightarrow> False)"

definition unbracketed :: "string \<Rightarrow> string" where
  "unbracketed h =
     (if h \<noteq> [] \<and> hd h = CHR ''['' \<and> last h = CHR '']'' then butlast (tl h) else h)"

definition unmapped :: "string \<Rightarrow> string" where
  "unmapped h = (if prefix ''::ffff:'' h then drop 7 h else h)"

definition loopback_host :: "string \<Rightarrow> bool" where
  "loopback_host host =
     (if host = ''::1'' \<or> host = ''localhost'' then True
      else if prefix ''127.'' host
      then (let parts = split_on (CHR ''.'') host
            in length parts = 4 \<and> list_all octet_ok parts)
      else False)"

definition is_loopback_address :: "string option \<Rightarrow> bool" where
  "is_loopback_address addr =
     (case addr of
        None \<Rightarrow> False
      | Some a \<Rightarrow> a \<noteq> [] \<and> loopback_host (unmapped (unbracketed (fst (split_once (CHR ''%'') a)))))"

definition is_loopback_bind :: "string option \<Rightarrow> bool" where
  "is_loopback_bind host =
     (case host of
        None \<Rightarrow> False
      | Some h \<Rightarrow> h \<noteq> [] \<and> (h = ''localhost'' \<or> is_loopback_address (Some h)))"

section \<open>Facts about scopes\<close>

lemma scopes_distinct [simp]:
  "read_scope \<noteq> admin_scope" "write_scope \<noteq> admin_scope" "write_scope \<noteq> read_scope"
  "node_scope \<noteq> admin_scope" "node_scope \<noteq> read_scope" "node_scope \<noteq> write_scope"
  "admin_scope \<noteq> read_scope" "admin_scope \<noteq> write_scope" "read_scope \<noteq> write_scope"
  "admin_scope \<noteq> node_scope" "read_scope \<noteq> node_scope" "write_scope \<noteq> node_scope"
  "\<not> prefix operator_namespace node_scope"
  "prefix operator_namespace read_scope" "prefix operator_namespace write_scope"
  by (simp_all add: scope_defs)

lemma satisfies_mono: "operator_scope_satisfies r S \<Longrightarrow> S \<subseteq> T \<Longrightarrow> operator_scope_satisfies r T"
  by (auto simp: operator_scope_satisfies_def split: if_splits)

lemma satisfies_normalized:
  "operator_scope_satisfies r (normalize_operator_scopes S) = operator_scope_satisfies r S"
  by (auto simp: operator_scope_satisfies_def normalize_operator_scopes_def)

lemma normalize_idem: "normalize_operator_scopes (normalize_operator_scopes S) = normalize_operator_scopes S"
  by (auto simp: normalize_operator_scopes_def)

lemma admin_normalized [simp]: "admin_scope \<in> normalize_operator_scopes S \<longleftrightarrow> admin_scope \<in> S"
  by (auto simp: normalize_operator_scopes_def)

text \<open>On a normalized set of operator scopes the check is plain membership.\<close>

lemma satisfies_member:
  assumes "prefix operator_namespace r" "admin_scope \<in> S \<longrightarrow> r \<in> S"
  shows "operator_scope_satisfies r (normalize_operator_scopes S) \<longleftrightarrow> r \<in> normalize_operator_scopes S"
  using assms by (auto simp: operator_scope_satisfies_def normalize_operator_scopes_def)

lemma authorize_remote:
  "authorize_call m r role remote_operator_scopes = None \<longleftrightarrow> role \<noteq> ''node'' \<and> r \<in> {read_scope, write_scope}"
  by (auto simp: authorize_call_def operator_scope_satisfies_def remote_operator_scopes_def split: if_splits)

lemma authorize_admin: "authorize_call m admin_scope role S = None \<Longrightarrow> role \<noteq> ''node'' \<Longrightarrow> admin_scope \<in> S"
  by (auto simp: authorize_call_def operator_scope_satisfies_def split: if_splits)

lemma authorize_node: "authorize_call m r ''node'' S = None \<longleftrightarrow>
    node_scope \<in> S \<and> (m \<in> set node_role_methods \<or> r = node_scope)"
  by (auto simp: authorize_call_def)

lemma classified_iff:
  "is_classified m \<longleftrightarrow> m \<in> set node_role_methods \<or> resolve_required_scope m \<noteq> None"
  by (auto simp: is_classified_def resolve_required_scope_def split: option.splits)

section \<open>The structural guard\<close>

text \<open>
  \<open>validate_rpc_ingress\<close> on decoded JSON: it has no cycles and no other containers than lists and
  dictionaries, and every code point below 256 has a UTF-8 encoding. What is left are the two bounds.
  The counter of nodes runs through all the values.
\<close>

definition ingress_max_depth :: nat where "ingress_max_depth = 128"
definition ingress_max_nodes :: nat where "ingress_max_nodes = 26214400"

datatype ingress_error = StructureTooDeep | TooManyNodes

definition enter :: "nat \<Rightarrow> nat \<Rightarrow> ingress_error + nat" where
  "enter depth n =
     (if ingress_max_depth < depth then Inl StructureTooDeep
      else if ingress_max_nodes < n + 1 then Inl TooManyNodes
      else Inr (n + 1))"

fun visit :: "json \<Rightarrow> nat \<Rightarrow> nat \<Rightarrow> ingress_error + nat"
and visit_list :: "json list \<Rightarrow> nat \<Rightarrow> nat \<Rightarrow> ingress_error + nat"
and visit_items :: "(string \<times> json) list \<Rightarrow> nat \<Rightarrow> nat \<Rightarrow> ingress_error + nat" where
  "visit v depth n =
     (case enter depth n of
        Inl e \<Rightarrow> Inl e
      | Inr n1 \<Rightarrow>
          (case v of
             JList vs \<Rightarrow> visit_list vs (depth + 1) n1
           | JObj kvs \<Rightarrow> visit_items kvs (depth + 1) n1
           | _ \<Rightarrow> Inr n1))"
| "visit_list [] depth n = Inr n"
| "visit_list (v # vs) depth n =
     (case visit v depth n of Inl e \<Rightarrow> Inl e | Inr n1 \<Rightarrow> visit_list vs depth n1)"
| "visit_items [] depth n = Inr n"
| "visit_items ((k, v) # kvs) depth n =
     (case enter depth n of
        Inl e \<Rightarrow> Inl e
      | Inr n1 \<Rightarrow>
          (case visit v depth n1 of Inl e \<Rightarrow> Inl e | Inr n2 \<Rightarrow> visit_items kvs depth n2))"

declare visit.simps [simp del]

definition validate_rpc_ingress :: "json list \<Rightarrow> ingress_error option" where
  "validate_rpc_ingress vs = (case visit_list vs 0 0 of Inl e \<Rightarrow> Some e | Inr n \<Rightarrow> None)"

text \<open>The nodes of a value and how deep they are nested.\<close>

fun nodes :: "json \<Rightarrow> nat" where
  "nodes (JList vs) = 1 + sum_list (map nodes vs)"
| "nodes (JObj kvs) = 1 + sum_list (map (\<lambda>kv. 1 + nodes (snd kv)) kvs)"
| "nodes _ = 1"

fun height :: "json \<Rightarrow> nat" where
  "height (JList vs) = foldr (\<lambda>v h. max (1 + height v) h) vs 0"
| "height (JObj kvs) = foldr (\<lambda>kv h. max (1 + height (snd kv)) h) kvs 0"
| "height _ = 0"

lemma nodes_pos: "0 < nodes v"
  by (cases v) auto

lemma enter_Inr: "enter d n = Inr m \<longleftrightarrow> d \<le> ingress_max_depth \<and> n < ingress_max_nodes \<and> m = n + 1"
  by (auto simp: enter_def)

lemma foldr_max_le: "foldr (\<lambda>v h. max (f v) h) vs (0 :: nat) \<le> k \<longleftrightarrow> (\<forall>v \<in> set vs. f v \<le> k)"
  by (induction vs) auto

lemma height_bound:
  "d + height (JList vs) \<le> k \<longleftrightarrow> d \<le> k \<and> (\<forall>v \<in> set vs. d + 1 + height v \<le> k)"
  "d + height (JObj kvs) \<le> k \<longleftrightarrow> d \<le> k \<and> (\<forall>kv \<in> set kvs. d + 1 + height (snd kv) \<le> k)"
proof -
  have "d + foldr (\<lambda>v h. max (1 + f v) h) xs 0 \<le> k
      \<longleftrightarrow> d \<le> k \<and> (\<forall>v \<in> set xs. d + 1 + f v \<le> k)" for f :: "'a \<Rightarrow> nat" and xs
  proof (cases "d \<le> k")
    case True
    then show ?thesis using foldr_max_le [of "\<lambda>v. 1 + f v" xs "k - d"] by (auto simp: le_diff_conv2 add.commute)
  qed auto
  from this [of height vs] this [of "\<lambda>kv. height (snd kv)" kvs] show
    "d + height (JList vs) \<le> k \<longleftrightarrow> d \<le> k \<and> (\<forall>v \<in> set vs. d + 1 + height v \<le> k)"
    "d + height (JObj kvs) \<le> k \<longleftrightarrow> d \<le> k \<and> (\<forall>kv \<in> set kvs. d + 1 + height (snd kv) \<le> k)"
    by simp_all
qed

lemma visit_Inr:
  "visit v d n = Inr m \<longleftrightarrow>
     d + height v \<le> ingress_max_depth \<and> n + nodes v \<le> ingress_max_nodes \<and> m = n + nodes v"
  "n \<le> ingress_max_nodes \<Longrightarrow> visit_list vs d n = Inr m \<longleftrightarrow>
     (\<forall>v \<in> set vs. d + height v \<le> ingress_max_depth)
     \<and> n + sum_list (map nodes vs) \<le> ingress_max_nodes \<and> m = n + sum_list (map nodes vs)"
  "n \<le> ingress_max_nodes \<Longrightarrow> visit_items kvs d n = Inr m \<longleftrightarrow>
     (\<forall>kv \<in> set kvs. d + height (snd kv) \<le> ingress_max_depth)
     \<and> n + sum_list (map (\<lambda>kv. 1 + nodes (snd kv)) kvs) \<le> ingress_max_nodes
     \<and> m = n + sum_list (map (\<lambda>kv. 1 + nodes (snd kv)) kvs)"
proof (induction v d n and vs d n and kvs d n arbitrary: m and m and m rule: visit_visit_list_visit_items.induct)
  case (1 v d n)
  show ?case
  proof (cases "enter d n")
    case (Inl e)
    then have "\<not> (d \<le> ingress_max_depth \<and> n < ingress_max_nodes)" by (auto simp: enter_def split: if_splits)
    then have "\<not> (d + height v \<le> ingress_max_depth \<and> n + nodes v \<le> ingress_max_nodes)"
      using nodes_pos [of v] by auto
    then show ?thesis by (subst visit.simps) (auto simp: Inl)
  next
    case (Inr k)
    then have k: "d \<le> ingress_max_depth" "n < ingress_max_nodes" "k = n + 1" by (simp_all add: enter_Inr)
    show ?thesis
    proof (cases v)
      case (JList vs)
      have "visit v d n = visit_list vs (d + 1) k" by (subst visit.simps) (simp add: Inr JList)
      also have "\<dots> = Inr m \<longleftrightarrow> (\<forall>v \<in> set vs. d + 1 + height v \<le> ingress_max_depth)
          \<and> k + sum_list (map nodes vs) \<le> ingress_max_nodes \<and> m = k + sum_list (map nodes vs)"
        using "1.IH"(1) [OF Inr JList, of m] k by simp
      finally show ?thesis using k unfolding JList height_bound by auto
    next
      case (JObj kvs)
      have "visit v d n = visit_items kvs (d + 1) k" by (subst visit.simps) (simp add: Inr JObj)
      also have "\<dots> = Inr m \<longleftrightarrow> (\<forall>kv \<in> set kvs. d + 1 + height (snd kv) \<le> ingress_max_depth)
          \<and> k + sum_list (map (\<lambda>kv. 1 + nodes (snd kv)) kvs) \<le> ingress_max_nodes
          \<and> m = k + sum_list (map (\<lambda>kv. 1 + nodes (snd kv)) kvs)"
        using "1.IH"(2) [OF Inr JObj, of m] k by simp
      finally show ?thesis using k unfolding JObj height_bound by auto
    qed (use k in \<open>auto simp: visit.simps [of _ d n] Inr\<close>)
  qed
next
  case (2 d n)
  then show ?case by auto
next
  case (3 v vs d n)
  show ?case
  proof (cases "visit v d n")
    case (Inl e)
    then have "\<not> (d + height v \<le> ingress_max_depth \<and> n + nodes v \<le> ingress_max_nodes)"
      using "3.IH"(1) [of "n + nodes v"] by auto
    then show ?thesis using Inl by auto
  next
    case (Inr k)
    then have k: "d + height v \<le> ingress_max_depth" "k = n + nodes v" "k \<le> ingress_max_nodes"
      using "3.IH"(1) [of k] by auto
    then show ?thesis using "3.IH"(2) [OF Inr k(3), of m] by (auto simp: Inr)
  qed
next
  case (4 d n)
  then show ?case by auto
next
  case (5 k v kvs d n)
  show ?case
  proof (cases "enter d n")
    case (Inl e)
    then have "\<not> (d \<le> ingress_max_depth \<and> n < ingress_max_nodes)" by (auto simp: enter_def split: if_splits)
    then show ?thesis using Inl by auto
  next
    case (Inr k1)
    then have k1: "d \<le> ingress_max_depth" "n < ingress_max_nodes" "k1 = n + 1" by (simp_all add: enter_Inr)
    show ?thesis
    proof (cases "visit v d k1")
      case (Inl e)
      then have "\<not> (d + height v \<le> ingress_max_depth \<and> k1 + nodes v \<le> ingress_max_nodes)"
        using "5.IH"(1) [OF Inr, of "k1 + nodes v"] by auto
      then show ?thesis using Inl k1 by (auto simp: Inr)
    next
      case (Inr k2)
      then have k2: "d + height v \<le> ingress_max_depth" "k2 = k1 + nodes v" "k2 \<le> ingress_max_nodes"
        using "5.IH"(1) [OF \<open>enter d n = Inr k1\<close>, of k2] by auto
      have "visit_items ((k, v) # kvs) d n = visit_items kvs d k2"
        by (simp add: \<open>enter d n = Inr k1\<close> Inr)
      then show ?thesis using "5.IH"(2) [OF \<open>enter d n = Inr k1\<close> Inr k2(3), of m] k1 k2 by auto
    qed
  qed
qed

lemma ingress_accepts:
  "validate_rpc_ingress vs = None \<longleftrightarrow>
     (\<forall>v \<in> set vs. height v \<le> ingress_max_depth) \<and> sum_list (map nodes vs) \<le> ingress_max_nodes"
  unfolding validate_rpc_ingress_def using visit_Inr(2) [of 0 vs 0 "sum_list (map nodes vs)"]
    visit_Inr(2) [of 0 vs 0]
  by (cases "visit_list vs 0 0") auto

end
