(* ===== verification/Guest_Policy.thy ===== *)
theory Guest_Policy
  imports Access_Policy
begin

text \<open>
  The policy for anonymous guests of the Web surface (\<open>gateway/guest_rpc_policy.py\<close>), on the principals
  of \<open>gateway/auth.py\<close>. A guest may call the methods of a fixed list and name only session keys
  of its own namespace, which the server derives from a secret of the guest's browser.

  Two parameters stand for library functions: \<open>show\<close> is \<open>str\<close> of a JSON value that is no text,
  and \<open>fresh\<close> is what \<open>secrets.token_urlsafe\<close> returns.
\<close>

section \<open>Principals\<close>

datatype auth_state = Authenticated | Guest | Invalid

record principal =
  pr_role :: string
  pr_scopes :: "string set"
  pr_is_owner :: bool
  pr_authenticated :: bool
  pr_capabilities :: "string set"
  pr_auth_state :: "auth_state option"
  pr_token_public_id :: "string option"
  pr_guest_owner_id :: "string option"
  pr_guest_session_key :: "string option"

text \<open>\<open>Principal.__post_init__\<close>\<close>

definition post_init :: "principal \<Rightarrow> principal" where
  "post_init p =
     (let p1 = (if pr_auth_state p = None
                then p\<lparr>pr_auth_state := Some (if pr_authenticated p \<or> pr_is_owner p
                                              then Authenticated else Guest)\<rparr>
                else p)
      in if pr_capabilities p1 = {}
         then if pr_role p1 = ''operator'' \<and> (pr_authenticated p1 \<or> pr_is_owner p1)
              then p1\<lparr>pr_capabilities := local_owner_capabilities\<rparr>
              else if \<not> pr_authenticated p1
              then p1\<lparr>pr_capabilities := guest_safe_capabilities\<rparr>
              else p1
         else p1)"

section \<open>Values\<close>

fun py_truthy :: "json \<Rightarrow> bool" where
  "py_truthy JNull = False"
| "py_truthy (JBool b) = b"
| "py_truthy (JInt i) = (i \<noteq> 0)"
| "py_truthy (JFloat r) = (r \<noteq> 0)"
| "py_truthy (JStr s) = (s \<noteq> [])"
| "py_truthy (JList vs) = (vs \<noteq> [])"
| "py_truthy (JObj kvs) = (kvs \<noteq> [])"

text \<open>\<open>str(value or "")\<close>\<close>

definition text_or_empty :: "(json \<Rightarrow> string) \<Rightarrow> json \<Rightarrow> string" where
  "text_or_empty show v = (if py_truthy v then case v of JStr s \<Rightarrow> s | _ \<Rightarrow> show v else [])"

text \<open>\<open>a or b\<close>\<close>

definition py_or :: "json \<Rightarrow> json \<Rightarrow> json" where
  "py_or a b = (if py_truthy a then a else b)"

section \<open>Keys of guests\<close>

definition owner_hex_char :: "char \<Rightarrow> bool" where
  "owner_hex_char c \<longleftrightarrow>
     (let n = (of_char c :: nat) in (48 \<le> n \<and> n \<le> 57) \<or> (97 \<le> n \<and> n \<le> 102))"

text \<open>\<open>_OWNER_ID_RE.fullmatch\<close>\<close>

definition owner_id_ok :: "string \<Rightarrow> bool" where
  "owner_id_ok s \<longleftrightarrow> length s = 64 \<and> list_all owner_hex_char s"

definition slug_char :: "char \<Rightarrow> bool" where
  "slug_char c \<longleftrightarrow>
     (let n = (of_char c :: nat)
      in (65 \<le> n \<and> n \<le> 90) \<or> (97 \<le> n \<and> n \<le> 122) \<or> (48 \<le> n \<and> n \<le> 57) \<or> n = 95 \<or> n = 45)"

text \<open>\<open>_SESSION_SLUG_RE.sub("-", s)\<close>: one dash for every run of other characters; \<open>b\<close> says
  that the run has its dash.\<close>

fun sub_slug :: "bool \<Rightarrow> string \<Rightarrow> string" where
  "sub_slug b [] = []"
| "sub_slug b (c # cs) =
     (if slug_char c then c # sub_slug False cs
      else if b then sub_slug True cs
      else CHR ''-'' # sub_slug True cs)"

definition strip_marks :: "string \<Rightarrow> string" where
  "strip_marks s =
     (let mark = (\<lambda>c. c = CHR ''-'' \<or> c = CHR ''_'')
      in rev (dropWhile mark (rev (dropWhile mark s))))"

text \<open>\<open>parse_agent_id\<close> of \<open>session/keys.py\<close>.\<close>

definition parse_agent_id :: "string \<Rightarrow> string" where
  "parse_agent_id k =
     (let key = py_strip k;
          key1 = (if prefix ''subagent:agent:'' key then drop 9 key else key)
      in if prefix ''agent:'' key1
         then let parts = split_on (CHR '':'') key1;
                  candidate = (if 2 \<le> length parts then parts ! 1 else [])
              in if candidate \<noteq> [] then normalize_agent_id candidate else ''main''
         else ''main'')"

definition guest_namespace_parts :: "(json \<Rightarrow> string) \<Rightarrow> json \<Rightarrow> (string \<times> string) option" where
  "guest_namespace_parts show k =
     (case split_on (CHR '':'') (canonical_key (text_or_empty show k)) of
        [a, agent, w, g, owner, slug] \<Rightarrow>
          if a = ''agent'' \<and> w = ''webchat'' \<and> g = ''guest'' \<and> owner_id_ok owner \<and> slug \<noteq> []
          then Some (owner, slug) else None
      | _ \<Rightarrow> None)"

definition guest_owns_session_key :: "(json \<Rightarrow> string) \<Rightarrow> string option \<Rightarrow> json \<Rightarrow> bool" where
  "guest_owns_session_key show owner k =
     (case owner of
        None \<Rightarrow> False
      | Some o' \<Rightarrow>
          if o' = [] \<or> \<not> owner_id_ok o' then False
          else case guest_namespace_parts show k of None \<Rightarrow> False | Some (p, _) \<Rightarrow> p = o')"

definition guest_slug :: "string \<Rightarrow> string \<Rightarrow> string" where
  "guest_slug fresh requested =
     (let raw = (if requested \<noteq> [] then last (split_on (CHR '':'') requested) else ''default'');
          raw1 = (if raw = [] \<or> raw = ''unknown'' \<or> raw = ''webchat'' then ''default'' else raw);
          slug = take 96 (strip_marks (sub_slug False raw1))
      in if slug = [] then fresh else slug)"

definition guest_owned_session_key ::
  "(json \<Rightarrow> string) \<Rightarrow> string \<Rightarrow> string \<Rightarrow> json \<Rightarrow> string option \<Rightarrow> py_exc + string" where
  "guest_owned_session_key show fresh owner k agent_id =
     checked [(\<not> owner_id_ok owner, ValueError ''guest_owner_id must be a lowercase SHA-256 hex digest'')]
       (let requested = canonical_key (text_or_empty show k)
        in if guest_owns_session_key show (Some owner) (JStr requested) then Inr requested
           else
             let parsed = parse_agent_id requested;
                 resolved = (case agent_id of
                               Some a \<Rightarrow> if a \<noteq> [] then a else if parsed \<noteq> [] then parsed else ''main''
                             | None \<Rightarrow> if parsed \<noteq> [] then parsed else ''main'')
             in Inr (''agent:'' @ resolved @ '':webchat:guest:'' @ owner @ '':'' @ guest_slug fresh requested))"

section \<open>The methods of guests\<close>

definition guest_rpc_allowlist :: "string list" where
  "guest_rpc_allowlist =
    [''chat.send'', ''chat.history'', ''chat.abort'', ''chat.clarify_submit'', ''artifacts.list'',
     ''artifacts.get'', ''sessions.list'', ''sessions.rename'', ''sessions.delete'',
     ''sessions.bootstrap'', ''sessions.executionLog.read'', ''sessions.messages.subscribe'',
     ''sessions.messages.hydrate'', ''sessions.messages.snapshot'', ''sessions.messages.snapshot.read'',
     ''sessions.messages.resume'', ''sessions.messages.snapshot.release'', ''sessions.read.open.v2'',
     ''sessions.read.state.v2'', ''sessions.read.install.v2'', ''sessions.read.close.v2'',
     ''sessions.history.page.v2'', ''sessions.messages.search'', ''transport.flow.update'',
     ''transport.sessionFlow.update.v2'', ''sessions.messages.unsubscribe'',
     ''sessions.pending_inputs.enqueue'', ''sessions.pending_inputs.list'',
     ''sessions.pending_inputs.update'', ''sessions.pending_inputs.reorder'',
     ''sessions.pending_inputs.cancel'', ''sessions.pending_inputs.dispatch'']"

definition guest_rpc_denylist :: "string list" where
  "guest_rpc_denylist =
    [''terminal.create'', ''terminal.write'', ''terminal.resize'', ''terminal.close'', ''terminal.consume'']"

definition session_key_fields :: "(string \<times> string list) list" where
  "session_key_fields =
    [(''artifacts.list'', [''sessionKey'']), (''artifacts.get'', [''sessionKey'']),
     (''chat.history'', [''sessionKey'', ''key'']), (''chat.abort'', [''sessionKey'', ''key'']),
     (''chat.clarify_submit'', [''sessionKey'', ''key'']),
     (''sessions.bootstrap'', [''key'', ''sessionKey'']), (''sessions.executionLog.read'', [''sessionKey'']),
     (''sessions.rename'', [''key'', ''sessionKey'']),
     (''sessions.messages.subscribe'', [''key'', ''sessionKey'']),
     (''sessions.messages.hydrate'', [''key'', ''sessionKey'']),
     (''sessions.messages.snapshot'', [''key'', ''sessionKey'']),
     (''sessions.messages.snapshot.read'', [''key'']), (''sessions.messages.resume'', [''key'']),
     (''sessions.messages.snapshot.release'', [''key'']), (''sessions.read.open.v2'', [''key'']),
     (''sessions.read.state.v2'', [''key'']), (''sessions.read.install.v2'', [''key'']),
     (''sessions.read.close.v2'', [''key'']), (''sessions.history.page.v2'', [''key'']),
     (''sessions.messages.search'', [''key'']),
     (''sessions.messages.unsubscribe'', [''key'', ''sessionKey'']),
     (''sessions.pending_inputs.enqueue'', [''key'', ''sessionKey'']),
     (''sessions.pending_inputs.list'', [''key'', ''sessionKey'']),
     (''sessions.pending_inputs.update'', [''key'', ''sessionKey'']),
     (''sessions.pending_inputs.reorder'', [''key'', ''sessionKey'']),
     (''sessions.pending_inputs.cancel'', [''key'', ''sessionKey'']),
     (''sessions.pending_inputs.dispatch'', [''key'', ''sessionKey''])]"

definition is_guest :: "principal option \<Rightarrow> bool" where
  "is_guest p =
     (case p of
        None \<Rightarrow> False
      | Some q \<Rightarrow>
          \<not> pr_authenticated q \<and> \<not> pr_is_owner q
          \<and> (pr_auth_state q \<in> {Some Guest, Some Invalid} \<or> guest_safe \<in> pr_capabilities q))"

text \<open>What \<open>GuestRpcPolicy.authorize\<close> raises: its own error with the message, or an exception that
  escapes it.\<close>

datatype guest_error = GuestPolicy string | GuestRaise py_exc

definition pops :: "string list \<Rightarrow> obj \<Rightarrow> obj" where
  "pops ks d = foldl (\<lambda>acc k. AList.delete k acc) d ks"

definition drop_initial :: "string \<Rightarrow> json \<Rightarrow> json" where
  "drop_initial m params =
     (case params of
        JObj d \<Rightarrow>
          if m \<in> {''chat.send'', ''sessions.pending_inputs.enqueue''}
          then JObj (pops [''initialRoutingMode'', ''initial_routing_mode'', ''initialModel'',
                           ''initial_model'', ''initialProvider'', ''initial_provider''] d)
          else params
      | _ \<Rightarrow> params)"

definition no_capture :: "obj \<Rightarrow> obj" where
  "no_capture d =
     AList.update ''no_memory_capture'' (JBool True) (AList.update ''noMemoryCapture'' (JBool True) d)"

definition guest_chat_send ::
  "(json \<Rightarrow> string) \<Rightarrow> string \<Rightarrow> string \<Rightarrow> json \<Rightarrow> guest_error + json" where
  "guest_chat_send show fresh owner params =
     (case params of
        JObj d \<Rightarrow>
          (case guest_owned_session_key show fresh owner (py_or (jget ''sessionKey'' d) (jget ''key'' d)) None of
             Inl e \<Rightarrow> Inl (GuestRaise e)
           | Inr k \<Rightarrow>
               let n1 = no_capture (AList.delete ''key'' (AList.update ''sessionKey'' (JStr k) d))
               in Inr (JObj (AList.update ''_source'' (JObj (no_capture (as_obj (jget ''_source'' n1)))) n1)))
      | _ \<Rightarrow> Inr params)"

definition guest_delete :: "(json \<Rightarrow> string) \<Rightarrow> string \<Rightarrow> json \<Rightarrow> guest_error + json" where
  "guest_delete show owner params =
     (case params of
        JObj d \<Rightarrow>
          let raw = (case jget ''keys'' d of JNull \<Rightarrow> JList [jget ''key'' d] | v \<Rightarrow> v)
          in (case raw of
                JList (k # ks) \<Rightarrow>
                  if list_all (guest_owns_session_key show (Some owner)) (k # ks)
                  then Inr (JObj (AList.delete ''key'' (AList.update ''keys'' raw d)))
                  else Inl (GuestPolicy ''Guest session is not owned by this browser'')
              | _ \<Rightarrow> Inl (GuestPolicy ''Guest session key is required''))
      | _ \<Rightarrow> Inl (GuestPolicy ''Guest session key is required''))"

text \<open>\<open>next((params.get(field) for field in fields if params.get(field)), None)\<close>\<close>

definition first_truthy :: "string list \<Rightarrow> obj \<Rightarrow> json" where
  "first_truthy names d =
     (case find (\<lambda>f. py_truthy (jget f d)) names of Some f \<Rightarrow> jget f d | None \<Rightarrow> JNull)"

definition guest_keyed :: "(json \<Rightarrow> string) \<Rightarrow> string \<Rightarrow> string \<Rightarrow> json \<Rightarrow> guest_error + json" where
  "guest_keyed show owner m params =
     (case params of
        JObj d \<Rightarrow>
          (case map_of session_key_fields m of
             None \<Rightarrow> Inl (GuestRaise (KeyError m))
           | Some [] \<Rightarrow> Inl (GuestPolicy ''Guest session is not owned by this browser'')
           | Some (f # aliases) \<Rightarrow>
               let key = first_truthy (f # aliases) d
               in if guest_owns_session_key show (Some owner) key
                  then Inr (JObj (pops aliases (AList.update f key d)))
                  else Inl (GuestPolicy ''Guest session is not owned by this browser''))
      | _ \<Rightarrow> Inl (GuestPolicy ''Guest session key is required''))"

definition guest_params ::
  "(json \<Rightarrow> string) \<Rightarrow> string \<Rightarrow> string \<Rightarrow> string \<Rightarrow> json \<Rightarrow> guest_error + json" where
  "guest_params show fresh owner m params =
     (if m = ''sessions.list'' then Inr params
      else if m = ''transport.flow.update'' \<or> m = ''transport.sessionFlow.update.v2'' then Inr params
      else if m = ''chat.send'' then guest_chat_send show fresh owner params
      else if m = ''sessions.delete'' then guest_delete show owner params
      else guest_keyed show owner m params)"

definition authorize_guest ::
  "(json \<Rightarrow> string) \<Rightarrow> string \<Rightarrow> string \<Rightarrow> json \<Rightarrow> principal option \<Rightarrow> guest_error + json" where
  "authorize_guest show fresh m params ctx =
     (case ctx of
        None \<Rightarrow> Inr params
      | Some p \<Rightarrow>
          if \<not> is_guest ctx then Inr params
          else checked
            [(m \<in> set guest_rpc_denylist, GuestPolicy ''Anonymous guests cannot control interactive terminals''),
             (m \<notin> set guest_rpc_allowlist, GuestPolicy ''Anonymous guest RPC method is not allowed'')]
            (case pr_guest_owner_id p of
               None \<Rightarrow> Inl (GuestPolicy ''Anonymous guest identity is unavailable'')
             | Some owner \<Rightarrow>
                 if owner = [] \<or> \<not> owner_id_ok owner
                 then Inl (GuestPolicy ''Anonymous guest identity is unavailable'')
                 else
                   guest_params show fresh owner m (drop_initial m params)))"

section \<open>The keys that the server gives out\<close>

lemma split_on_last: "c \<notin> set s \<Longrightarrow> split_on c s = [s]"
  by (rule split_on_free)

lemma id_no_colon: "list_all id_char s \<Longrightarrow> CHR '':'' \<notin> set s"
  using id_char_facts(3) by (auto simp: list_all_iff)

lemma segment_ids: "list_all id_char (normalize_id_segment v) \<and> normalize_id_segment v \<noteq> []"
proof -
  let ?m = "map (\<lambda>c. if id_char c then c else CHR ''-'') (py_lower (py_strip v))"
  have dash: "id_char (CHR ''-'')" and dflt: "list_all id_char ''default''" by code_simp+
  have "id_char c" if "c \<in> set (trim_dashes ?m)" for c
    using subsetD [OF trim_sub that] dash by (auto split: if_splits)
  then have "list_all id_char (take max_segment (trim_dashes ?m))"
    using set_take_subset [of max_segment "trim_dashes ?m"] by (auto simp: list_all_iff)
  then show ?thesis using dflt by (auto simp: normalize_id_segment_def Let_def max_segment_def)
qed

lemma agent_id_ids: "list_all id_char (normalize_agent_id v) \<and> normalize_agent_id v \<noteq> []"
proof -
  have "list_all id_char ''main''" by code_simp
  then show ?thesis using segment_ids by (auto simp: normalize_agent_id_def Let_def)
qed

lemma parsed_ids: "list_all id_char (parse_agent_id k) \<and> parse_agent_id k \<noteq> []"
proof -
  have "list_all id_char ''main''" by code_simp
  then show ?thesis using agent_id_ids unfolding parse_agent_id_def Let_def by (simp split: if_split)
qed

lemma slug_char_facts:
  assumes "slug_char c"
  shows "\<not> py_isspace c" "c \<noteq> CHR '':''"
  using assms by (auto simp: slug_char_def py_isspace_def Let_def)

lemma sub_slug_chars: "list_all slug_char (sub_slug b s)"
proof -
  have "slug_char (CHR ''-'')" by code_simp
  then show ?thesis by (induction b s rule: sub_slug.induct) auto
qed

lemma strip_marks_sub: "set (strip_marks s) \<subseteq> set s"
  by (auto simp: strip_marks_def Let_def dest!: set_dropWhileD)

lemma made_slug: "list_all slug_char (take n (strip_marks (sub_slug b s)))"
  using sub_slug_chars [of b s] strip_marks_sub set_take_subset
  unfolding list_all_iff by (metis subsetD)

definition guest_key :: "string \<Rightarrow> string \<Rightarrow> string \<Rightarrow> string" where
  "guest_key agent owner slug = ''agent:'' @ agent @ '':webchat:guest:'' @ owner @ '':'' @ slug"

lemma hex_no_colon: "owner_id_ok owner \<Longrightarrow> CHR '':'' \<notin> set owner"
proof
  assume "owner_id_ok owner" "CHR '':'' \<in> set owner"
  then have "owner_hex_char (CHR '':'')" by (auto simp: owner_id_ok_def list_all_iff)
  moreover have "\<not> owner_hex_char (CHR '':'')" by code_simp
  ultimately show False by simp
qed

lemma guest_key_canonical:
  assumes "list_all id_char agent" "list_all slug_char slug" "slug \<noteq> []"
  shows "canonical_key (guest_key agent owner slug) = guest_key (normalize_agent_id agent) owner slug"
proof -
  let ?u = "agent @ '':webchat:guest:'' @ owner @ '':'' @ slug"
  have agent: "CHR '':'' \<notin> set agent" using assms(1) by (rule id_no_colon)
  have "py_strip (''agent:'' @ ?u) = ''agent:'' @ ?u"
  proof (rule strip_fixed)
    have "slug_char (last slug)" using assms by (simp add: list_all_iff)
    then show "\<not> py_isspace (last (''agent:'' @ ?u))" using assms(3) by (simp add: slug_char_facts)
  qed (simp_all add: py_isspace_def)
  from agent_key [OF this] show ?thesis
    using agent by (simp add: guest_key_def rest_of_def takeWhile_append dropWhile_append)
qed

lemma guest_key_split:
  assumes "CHR '':'' \<notin> set agent" "CHR '':'' \<notin> set owner" "CHR '':'' \<notin> set slug"
  shows "split_on (CHR '':'') (guest_key agent owner slug)
    = [''agent'', agent, ''webchat'', ''guest'', owner, slug]"
  using assms unfolding guest_key_def
  by (simp add: split_on_append split_on_free)

lemma guest_key_owned:
  assumes "list_all id_char agent" "owner_id_ok owner" "list_all slug_char slug" "slug \<noteq> []"
  shows "guest_owns_session_key show (Some owner) (JStr (guest_key agent owner slug))"
proof -
  have "guest_key agent owner slug \<noteq> []" "owner \<noteq> []"
    using assms(2) by (auto simp: guest_key_def owner_id_ok_def)
  moreover have "CHR '':'' \<notin> set (normalize_agent_id agent)" using agent_id_ids id_no_colon by blast
  moreover have "CHR '':'' \<notin> set slug" using assms(3) slug_char_facts(2) by (auto simp: list_all_iff)
  ultimately show ?thesis using assms hex_no_colon
    by (simp add: guest_owns_session_key_def guest_namespace_parts_def text_or_empty_def
        guest_key_canonical guest_key_split)
qed

lemma slug_ok:
  assumes "list_all slug_char fresh" "fresh \<noteq> []"
  shows "list_all slug_char (guest_slug fresh q) \<and> guest_slug fresh q \<noteq> []"
proof -
  have "list_all slug_char (if take 96 (strip_marks (sub_slug False r)) = [] then fresh
      else take 96 (strip_marks (sub_slug False r)))
    \<and> (if take 96 (strip_marks (sub_slug False r)) = [] then fresh
      else take 96 (strip_marks (sub_slug False r))) \<noteq> []" for r
    by (cases "take 96 (strip_marks (sub_slug False r)) = []") (simp_all only: if_True if_False assms made_slug simp_thms)
  then show ?thesis unfolding guest_slug_def Let_def .
qed

lemma owned_key_owned:
  assumes "list_all slug_char fresh" "fresh \<noteq> []"
    and "guest_owned_session_key show fresh owner k None = Inr r"
  shows "guest_owns_session_key show (Some owner) (JStr r)"
proof -
  let ?q = "canonical_key (text_or_empty show k)"
  have ok: "owner_id_ok owner" using assms(3)
    by (auto simp: guest_owned_session_key_def checked_def split: if_splits)
  show ?thesis
  proof (cases "guest_owns_session_key show (Some owner) (JStr ?q)")
    case True
    then have "r = ?q" using assms(3) ok by (simp add: guest_owned_session_key_def checked_def Let_def)
    then show ?thesis using True by simp
  next
    case False
    then have "r = guest_key (parse_agent_id ?q) owner (guest_slug fresh ?q)"
      using assms(3) ok parsed_ids [of ?q]
      by (simp add: guest_owned_session_key_def checked_def guest_key_def Let_def del: append.simps)
    then show ?thesis using parsed_ids [of ?q] slug_ok [OF assms(1,2)] ok by (auto intro!: guest_key_owned)
  qed
qed

lemma owns_unique:
  "guest_owns_session_key show (Some a) k \<Longrightarrow> guest_owns_session_key show (Some b) k \<Longrightarrow> a = b"
  by (auto simp: guest_owns_session_key_def split: if_splits option.splits)

section \<open>What an admitted guest request names\<close>

text \<open>The fields in which a method's handler looks for a session key, and the keys that a request
  names in them.\<close>

definition key_names :: "string \<Rightarrow> string list" where
  "key_names m =
     (if m = ''chat.send'' then [''sessionKey'', ''key'']
      else if m = ''sessions.delete'' then [''key'']
      else case map_of session_key_fields m of Some fs \<Rightarrow> fs | None \<Rightarrow> [])"

definition named_keys :: "string \<Rightarrow> json \<Rightarrow> json list" where
  "named_keys m params =
     (case params of
        JObj d \<Rightarrow>
          List.map_filter (map_of d) (key_names m)
          @ (if m = ''sessions.delete'' then case jget ''keys'' d of JList ks \<Rightarrow> ks | v \<Rightarrow> [v] else [])
      | _ \<Rightarrow> [])"

lemma map_of_pops: "map_of (pops ks d) x = (if x \<in> set ks then None else map_of d x)"
  by (induction ks arbitrary: d) (auto simp: pops_def delete_conv')

lemma jget_pops: "jget x (pops ks d) = (if x \<in> set ks then JNull else jget x d)"
  by (simp add: jget_def map_of_pops)

lemma named_keyed:
  assumes "guest_keyed show owner m params = Inr params'" "k \<in> set (named_keys m params')"
    and "m \<noteq> ''sessions.delete''" "m \<noteq> ''chat.send''"
  shows "guest_owns_session_key show (Some owner) k"
proof -
  obtain d f aliases where d: "params = JObj d" "map_of session_key_fields m = Some (f # aliases)"
    and own: "guest_owns_session_key show (Some owner) (first_truthy (f # aliases) d)"
    and p': "params' = JObj (pops aliases (AList.update f (first_truthy (f # aliases) d) d))"
    using assms(1) unfolding guest_keyed_def by (auto simp: Let_def split: json.splits option.splits list.splits if_splits)
  then have "k = first_truthy (f # aliases) d"
    using assms(2-) by (auto simp: named_keys_def key_names_def map_filter_def map_of_pops update_conv' split: if_splits)
  then show ?thesis using own by simp
qed

lemma named_delete:
  assumes "guest_delete show owner params = Inr params'" "k \<in> set (named_keys ''sessions.delete'' params')"
  shows "guest_owns_session_key show (Some owner) k"
  using assms unfolding guest_delete_def
  by (auto simp: named_keys_def key_names_def map_filter_def delete_conv' Let_def list_all_iff
      split: json.splits list.splits if_splits)

lemma named_chat:
  assumes "guest_chat_send show fresh owner params = Inr params'" "k \<in> set (named_keys ''chat.send'' params')"
    and "list_all slug_char fresh" "fresh \<noteq> []"
  shows "guest_owns_session_key show (Some owner) k"
proof -
  from assms(1,2) obtain d r where "params = JObj d"
    and r: "guest_owned_session_key show fresh owner (py_or (jget ''sessionKey'' d) (jget ''key'' d)) None = Inr r"
    and "k = JStr r"
    unfolding guest_chat_send_def
    by (auto simp: named_keys_def key_names_def map_filter_def no_capture_def update_conv' delete_conv' Let_def
        split: json.splits sum.splits)
  then show ?thesis using owned_key_owned [OF assms(3,4) r] by simp
qed

text \<open>Every admitted method has its branch: the lookup of the key fields cannot fail.\<close>

lemma allowed_has_fields:
  assumes "m \<in> set guest_rpc_allowlist" "m \<noteq> ''sessions.list''" "m \<noteq> ''transport.flow.update''"
    "m \<noteq> ''transport.sessionFlow.update.v2''" "m \<noteq> ''chat.send''" "m \<noteq> ''sessions.delete''"
  shows "\<exists>f fs. map_of session_key_fields m = Some (f # fs)"
proof -
  have "list_all (\<lambda>m. m \<in> {''sessions.list'', ''transport.flow.update'', ''transport.sessionFlow.update.v2'',
      ''chat.send'', ''sessions.delete''} \<or> (case map_of session_key_fields m of Some (f # fs) \<Rightarrow> True | _ \<Rightarrow> False))
    guest_rpc_allowlist" by code_simp
  then have "m \<in> {''sessions.list'', ''transport.flow.update'', ''transport.sessionFlow.update.v2'',
      ''chat.send'', ''sessions.delete''} \<or> (case map_of session_key_fields m of Some (f # fs) \<Rightarrow> True | _ \<Rightarrow> False)"
    using assms(1) unfolding list_all_iff by (rule bspec)
  then show ?thesis using assms(2-) by (simp split: option.splits list.splits)
qed

lemma allow_deny: "m \<in> set guest_rpc_allowlist \<Longrightarrow> m \<notin> set guest_rpc_denylist"
proof -
  assume m: "m \<in> set guest_rpc_allowlist"
  have "list_all (\<lambda>m. m \<notin> set guest_rpc_denylist) guest_rpc_allowlist" by code_simp
  then show ?thesis using m unfolding list_all_iff by (rule bspec)
qed

lemma unkeyed:
  "key_names ''sessions.list'' = []" "key_names ''transport.flow.update'' = []"
  "key_names ''transport.sessionFlow.update.v2'' = []"
  by code_simp+

lemma named_params:
  assumes "guest_params show fresh owner m params = Inr params'" "k \<in> set (named_keys m params')"
    and "list_all slug_char fresh" "fresh \<noteq> []"
  shows "guest_owns_session_key show (Some owner) k"
proof -
  consider "m = ''sessions.list''" | "m = ''transport.flow.update''" | "m = ''transport.sessionFlow.update.v2''"
    | "m = ''chat.send''" | "m = ''sessions.delete''"
    | "guest_keyed show owner m params = Inr params'" "m \<noteq> ''sessions.delete''" "m \<noteq> ''chat.send''"
    using assms(1) unfolding guest_params_def by metis
  then show ?thesis
  proof cases
    case 4
    then have "guest_chat_send show fresh owner params = Inr params'" using assms(1) by (simp add: guest_params_def)
    then show ?thesis using named_chat assms(2-4) 4 by blast
  next
    case 5
    then have "guest_delete show owner params = Inr params'" using assms(1) by (simp add: guest_params_def)
    then show ?thesis using named_delete assms(2) 5 by blast
  next
    case 6
    then show ?thesis using named_keyed assms(2) by blast
  qed (use assms(2) in \<open>simp_all add: named_keys_def unkeyed map_filter_def split: json.splits\<close>)
qed

lemma authorize_guest_cases:
  assumes "is_guest (Some p)" "authorize_guest show fresh m params (Some p) = Inr params'"
  obtains owner where "pr_guest_owner_id p = Some owner" "owner_id_ok owner" "m \<in> set guest_rpc_allowlist"
    and "guest_params show fresh owner m (drop_initial m params) = Inr params'"
  using assms by (auto simp: authorize_guest_def checked_def split: if_splits option.splits)

lemma guest_confined:
  assumes "is_guest (Some p)" "authorize_guest show fresh m params (Some p) = Inr params'"
    and "list_all slug_char fresh" "fresh \<noteq> []"
  obtains owner where "pr_guest_owner_id p = Some owner" "m \<in> set guest_rpc_allowlist"
    "\<And>k. k \<in> set (named_keys m params') \<Longrightarrow> guest_owns_session_key show (Some owner) k"
  using assms(1,2) by (rule authorize_guest_cases) (use that named_params [OF _ _ assms(3,4)] in blast)

lemma owned_key_total: "owner_id_ok owner \<Longrightarrow> guest_owned_session_key show fresh owner k None \<noteq> Inl e"
  by (simp add: guest_owned_session_key_def checked_def Let_def)

lemma params_no_escape:
  assumes "m \<in> set guest_rpc_allowlist" "owner_id_ok owner"
  shows "guest_params show fresh owner m params \<noteq> Inl (GuestRaise e)"
proof -
  have "guest_chat_send show fresh owner params \<noteq> Inl (GuestRaise e)"
    using owned_key_total [OF assms(2)]
    by (auto simp: guest_chat_send_def Let_def split: json.splits sum.splits)
  moreover have "guest_delete show owner params \<noteq> Inl (GuestRaise e)"
    by (auto simp: guest_delete_def Let_def split: json.splits list.splits)
  moreover have "guest_keyed show owner m params \<noteq> Inl (GuestRaise e)"
    if "map_of session_key_fields m \<noteq> None"
    using that by (auto simp: guest_keyed_def Let_def split: json.splits option.splits list.splits)
  ultimately show ?thesis using allowed_has_fields [OF assms(1)] unfolding guest_params_def by auto
qed

lemma authorize_no_escape: "authorize_guest show fresh m params ctx \<noteq> Inl (GuestRaise e)"
  using params_no_escape
  by (auto simp: authorize_guest_def checked_def split: if_splits option.splits)

end
