(* ===== verification/Token_Store.thy ===== *)
theory Token_Store
  imports Access_Policy "HOL-Library.Product_Lexorder"
begin

text \<open>
  The named tokens of the gateway (\<open>gateway/token_store.py\<close>): the table \<open>sandbox_tokens\<close> with the
  operations that create, verify and revoke a token and that read its authority, and the limiter of
  failed attempts.

  Parameters stand for the library: \<open>sha\<close> is SHA-256 (of the UTF-8 text), the random public id and
  secret and the time are arguments, \<open>fp\<close> is the fingerprint of a grant. A column that stores a set as
  sorted JSON is the set. What SQLite may refuse is an argument of the operations too.
\<close>

section \<open>Tokens\<close>

record token_row =
  tk_version :: int
  tk_public_id :: string
  tk_name :: string
  tk_digest :: string
  tk_roles :: "string set"
  tk_scopes :: "string set"
  tk_capabilities :: "string set"
  tk_source_kind :: string
  tk_created_at :: int
  tk_revision :: int
  tk_last_used_at :: "int option"
  tk_last_peer :: "string option"
  tk_revoked_at :: "int option"

type_synonym token_table = "token_row list"

definition public_id_char :: "char \<Rightarrow> bool" where
  "public_id_char c \<longleftrightarrow>
     (let n = (of_char c :: nat) in (97 \<le> n \<and> n \<le> 122) \<or> (48 \<le> n \<and> n \<le> 57) \<or> n = 45)"

definition secret_char :: "char \<Rightarrow> bool" where
  "secret_char c \<longleftrightarrow>
     (let n = (of_char c :: nat)
      in (65 \<le> n \<and> n \<le> 90) \<or> (97 \<le> n \<and> n \<le> 122) \<or> (48 \<le> n \<and> n \<le> 57) \<or> n = 95 \<or> n = 45)"

text \<open>\<open>_TOKEN_PATTERN.fullmatch\<close> with its two groups. The public id cannot contain an underscore,
  so the first one after the prefix ends it.\<close>

definition token_parts :: "string \<Rightarrow> (string \<times> string) option" where
  "token_parts token =
     (if prefix ''osq_'' token
      then let body = drop 4 token;
               public = takeWhile (\<lambda>c. c \<noteq> CHR ''_'') body;
               rest = drop (length public) body;
               secret = drop 1 rest
           in if 4 \<le> length public \<and> length public \<le> 64 \<and> list_all public_id_char public
                 \<and> rest \<noteq> [] \<and> 16 \<le> length secret \<and> length secret \<le> 256 \<and> list_all secret_char secret
              then Some (public, secret) else None
      else None)"

definition token_public_id :: "string \<Rightarrow> string" where
  "token_public_id token = (case token_parts token of Some (public, _) \<Rightarrow> public | None \<Rightarrow> ''legacy'')"

definition dummy_digest :: "(string \<Rightarrow> string) \<Rightarrow> string" where
  "dummy_digest sha = sha ''opensquilla-invalid-token''"

definition token_row_of :: "string \<Rightarrow> token_table \<Rightarrow> token_row option" where
  "token_row_of public db = find (\<lambda>r. tk_public_id r = public) db"

section \<open>Operations\<close>

datatype token_error = TokenValue string | IntegrityError | StorageError

definition create_token ::
  "(string \<Rightarrow> string) \<Rightarrow> string \<Rightarrow> string set \<Rightarrow> string set \<Rightarrow> string set \<Rightarrow> string
   \<Rightarrow> string \<Rightarrow> string \<Rightarrow> int \<Rightarrow> token_table \<Rightarrow> (token_error + string \<times> token_row) \<times> token_table" where
  "create_token sha name roles scopes caps source public secret now db =
     (let clean = py_strip name in
      if clean = [] then (Inl (TokenValue ''token name must not be empty''), db)
      else
        let row = \<lparr>tk_version = 1, tk_public_id = public, tk_name = clean, tk_digest = sha secret,
                   tk_roles = roles, tk_scopes = scopes, tk_capabilities = caps,
                   tk_source_kind = source, tk_created_at = now, tk_revision = 1,
                   tk_last_used_at = None, tk_last_peer = None, tk_revoked_at = None\<rparr>
        in if token_row_of public db \<noteq> None then (Inl IntegrityError, db)
           else (Inr (''osq_'' @ public @ ''_'' @ secret, row), db @ [row]))"

text \<open>How far SQLite lets \<open>verify\<close> come: the read fails, only the update of the usage columns fails,
  or nothing.\<close>

datatype store_io = ReadFails | UsageFails | StoreWorks

definition verify_token ::
  "(string \<Rightarrow> string) \<Rightarrow> string \<Rightarrow> string option \<Rightarrow> store_io \<Rightarrow> int \<Rightarrow> token_table
   \<Rightarrow> (token_error + token_row option) \<times> token_table" where
  "verify_token sha token peer io now db =
     (case token_parts token of
        None \<Rightarrow> (Inr None, db)
      | Some (public, secret) \<Rightarrow>
          if io = ReadFails then (Inl StorageError, db)
          else
            let row = token_row_of public db;
                expected = (case row of Some r \<Rightarrow> tk_digest r | None \<Rightarrow> dummy_digest sha);
                valid = (expected = sha secret)
            in case row of
                 None \<Rightarrow> (Inr None, db)
               | Some r \<Rightarrow>
                   if \<not> valid \<or> tk_revoked_at r \<noteq> None then (Inr None, db)
                   else (Inr (Some r),
                         if io = UsageFails then db
                         else update_where (\<lambda>r. tk_public_id r = public \<and> tk_revoked_at r = None)
                                (\<lambda>r. r\<lparr>tk_last_used_at := Some now, tk_last_peer := peer\<rparr>) db))"

definition revoke_token :: "string \<Rightarrow> int \<Rightarrow> token_table \<Rightarrow> bool \<times> token_table" where
  "revoke_token public now db =
     (let named = (\<lambda>r. tk_public_id r = public \<and> tk_revoked_at r = None)
      in (rowcount named db = 1,
          update_where named (\<lambda>r. r\<lparr>tk_revoked_at := Some now, tk_revision := tk_revision r + 1\<rparr>) db))"

definition active_row :: "string \<Rightarrow> token_table \<Rightarrow> token_row option" where
  "active_row public db = find (\<lambda>r. tk_public_id r = public \<and> tk_revoked_at r = None) db"

definition active_authorization ::
  "string \<Rightarrow> token_table \<Rightarrow> (string set \<times> string set \<times> string set) option" where
  "active_authorization public db =
     map_option (\<lambda>r. (tk_roles r, tk_scopes r, tk_capabilities r)) (active_row public db)"

record authorization_grant =
  gr_roles :: "string set"
  gr_scopes :: "string set"
  gr_capabilities :: "string set"
  gr_revision :: int
  gr_fingerprint :: string

datatype authorization_decision = Allow authorization_grant | Deny | Unavailable

definition active_decision ::
  "(string set \<Rightarrow> string set \<Rightarrow> string set \<Rightarrow> string) \<Rightarrow> store_io \<Rightarrow> string \<Rightarrow> token_table
   \<Rightarrow> authorization_decision" where
  "active_decision fp io public db =
     (if io = ReadFails then Unavailable
      else case active_row public db of
             None \<Rightarrow> Deny
           | Some r \<Rightarrow>
               Allow \<lparr>gr_roles = tk_roles r, gr_scopes = tk_scopes r, gr_capabilities = tk_capabilities r,
                      gr_revision = tk_revision r,
                      gr_fingerprint = fp (tk_roles r) (tk_scopes r) (tk_capabilities r)\<rparr>)"

text \<open>\<open>ORDER BY created_at DESC, public_id ASC\<close>\<close>

definition list_active :: "token_table \<Rightarrow> token_row list" where
  "list_active db =
     sort_key (\<lambda>r. (- tk_created_at r, tk_public_id r)) (filter (\<lambda>r. tk_revoked_at r = None) db)"

section \<open>Failed attempts\<close>

definition backoff_seconds :: "real list" where
  "backoff_seconds = [1, 2, 4, 8, 16, 30]"

record limiter =
  li_window :: real
  li_burst :: int
  li_failures :: "string \<Rightarrow> real list"

definition new_limiter :: "real \<Rightarrow> int \<Rightarrow> limiter" where
  "new_limiter w b = \<lparr>li_window = w, li_burst = b, li_failures = (\<lambda>_. [])\<rparr>"

definition peer_key :: "string option \<Rightarrow> string" where
  "peer_key p = ''peer:'' @ (case p of Some s \<Rightarrow> if s \<noteq> [] then s else ''<unknown>'' | None \<Rightarrow> ''<unknown>'')"

definition token_key :: "string option \<Rightarrow> string" where
  "token_key p = ''token:'' @ (case p of Some s \<Rightarrow> if s \<noteq> [] then s else ''legacy'' | None \<Rightarrow> ''legacy'')"

definition count_failure :: "real \<Rightarrow> string \<Rightarrow> limiter \<Rightarrow> nat \<times> limiter" where
  "count_failure now key l =
     (let failures = dropWhile (\<lambda>t. t \<le> now - li_window l) (li_failures l key) @ [now]
      in (length failures, l\<lparr>li_failures := (li_failures l)(key := failures)\<rparr>))"

definition backoff :: "int \<Rightarrow> real" where
  "backoff overflow =
     (if overflow \<le> 0 then 0
      else backoff_seconds ! nat (min (overflow - 1) (int (length backoff_seconds) - 1)))"

definition limiter_failure :: "real \<Rightarrow> string option \<Rightarrow> string option \<Rightarrow> limiter \<Rightarrow> real \<times> limiter" where
  "limiter_failure now peer public l =
     (let (c1, l1) = count_failure now (peer_key peer) l;
          (c2, l2) = count_failure now (token_key public) l1
      in (backoff (int (max c1 c2) - li_burst l), l2))"

section \<open>A token and what becomes of it\<close>

datatype token_op =
    TCreate string "string set" "string set" "string set" string string string int
  | TVerify string "string option" store_io int
  | TRevoke string int

primrec token_step :: "(string \<Rightarrow> string) \<Rightarrow> token_op \<Rightarrow> token_table \<Rightarrow> token_table" where
  "token_step sha (TCreate name roles scopes caps source public secret now) db =
     snd (create_token sha name roles scopes caps source public secret now db)"
| "token_step sha (TVerify token peer io now) db = snd (verify_token sha token peer io now db)"
| "token_step sha (TRevoke public now) db = snd (revoke_token public now db)"

interpretation tokens: machine "token_step sha" for sha .

definition token_wf :: "token_table \<Rightarrow> bool" where
  "token_wf db \<longleftrightarrow> distinct (map tk_public_id db)"

lemma row_of_append: "token_row_of p (db @ [r]) =
    (case token_row_of p db of None \<Rightarrow> if tk_public_id r = p then Some r else None | Some x \<Rightarrow> Some x)"
  by (auto simp: token_row_of_def find_append split: option.split)

lemma row_of_update:
  "(\<And>r. tk_public_id (f r) = tk_public_id r) \<Longrightarrow>
   token_row_of p (update_where P f db) = map_option (\<lambda>r. if P r then f r else r) (token_row_of p db)"
  unfolding token_row_of_def update_where_def by (rule find_map_same) simp

lemma row_of_None: "token_row_of p db = None \<longleftrightarrow> p \<notin> tk_public_id ` set db"
  by (auto simp: token_row_of_def find_None_iff)

lemma update_wf: "(\<And>r. tk_public_id (f r) = tk_public_id r) \<Longrightarrow> token_wf (update_where P f db) = token_wf db"
  by (simp add: token_wf_def update_where_def comp_def if_distrib cong: if_cong)

lemma token_wf_Nil [simp]: "token_wf []"
  by (simp add: token_wf_def)

lemma step_wf: "token_wf db \<Longrightarrow> token_wf (token_step sha a db)"
proof (cases a)
  case (TCreate name roles scopes caps source public secret now)
  then show "token_wf db \<Longrightarrow> ?thesis"
    using row_of_None [of public db]
    by (auto simp: create_token_def Let_def token_wf_def)
qed (auto simp: verify_token_def revoke_token_def update_wf Let_def split: option.splits)

interpretation tokens: invariant_machine "token_step sha" "\<lambda>db. db = []" token_wf for sha
  by unfold_locales (auto simp: step_wf)

text \<open>On a table with distinct ids the row of an id is the active row, when it is not revoked.\<close>

lemma active_row_of:
  "token_wf db \<Longrightarrow> active_row p db =
     (case token_row_of p db of Some r \<Rightarrow> if tk_revoked_at r = None then Some r else None | None \<Rightarrow> None)"
proof (induction db)
  case (Cons r db)
  have "active_row p db = None" if "tk_public_id r = p"
    using Cons.prems that unfolding active_row_def find_None_iff token_wf_def by (auto simp: image_iff)
  then show ?case using Cons by (auto simp: active_row_def token_row_of_def token_wf_def)
qed (simp add: active_row_def token_row_of_def)

text \<open>The grant of a token never changes; a revocation is final.\<close>

definition same_grant :: "token_row \<Rightarrow> token_row \<Rightarrow> bool" where
  "same_grant r r' \<longleftrightarrow>
     tk_public_id r' = tk_public_id r \<and> tk_digest r' = tk_digest r \<and> tk_roles r' = tk_roles r
     \<and> tk_scopes r' = tk_scopes r \<and> tk_capabilities r' = tk_capabilities r \<and> tk_revision r \<le> tk_revision r'
     \<and> (tk_revoked_at r \<noteq> None \<longrightarrow> tk_revoked_at r' = tk_revoked_at r)"

lemma same_grant_refl [simp]: "same_grant r r"
  by (simp add: same_grant_def)

lemma same_grant_trans: "same_grant r s \<Longrightarrow> same_grant s t \<Longrightarrow> same_grant r t"
  by (auto simp: same_grant_def)

definition kept :: "string \<Rightarrow> token_table \<Rightarrow> token_table \<Rightarrow> bool" where
  "kept p db db' \<longleftrightarrow>
     (\<forall>r. token_row_of p db = Some r \<longrightarrow> (\<exists>r'. token_row_of p db' = Some r' \<and> same_grant r r'))"

lemma step_kept: "kept p db (token_step sha a db)"
  by (cases a)
     (auto simp: kept_def create_token_def verify_token_def revoke_token_def row_of_append row_of_update Let_def
       same_grant_def split: option.splits)

lemma run_kept: "kept p db (tokens.run sha ops db)"
proof (rule tokens.run_relation)
  show "kept p s s" for s by (simp add: kept_def)
  show "kept p s u" if "kept p s t" "kept p t u" for s t u
    using that same_grant_trans unfolding kept_def by meson
  show "kept p s (token_step sha a s)" for a s by (rule step_kept)
qed

text \<open>Without a revocation of it a token stays in force.\<close>

definition in_force :: "string \<Rightarrow> token_table \<Rightarrow> bool" where
  "in_force p db \<longleftrightarrow>
     (case token_row_of p db of Some r \<Rightarrow> tk_revoked_at r = None | None \<Rightarrow> False)"

definition revokes :: "string \<Rightarrow> token_op \<Rightarrow> bool" where
  "revokes p a \<longleftrightarrow> (case a of TRevoke q _ \<Rightarrow> q = p | _ \<Rightarrow> False)"

lemma row_of_id: "token_row_of p db = Some r \<Longrightarrow> tk_public_id r = p"
  unfolding token_row_of_def by (auto simp: find_Some_iff)

lemma step_in_force: "in_force p db \<Longrightarrow> \<not> revokes p a \<Longrightarrow> in_force p (token_step sha a db)"
  by (cases a)
     (auto simp: in_force_def revokes_def create_token_def verify_token_def revoke_token_def row_of_append
       row_of_update Let_def dest: row_of_id split: option.splits)

lemma step_not_in_force:
  "token_row_of p db \<noteq> None \<Longrightarrow> \<not> in_force p db \<or> revokes p a \<Longrightarrow> \<not> in_force p (token_step sha a db)"
  by (cases a)
     (auto simp: in_force_def revokes_def create_token_def verify_token_def revoke_token_def row_of_append
       row_of_update Let_def dest: row_of_id split: option.splits)

lemma run_force_iff:
  "token_row_of p db \<noteq> None \<Longrightarrow>
   in_force p (tokens.run sha ops db) \<longleftrightarrow> in_force p db \<and> \<not> list_ex (revokes p) ops"
proof (induction ops arbitrary: db)
  case (Cons a ops)
  have "token_row_of p (token_step sha a db) \<noteq> None"
    using step_kept [of p db sha a] Cons.prems by (auto simp: kept_def)
  from Cons.IH [OF this] show ?case
    using step_in_force [of p db a sha] step_not_in_force [OF Cons.prems, of a sha] by auto
qed simp

section \<open>What verification answers\<close>

lemma token_parts_made:
  assumes "4 \<le> length public" "length public \<le> 64" "list_all public_id_char public"
    and "16 \<le> length secret" "length secret \<le> 256" "list_all secret_char secret"
  shows "token_parts (''osq_'' @ public @ ''_'' @ secret) = Some (public, secret)"
proof -
  have "\<not> public_id_char (CHR ''_'')" by code_simp
  then have "\<forall>c \<in> set public. c \<noteq> CHR ''_''" using assms(3) by (auto simp: list_all_iff)
  then have "takeWhile (\<lambda>c. c \<noteq> CHR ''_'') (public @ CHR ''_'' # secret) = public"
    by (simp add: takeWhile_append2)
  then show ?thesis using assms by (simp add: token_parts_def)
qed

lemma verify_Some:
  "fst (verify_token sha token peer io now db) = Inr (Some r) \<longleftrightarrow>
     io \<noteq> ReadFails \<and> (\<exists>public secret. token_parts token = Some (public, secret)
       \<and> token_row_of public db = Some r \<and> tk_digest r = sha secret \<and> tk_revoked_at r = None)"
  by (auto simp: verify_token_def Let_def split: option.splits)

section \<open>The limiter counts the window\<close>

fun record_all :: "(real \<times> string option \<times> string option) list \<Rightarrow> limiter \<Rightarrow> limiter" where
  "record_all [] l = l"
| "record_all ((now, peer, public) # es) l = record_all es (snd (limiter_failure now peer public l))"

definition keys_of :: "real \<times> string option \<times> string option \<Rightarrow> string set" where
  "keys_of e = {peer_key (fst (snd e)), token_key (snd (snd e))}"

definition times_of :: "string \<Rightarrow> (real \<times> string option \<times> string option) list \<Rightarrow> real list" where
  "times_of key es = map fst (filter (\<lambda>e. key \<in> keys_of e) es)"

lemma peer_not_token [simp]: "peer_key p \<noteq> token_key q" "token_key q \<noteq> peer_key p"
  by (auto simp: peer_key_def token_key_def)

lemma dropWhile_sorted: "sorted ts \<Longrightarrow> dropWhile (\<lambda>t. t \<le> c) ts = filter (\<lambda>t. c < t) (ts :: real list)"
proof (induction ts)
  case (Cons t ts)
  show ?case
  proof (cases "t \<le> c")
    case False
    then have "\<forall>u \<in> set (t # ts). c < u" using Cons.prems by auto
    then show ?thesis using False by (auto simp: filter_id_conv)
  qed (use Cons in auto)
qed simp

text \<open>What is left of a key's failures after some events: those later than some time that is out of the
  window by now.\<close>

definition pruned :: "real \<Rightarrow> string \<Rightarrow> (real \<times> string option \<times> string option) list \<Rightarrow> limiter \<Rightarrow> bool" where
  "pruned now key es l \<longleftrightarrow>
     (\<exists>c \<le> now - li_window l. li_failures l key = filter (\<lambda>t. c < t) (times_of key es))"

lemma count_failure_key:
  assumes "sorted (times_of key es)" "\<forall>t \<in> set (times_of key es). t \<le> now"
    and "li_failures l key = filter (\<lambda>t. c < t) (times_of key es)" "c \<le> now - li_window l"
  shows "li_failures (snd (count_failure now key l)) key
      = filter (\<lambda>t. now - li_window l < t) (times_of key es) @ [now]"
    and "fst (count_failure now key l)
      = length (filter (\<lambda>t. now - li_window l < t) (times_of key es)) + 1"
proof -
  have "dropWhile (\<lambda>t. t \<le> now - li_window l) (li_failures l key)
      = filter (\<lambda>t. now - li_window l < t) (filter (\<lambda>t. c < t) (times_of key es))"
    unfolding assms(3) by (rule dropWhile_sorted) (rule sorted_wrt_filter [OF assms(1)])
  also have "\<dots> = filter (\<lambda>t. now - li_window l < t) (times_of key es)"
    using assms(4) by (auto intro: filter_cong)
  finally show "li_failures (snd (count_failure now key l)) key
      = filter (\<lambda>t. now - li_window l < t) (times_of key es) @ [now]"
    and "fst (count_failure now key l)
      = length (filter (\<lambda>t. now - li_window l < t) (times_of key es)) + 1"
    by (simp_all add: count_failure_def Let_def)
qed

lemma times_of_snoc:
  "times_of key (es @ [e]) = times_of key es @ (if key \<in> keys_of e then [fst e] else [])"
  by (simp add: times_of_def)

lemma times_of_sub: "set (times_of key es) \<subseteq> fst ` set es"
  by (auto simp: times_of_def)

lemma times_of_sorted: "sorted (map fst es) \<Longrightarrow> sorted (times_of key es)"
  unfolding times_of_def by (rule sorted_filter)

lemma record_all_snoc: "record_all (es @ [e]) l
    = snd (limiter_failure (fst e) (fst (snd e)) (snd (snd e)) (record_all es l))"
  by (induction es l rule: record_all.induct) (cases e; simp)+

lemma limiter_failure_parts:
  "li_window (snd (limiter_failure now peer public l)) = li_window l"
  "li_burst (snd (limiter_failure now peer public l)) = li_burst l"
  "li_failures (snd (limiter_failure now peer public l)) key =
     (if key \<in> keys_of (now, peer, public) then li_failures (snd (count_failure now key l)) key
      else li_failures l key)"
  "fst (limiter_failure now peer public l) =
     backoff (int (max (fst (count_failure now (peer_key peer) l)) (fst (count_failure now (token_key public) l)))
       - li_burst l)"
  by (simp_all add: limiter_failure_def count_failure_def Let_def keys_of_def case_prod_beta)

lemma record_all_config [simp]:
  "li_window (record_all es l) = li_window l" "li_burst (record_all es l) = li_burst l"
  by (induction es l rule: record_all.induct) (simp_all add: limiter_failure_parts)

lemma record_all_pruned:
  assumes "sorted (map fst es)" "0 < w" "\<forall>e \<in> set es. fst e \<le> now"
  shows "pruned now key es (record_all es (new_limiter w b))"
  using assms(1,3)
proof (induction es arbitrary: now rule: rev_induct)
  case Nil
  show ?case unfolding pruned_def by (rule exI [of _ "now - w"]) (simp add: new_limiter_def times_of_def)
next
  case (snoc e es)
  let ?l = "record_all es (new_limiter w b)"
  have sorted: "sorted (map fst es)" and before: "\<forall>x \<in> set es. fst x \<le> fst e"
    using snoc.prems(1) by (simp_all add: sorted_append)
  have w: "li_window ?l = w" "li_window (record_all (es @ [e]) (new_limiter w b)) = w"
    by (simp_all add: new_limiter_def)
  show ?case
  proof (cases "key \<in> keys_of e")
    case True
    from snoc.IH [OF sorted before] obtain c where "c \<le> fst e - w"
      "li_failures ?l key = filter (\<lambda>t. c < t) (times_of key es)" unfolding pruned_def w by blast
    then have "li_failures (snd (count_failure (fst e) key ?l)) key
        = filter (\<lambda>t. fst e - w < t) (times_of key es) @ [fst e]"
      using count_failure_key(1) [OF times_of_sorted [OF sorted], of key "fst e" ?l c] before times_of_sub [of key es] w
      by auto
    then have "li_failures (record_all (es @ [e]) (new_limiter w b)) key
        = filter (\<lambda>t. fst e - w < t) (times_of key (es @ [e]))"
      using True assms(2) by (simp add: record_all_snoc limiter_failure_parts times_of_snoc)
    moreover have "fst e - w \<le> now - w" using snoc.prems(2) by simp
    ultimately show ?thesis unfolding pruned_def w by blast
  next
    case False
    have "pruned now key es ?l" using snoc.IH [OF sorted] snoc.prems(2) by simp
    then show ?thesis using False unfolding pruned_def w
      by (simp add: record_all_snoc limiter_failure_parts times_of_snoc)
  qed
qed

lemma backoff_range: "0 \<le> backoff n \<and> backoff n \<le> 30"
proof (cases "n \<le> 0")
  case False
  have "list_all (\<lambda>x. 0 \<le> x \<and> x \<le> 30) backoff_seconds" by (simp add: backoff_seconds_def)
  moreover have "nat (min (n - 1) 5) < length backoff_seconds" using False by (auto simp: backoff_seconds_def)
  ultimately have "0 \<le> backoff_seconds ! nat (min (n - 1) 5) \<and> backoff_seconds ! nat (min (n - 1) 5) \<le> 30"
    unfolding list_all_length by blast
  then show ?thesis using False by (simp add: backoff_def backoff_seconds_def)
qed (simp add: backoff_def)

lemma backoff_mono: "m \<le> n \<Longrightarrow> backoff m \<le> backoff n"
proof -
  have sorted: "sorted backoff_seconds" by (simp add: backoff_seconds_def)
  assume "m \<le> n"
  show ?thesis
  proof (cases "m \<le> 0")
    case True
    then show ?thesis using backoff_range [of n] by (simp add: backoff_def)
  next
    case False
    then have "nat (min (m - 1) 5) \<le> nat (min (n - 1) 5)" "nat (min (n - 1) 5) < length backoff_seconds"
      using \<open>m \<le> n\<close> by (auto simp: backoff_seconds_def)
    from sorted_nth_mono [OF sorted this] show ?thesis
      using False \<open>m \<le> n\<close> by (simp add: backoff_def backoff_seconds_def)
  qed
qed

lemma backoff_zero: "backoff n = 0 \<longleftrightarrow> n \<le> 0"
proof -
  have "1 \<le> backoff n" if "0 < n"
    using that backoff_mono [of 1 n] by (simp add: backoff_def backoff_seconds_def)
  then show ?thesis by (auto simp: backoff_def dest: leI)
qed

end
