(* ===== verification/Gateway_Access.thy ===== *)
theory Gateway_Access
  imports Guest_Policy Token_Store
begin

text \<open>
  Who a caller is and what reaches a handler: the resolvers of \<open>gateway/auth.py\<close>, which turn a
  transport peer and its credentials into a principal, and the registry of \<open>gateway/rpc/registry.py\<close>
  up to the point where a handler is called.

  The \<open>ipaddress\<close> module, SHA-256, the random secret, the ownership file of the desktop application
  and the clock are parameters, collected in a record.
\<close>

section \<open>Configuration and environment\<close>

record gateway_config =
  cf_mode :: string
  cf_allowed_roles :: "string list"
  cf_cidrs :: "string list"
  cf_host :: "string option"
  cf_token :: string
  cf_token_scopes :: "string list"
  cf_state_dir :: "string option"

record ('ip, 'net) auth_env =
  en_ip :: "string \<Rightarrow> 'ip option"
  en_ip_loopback :: "'ip \<Rightarrow> bool"
  en_network :: "string \<Rightarrow> 'net option"
  en_in_network :: "'ip \<Rightarrow> 'net \<Rightarrow> bool"
  en_desktop_token :: "string \<Rightarrow> bool"
  en_sha :: "string \<Rightarrow> string"
  en_sha_hex :: "string \<Rightarrow> string"
  en_secret :: string
  en_show :: "json \<Rightarrow> string"
  en_io :: store_io
  en_now :: int

section \<open>Peers\<close>

definition private_networks :: "string list" where
  "private_networks =
     [''127.0.0.0/8'', ''10.0.0.0/8'', ''172.16.0.0/12'', ''192.168.0.0/16'', ''::1/128'', ''fc00::/7'']"

text \<open>\<open>ip_network\<close> of every text, \<open>None\<close> when one of them is refused with \<open>ValueError\<close>.\<close>

fun networks_of :: "(string \<Rightarrow> 'net option) \<Rightarrow> string list \<Rightarrow> 'net list option" where
  "networks_of f [] = Some []"
| "networks_of f (s # ss) =
     (case f s of None \<Rightarrow> None | Some n \<Rightarrow> map_option (Cons n) (networks_of f ss))"

definition private_or_unknown_peer ::
  "('ip, 'net) auth_env \<Rightarrow> string option \<Rightarrow> string list \<Rightarrow> py_exc + bool" where
  "private_or_unknown_peer env peer cidrs =
     (case peer of
        None \<Rightarrow> Inr True
      | Some ip \<Rightarrow>
          (case en_ip env (fst (split_once (CHR ''%'') ip)) of
             None \<Rightarrow> Inr True
           | Some address \<Rightarrow>
               if en_ip_loopback env address then Inr True
               else case networks_of (en_network env) (if cidrs \<noteq> [] then cidrs else private_networks) of
                      None \<Rightarrow> Inl (ValueError ''invalid network'')
                    | Some networks \<Rightarrow> Inr (list_ex (en_in_network env address) networks)))"

section \<open>Guests\<close>

definition new_guest_session_key :: "('ip, 'net) auth_env \<Rightarrow> string" where
  "new_guest_session_key env = ''osqg_'' @ en_secret env"

text \<open>\<open>_GUEST_SESSION_KEY_RE.fullmatch\<close>\<close>

definition guest_session_key_ok :: "string \<Rightarrow> bool" where
  "guest_session_key_ok s \<longleftrightarrow> prefix ''osqg_'' s \<and> length s = 48 \<and> list_all slug_char (drop 5 s)"

definition resolve_guest_session_key :: "('ip, 'net) auth_env \<Rightarrow> obj \<Rightarrow> string" where
  "resolve_guest_session_key env auth =
     (let candidate = text_or_empty (en_show env) (jget ''guestSessionKey'' auth)
      in if guest_session_key_ok candidate then candidate else new_guest_session_key env)"

definition guest_owner_id :: "('ip, 'net) auth_env \<Rightarrow> string \<Rightarrow> string" where
  "guest_owner_id env key = en_sha_hex env key"

definition guest_principal ::
  "('ip, 'net) auth_env \<Rightarrow> auth_state \<Rightarrow> string option \<Rightarrow> string option \<Rightarrow> principal" where
  "guest_principal env state public key =
     (let resolved = (case key of Some k \<Rightarrow> if k \<noteq> [] then k else new_guest_session_key env
                                | None \<Rightarrow> new_guest_session_key env)
      in post_init
           \<lparr>pr_role = ''operator'', pr_scopes = remote_operator_scopes, pr_is_owner = False,
            pr_authenticated = False, pr_capabilities = guest_safe_capabilities,
            pr_auth_state = Some state, pr_token_public_id = public,
            pr_guest_owner_id = Some (guest_owner_id env resolved), pr_guest_session_key = Some resolved\<rparr>)"

definition member_principal ::
  "string \<Rightarrow> string set \<Rightarrow> bool \<Rightarrow> string set \<Rightarrow> string \<Rightarrow> principal" where
  "member_principal role scopes owner caps public =
     post_init
       \<lparr>pr_role = role, pr_scopes = scopes, pr_is_owner = owner, pr_authenticated = True,
        pr_capabilities = caps, pr_auth_state = Some Authenticated, pr_token_public_id = Some public,
        pr_guest_owner_id = None, pr_guest_session_key = None\<rparr>"

section \<open>Resolvers\<close>

text \<open>\<open>_verify_named_token\<close>: a store that cannot be read is no credential.\<close>

definition verify_named_token ::
  "('ip, 'net) auth_env \<Rightarrow> gateway_config \<Rightarrow> string \<Rightarrow> string option \<Rightarrow> token_table
   \<Rightarrow> token_row option \<times> token_table" where
  "verify_named_token env cfg token peer db =
     (if \<not> prefix ''osq_'' token then (None, db)
      else case cf_state_dir cfg of
             None \<Rightarrow> (None, db)
           | Some dir \<Rightarrow>
               if dir = [] then (None, db)
               else case verify_token (en_sha env) token peer (en_io env) (en_now env) db of
                      (Inl e, db1) \<Rightarrow> (None, db1)
                    | (Inr r, db1) \<Rightarrow> (r, db1))"

definition local_peer :: "gateway_config \<Rightarrow> string option \<Rightarrow> bool" where
  "local_peer cfg peer \<longleftrightarrow> is_loopback_bind (cf_host cfg) \<and> is_loopback_address peer"

definition peer_guards ::
  "('ip, 'net) auth_env \<Rightarrow> gateway_config \<Rightarrow> string \<Rightarrow> string option \<Rightarrow> py_exc option" where
  "peer_guards env cfg role peer =
     (if role \<notin> set (cf_allowed_roles cfg) then Some (ValueError (''Invalid role: '' @ role))
      else case private_or_unknown_peer env peer (cf_cidrs cfg) of
             Inl e \<Rightarrow> Some e
           | Inr ok \<Rightarrow> if \<not> ok then Some (ValueError ''Public peers are not accepted'') else None)"

definition named_principal ::
  "('ip, 'net) auth_env \<Rightarrow> obj \<Rightarrow> string \<Rightarrow> token_row \<Rightarrow> principal" where
  "named_principal env auth role r =
     (if role \<notin> tk_roles r
      then guest_principal env Invalid (Some (tk_public_id r)) (Some (resolve_guest_session_key env auth))
      else member_principal role
             (if role = ''node'' then node_default_scopes else normalize_operator_scopes (tk_scopes r))
             False (tk_capabilities r) (tk_public_id r))"

text \<open>\<open>secrets.compare_digest\<close> of two texts, which it takes only when they are ASCII.\<close>

definition ascii_text :: "string \<Rightarrow> bool" where
  "ascii_text s \<longleftrightarrow> list_all (\<lambda>c. (of_char c :: nat) < 128) s"

definition compare_digest :: "string \<Rightarrow> string \<Rightarrow> py_exc + bool" where
  "compare_digest a b =
     (if ascii_text a \<and> ascii_text b then Inr (a = b)
      else Inl (TypeError ''comparing strings with non-ASCII characters is not supported''))"

definition legacy_principal ::
  "('ip, 'net) auth_env \<Rightarrow> gateway_config \<Rightarrow> obj \<Rightarrow> string \<Rightarrow> string \<Rightarrow> string option
   \<Rightarrow> py_exc + principal" where
  "legacy_principal env cfg auth provided role peer =
     (case (if cf_token cfg = [] then Inr False else compare_digest provided (cf_token cfg)) of
        Inl e \<Rightarrow> Inl e
      | Inr valid \<Rightarrow>
          Inr (if \<not> valid
               then guest_principal env Invalid (Some (token_public_id provided))
                      (Some (resolve_guest_session_key env auth))
               else if role = ''node'' then member_principal role node_default_scopes False {} ''legacy''
               else member_principal role (normalize_operator_scopes (set (cf_token_scopes cfg)))
                      (local_peer cfg peer) human_token_capabilities ''legacy''))"

definition provided_token :: "('ip, 'net) auth_env \<Rightarrow> obj \<Rightarrow> string" where
  "provided_token env auth = text_or_empty (en_show env) (jget ''token'' auth)"

definition desktop_owner ::
  "('ip, 'net) auth_env \<Rightarrow> gateway_config \<Rightarrow> string \<Rightarrow> string \<Rightarrow> string option \<Rightarrow> bool" where
  "desktop_owner env cfg provided role peer \<longleftrightarrow>
     provided \<noteq> [] \<and> role = ''operator'' \<and> local_peer cfg peer \<and> en_desktop_token env provided"

definition resolve_token ::
  "('ip, 'net) auth_env \<Rightarrow> gateway_config \<Rightarrow> obj \<Rightarrow> string \<Rightarrow> string option \<Rightarrow> token_table
   \<Rightarrow> (py_exc + principal) \<times> token_table" where
  "resolve_token env cfg auth role peer db =
     (case peer_guards env cfg role peer of
        Some e \<Rightarrow> (Inl e, db)
      | None \<Rightarrow>
          let provided = provided_token env auth in
          if desktop_owner env cfg provided role peer
          then (Inr (member_principal ''operator'' (normalize_operator_scopes (set (cf_token_scopes cfg)))
                       True human_token_capabilities ''desktop''), db)
          else if provided = []
          then (Inr (guest_principal env Guest None (Some (resolve_guest_session_key env auth))), db)
          else case verify_named_token env cfg provided peer db of
                 (Some r, db1) \<Rightarrow> (Inr (named_principal env auth role r), db1)
               | (None, db1) \<Rightarrow> (legacy_principal env cfg auth provided role peer, db1))"

definition open_node :: principal where
  "open_node =
     post_init
       \<lparr>pr_role = ''node'', pr_scopes = node_default_scopes, pr_is_owner = False, pr_authenticated = False,
        pr_capabilities = {}, pr_auth_state = Some Guest, pr_token_public_id = None,
        pr_guest_owner_id = None, pr_guest_session_key = None\<rparr>"

definition open_operator ::
  "('ip, 'net) auth_env \<Rightarrow> obj \<Rightarrow> string \<Rightarrow> bool \<Rightarrow> principal" where
  "open_operator env auth role owner =
     (let key = (if owner then None else Some (resolve_guest_session_key env auth))
      in post_init
           \<lparr>pr_role = role, pr_scopes = (if owner then cli_default_scopes else remote_operator_scopes),
            pr_is_owner = owner, pr_authenticated = False,
            pr_capabilities = (if owner then local_owner_capabilities else guest_safe_capabilities),
            pr_auth_state = Some (if owner then Authenticated else Guest), pr_token_public_id = None,
            pr_guest_owner_id = map_option (guest_owner_id env) key, pr_guest_session_key = key\<rparr>)"

definition resolve_open ::
  "('ip, 'net) auth_env \<Rightarrow> gateway_config \<Rightarrow> obj \<Rightarrow> string \<Rightarrow> string option \<Rightarrow> py_exc + principal" where
  "resolve_open env cfg auth role peer =
     (case peer_guards env cfg role peer of
        Some e \<Rightarrow> Inl e
      | None \<Rightarrow>
          if role = ''node'' then Inr open_node
          else Inr (open_operator env auth role (local_peer cfg peer)))"

text \<open>\<open>resolve_auth\<close>: a \<open>ValueError\<close> of a resolver gives no principal, other exceptions pass.\<close>

definition caught :: "py_exc + principal \<Rightarrow> py_exc + principal option" where
  "caught r =
     (case r of
        Inr p \<Rightarrow> Inr (Some p)
      | Inl (ValueError msg) \<Rightarrow> Inr None
      | Inl e \<Rightarrow> Inl e)"

definition resolve_auth ::
  "('ip, 'net) auth_env \<Rightarrow> gateway_config \<Rightarrow> obj \<Rightarrow> string \<Rightarrow> string option \<Rightarrow> token_table
   \<Rightarrow> (py_exc + principal option) \<times> token_table" where
  "resolve_auth env cfg auth role peer db =
     (if cf_mode cfg = ''token''
      then (let (r, db1) = resolve_token env cfg auth role peer db in (caught r, db1))
      else if cf_mode cfg = ''none'' then (caught (resolve_open env cfg auth role peer), db)
      else (Inr None, db))"

section \<open>The registry\<close>

record 'h method_entry =
  me_name :: string
  me_handler :: 'h
  me_scope :: string
  me_contract :: "string option"

record 'h registry =
  rg_methods :: "(string \<times> 'h method_entry) list"
  rg_locked :: bool

definition new_registry :: "'h registry" where
  "new_registry = \<lparr>rg_methods = [], rg_locked = False\<rparr>"

datatype registry_error = ScopeDrift string | MarkerType | MarkerMismatch

text \<open>\<open>marker h\<close> is the attribute that names the generated contract of a handler, if it has one.\<close>

definition register_method ::
  "('h \<Rightarrow> json) \<Rightarrow> string \<Rightarrow> 'h \<Rightarrow> string \<Rightarrow> 'h registry \<Rightarrow> (registry_error + unit) \<times> 'h registry" where
  "register_method marker name h scope reg =
     (if rg_locked reg then (Inl (ScopeDrift name), reg)
      else
        let add = (\<lambda>c. (Inr (), reg\<lparr>rg_methods := AList.update name
              \<lparr>me_name = name, me_handler = h, me_scope = scope, me_contract = c\<rparr> (rg_methods reg)\<rparr>))
        in case marker h of
             JNull \<Rightarrow> add None
           | JStr s \<Rightarrow>
               if s = [] then (Inl MarkerType, reg)
               else if s \<noteq> name then (Inl MarkerMismatch, reg)
               else add (Some s)
           | _ \<Rightarrow> (Inl MarkerType, reg))"

definition lock_registration :: "'h registry \<Rightarrow> 'h registry" where
  "lock_registration reg = reg\<lparr>rg_locked := True\<rparr>"

definition unregister_method :: "string \<Rightarrow> 'h registry \<Rightarrow> bool \<times> 'h registry" where
  "unregister_method name reg =
     (map_of (rg_methods reg) name \<noteq> None, reg\<lparr>rg_methods := AList.delete name (rg_methods reg)\<rparr>)"

definition method_names :: "'h registry \<Rightarrow> string list" where
  "method_names reg = sort (map fst (rg_methods reg))"

definition entry_of :: "string \<Rightarrow> 'h registry \<Rightarrow> 'h method_entry option" where
  "entry_of name reg = map_of (rg_methods reg) name"

text \<open>One turn of the loop of \<open>validate_classification\<close>: the drift it raises, if any.\<close>

definition drift :: "'h registry \<Rightarrow> string \<Rightarrow> registry_error option" where
  "drift reg name =
     (case entry_of name reg of
        None \<Rightarrow> None
      | Some e \<Rightarrow>
          if name \<in> set node_role_methods
          then if me_scope e \<noteq> node_scope then Some (ScopeDrift name) else None
          else if \<not> is_classified name then Some (ScopeDrift name)
          else case resolve_required_scope name of
                 None \<Rightarrow> None
               | Some expected \<Rightarrow> if me_scope e \<noteq> expected then Some (ScopeDrift name) else None)"

fun first_some :: "('a \<Rightarrow> 'b option) \<Rightarrow> 'a list \<Rightarrow> 'b option" where
  "first_some f [] = None"
| "first_some f (x # xs) = (case f x of Some y \<Rightarrow> Some y | None \<Rightarrow> first_some f xs)"

text \<open>\<open>process_wide\<close>: the call names no registry, so it audits the process-wide one and locks it.\<close>

definition validate_classification ::
  "bool \<Rightarrow> 'h registry \<Rightarrow> (registry_error + unit) \<times> 'h registry" where
  "validate_classification process_wide reg =
     (case first_some (drift reg) (method_names reg) of
        Some e \<Rightarrow> (Inl e, reg)
      | None \<Rightarrow> (Inr (), if process_wide then lock_registration reg else reg))"

section \<open>What reaches a handler\<close>

datatype dispatch_error =
    InvalidEnvelope
  | InvalidIngress ingress_error
  | MethodNotFound string
  | GuestUnauthorized
  | InsufficientScope string string
  | Escaped py_exc

text \<open>\<open>RpcRegistry._dispatch\<close> up to the call of the handler: the entry with the parameters that it
  gets, or the error response.\<close>

definition admit_call ::
  "(json \<Rightarrow> string) \<Rightarrow> string \<Rightarrow> 'h registry \<Rightarrow> json \<Rightarrow> json \<Rightarrow> json \<Rightarrow> principal
   \<Rightarrow> dispatch_error + 'h method_entry \<times> json" where
  "admit_call show fresh reg req_id method params p =
     (case (req_id, method) of
        (JStr i, JStr m) \<Rightarrow>
          (case validate_rpc_ingress [req_id, method, params] of
             Some e \<Rightarrow> Inl (InvalidIngress e)
           | None \<Rightarrow>
               (case entry_of m reg of
                  None \<Rightarrow> Inl (MethodNotFound m)
                | Some entry \<Rightarrow>
                    (case authorize_guest show fresh m params (Some p) of
                       Inl (GuestPolicy msg) \<Rightarrow> Inl GuestUnauthorized
                     | Inl (GuestRaise e) \<Rightarrow> Inl (Escaped e)
                     | Inr params1 \<Rightarrow>
                         (case authorize_call m (me_scope entry) (pr_role p) (pr_scopes p) of
                            Some missing \<Rightarrow> Inl (InsufficientScope m missing)
                          | None \<Rightarrow> Inr (entry, params1)))))
      | _ \<Rightarrow> Inl InvalidEnvelope)"

end
