(* ===== verification/Access_Claims.thy ===== *)
theory Access_Claims
  imports Gateway_Access
begin

text \<open>
  The properties of the gateway's access control: what an anonymous peer can reach, where authority
  comes from, which scope every handled call holds, the life of a named token, the limiter of failed
  attempts and the structural bounds on a request.
\<close>

section \<open>Principals that the resolvers give\<close>

lemma caught_Inr: "caught r = Inr (Some p) \<longleftrightarrow> r = Inr p"
  by (auto simp: caught_def split: sum.splits py_exc.splits)

lemma guest_key_nonempty: "resolve_guest_session_key env auth \<noteq> []"
  by (auto simp: resolve_guest_session_key_def new_guest_session_key_def guest_session_key_ok_def Let_def)

definition proved_by :: "('ip, 'net) auth_env \<Rightarrow> obj \<Rightarrow> string \<Rightarrow> string option \<Rightarrow> token_table \<Rightarrow> token_row \<Rightarrow> bool" where
  "proved_by env auth role peer db r \<longleftrightarrow>
     fst (verify_token (en_sha env) (provided_token env auth) peer (en_io env) (en_now env) db) = Inr (Some r)
     \<and> role \<in> tk_roles r"

lemma verify_named: "fst (verify_named_token env cfg token peer db) = Some r \<Longrightarrow>
    fst (verify_token (en_sha env) token peer (en_io env) (en_now env) db) = Inr (Some r)"
  by (auto simp: verify_named_token_def split: if_splits option.splits prod.splits sum.splits)

lemma resolved_cases:
  assumes "resolve_auth env cfg auth role peer db = (Inr (Some p), db')"
  obtains
    (desktop) "cf_mode cfg = ''token''" "desktop_owner env cfg (provided_token env auth) role peer"
      "p = member_principal ''operator'' (normalize_operator_scopes (set (cf_token_scopes cfg))) True
             human_token_capabilities ''desktop''"
  | (guest) state public where "p = guest_principal env state public (Some (resolve_guest_session_key env auth))"
  | (named) r where "cf_mode cfg = ''token''" "proved_by env auth role peer db r"
      "p = member_principal role
             (if role = ''node'' then node_default_scopes else normalize_operator_scopes (tk_scopes r))
             False (tk_capabilities r) (tk_public_id r)"
  | (legacy) "cf_mode cfg = ''token''" "cf_token cfg \<noteq> []" "provided_token env auth = cf_token cfg"
      "p = (if role = ''node'' then member_principal role node_default_scopes False {} ''legacy''
            else member_principal role (normalize_operator_scopes (set (cf_token_scopes cfg)))
                   (local_peer cfg peer) human_token_capabilities ''legacy'')"
  | (open_node) "cf_mode cfg = ''none''" "p = open_node"
  | (open_operator) "cf_mode cfg = ''none''" "role \<noteq> ''node''"
      "p = open_operator env auth role (local_peer cfg peer)"
proof -
  consider (token) "cf_mode cfg = ''token''" "fst (resolve_token env cfg auth role peer db) = Inr p"
    | (none) "cf_mode cfg = ''none''" "resolve_open env cfg auth role peer = Inr p"
    using assms by (auto simp: resolve_auth_def caught_Inr split: if_splits prod.splits)
  then show thesis
  proof cases
    case none
    then show thesis using open_node open_operator
      by (auto simp: resolve_open_def split: option.splits if_splits)
  next
    case token
    then consider "desktop_owner env cfg (provided_token env auth) role peer"
        "p = member_principal ''operator'' (normalize_operator_scopes (set (cf_token_scopes cfg))) True
             human_token_capabilities ''desktop''"
      | "p = guest_principal env Guest None (Some (resolve_guest_session_key env auth))"
      | r where "fst (verify_named_token env cfg (provided_token env auth) peer db) = Some r"
          "p = named_principal env auth role r"
      | "legacy_principal env cfg auth (provided_token env auth) role peer = Inr p"
      by (auto simp: resolve_token_def Let_def split: option.splits if_splits prod.splits)
    then show thesis
    proof cases
      case 3
      then show thesis using guest named [OF token(1)] verify_named [OF 3(1)]
        by (auto simp: named_principal_def proved_by_def split: if_splits)
    next
      case 4
      then show thesis using guest legacy [OF token(1)]
        by (auto simp: legacy_principal_def compare_digest_def split: if_splits)
    qed (use desktop guest token in auto)
  qed
qed

lemma post_init_same [simp]:
  "pr_role (post_init p) = pr_role p" "pr_scopes (post_init p) = pr_scopes p"
  "pr_is_owner (post_init p) = pr_is_owner p" "pr_authenticated (post_init p) = pr_authenticated p"
  "pr_guest_owner_id (post_init p) = pr_guest_owner_id p"
  "pr_auth_state p \<noteq> None \<Longrightarrow> pr_auth_state (post_init p) = pr_auth_state p"
  "pr_capabilities p \<noteq> {} \<Longrightarrow> pr_capabilities (post_init p) = pr_capabilities p"
  by (simp_all add: post_init_def Let_def)

lemmas principal_defs = member_principal_def guest_principal_def open_node_def open_operator_def Let_def

lemma resolved_anonymous:
  assumes "resolve_auth env cfg auth role peer db = (Inr (Some p), db')"
    and "\<not> pr_authenticated p" "\<not> pr_is_owner p"
  shows "is_guest (Some p)"
    and "pr_guest_owner_id p = None \<or>
         pr_guest_owner_id p = Some (en_sha_hex env (resolve_guest_session_key env auth))
         \<and> pr_scopes p = remote_operator_scopes \<and> pr_role p \<noteq> ''node''"
proof -
  have guest: "is_guest (Some p) \<and> (pr_guest_owner_id p = None \<or>
         pr_guest_owner_id p = Some (en_sha_hex env (resolve_guest_session_key env auth))
         \<and> pr_scopes p = remote_operator_scopes \<and> pr_role p \<noteq> ''node'')"
    using assms(1)
  proof (cases rule: resolved_cases)
    case (guest state public)
    then show ?thesis using guest_key_nonempty [of env auth] assms(2,3)
      by (simp add: is_guest_def principal_defs guest_owner_id_def guest_safe_capabilities_def)
  next
    case open_operator
    then have "\<not> local_peer cfg peer" using assms(3) by (simp add: principal_defs)
    then show ?thesis using open_operator by (simp add: is_guest_def principal_defs guest_owner_id_def)
  qed (use assms(2,3) in \<open>simp_all add: principal_defs is_guest_def split: if_splits\<close>)
  then show "is_guest (Some p)" "pr_guest_owner_id p = None \<or>
         pr_guest_owner_id p = Some (en_sha_hex env (resolve_guest_session_key env auth))
         \<and> pr_scopes p = remote_operator_scopes \<and> pr_role p \<noteq> ''node''" by simp_all
qed

lemma admitted:
  assumes "admit_call show fresh reg req method params p = Inr (entry, params')"
  obtains m where "method = JStr m" "entry_of m reg = Some entry"
    "authorize_guest show fresh m params (Some p) = Inr params'"
    "authorize_call m (me_scope entry) (pr_role p) (pr_scopes p) = None"
  using assms by (auto simp: admit_call_def split: json.splits option.splits sum.splits guest_error.splits)

section \<open>The registry\<close>

datatype 'h registry_op = RRegister string 'h string | RUnregister string | RValidate bool

primrec registry_step :: "('h \<Rightarrow> json) \<Rightarrow> 'h registry_op \<Rightarrow> 'h registry \<Rightarrow> 'h registry" where
  "registry_step marker (RRegister name h scope) reg = snd (register_method marker name h scope reg)"
| "registry_step marker (RUnregister name) reg = snd (unregister_method name reg)"
| "registry_step marker (RValidate process_wide) reg = snd (validate_classification process_wide reg)"

interpretation registry: one_way "registry_step marker" rg_locked for marker
  by unfold_locales
     (case_tac a; auto simp: register_method_def unregister_method_def validate_classification_def
        lock_registration_def split: option.splits)

lemma first_some_None: "first_some f xs = None \<longleftrightarrow> (\<forall>x \<in> set xs. f x = None)"
  by (induction xs) (auto split: option.splits)

text \<open>A registry whose every method has the scope that the table gives it.\<close>

definition audited :: "'h registry \<Rightarrow> bool" where
  "audited reg \<longleftrightarrow> (\<forall>name e. entry_of name reg = Some e \<longrightarrow> drift reg name = None)"

lemma validated_audited:
  assumes "validate_classification process_wide reg = (Inr (), reg')"
  shows "audited reg" "reg' = (if process_wide then lock_registration reg else reg)"
proof -
  have none: "first_some (drift reg) (method_names reg) = None"
    using assms by (auto simp: validate_classification_def split: option.splits)
  have "name \<in> set (method_names reg)" if "entry_of name reg = Some e" for name e
    using map_of_SomeD that by (force simp: method_names_def entry_of_def)
  then show "audited reg" using none by (auto simp: audited_def first_some_None)
  show "reg' = (if process_wide then lock_registration reg else reg)"
    using assms none by (simp add: validate_classification_def)
qed

lemma locked_step:
  assumes "rg_locked reg"
  shows "map_of (rg_methods (registry_step marker a reg)) \<subseteq>\<^sub>m map_of (rg_methods reg)"
  using assms by (cases a) (auto simp: register_method_def unregister_method_def validate_classification_def
      lock_registration_def map_le_def split: option.splits)

lemma locked_run: "rg_locked reg \<Longrightarrow>
    map_of (rg_methods (registry.run marker ops reg)) \<subseteq>\<^sub>m map_of (rg_methods reg)"
proof (induction ops arbitrary: reg)
  case (Cons a ops)
  then show ?case using locked_step [OF Cons.prems, of marker a] registry.gone_step map_le_trans by fastforce
qed simp

lemma table_scopes: "map_of method_scopes m = Some s \<Longrightarrow> prefix operator_namespace s"
proof -
  assume "map_of method_scopes m = Some s"
  then have "(m, s) \<in> set method_scopes" by (rule map_of_SomeD)
  moreover have "list_all (\<lambda>ms. prefix operator_namespace (snd ms)) method_scopes" by code_simp
  ultimately show ?thesis unfolding list_all_iff by fastforce
qed

lemma required_operator: "resolve_required_scope m = Some s \<Longrightarrow> prefix operator_namespace s"
proof -
  have "prefix operator_namespace admin_scope" by code_simp
  then show "resolve_required_scope m = Some s \<Longrightarrow> ?thesis"
    by (auto simp: resolve_required_scope_def table_scopes split: option.splits if_splits)
qed

section \<open>Properties\<close>

text \<open>A gateway without authentication that listens on all addresses, and an owner id.\<close>

definition sample_env :: "(unit, unit) auth_env" where
  "sample_env =
     \<lparr>en_ip = (\<lambda>_. None), en_ip_loopback = (\<lambda>_. False), en_network = (\<lambda>_. Some ()),
      en_in_network = (\<lambda>_ _. False), en_desktop_token = (\<lambda>_. False), en_sha = (\<lambda>s. s),
      en_sha_hex = (\<lambda>_. replicate 64 (CHR ''a'')), en_secret = replicate 43 (CHR ''s''),
      en_show = (\<lambda>_. []), en_io = StoreWorks, en_now = 0\<rparr>"

definition sample_config :: gateway_config where
  "sample_config =
     \<lparr>cf_mode = ''none'', cf_allowed_roles = [''operator''], cf_cidrs = [], cf_host = Some ''0.0.0.0'',
      cf_token = [], cf_token_scopes = [], cf_state_dir = None\<rparr>"

definition sample_registry :: "unit registry" where
  "sample_registry =
     snd (register_method (\<lambda>_. JNull) ''chat.send'' () write_scope
       (snd (register_method (\<lambda>_. JNull) ''health'' () read_scope new_registry)))"

definition sample_guest :: principal where
  "sample_guest = open_operator sample_env [] ''operator'' False"

definition sample_sent :: json where
  "sample_sent =
     JObj [(''sessionKey'', JStr (guest_key ''main'' (replicate 64 (CHR ''a'')) ''hello'')),
           (''noMemoryCapture'', JBool True), (''no_memory_capture'', JBool True),
           (''_source'', JObj [(''noMemoryCapture'', JBool True), (''no_memory_capture'', JBool True)])]"


lemma sample_resolved:
  "resolve_auth sample_env sample_config [] ''operator'' (Some ''10.0.0.7'') [] = (Inr (Some sample_guest), [])"
proof -
  have "\<not> local_peer sample_config (Some ''10.0.0.7'')" by code_simp
  moreover have "private_or_unknown_peer sample_env (Some ''10.0.0.7'') [] = Inr True"
    by (simp add: private_or_unknown_peer_def sample_env_def)
  ultimately show ?thesis
    by (simp add: resolve_auth_def resolve_open_def peer_guards_def caught_def sample_guest_def)
       (simp add: sample_config_def)
qed

lemma admitI:
  assumes "nodes params \<le> 100" "height params \<le> 10"
    and "entry_of m reg = Some e" "authorize_guest show fresh m params (Some p) = Inr params'"
    and "authorize_call m (me_scope e) (pr_role p) (pr_scopes p) = None"
  shows "admit_call show fresh reg (JStr i) (JStr m) params p = Inr (e, params')"
proof -
  have "validate_rpc_ingress [JStr i, JStr m, params] = None"
    using assms(1,2) by (simp add: ingress_accepts ingress_max_depth_def ingress_max_nodes_def)
  then show ?thesis using assms(3-) by (simp add: admit_call_def)
qed

definition sample_entry :: "unit method_entry" where
  "sample_entry = \<lparr>me_name = ''chat.send'', me_handler = (), me_scope = write_scope, me_contract = None\<rparr>"

lemma sample_admitted:
  "admit_call (en_show sample_env) ''x'' sample_registry (JStr ''1'') (JStr ''chat.send'')
     (JObj [(''key'', JStr ''agent:main:webchat:hello''), (''initialModel'', JStr ''gpt'')]) sample_guest
   = Inr (sample_entry, sample_sent)"
  by (rule admitI; code_simp)


text \<open>C5: Authority has a proof. Only a loopback peer of a gateway that listens on loopback is an owner;
  an authenticated caller presented the token of the desktop application, a stored token that verifies
  and has the role, or the configured token; and administration rests on one of these with the scope
  configured, or on the local peer of a gateway without authentication.\<close>

theorem authority_has_proof:
  assumes "resolve_auth env cfg auth role peer db = (Inr (Some p), db')"
  shows "(pr_is_owner p \<longrightarrow> is_loopback_bind (cf_host cfg) \<and> is_loopback_address peer)
    \<and> (pr_authenticated p \<longrightarrow> cf_mode cfg = ''token'' \<and>
         (desktop_owner env cfg (provided_token env auth) role peer
          \<or> (\<exists>r. proved_by env auth role peer db r)
          \<or> cf_token cfg \<noteq> [] \<and> provided_token env auth = cf_token cfg))
    \<and> (admin_scope \<in> pr_scopes p \<longrightarrow>
         (if pr_authenticated p
          then admin_scope \<in> set (cf_token_scopes cfg)
               \<or> (\<exists>r. proved_by env auth role peer db r \<and> admin_scope \<in> tk_scopes r)
          else cf_mode cfg = ''none'' \<and> local_peer cfg peer))"
  using assms
proof (cases rule: resolved_cases)
  case desktop
  then show ?thesis by (auto simp: principal_defs desktop_owner_def local_peer_def)
next
  case (named r)
  then show ?thesis by (auto simp: principal_defs node_default_scopes_def)
next
  case open_operator
  then show ?thesis by (auto simp: principal_defs local_peer_def remote_operator_scopes_def)
qed (auto simp: principal_defs local_peer_def node_default_scopes_def remote_operator_scopes_def)

theorem authority_has_proof_witness:
  "admin_scope \<notin> pr_scopes sample_guest \<and> \<not> is_loopback_bind (cf_host sample_config)"
proof -
  have "\<not> local_peer sample_config (Some ''10.0.0.7'')" "\<not> pr_authenticated sample_guest"
    "\<not> is_loopback_bind (cf_host sample_config)" by code_simp+
  then show ?thesis using authority_has_proof [OF sample_resolved] by auto
qed

text \<open>C6: Handled calls hold their scope. After the audit of the process-wide registry, whatever is
  registered, removed or audited later, a call that reaches a handler reaches one of the audited
  registry; its method has the scope that the table gives it, and the caller holds that scope. The
  methods of nodes are for nodes and administrators.\<close>

theorem calls_hold_their_scope:
  assumes "validate_classification True reg = (Inr (), reg1)"
    and "admit_call show fresh (registry.run marker ops reg1) req (JStr m) params p = Inr (entry, params')"
  shows "entry_of m reg = Some entry \<and>
    (if m \<in> set node_role_methods
     then me_scope entry = node_scope
          \<and> (if pr_role p = ''node'' then node_scope \<in> pr_scopes p else admin_scope \<in> pr_scopes p)
     else pr_role p \<noteq> ''node'' \<and> resolve_required_scope m = Some (me_scope entry)
          \<and> operator_scope_satisfies (me_scope entry) (pr_scopes p))"
proof -
  have reg1: "reg1 = lock_registration reg" and audit: "audited reg"
    using validated_audited [OF assms(1)] by simp_all
  from assms(2) obtain m' where m': "JStr m = JStr m'" "entry_of m' (registry.run marker ops reg1) = Some entry"
    and call: "authorize_call m' (me_scope entry) (pr_role p) (pr_scopes p) = None" by (rule admitted)
  have "rg_locked reg1" by (simp add: reg1 lock_registration_def)
  from locked_run [OF this, of marker ops] m' have "map_of (rg_methods reg1) m = Some entry"
    unfolding map_le_def entry_of_def by (metis json.inject(4) domI)
  then have entry: "entry_of m reg = Some entry" by (simp add: reg1 lock_registration_def entry_of_def)
  then have drift: "drift reg m = None" using audit by (simp add: audited_def)
  show ?thesis
  proof (cases "m \<in> set node_role_methods")
    case True
    then have "me_scope entry = node_scope" using drift entry by (simp add: drift_def split: if_splits)
    then show ?thesis using True call m' entry by (simp add: authorize_call_def split: if_splits)
  next
    case False
    then obtain s where s: "resolve_required_scope m = Some s" "me_scope entry = s"
      using drift entry by (auto simp: drift_def classified_iff split: if_splits option.splits)
    then have "me_scope entry \<noteq> node_scope" using required_operator by fastforce
    then show ?thesis using False call m' entry s by (simp add: authorize_call_def split: if_splits)
  qed
qed

theorem calls_hold_their_scope_witness:
  "operator_scope_satisfies write_scope (pr_scopes sample_guest)"
proof -
  have audit: "validate_classification True sample_registry = (Inr (), lock_registration sample_registry)"
    by code_simp
  have late: "admit_call (en_show sample_env) ''x''
      (registry.run (\<lambda>_. JNull) [RRegister ''late'' () read_scope, RUnregister ''health'']
         (lock_registration sample_registry)) (JStr ''1'') (JStr ''chat.send'') (JObj []) sample_guest
    = Inr (sample_entry,
        JObj [(''sessionKey'', JStr (guest_key ''main'' (replicate 64 (CHR ''a'')) ''default'')),
           (''noMemoryCapture'', JBool True), (''no_memory_capture'', JBool True),
           (''_source'', JObj [(''noMemoryCapture'', JBool True), (''no_memory_capture'', JBool True)])])"
    unfolding registry.run_def by (rule admitI; code_simp)
  have "''chat.send'' \<notin> set node_role_methods" by code_simp
  then show ?thesis using calls_hold_their_scope [OF audit late] by (simp add: sample_entry_def)
qed

text \<open>C19: A named token is good until it is revoked. After a token was created, whatever is done to
  the table, it verifies exactly as long as no revocation of its id was among the operations, with the
  roles, scopes and capabilities it was created with; no other text verifies as this token but one
  whose secret has the same digest; and once revoked its authority is denied for ever.\<close>

theorem token_good_until_revoked:
  assumes "token_wf db"
    and "create_token sha name roles scopes caps source public secret now db = (Inr (token, row), db1)"
    and "4 \<le> length public" "length public \<le> 64" "list_all public_id_char public"
    and "16 \<le> length secret" "length secret \<le> 256" "list_all secret_char secret"
  shows "((\<exists>r. fst (verify_token sha token peer StoreWorks t (tokens.run sha ops db1)) = Inr (Some r))
           \<longleftrightarrow> \<not> list_ex (revokes public) ops)
    \<and> (list_ex (revokes public) ops \<longleftrightarrow>
         active_decision fp StoreWorks public (tokens.run sha ops db1) = Deny)
    \<and> (fst (verify_token sha other peer io t (tokens.run sha ops db1)) = Inr (Some r)
       \<and> tk_public_id r = public \<longrightarrow>
         (\<exists>s. token_parts other = Some (public, s) \<and> sha s = sha secret)
         \<and> tk_roles r = roles \<and> tk_scopes r = scopes \<and> tk_capabilities r = caps)"
proof -
  let ?db = "tokens.run sha ops db1"
  have new: "token_row_of public db = None" "db1 = db @ [row]" and token: "token = ''osq_'' @ public @ ''_'' @ secret"
    and row: "tk_public_id row = public" "tk_digest row = sha secret" "tk_roles row = roles"
      "tk_scopes row = scopes" "tk_capabilities row = caps" "tk_revoked_at row = None"
    using assms(2) by (auto simp: create_token_def Let_def split: if_splits)
  have row1: "token_row_of public db1 = Some row" using new row by (simp add: row_of_append)
  have wf1: "token_wf db1" using assms(1) step_wf [of db sha "TCreate name roles scopes caps source public secret now"]
    by (simp add: assms(2))
  have wf: "token_wf ?db" using wf1 by (rule tokens.inv_run)
  have parts: "token_parts token = Some (public, secret)" unfolding token by (rule token_parts_made [OF assms(3-8)])
  from run_kept [of public db1 sha ops] row1 obtain r' where r': "token_row_of public ?db = Some r'" "same_grant row r'"
    unfolding kept_def by blast
  have force: "tk_revoked_at r' = None \<longleftrightarrow> \<not> list_ex (revokes public) ops"
    using run_force_iff [of public db1 sha ops] r'(1) row1 row(6) by (simp add: in_force_def)
  have good: "(\<exists>r. fst (verify_token sha token peer StoreWorks t ?db) = Inr (Some r)) \<longleftrightarrow> \<not> list_ex (revokes public) ops"
    using r' row force parts by (auto simp: verify_Some same_grant_def)
  have denied: "list_ex (revokes public) ops \<longleftrightarrow> active_decision fp StoreWorks public ?db = Deny"
    using force r'(1) by (auto simp: active_decision_def active_row_of [OF wf])
  have "r = r' \<and> (\<exists>s. token_parts other = Some (public, s) \<and> sha s = tk_digest r)"
    if v: "fst (verify_token sha other peer io t ?db) = Inr (Some r)" "tk_public_id r = public"
  proof -
    from v(1) obtain q s where q: "token_parts other = Some (q, s)" "token_row_of q ?db = Some r" "tk_digest r = sha s"
      by (auto simp: verify_Some)
    then have "q = public" using v(2) row_of_id by blast
    then show ?thesis using q r'(1) by simp
  qed
  then show ?thesis using good denied r'(2) row unfolding same_grant_def by metis
qed

theorem token_good_until_revoked_witness:
  "\<exists>r. fst (verify_token id ''osq_0a1b_0123456789abcdef'' None StoreWorks 9
        (tokens.run id [TRevoke ''beef'' 5]
           (snd (create_token id ''ci'' {''operator''} {write_scope} {} ''named'' ''0a1b'' ''0123456789abcdef'' 3 []))))
      = Inr (Some r)"
proof -
  let ?made = "create_token id ''ci'' {''operator''} {write_scope} {} ''named'' ''0a1b'' ''0123456789abcdef'' 3 []"
  have ci: "py_strip ''ci'' = ''ci''" by code_simp
  obtain row db1 where made: "?made = (Inr (''osq_0a1b_0123456789abcdef'', row), db1)"
    using that by (simp add: create_token_def Let_def token_row_of_def ci)
  have chars: "list_all public_id_char ''0a1b''" "list_all secret_char ''0123456789abcdef''" by code_simp+
  have "\<not> list_ex (revokes ''0a1b'') [TRevoke ''beef'' 5]" by (simp add: revokes_def)
  then show ?thesis
    using token_good_until_revoked [OF token_wf_Nil made _ _ chars(1) _ _ chars(2), of None 9 "[TRevoke ''beef'' 5]"]
    by (simp add: made)
qed

text \<open>C35: Failed attempts are throttled. After any failures recorded in the order of time, the delay
  for the next one is read off the steps of the backoff at the number of failures of the same peer, or
  of the same token if that is larger, within the window, less the burst that is free. It is at most 30
  seconds, and it is zero only within the burst.\<close>

theorem failures_throttled:
  assumes "0 < w" "sorted (map fst es)" "\<forall>e \<in> set es. fst e \<le> now"
  shows "let l = record_all es (new_limiter w b);
             recent = (\<lambda>key. int (length (filter (\<lambda>t. now - w < t) (times_of key es))));
             n = max (recent (peer_key peer)) (recent (token_key public)) + 1;
             delay = fst (limiter_failure now peer public l)
         in delay = backoff (n - b) \<and> 0 \<le> delay \<and> delay \<le> 30 \<and> (delay = 0 \<longleftrightarrow> n \<le> b)"
proof -
  let ?l = "record_all es (new_limiter w b)"
  have lw: "li_window ?l = w" by (simp add: new_limiter_def)
  have count: "fst (count_failure now key ?l) = length (filter (\<lambda>t. now - w < t) (times_of key es)) + 1" for key
  proof -
    from record_all_pruned [OF assms(2,1,3), of key b] obtain c where "c \<le> now - w"
      "li_failures ?l key = filter (\<lambda>t. c < t) (times_of key es)" unfolding pruned_def lw by blast
    moreover have "\<forall>t \<in> set (times_of key es). t \<le> now" using times_of_sub [of key es] assms(3) by auto
    ultimately show ?thesis
      using count_failure_key(2) [OF times_of_sorted [OF assms(2)], of key now ?l c] lw by simp
  qed
  have "li_burst ?l = b" by (simp add: new_limiter_def)
  then have "fst (limiter_failure now peer public ?l)
      = backoff (max (int (length (filter (\<lambda>t. now - w < t) (times_of (peer_key peer) es))))
                     (int (length (filter (\<lambda>t. now - w < t) (times_of (token_key public) es)))) + 1 - b)"
    by (simp add: limiter_failure_parts count of_nat_max max_def algebra_simps)
  then show ?thesis by (simp add: Let_def backoff_range backoff_zero)
qed

theorem failures_throttled_witness:
  "fst (limiter_failure 61 (Some ''10.0.0.7'') None
     (record_all [(0, Some ''10.0.0.7'', None), (2, Some ''10.0.0.7'', Some ''0a1b''), (3, None, None)]
        (new_limiter 60 1))) = 1"
proof -
  have keys: "peer_key (Some ''10.0.0.7'') = ''peer:10.0.0.7''" "token_key None = ''token:legacy''"
    "peer_key None = ''peer:<unknown>''" "token_key (Some ''0a1b'') = ''token:0a1b''"
    by (simp_all add: peer_key_def token_key_def)
  show ?thesis
    using failures_throttled [of 60 "[(0, Some ''10.0.0.7'', None), (2, Some ''10.0.0.7'', Some ''0a1b''), (3, None, None)]"
        61 1 "Some ''10.0.0.7''" None]
    by (simp add: times_of_def keys_of_def keys backoff_def backoff_seconds_def Let_def)
qed


end
