(* ===== verification/Streams.thy ===== *)
theory Streams
  imports Json
begin

text \<open>
  The events of a session and the budget of the replay caches: the data and the pure functions of
  \<open>gateway/session_streams.py\<close>, and \<open>gateway/replay_budget.py\<close>.

  A payload is a JSON object. \<open>show\<close> is \<open>str\<close> of a JSON value that is no text. Sequence numbers are
  integers. Of the budget, \<open>retained_bytes\<close>, which measures Python objects, is a parameter.
\<close>

section \<open>Events\<close>

record stream_event =
  ev_name :: string
  ev_payload :: obj
  ev_seq :: int

definition text_delta :: string where "text_delta = ''session.event.text_delta''"
definition reset_event_name :: string where "reset_event_name = ''session.event.answer_generation_reset''"
definition committed_event :: string where "committed_event = ''session.event.turn_committed''"

definition generation_lossy_events :: "string list" where
  "generation_lossy_events =
     [''session.event.text_delta'', ''session.event.thinking'', ''session.event.thinking_start'',
      ''session.event.thinking_end'', ''session.event.tool_use_delta'',
      ''session.event.tool_input_preview'', ''session.event.tool_use_end'']"

definition completed_turn_events :: "string list" where
  "completed_turn_events = [''session.event.tool_result'', ''session.event.artifact'', committed_event]"

definition is_replay_lossy :: "string \<Rightarrow> obj \<Rightarrow> bool" where
  "is_replay_lossy name payload \<longleftrightarrow>
     name \<in> {''session.event.text_delta'', ''session.event.run_heartbeat'',
             ''session.event.tool_use_delta'', ''session.event.tool_input_preview''}
     \<or> jget ''heartbeat'' payload = JBool True
       \<and> name \<in> {''session.event.compaction'', ''session.event.provider_activity''}"

definition is_generation_reset :: "string \<Rightarrow> bool" where
  "is_generation_reset name \<longleftrightarrow> name = reset_event_name"

definition is_generation_lossy :: "string \<Rightarrow> bool" where
  "is_generation_lossy name \<longleftrightarrow> name \<in> set generation_lossy_events"

definition is_completed_turn_event :: "string \<Rightarrow> bool" where
  "is_completed_turn_event name \<longleftrightarrow> name \<in> set completed_turn_events"

section \<open>Reading a payload\<close>

text \<open>\<open>payload.get(a, payload.get(b))\<close>\<close>

definition get2 :: "string \<Rightarrow> string \<Rightarrow> obj \<Rightarrow> json" where
  "get2 a b d = jget_or a (jget b d) d"

definition generation_epoch :: "obj \<Rightarrow> int option" where
  "generation_epoch d = int_from 0 (get2 ''generation_epoch'' ''generationEpoch'' d)"

definition reset_new_epoch :: "obj \<Rightarrow> int option" where
  "reset_new_epoch d = int_from 0 (get2 ''new_generation_epoch'' ''newGenerationEpoch'' d)"

fun identity_value :: "string list \<Rightarrow> obj \<Rightarrow> string option" where
  "identity_value [] d = None"
| "identity_value (f # fs) d =
     (case nonempty_str (jget f d) of Some s \<Rightarrow> Some s | None \<Rightarrow> identity_value fs d)"

definition identity_fields :: "string list list" where
  "identity_fields =
     [[''task_id'', ''taskId''], [''turn_id'', ''turnId''], [''assistant_message_id'', ''assistantMessageId'']]"

definition conflicts_on :: "obj \<Rightarrow> obj \<Rightarrow> string list \<Rightarrow> bool" where
  "conflicts_on d d' fs \<longleftrightarrow>
     (case (identity_value fs d, identity_value fs d') of (Some a, Some b) \<Rightarrow> a \<noteq> b | _ \<Rightarrow> False)"

definition same_turn_identity :: "stream_event \<Rightarrow> stream_event \<Rightarrow> bool" where
  "same_turn_identity e r \<longleftrightarrow> \<not> list_ex (conflicts_on (ev_payload e) (ev_payload r)) identity_fields"

definition same_generation_identity :: "stream_event \<Rightarrow> stream_event \<Rightarrow> bool" where
  "same_generation_identity e r \<longleftrightarrow>
     same_turn_identity e r
     \<and> (list_ex (\<lambda>fs. identity_value fs (ev_payload e) \<noteq> None \<and> identity_value fs (ev_payload r) \<noteq> None)
          identity_fields
        \<or> \<not> list_ex (\<lambda>fs. identity_value fs (ev_payload e) \<noteq> None \<or> identity_value fs (ev_payload r) \<noteq> None)
              identity_fields)"

definition preserve_completed :: "stream_event \<Rightarrow> stream_event \<Rightarrow> bool" where
  "preserve_completed e r \<longleftrightarrow> ev_name e = committed_event \<or> same_turn_identity e r"

definition stream_task_id :: "obj \<Rightarrow> string option" where
  "stream_task_id d =
     (case nonempty_str (get2 ''task_id'' ''taskId'' d) of
        Some s \<Rightarrow> Some s
      | None \<Rightarrow> nonempty_str (get2 ''turn_id'' ''turnId'' d))"

text \<open>\<open>str(value)\<close>, as an f-string writes it\<close>

definition str_of :: "(json \<Rightarrow> string) \<Rightarrow> json \<Rightarrow> string" where
  "str_of show v = (case v of JStr s \<Rightarrow> s | _ \<Rightarrow> show v)"

fun truthy_json :: "json \<Rightarrow> bool" where
  "truthy_json JNull = False"
| "truthy_json (JBool b) = b"
| "truthy_json (JInt i) = (i \<noteq> 0)"
| "truthy_json (JFloat r) = (r \<noteq> 0)"
| "truthy_json (JStr s) = (s \<noteq> [])"
| "truthy_json (JList vs) = (vs \<noteq> [])"
| "truthy_json (JObj kvs) = (kvs \<noteq> [])"

definition str_or_empty :: "(json \<Rightarrow> string) \<Rightarrow> json \<Rightarrow> string" where
  "str_or_empty show v = (if truthy_json v then str_of show v else [])"

definition tool_id :: "(json \<Rightarrow> string) \<Rightarrow> obj \<Rightarrow> string" where
  "tool_id show d =
     (case jget_or ''tool_use_id'' (jget_or ''toolUseId'' (jget_or ''id'' (JStr []) d) d) d of
        JNull \<Rightarrow> [] | v \<Rightarrow> str_of show v)"

definition thinking_block_id :: "obj \<Rightarrow> string" where
  "thinking_block_id d =
     (case nonempty_str (get2 ''block_id'' ''blockId'' d) of
        Some s \<Rightarrow> s | None \<Rightarrow> ''__legacy_reasoning__'')"

definition model_call_id :: "obj \<Rightarrow> string" where
  "model_call_id d =
     (case get2 ''model_call_id'' ''modelCallId'' d of JStr s \<Rightarrow> py_strip s | _ \<Rightarrow> [])"

definition same_text_model_call :: "obj \<Rightarrow> obj \<Rightarrow> bool" where
  "same_text_model_call l r \<longleftrightarrow>
     \<not> conflicts_on l r [''model_call_id'', ''modelCallId'']
     \<and> (case (int_from 1 (jget ''iteration'' l), int_from 1 (jget ''iteration'' r)) of
          (Some a, Some b) \<Rightarrow> a = b | _ \<Rightarrow> True)"

definition delta_field :: "obj \<Rightarrow> string" where
  "delta_field d =
     (case find (\<lambda>f. map_of d f \<noteq> None) [''json_fragment'', ''jsonFragment'', ''fragment''] of
        Some f \<Rightarrow> f | None \<Rightarrow> ''json_fragment'')"

text \<open>Equality of two JSON scalars in Python: numbers compare by value.\<close>

fun number_of :: "json \<Rightarrow> real option" where
  "number_of (JBool b) = Some (if b then 1 else 0)"
| "number_of (JInt i) = Some (of_int i)"
| "number_of (JFloat r) = Some r"
| "number_of _ = None"

definition py_eq :: "json \<Rightarrow> json \<Rightarrow> bool" where
  "py_eq a b =
     (case (number_of a, number_of b) of (Some x, Some y) \<Rightarrow> x = y | _ \<Rightarrow> a = b)"

text \<open>\<open>_event_is_stale_generation\<close>\<close>

definition is_stale :: "int option \<Rightarrow> stream_event \<Rightarrow> bool" where
  "is_stale current e \<longleftrightarrow>
     is_generation_lossy (ev_name e)
     \<and> (case (current, generation_epoch (ev_payload e)) of (Some c, Some n) \<Rightarrow> n < c | _ \<Rightarrow> False)"

section \<open>Merging events of the live view\<close>

definition put_if_some :: "string \<Rightarrow> json option \<Rightarrow> obj \<Rightarrow> obj" where
  "put_if_some k v d = (case v of Some x \<Rightarrow> AList.update k x d | None \<Rightarrow> d)"

fun json_int :: "json \<Rightarrow> int option" where
  "json_int (JInt i) = Some i"
| "json_int _ = None"

text \<open>\<open>_replace_compacted_event\<close>: the new content of the event at the place.\<close>

definition compacted :: "(json \<Rightarrow> string) \<Rightarrow> string \<Rightarrow> stream_event \<Rightarrow> stream_event \<Rightarrow> stream_event" where
  "compacted show field old e =
     (let p1 = AList.update field
            (JStr (str_of show (jget_or field (JStr []) (ev_payload old))
                   @ str_of show (jget_or field (JStr []) (ev_payload e)))) (ev_payload old);
          ended = (case json_int (get2 ''ended_at'' ''endedAt'' (ev_payload e)) of
                     Some i \<Rightarrow> Some i
                   | None \<Rightarrow> json_int (get2 ''emitted_at'' ''emittedAt'' (ev_payload e)));
          p2 = put_if_some ''ended_at'' (map_option JInt ended) p1;
          p3 = foldl (\<lambda>d f. put_if_some f (map_of (ev_payload e) f) d) p2
                 [''generation_epoch'', ''generationEpoch'', ''sequence'']
      in old\<lparr>ev_payload := p3\<rparr>)"

text \<open>The last index from \<open>start\<close> on at which \<open>P\<close> holds.\<close>

definition last_from :: "nat \<Rightarrow> (stream_event \<Rightarrow> bool) \<Rightarrow> stream_event list \<Rightarrow> nat option" where
  "last_from start P es = find (\<lambda>i. P (es ! i)) (rev [start..<length es])"

definition merge_updates :: "obj \<Rightarrow> obj \<Rightarrow> obj" where
  "merge_updates d d' = foldl (\<lambda>acc (k, v). AList.update k v acc) d d'"

section \<open>The budget of the replay caches\<close>

record cache_budget =
  bg_total_limit :: int
  bg_session_limit :: int
  bg_entries :: "(string \<times> int) list"
  bg_total :: int
  bg_evictions :: nat

definition new_budget :: "int \<Rightarrow> int \<Rightarrow> py_exc + cache_budget" where
  "new_budget overall each =
     checked [(overall < 0 \<or> each < 0, ValueError ''Replay cache budgets must be non-negative'')]
       (Inr \<lparr>bg_total_limit = overall, bg_session_limit = each, bg_entries = [], bg_total = 0,
             bg_evictions = 0\<rparr>)"

definition budget_discard :: "string \<Rightarrow> cache_budget \<Rightarrow> cache_budget" where
  "budget_discard k b =
     b\<lparr>bg_entries := AList.delete k (bg_entries b),
       bg_total := bg_total b - (case map_of (bg_entries b) k of Some n \<Rightarrow> n | None \<Rightarrow> 0)\<rparr>"

definition budget_touch :: "string \<Rightarrow> cache_budget \<Rightarrow> cache_budget" where
  "budget_touch k b =
     (case map_of (bg_entries b) k of
        None \<Rightarrow> b
      | Some n \<Rightarrow> b\<lparr>bg_entries := AList.delete k (bg_entries b) @ [(k, n)]\<rparr>)"

text \<open>The loop of \<open>update\<close>: the oldest entries go until the rest fits.\<close>

fun shed :: "int \<Rightarrow> (string \<times> int) list \<Rightarrow> int \<Rightarrow> string list \<times> (string \<times> int) list \<times> int" where
  "shed limit [] held = ([], [], held)"
| "shed limit ((k, n) # es) held =
     (if held \<le> limit then ([], (k, n) # es, held)
      else let (gone, rest, t) = shed limit es (held - n) in (k # gone, rest, t))"

definition budget_update :: "string \<Rightarrow> int \<Rightarrow> cache_budget \<Rightarrow> string list \<times> cache_budget" where
  "budget_update k n b =
     (let b1 = budget_discard k b in
      if bg_session_limit b1 < n \<or> bg_total_limit b1 < n
      then ([k], b1\<lparr>bg_evictions := bg_evictions b1 + 1\<rparr>)
      else
        let (gone, rest, t) = shed (bg_total_limit b1) (bg_entries b1 @ [(k, n)]) (bg_total b1 + n)
        in (gone, b1\<lparr>bg_entries := rest, bg_total := t, bg_evictions := bg_evictions b1 + length gone\<rparr>))"

end
