(* ===== verification/Stream_Registry.thy ===== *)
theory Stream_Registry
  imports Streams
begin

text \<open>
  The registry of session streams (\<open>gateway/session_streams.py\<close>): what is kept of every session's events
  for clients that reconnect.

  \<^item> The dictionaries by session key are one function from the key to a record; a field whose entry the code
    tests for presence is an option, and the others read as their default when there is no entry.
  \<^item> Arguments: the clock, \<open>size\<close>, which is \<open>retained_bytes\<close> of the four replay roots of a session, and the
    two functions of \<open>terminal_activity.py\<close> that turn events into a snapshot: \<open>build\<close> with its check, and the
    check alone.
\<close>

section \<open>State\<close>

record session_stream =
  st_seq :: int
  st_events :: "stream_event list option"
  st_live :: "stream_event list option"
  st_manual :: "(string \<times> stream_event list) list"
  st_epoch :: "int option"
  st_live_task :: "string option option"
  st_live_epoch :: "int option"
  st_prefix :: "(string \<times> stream_event list) option"
  st_completed :: "stream_event list"
  st_reset_seqs :: "int list"
  st_resets :: "(int \<times> stream_event) list"
  st_floor :: int
  st_scoped_floor :: int
  st_boundary :: "stream_event option"
  st_unpersisted :: "string list"
  st_persisted :: "string option"

definition new_stream :: session_stream where
  "new_stream =
     \<lparr>st_seq = 0, st_events = None, st_live = None, st_manual = [], st_epoch = None, st_live_task = None,
      st_live_epoch = None, st_prefix = None, st_completed = [], st_reset_seqs = [], st_resets = [],
      st_floor = 0, st_scoped_floor = 0, st_boundary = None, st_unpersisted = [], st_persisted = None\<rparr>"

record streams =
  sr_max :: nat
  sr_generation :: string
  sr_streams :: "string \<Rightarrow> session_stream"
  sr_budget :: cache_budget
  sr_snapshots :: "(string \<times> obj) list"
  sr_snapshot_session :: "(string \<times> string) list"
  sr_task_order :: "string list"

definition new_streams :: "nat \<Rightarrow> string \<Rightarrow> cache_budget \<Rightarrow> streams" where
  "new_streams m gen b =
     \<lparr>sr_max = m, sr_generation = gen, sr_streams = (\<lambda>_. new_stream), sr_budget = b, sr_snapshots = [],
      sr_snapshot_session = [], sr_task_order = []\<rparr>"

record stream_env =
  en_str :: "json \<Rightarrow> string"
  en_size :: "session_stream \<Rightarrow> int"
  en_build :: "stream_event list \<Rightarrow> string \<Rightarrow> string \<Rightarrow> json \<Rightarrow> obj option"
  en_check :: "obj \<Rightarrow> string \<Rightarrow> string \<Rightarrow> obj option"

definition on_stream :: "string \<Rightarrow> (session_stream \<Rightarrow> session_stream) \<Rightarrow> streams \<Rightarrow> streams" where
  "on_stream k f r = r\<lparr>sr_streams := (sr_streams r)(k := f (sr_streams r k))\<rparr>"

section \<open>The replay caches\<close>

definition boundary_fields :: "string list" where
  "boundary_fields =
     [''task_id'', ''taskId'', ''turn_id'', ''turnId'', ''assistant_message_id'', ''assistantMessageId'',
      ''new_generation_epoch'', ''newGenerationEpoch'']"

definition evict_cache :: "session_stream \<Rightarrow> session_stream" where
  "evict_cache s =
     s\<lparr>st_floor := st_seq s,
       st_boundary :=
         (if st_resets s = [] then st_boundary s
          else let m = Max (set (map fst (st_resets s)))
               in case map_of (st_resets s) m of
                    None \<Rightarrow> st_boundary s
                  | Some e \<Rightarrow> Some \<lparr>ev_name = ev_name e,
                               ev_payload = filter (\<lambda>(f, v). f \<in> set boundary_fields) (ev_payload e),
                               ev_seq = ev_seq e\<rparr>),
       st_events := None, st_completed := [], st_resets := [], st_reset_seqs := []\<rparr>"

definition protected_stream :: "session_stream \<Rightarrow> bool" where
  "protected_stream s \<longleftrightarrow>
     st_persisted s = None \<or> st_unpersisted s \<noteq> [] \<or> st_live s \<noteq> None \<or> st_live_task s \<noteq> None
     \<or> st_manual s \<noteq> []"

definition refresh_budget :: "stream_env \<Rightarrow> string \<Rightarrow> streams \<Rightarrow> streams" where
  "refresh_budget env k r =
     (let s = sr_streams r k in
      if protected_stream s then r\<lparr>sr_budget := budget_discard k (sr_budget r)\<rparr>
      else if st_events s = None then r
      else
        let (gone, b) = budget_update k (en_size env s) (sr_budget r)
        in fold (\<lambda>g. on_stream g evict_cache) gone (r\<lparr>sr_budget := b\<rparr>))"

definition mark_terminal_persisted ::
  "stream_env \<Rightarrow> string \<Rightarrow> string \<Rightarrow> bool \<Rightarrow> streams \<Rightarrow> streams" where
  "mark_terminal_persisted env k task reconstructible r =
     (if \<not> reconstructible then r
      else refresh_budget env k
             (on_stream k (\<lambda>s. s\<lparr>st_persisted := Some task,
                                 st_unpersisted := removeAll task (st_unpersisted s)\<rparr>) r))"

section \<open>Trimming\<close>

definition scoped_eviction :: "stream_event \<Rightarrow> session_stream \<Rightarrow> session_stream" where
  "scoped_eviction e s =
     (if model_call_id (ev_payload e) \<noteq> []
      then s\<lparr>st_scoped_floor := max (st_scoped_floor s) (ev_seq e)\<rparr> else s)"

text \<open>The event that one turn of the loop removes, and what is left.\<close>

definition trim_victim :: "stream_event list \<Rightarrow> nat" where
  "trim_victim es =
     (case find (\<lambda>i. is_replay_lossy (ev_name (es ! i)) (ev_payload (es ! i))) [0..<length es] of
        Some i \<Rightarrow> i
      | None \<Rightarrow>
          (case find (\<lambda>i. \<not> (is_generation_reset (ev_name (es ! i)) \<or> is_completed_turn_event (ev_name (es ! i))))
                  [0..<length es] of
             Some i \<Rightarrow> i
           | None \<Rightarrow> 0))"

lemma find_index_less: "find P [0..<n] = Some i \<Longrightarrow> i < n"
  by (auto simp: find_Some_iff)

lemma trim_victim_less: "es \<noteq> [] \<Longrightarrow> trim_victim es < length es"
  by (auto simp: trim_victim_def dest: find_index_less split: option.splits)

function trim_events :: "nat \<Rightarrow> stream_event list \<Rightarrow> session_stream \<Rightarrow> stream_event list \<times> session_stream" where
  "trim_events m es s =
     (if length es \<le> m then (es, s)
      else let i = trim_victim es
           in trim_events m (take i es @ drop (Suc i) es) (scoped_eviction (es ! i) s))"
  by auto

termination
proof (relation "measure (\<lambda>(m, es, s). length es)")
  fix m :: nat and es :: "stream_event list" and s :: session_stream and i
  assume "\<not> length es \<le> m" "i = trim_victim es"
  moreover have "trim_victim es < length es" using calculation by (intro trim_victim_less) auto
  ultimately show "((m, take i es @ drop (Suc i) es, scoped_eviction (es ! i) s), (m, es, s))
      \<in> measure (\<lambda>(m, es, s). length es)" by simp
qed simp

declare trim_events.simps [simp del]

section \<open>The live view\<close>

definition clear_live :: "session_stream \<Rightarrow> session_stream" where
  "clear_live s = s\<lparr>st_live := None, st_live_task := None, st_live_epoch := None, st_prefix := None\<rparr>"

definition live_of :: "session_stream \<Rightarrow> stream_event list" where
  "live_of s = (case st_live s of Some es \<Rightarrow> es | None \<Rightarrow> [])"

definition live_task_of :: "session_stream \<Rightarrow> string option" where
  "live_task_of s = (case st_live_task s of Some t \<Rightarrow> t | None \<Rightarrow> None)"

definition valid_call_reset :: "stream_event \<Rightarrow> session_stream \<Rightarrow> bool" where
  "valid_call_reset e s \<longleftrightarrow>
     (let d = ev_payload e;
          failed = (case jget ''rollback_model_call_id'' d of JStr c \<Rightarrow> py_strip c | _ \<Rightarrow> [])
      in case (int_from 0 (jget ''old_generation_epoch'' d), reset_new_epoch d) of
           (Some old_epoch, Some new_epoch) \<Rightarrow>
             if new_epoch \<le> old_epoch \<or> failed = [] then False
             else if stream_task_id d \<noteq> None \<and> stream_task_id d \<noteq> live_task_of s then True
             else if (case st_prefix s of Some (c, _) \<Rightarrow> c \<noteq> failed | None \<Rightarrow> False) then False
             else (case st_live_epoch s of None \<Rightarrow> True | Some c \<Rightarrow> old_epoch = c)
         | _ \<Rightarrow> False)"

definition by_seq :: "stream_event list \<Rightarrow> stream_event list" where
  "by_seq es = sort_key ev_seq es"

text \<open>\<open>_record_generation_reset\<close>: the branch of a provider call, and the branch of an answer.\<close>

definition record_call_reset :: "stream_event \<Rightarrow> session_stream \<Rightarrow> session_stream" where
  "record_call_reset e s =
     (let d = ev_payload e;
          failed = (case jget ''rollback_model_call_id'' d of JStr c \<Rightarrow> py_strip c | _ \<Rightarrow> [])
      in case reset_new_epoch d of
           None \<Rightarrow> s
         | Some new_epoch \<Rightarrow>
             if (case st_live_epoch s of
                   None \<Rightarrow> False
                 | Some c \<Rightarrow> new_epoch \<le> c \<or> \<not> json_int_eq (jget ''old_generation_epoch'' d) c)
             then s
             else if failed = [] then s
             else
               let prefix =
                     (case st_prefix s of
                        Some (c, pre) \<Rightarrow>
                          if c = failed
                          then pre @ filter (\<lambda>x. ev_seq x \<notin> ev_seq ` set pre
                                                 \<and> is_completed_turn_event (ev_name x)) (live_of s)
                          else filter (\<lambda>x. model_call_id (ev_payload x) \<noteq> failed) (live_of s)
                      | None \<Rightarrow> filter (\<lambda>x. model_call_id (ev_payload x) \<noteq> failed) (live_of s));
                   kept = by_seq (filter (\<lambda>x. ev_name x \<noteq> ''session.event.tool_input_preview'') prefix)
               in s\<lparr>st_live := Some (kept @ [e]), st_live_epoch := Some new_epoch, st_prefix := None\<rparr>)"

definition approval_id :: "stream_event \<Rightarrow> string option" where
  "approval_id e = identity_value [''approval_id'', ''approvalId''] (ev_payload e)"

definition record_answer_reset :: "(json \<Rightarrow> string) \<Rightarrow> stream_event \<Rightarrow> session_stream \<Rightarrow> session_stream" where
  "record_answer_reset show e s =
     (let old = live_of s;
          mine = filter (\<lambda>x. same_turn_identity x e) old;
          tool = (\<lambda>x. tool_id show (ev_payload x));
          started = map tool (filter (\<lambda>x. ev_name x = ''session.event.tool_use_start'') mine);
          completed = map tool (filter (\<lambda>x. ev_name x = ''session.event.tool_use_end''
                        \<or> ev_name x = ''session.event.tool_result'' \<and> tool x \<in> set started) mine);
          resolved = map approval_id (filter (\<lambda>x. suffix ''.approval.resolved'' (ev_name x)) mine);
          preserved = filter (\<lambda>x.
              is_completed_turn_event (ev_name x)
              \<or> ev_name x = ''session.event.compaction''
              \<or> (suffix ''.approval.requested'' (ev_name x) \<or> suffix ''.approval.resolved'' (ev_name x))
                \<and> approval_id x \<in> set resolved
              \<or> ev_name x \<in> {''session.event.tool_use_start'', ''session.event.tool_use_delta'',
                            ''session.event.tool_use_end''}
                \<and> tool x \<in> set completed) mine
      in s\<lparr>st_prefix := None, st_live := Some (by_seq preserved @ [e]),
           st_live_epoch := reset_new_epoch (ev_payload e)\<rparr>)"

definition record_reset :: "(json \<Rightarrow> string) \<Rightarrow> stream_event \<Rightarrow> session_stream \<Rightarrow> session_stream" where
  "record_reset show e s =
     (if jget ''reset_scope'' (ev_payload e) = JStr ''provider_call'' then record_call_reset e s
      else record_answer_reset show e s)"

text \<open>Where a new event goes among the live ones: into the place of one of them, or to the end.\<close>

definition place_thinking :: "(json \<Rightarrow> string) \<Rightarrow> nat \<Rightarrow> stream_event \<Rightarrow> stream_event list \<Rightarrow> stream_event list option" where
  "place_thinking show start e es =
     map_option (\<lambda>i. es[i := compacted show ''text'' (es ! i) e])
       (last_from start (\<lambda>x. ev_name x = ev_name e
          \<and> thinking_block_id (ev_payload x) = thinking_block_id (ev_payload e)
          \<and> same_text_model_call (ev_payload x) (ev_payload e)
          \<and> generation_epoch (ev_payload x) \<in> {None, generation_epoch (ev_payload e)}) es)"

definition place_tool_delta :: "(json \<Rightarrow> string) \<Rightarrow> nat \<Rightarrow> stream_event \<Rightarrow> stream_event list \<Rightarrow> stream_event list option" where
  "place_tool_delta show start e es =
     map_option (\<lambda>i.
         let field = delta_field (ev_payload (es ! i));
             incoming = delta_field (ev_payload e);
             normalized = (if incoming = field then e
                           else e\<lparr>ev_payload := AList.update field (jget_or incoming (JStr []) (ev_payload e))
                                                  (AList.delete incoming (ev_payload e))\<rparr>)
         in es[i := compacted show field (es ! i) normalized])
       (last_from start (\<lambda>x. ev_name x = ev_name e
          \<and> tool_id show (ev_payload x) = tool_id show (ev_payload e)
          \<and> generation_epoch (ev_payload x) \<in> {None, generation_epoch (ev_payload e)}) es)"

definition place_text :: "(json \<Rightarrow> string) \<Rightarrow> stream_event \<Rightarrow> stream_event list \<Rightarrow> stream_event list" where
  "place_text show e es =
     (let x = last es in
      if ev_name x \<noteq> ev_name e then es @ [e]
      else if \<not> same_text_model_call (ev_payload x) (ev_payload e) then es @ [e]
      else if \<not> py_eq (jget ''presentation'' (ev_payload x)) (jget ''presentation'' (ev_payload e)) then es @ [e]
      else if generation_epoch (ev_payload x) \<noteq> None \<and> generation_epoch (ev_payload e) \<noteq> None
              \<and> generation_epoch (ev_payload x) \<noteq> generation_epoch (ev_payload e) then es @ [e]
      else butlast es @ [compacted show ''text'' x e])"

definition place_preview :: "nat \<Rightarrow> stream_event \<Rightarrow> stream_event list \<Rightarrow> stream_event list option" where
  "place_preview start e es =
     map_option (\<lambda>i. es[i := e])
       (last_from start (\<lambda>x. ev_name x = ev_name e
          \<and> py_eq (jget ''preview_id'' (ev_payload x)) (jget ''preview_id'' (ev_payload e))) es)"

definition place_heartbeat :: "stream_event \<Rightarrow> stream_event list \<Rightarrow> stream_event list option" where
  "place_heartbeat e es = map_option (\<lambda>i. es[i := e]) (last_from 0 (\<lambda>x. ev_name x = ev_name e) es)"

definition place_activity :: "(json \<Rightarrow> string) \<Rightarrow> stream_event \<Rightarrow> stream_event list \<Rightarrow> stream_event list option" where
  "place_activity show e es =
     map_option (\<lambda>i.
         let x = es ! i;
             p1 = AList.update ''stream_seq'' (JInt (ev_seq x)) (merge_updates (ev_payload x) (ev_payload e));
             p2 = put_if_some ''started_at'' (map_of (ev_payload x) ''started_at'') p1
         in es[i := x\<lparr>ev_payload := p2\<rparr>])
       (last_from 0 (\<lambda>x. ev_name x = ev_name e
          \<and> str_or_empty show (jget ''activity_id'' (ev_payload x)) = str_or_empty show (jget ''activity_id'' (ev_payload e))
          \<and> str_or_empty show (jget ''phase'' (ev_payload x)) = str_or_empty show (jget ''phase'' (ev_payload e))) es)"

definition place_event :: "(json \<Rightarrow> string) \<Rightarrow> stream_event \<Rightarrow> stream_event list \<Rightarrow> stream_event list" where
  "place_event show e es =
     (let start = (case last_from 0 (\<lambda>x. is_generation_reset (ev_name x)) es of Some i \<Rightarrow> Suc i | None \<Rightarrow> 0);
          placed =
            (if ev_name e = ''session.event.thinking'' then place_thinking show start e es
             else if ev_name e = ''session.event.tool_use_delta'' then place_tool_delta show start e es
             else if ev_name e = text_delta \<and> start < length es then Some (place_text show e es)
             else if ev_name e = ''session.event.tool_input_preview'' then place_preview start e es
             else if ev_name e = ''session.event.run_heartbeat'' then place_heartbeat e es
             else if ev_name e = ''session.event.provider_activity'' \<and> jget ''heartbeat'' (ev_payload e) = JBool True
             then place_activity show e es
             else None)
      in case placed of Some es' \<Rightarrow> es' | None \<Rightarrow> es @ [e])"

definition checkpoint_events :: "string list" where
  "checkpoint_events =
     [text_delta, ''session.event.thinking'', ''session.event.thinking_start'', ''session.event.thinking_end'']"

text \<open>The part of \<open>_record_live_event\<close> after the epoch of the turn is known.\<close>

definition record_progress :: "(json \<Rightarrow> string) \<Rightarrow> stream_event \<Rightarrow> session_stream \<Rightarrow> session_stream" where
  "record_progress show e s =
     (let es = live_of s;
          call = model_call_id (ev_payload e);
          prefix = (if call \<noteq> [] \<and> ev_name e \<in> set checkpoint_events
                       \<and> (case st_prefix s of Some (c, _) \<Rightarrow> c \<noteq> call | None \<Rightarrow> True)
                    then Some (call, es) else st_prefix s)
      in s\<lparr>st_live := Some (place_event show e es), st_prefix := prefix\<rparr>)"

definition newer_epoch :: "int option \<Rightarrow> int option \<Rightarrow> int option" where
  "newer_epoch current new =
     (case (current, new) of
        (None, Some n) \<Rightarrow> Some n
      | (Some c, Some n) \<Rightarrow> if c < n then Some n else Some c
      | _ \<Rightarrow> current)"

text \<open>Maintenance that a user started.\<close>

definition is_manual :: "(json \<Rightarrow> string) \<Rightarrow> stream_event \<Rightarrow> bool" where
  "is_manual show e \<longleftrightarrow>
     ev_name e = ''session.event.compaction''
     \<and> py_lower (str_or_empty show (jget ''source'' (ev_payload e))) = ''manual''"

text \<open>The loop that drops the oldest operations while there are more than \<open>max(1, max_events)\<close>.\<close>

definition newest_ops :: "nat \<Rightarrow> 'a list \<Rightarrow> 'a list" where
  "newest_ops n xs = drop (length xs - max 1 n) xs"

definition record_manual :: "nat \<Rightarrow> (json \<Rightarrow> string) \<Rightarrow> stream_event \<Rightarrow> session_stream \<Rightarrow> session_stream" where
  "record_manual m show e s =
     (case identity_value [''compaction_id'', ''compactionId''] (ev_payload e) of
        None \<Rightarrow> s
      | Some i \<Rightarrow>
          let status = py_lower (str_or_empty show (jget ''status'' (ev_payload e))) in
          if status \<in> {''started'', ''observed'', ''running''}
          then let progress = (case map_of (st_manual s) i of Some p \<Rightarrow> p | None \<Rightarrow> []);
                   next = (case progress of
                             x # _ \<Rightarrow> if jget ''status'' (ev_payload x) = JStr ''started'' then [x, e] else [e]
                           | [] \<Rightarrow> [e])
               in s\<lparr>st_manual := newest_ops m (AList.update i next (st_manual s))\<rparr>
          else s\<lparr>st_manual := AList.delete i (st_manual s)\<rparr>)"

section \<open>Snapshots of finished tasks\<close>

definition max_snapshots :: nat where "max_snapshots = 64"

text \<open>The loop that drops the oldest tasks beyond the bound.\<close>

definition drop_stale_tasks :: "streams \<Rightarrow> streams" where
  "drop_stale_tasks r =
     (let stale = take (length (sr_task_order r) - max_snapshots) (sr_task_order r)
      in r\<lparr>sr_task_order := drop (length (sr_task_order r) - max_snapshots) (sr_task_order r),
           sr_snapshots := filter (\<lambda>(t, _). t \<notin> set stale) (sr_snapshots r),
           sr_snapshot_session := filter (\<lambda>(t, _). t \<notin> set stale) (sr_snapshot_session r)\<rparr>)"

definition store_snapshot :: "stream_env \<Rightarrow> string \<Rightarrow> stream_event \<Rightarrow> streams \<Rightarrow> streams" where
  "store_snapshot env k e r =
     (case stream_task_id (ev_payload e) of
        None \<Rightarrow> r
      | Some task \<Rightarrow>
          let events = by_seq (live_of (sr_streams r k) @ [e]);
              turn = (case identity_value [''turn_id'', ''turnId''] (ev_payload e) of Some t \<Rightarrow> t | None \<Rightarrow> task)
          in case en_build env events task turn (jget ''emitted_at'' (ev_payload e)) of
               None \<Rightarrow> r
             | Some snapshot \<Rightarrow>
                 drop_stale_tasks
                   (r\<lparr>sr_task_order := (if map_of (sr_snapshots r) task = None then sr_task_order r @ [task]
                                        else sr_task_order r),
                      sr_snapshots := AList.update task snapshot (sr_snapshots r),
                      sr_snapshot_session := AList.update task k (sr_snapshot_session r)\<rparr>))"

definition take_snapshot ::
  "stream_env \<Rightarrow> string \<Rightarrow> string \<Rightarrow> string \<Rightarrow> json \<Rightarrow> streams \<Rightarrow> obj option \<times> streams" where
  "take_snapshot env k task turn terminal_at r =
     (case map_of (sr_snapshots r) task of
        Some frozen \<Rightarrow>
          (en_check env frozen task turn,
           r\<lparr>sr_snapshots := AList.delete task (sr_snapshots r),
             sr_snapshot_session := AList.delete task (sr_snapshot_session r),
             sr_task_order := remove1 task (sr_task_order r)\<rparr>)
      | None \<Rightarrow>
          let s = sr_streams r k in
          if live_task_of s \<noteq> Some task then (None, r)
          else case en_build env (live_of s) task turn terminal_at of
                 None \<Rightarrow> (None, r)
               | Some snapshot \<Rightarrow> (Some snapshot, on_stream k clear_live r))"

section \<open>Recording\<close>

text \<open>\<open>_record_live_event\<close> on the session; a terminal event stores its snapshot first, see \<open>record_live\<close>.\<close>

definition begin_live :: "stream_event \<Rightarrow> session_stream \<Rightarrow> session_stream" where
  "begin_live e s =
     (let task = stream_task_id (ev_payload e);
          s1 = (if task \<noteq> None \<and> task \<noteq> live_task_of s then clear_live s else s)
      in if task \<noteq> None then s1\<lparr>st_live_task := Some task\<rparr>
         else if st_live_task s1 = None then s1\<lparr>st_live_task := Some None\<rparr>
         else s1)"

definition record_turn_event :: "(json \<Rightarrow> string) \<Rightarrow> stream_event \<Rightarrow> session_stream \<Rightarrow> session_stream" where
  "record_turn_event show e s =
     (if is_generation_reset (ev_name e) then record_reset show e s
      else
        let epoch = newer_epoch (st_live_epoch s) (generation_epoch (ev_payload e));
            s1 = s\<lparr>st_live_epoch := epoch\<rparr>
        in if is_stale epoch e then s1 else record_progress show e s1)"

definition record_live :: "stream_env \<Rightarrow> string \<Rightarrow> stream_event \<Rightarrow> streams \<Rightarrow> streams" where
  "record_live env k e r =
     (if is_manual (en_str env) e then on_stream k (record_manual (sr_max r) (en_str env) e) r
      else if ev_name e = committed_event
      then if stream_task_id (ev_payload e) \<noteq> None
              \<and> stream_task_id (ev_payload e) = live_task_of (sr_streams r k)
           then on_stream k clear_live r else r
      else
        let r1 = on_stream k (begin_live e) r in
        if ev_name e \<in> {''session.event.done'', ''session.event.error''}
        then on_stream k clear_live (store_snapshot env k e r1)
        else on_stream k (record_turn_event (en_str env) e) r1)"

definition advance_epoch :: "int \<Rightarrow> session_stream \<Rightarrow> session_stream" where
  "advance_epoch n s =
     (if n \<le> (case st_epoch s of Some c \<Rightarrow> c | None \<Rightarrow> -1) then s
      else s\<lparr>st_epoch := Some n, st_manual := []\<rparr>)"

definition max_safe_integer :: int where
  "max_safe_integer = 2 ^ 53 - 1"

definition promote_cursor :: "int option \<Rightarrow> session_stream \<Rightarrow> bool \<times> session_stream" where
  "promote_cursor since s =
     (case since of
        None \<Rightarrow> (False, s)
      | Some n \<Rightarrow>
          if \<not> (0 \<le> n \<and> n < max_safe_integer) then (False, s)
          else if n \<le> st_seq s then (False, s)
          else (True, s\<lparr>st_seq := n\<rparr>))"

definition enriched :: "string \<Rightarrow> string \<Rightarrow> int \<Rightarrow> int \<Rightarrow> obj \<Rightarrow> obj" where
  "enriched gen k seq now d =
     AList.update ''emitted_at'' (JInt now) (AList.update ''stream_seq'' (JInt seq)
       (AList.update ''stream_generation'' (JStr gen) (AList.update ''session_key'' (JStr k) d)))"

text \<open>A progress frame of maintenance from before a reset of the durable session.\<close>

definition retired_manual :: "(json \<Rightarrow> string) \<Rightarrow> stream_event \<Rightarrow> session_stream \<Rightarrow> bool" where
  "retired_manual show e s \<longleftrightarrow>
     is_manual show e
     \<and> (case st_epoch s of
          None \<Rightarrow> False
        | Some c \<Rightarrow> (case json_int (jget ''epoch'' (ev_payload e)) of None \<Rightarrow> True | Some n \<Rightarrow> n < c))"

definition is_call_reset :: "stream_event \<Rightarrow> bool" where
  "is_call_reset e \<longleftrightarrow>
     is_generation_reset (ev_name e) \<and> jget ''reset_scope'' (ev_payload e) = JStr ''provider_call''"

definition buffer_event :: "nat \<Rightarrow> stream_event \<Rightarrow> session_stream \<Rightarrow> session_stream" where
  "buffer_event m e s =
     (let events = (case st_events s of Some es \<Rightarrow> es | None \<Rightarrow> []) @ [e];
          s1 = (if is_generation_reset (ev_name e)
                then s\<lparr>st_reset_seqs := st_reset_seqs s @ [ev_seq e],
                       st_resets := AList.update (ev_seq e) e (st_resets s)\<rparr>
                else s);
          s2 = (if is_completed_turn_event (ev_name e)
                then s1\<lparr>st_completed := drop (length (st_completed s1) + 1 - m) (st_completed s1 @ [e])\<rparr>
                else s1);
          (left, s3) = trim_events m events s2
      in s3\<lparr>st_events := Some left\<rparr>)"

definition note_task :: "stream_event \<Rightarrow> session_stream \<Rightarrow> session_stream" where
  "note_task e s =
     (case stream_task_id (ev_payload e) of
        None \<Rightarrow> s
      | Some t \<Rightarrow>
          if ev_name e = ''session.event.compaction'' \<and> jget ''source'' (ev_payload e) = JStr ''manual'' then s
          else if st_persisted s = Some t then s
          else s\<lparr>st_unpersisted := List.insert t (st_unpersisted s)\<rparr>)"

definition next_event :: "string \<Rightarrow> string \<Rightarrow> obj \<Rightarrow> int \<Rightarrow> streams \<Rightarrow> stream_event" where
  "next_event k name d now r =
     (let seq = st_seq (sr_streams r k) + 1
      in \<lparr>ev_name = name, ev_payload = enriched (sr_generation r) k seq now d, ev_seq = seq\<rparr>)"

definition counted :: "stream_event \<Rightarrow> session_stream \<Rightarrow> session_stream" where
  "counted e s =
     (let s1 = s\<lparr>st_seq := ev_seq e\<rparr>
      in case int_from 0 (jget ''epoch'' (ev_payload e)) of
           Some n \<Rightarrow> advance_epoch n s1 | None \<Rightarrow> s1)"

definition record_event ::
  "stream_env \<Rightarrow> string \<Rightarrow> string \<Rightarrow> obj \<Rightarrow> int \<Rightarrow> streams \<Rightarrow> obj option \<times> streams" where
  "record_event env k name d now r =
     (let e = next_event k name d now r;
          r1 = on_stream k (counted e) r;
          s1 = sr_streams r1 k
      in if retired_manual (en_str env) e s1 then (Some (ev_payload e), r1)
         else if is_call_reset e \<and> \<not> valid_call_reset e s1 then (None, r1)
         else
           let r2 = on_stream k (buffer_event (sr_max r) e) r1;
               r3 = record_live env k e r2;
               r4 = on_stream k (note_task e) r3
           in (Some (ev_payload e), refresh_budget env k r4))"

definition evict :: "string \<Rightarrow> streams \<Rightarrow> streams" where
  "evict k r =
     (let mine = map fst (filter (\<lambda>(t, s). s = k) (sr_snapshot_session r))
      in r\<lparr>sr_streams := (sr_streams r)(k := new_stream),
           sr_budget := budget_discard k (sr_budget r),
           sr_snapshots := filter (\<lambda>(t, _). t \<notin> set mine) (sr_snapshots r),
           sr_snapshot_session := filter (\<lambda>(t, _). t \<notin> set mine) (sr_snapshot_session r),
           sr_task_order := filter (\<lambda>t. t \<notin> set mine) (sr_task_order r)\<rparr>)"

section \<open>Reading\<close>

record live_turn =
  lt_generation :: string
  lt_current :: int
  lt_task :: "string option"
  lt_events :: "stream_event list"

definition live_snapshot :: "string \<Rightarrow> streams \<Rightarrow> live_turn" where
  "live_snapshot k r =
     (let s = sr_streams r k
      in \<lparr>lt_generation = sr_generation r, lt_current = st_seq s, lt_task = live_task_of s,
          lt_events = by_seq (live_of s @ concat (map snd (st_manual s)))\<rparr>)"

datatype gap =
    StreamGenerationChanged
  | StreamBufferReset
  | CursorAhead
  | BufferWindowMissed
  | ResetBoundaryMissed
  | StreamBufferEmpty

record replay_result =
  rr_generation :: string
  rr_current :: int
  rr_complete :: bool
  rr_events :: "stream_event list"
  rr_gap :: "gap option"

text \<open>The epoch that the last earlier reset of the same turn began.\<close>

definition replay_epoch :: "stream_event \<Rightarrow> stream_event list \<Rightarrow> int option" where
  "replay_epoch e resets =
     (case find (\<lambda>x. ev_seq x < ev_seq e \<and> same_generation_identity e x) (rev resets) of
        Some x \<Rightarrow> reset_new_epoch (ev_payload x) | None \<Rightarrow> None)"

definition rolled_back :: "stream_event list \<Rightarrow> stream_event \<Rightarrow> bool" where
  "rolled_back call_resets e \<longleftrightarrow>
     is_generation_lossy (ev_name e)
     \<and> list_ex (\<lambda>x. same_generation_identity e x
                    \<and> jget ''rollback_model_call_id'' (ev_payload x) = JStr (model_call_id (ev_payload e)))
         call_resets"

definition replayed_plain :: "int \<Rightarrow> stream_event list \<Rightarrow> stream_event list \<Rightarrow> stream_event list" where
  "replayed_plain since resets es =
     filter (\<lambda>e. since < ev_seq e
                 \<and> (is_generation_reset (ev_name e) \<or> \<not> is_stale (replay_epoch e resets) e)) es"

definition replayed_calls :: "int \<Rightarrow> stream_event list \<Rightarrow> stream_event list \<Rightarrow> stream_event list" where
  "replayed_calls since resets es =
     filter (\<lambda>e. since < ev_seq e
                 \<and> (let epoch = replay_epoch e resets
                    in if is_generation_reset (ev_name e)
                       then (case epoch of
                               None \<Rightarrow> True
                             | Some c \<Rightarrow> (case reset_new_epoch (ev_payload e) of None \<Rightarrow> False | Some n \<Rightarrow> c < n))
                       else \<not> is_stale epoch e)) es"

text \<open>A dictionary from sequence numbers, built from two lists in turn.\<close>

definition seq_dict :: "stream_event list \<Rightarrow> (int \<times> stream_event) list \<Rightarrow> (int \<times> stream_event) list" where
  "seq_dict es d = foldl (\<lambda>acc e. AList.update (ev_seq e) e acc) d es"

definition replayed_answer ::
  "int \<Rightarrow> stream_event \<Rightarrow> stream_event list \<Rightarrow> stream_event list \<Rightarrow> stream_event list \<Rightarrow> stream_event list" where
  "replayed_answer since first resets completed es =
     (let between = (\<lambda>e. since < ev_seq e \<and> ev_seq e < ev_seq first);
          candidates = seq_dict (filter (\<lambda>e. between e \<and> is_completed_turn_event (ev_name e) \<and> preserve_completed e first) es)
                         (seq_dict (filter (\<lambda>e. between e \<and> preserve_completed e first) completed) [])
      in by_seq (map snd candidates) @ [first]
         @ replayed_plain (ev_seq first) resets es)"

definition replay_streams :: "session_stream \<Rightarrow> int \<Rightarrow> stream_event list \<Rightarrow> bool \<times> stream_event list \<times> gap option" where
  "replay_streams s since all =
     (let reset_seqs = filter (\<lambda>n. since < n) (st_reset_seqs s) in
      if all = []
      then (False, [], Some (if reset_seqs \<noteq> [] then ResetBoundaryMissed else StreamBufferEmpty))
      else
        let complete = (ev_seq (hd all) - 1 \<le> since \<and> st_scoped_floor s \<le> since);
            resets = by_seq (map snd (st_resets s) @ (case st_boundary s of Some b \<Rightarrow> [b] | None \<Rightarrow> []));
            call_resets = filter (\<lambda>x. jget ''reset_scope'' (ev_payload x) = JStr ''provider_call'') (map snd (st_resets s));
            es = (if call_resets \<noteq> [] then filter (\<lambda>e. \<not> rolled_back call_resets e) all else all);
            missed = (if complete then None else Some BufferWindowMissed)
        in if reset_seqs = [] then (complete, replayed_plain since resets es, missed)
           else
             let named = (\<lambda>n. find (\<lambda>e. ev_seq e = n) (rev es));
                 answers = filter (\<lambda>n. case named n of
                     Some e \<Rightarrow> jget ''reset_scope'' (ev_payload e) \<noteq> JStr ''provider_call'' | None \<Rightarrow> False) reset_seqs;
                 first_seq = (case answers of n # _ \<Rightarrow> n | [] \<Rightarrow> hd reset_seqs)
             in if list_ex (\<lambda>n. named n = None) reset_seqs
                then (False, filter (\<lambda>e. since < ev_seq e) es, Some ResetBoundaryMissed)
                else case named first_seq of
                       None \<Rightarrow> (False, filter (\<lambda>e. since < ev_seq e) es, Some ResetBoundaryMissed)
                     | Some first \<Rightarrow>
                         if answers = [] then (complete, replayed_calls since resets es, missed)
                         else (True, replayed_answer since first resets (st_completed s) es, None))"

definition replay_since ::
  "string \<Rightarrow> int option \<Rightarrow> string option \<Rightarrow> streams \<Rightarrow> replay_result \<times> streams" where
  "replay_since k since gen r =
     (let s = sr_streams r k;
          result = (\<lambda>(complete, es, g). \<lparr>rr_generation = sr_generation r, rr_current = st_seq s,
                      rr_complete = complete, rr_events = es, rr_gap = g\<rparr>)
      in (result
            (if (case gen of None \<Rightarrow> False | Some g \<Rightarrow> g \<noteq> sr_generation r)
             then (False, [], Some StreamGenerationChanged)
             else case since of
                    None \<Rightarrow> (True, [], None)
                  | Some n \<Rightarrow>
                      if st_seq s = 0 then (n = 0, [], if n = 0 then None else Some StreamBufferReset)
                      else if st_seq s < n then (False, [], Some CursorAhead)
                      else if n = st_seq s then (True, [], None)
                      else if n < st_floor s then (False, [], Some BufferWindowMissed)
                      else replay_streams s n (case st_events s of Some es \<Rightarrow> es | None \<Rightarrow> [])),
          r\<lparr>sr_budget := budget_touch k (sr_budget r)\<rparr>))"

end
