(* ===== verification/Stream_Machine.thy ===== *)
theory Stream_Machine
  imports Stream_Registry
begin

text \<open>
  The registry of session streams as a machine, with the events that were recorded for one session beside
  it, and the budget: the caches that it may take are those of sessions that nothing protects.
\<close>

section \<open>The machine\<close>

datatype stream_op =
    SRecord string string obj int
  | SPersisted string string bool
  | STake string string string json
  | SEvict string
  | SPromote string "int option"
  | SAdvance string int
  | SReplay string "int option" "string option"

primrec stream_step :: "stream_env \<Rightarrow> stream_op \<Rightarrow> streams \<Rightarrow> streams" where
  "stream_step env (SRecord k name d now) r = snd (record_event env k name d now r)"
| "stream_step env (SPersisted k task reconstructible) r = mark_terminal_persisted env k task reconstructible r"
| "stream_step env (STake k task turn ended) r = snd (take_snapshot env k task turn ended r)"
| "stream_step env (SEvict k) r = evict k r"
| "stream_step env (SPromote k since) r = on_stream k (\<lambda>s. snd (promote_cursor since s)) r"
| "stream_step env (SAdvance k n) r = on_stream k (advance_epoch n) r"
| "stream_step env (SReplay k since gen) r = snd (replay_since k since gen r)"

primrec target :: "stream_op \<Rightarrow> string" where
  "target (SRecord k _ _ _) = k"
| "target (SPersisted k _ _) = k"
| "target (STake k _ _ _) = k"
| "target (SEvict k) = k"
| "target (SPromote k _) = k"
| "target (SAdvance k _) = k"
| "target (SReplay k _ _) = k"

text \<open>The events of a session that were put into its buffer since it was last evicted.\<close>

definition accepted :: "stream_env \<Rightarrow> string \<Rightarrow> string \<Rightarrow> obj \<Rightarrow> int \<Rightarrow> streams \<Rightarrow> bool" where
  "accepted env k name d now r \<longleftrightarrow>
     (let e = next_event k name d now r; s = counted e (sr_streams r k)
      in \<not> retired_manual (en_str env) e s \<and> \<not> (is_call_reset e \<and> \<not> valid_call_reset e s))"

definition extend_history ::
  "stream_env \<Rightarrow> string \<Rightarrow> stream_op \<Rightarrow> streams \<Rightarrow> stream_event list \<Rightarrow> stream_event list" where
  "extend_history env k a r h =
     (case a of
        SRecord k' name d now \<Rightarrow>
          if k' = k \<and> accepted env k name d now r then h @ [next_event k name d now r] else h
      | SEvict k' \<Rightarrow> if k' = k then [] else h
      | _ \<Rightarrow> h)"

definition tracked_step ::
  "stream_env \<Rightarrow> string \<Rightarrow> stream_op \<Rightarrow> streams \<times> stream_event list \<Rightarrow> streams \<times> stream_event list" where
  "tracked_step env k a c = (stream_step env a (fst c), extend_history env k a (fst c) (snd c))"

section \<open>What the operations on the live view leave alone\<close>

definition replay_part :: "session_stream \<Rightarrow> session_stream" where
  "replay_part s = s\<lparr>st_live := None, st_manual := [], st_epoch := None, st_live_task := None,
     st_live_epoch := None, st_prefix := None, st_unpersisted := [], st_persisted := None\<rparr>"

lemma replay_part_eq: "replay_part s' = replay_part s \<Longrightarrow>
    st_seq s' = st_seq s \<and> st_events s' = st_events s \<and> st_completed s' = st_completed s
    \<and> st_reset_seqs s' = st_reset_seqs s \<and> st_resets s' = st_resets s \<and> st_floor s' = st_floor s
    \<and> st_scoped_floor s' = st_scoped_floor s \<and> st_boundary s' = st_boundary s"
  by (cases s; cases s') (simp add: replay_part_def)

lemma live_parts [simp]:
  "replay_part (clear_live s) = replay_part s"
  "replay_part (begin_live e s) = replay_part s"
  "replay_part (record_manual m show e s) = replay_part s"
  "replay_part (record_call_reset e s) = replay_part s"
  "replay_part (record_answer_reset show e s) = replay_part s"
  "replay_part (record_progress show e s) = replay_part s"
  "replay_part (note_task e s) = replay_part s"
  "replay_part (advance_epoch n s) = replay_part s"
  by (simp_all add: replay_part_def clear_live_def begin_live_def record_manual_def record_call_reset_def
      record_answer_reset_def record_progress_def note_task_def advance_epoch_def Let_def
      split: option.splits if_splits)

lemma record_turn_part [simp]: "replay_part (record_turn_event show e s) = replay_part s"
proof -
  have "replay_part (s\<lparr>st_live_epoch := x\<rparr>) = replay_part s" for x by (simp add: replay_part_def)
  then show ?thesis by (simp add: record_turn_event_def record_reset_def Let_def)
qed

lemma counted_part: "replay_part (counted e s) = replay_part (s\<lparr>st_seq := ev_seq e\<rparr>)"
  by (simp add: counted_def Let_def split: option.split)

lemma on_stream_same [simp]: "sr_streams (on_stream k f r) k = f (sr_streams r k)"
  by (simp add: on_stream_def)

lemma on_stream_other [simp]: "k' \<noteq> k \<Longrightarrow> sr_streams (on_stream k f r) k' = sr_streams r k'"
  by (simp add: on_stream_def)

lemma on_stream_config [simp]:
  "sr_max (on_stream k f r) = sr_max r" "sr_generation (on_stream k f r) = sr_generation r"
  "sr_budget (on_stream k f r) = sr_budget r"
  by (simp_all add: on_stream_def)

lemma store_snapshot_streams [simp]:
  "sr_streams (store_snapshot env k e r) = sr_streams r" "sr_max (store_snapshot env k e r) = sr_max r"
  "sr_generation (store_snapshot env k e r) = sr_generation r" "sr_budget (store_snapshot env k e r) = sr_budget r"
  by (simp_all add: store_snapshot_def drop_stale_tasks_def Let_def split: option.splits)

lemma record_live_streams:
  "replay_part (sr_streams (record_live env k e r) k) = replay_part (sr_streams r k)"
  "k' \<noteq> k \<Longrightarrow> sr_streams (record_live env k e r) k' = sr_streams r k'"
  "sr_budget (record_live env k e r) = sr_budget r" "sr_max (record_live env k e r) = sr_max r"
  "sr_generation (record_live env k e r) = sr_generation r"
  by (simp_all add: record_live_def Let_def)

section \<open>Refreshing the budget\<close>

lemma fold_evict_other:
  "k \<notin> set gone \<Longrightarrow> sr_streams (fold (\<lambda>g. on_stream g evict_cache) gone r) k = sr_streams r k"
  by (induction gone arbitrary: r) auto

lemma evict_cache_twice [simp]: "replay_part (evict_cache (evict_cache s)) = replay_part (evict_cache s)"
  by (simp add: evict_cache_def replay_part_def)

lemma evict_cache_fields [simp]:
  "st_seq (evict_cache s) = st_seq s" "st_live (evict_cache s) = st_live s" "st_manual (evict_cache s) = st_manual s"
  "st_epoch (evict_cache s) = st_epoch s" "st_live_task (evict_cache s) = st_live_task s"
  "st_live_epoch (evict_cache s) = st_live_epoch s" "st_prefix (evict_cache s) = st_prefix s"
  "st_unpersisted (evict_cache s) = st_unpersisted s" "st_persisted (evict_cache s) = st_persisted s"
  "st_scoped_floor (evict_cache s) = st_scoped_floor s" "st_floor (evict_cache s) = st_seq s"
  "st_events (evict_cache s) = None"
  by (simp_all add: evict_cache_def)

lemma fold_evict_distinct:
  "distinct gone \<Longrightarrow> sr_streams (fold (\<lambda>g. on_stream g evict_cache) gone r) k
    = (if k \<in> set gone then evict_cache (sr_streams r k) else sr_streams r k)"
  by (induction gone arbitrary: r) (auto simp: fold_evict_other on_stream_def)

lemma fold_evict_config [simp]:
  "sr_max (fold (\<lambda>g. on_stream g evict_cache) gone r) = sr_max r"
  "sr_generation (fold (\<lambda>g. on_stream g evict_cache) gone r) = sr_generation r"
  "sr_budget (fold (\<lambda>g. on_stream g evict_cache) gone r) = sr_budget r"
  by (induction gone arbitrary: r) auto

text \<open>The loop takes a prefix of the entries.\<close>

lemma shed_split:
  "shed limit es held = (gone, rest, t) \<Longrightarrow>
     \<exists>pre. es = pre @ rest \<and> gone = map fst pre \<and> t = held - sum_list (map snd pre) \<and> (t \<le> limit \<or> rest = [])"
proof (induction limit es held arbitrary: gone rest t rule: shed.induct)
  case (2 limit k n es held)
  show ?case
  proof (cases "held \<le> limit")
    case True
    then show ?thesis using 2 by (intro exI [of _ "[]"]) auto
  next
    case False
    then obtain gone' where g: "shed limit es (held - n) = (gone', rest, t)" "gone = k # gone'"
      using 2 by (auto split: prod.splits)
    from "2.IH" [OF False g(1)] obtain pre where "es = pre @ rest" "gone' = map fst pre"
      "t = held - n - sum_list (map snd pre)" "t \<le> limit \<or> rest = []" by auto
    then show ?thesis using g(2) by (intro exI [of _ "(k, n) # pre"]) simp
  qed
qed simp

definition budget_ok :: "cache_budget \<Rightarrow> bool" where
  "budget_ok b \<longleftrightarrow>
     0 \<le> bg_total_limit b \<and> 0 \<le> bg_session_limit b \<and> dict_wf (bg_entries b)
     \<and> bg_total b = sum_list (map snd (bg_entries b)) \<and> bg_total b \<le> bg_total_limit b
     \<and> (\<forall>(k, n) \<in> set (bg_entries b). 0 \<le> n \<and> n \<le> bg_session_limit b)"

lemma sum_delete: "dict_wf d \<Longrightarrow> sum_list (map snd (AList.delete k d))
    = sum_list (map snd d) - (case map_of d k of Some n \<Rightarrow> n | None \<Rightarrow> (0 :: int))"
proof (induction d)
  case (Cons kv d)
  obtain k' n where kv: "kv = (k', n)" by (cases kv)
  have "AList.delete k d = d" if "k \<notin> fst ` set d" using that by (simp add: delete_id)
  then show ?case using Cons kv by (auto simp: map_of_eq_None_iff split: option.splits)
qed simp

lemma sum_nonneg: "(\<forall>(k, n) \<in> set d. 0 \<le> n) \<Longrightarrow> 0 \<le> sum_list (map snd (d :: (string \<times> int) list))"
  by (induction d) auto

lemma discard_ok: "budget_ok b \<Longrightarrow> budget_ok (budget_discard k b)"
proof -
  assume b: "budget_ok b"
  have "0 \<le> (case map_of (bg_entries b) k of Some n \<Rightarrow> n | None \<Rightarrow> 0)"
    using b by (auto simp: budget_ok_def dest!: map_of_SomeD split: option.split)
  then show ?thesis using b
    by (auto simp: budget_ok_def budget_discard_def sum_delete) (auto simp: AList.delete_eq)
qed

lemma update_budget_ok:
  assumes "budget_ok b" "0 \<le> n" "budget_update k n b = (gone, b')"
  shows "budget_ok b'" "distinct gone"
    "map_of (bg_entries b') x = (if x \<in> set gone then None else if x = k then Some n else map_of (bg_entries b) x)"
    "set gone \<subseteq> insert k (fst ` set (bg_entries b))"
proof -
  let ?b = "budget_discard k b"
  have b: "budget_ok ?b" using assms(1) by (rule discard_ok)
  have gone: "budget_ok b' \<and> distinct gone \<and> set gone \<subseteq> insert k (fst ` set (bg_entries b)) \<and>
    map_of (bg_entries b') x = (if x \<in> set gone then None else if x = k then Some n else map_of (bg_entries b) x)"
  proof (cases "bg_session_limit ?b < n \<or> bg_total_limit ?b < n")
    case True
    then show ?thesis using assms(3) b
      by (auto simp: budget_update_def Let_def budget_ok_def) (auto simp: budget_discard_def)
  next
    case False
    let ?es = "bg_entries ?b @ [(k, n)]"
    obtain rest t where sh: "shed (bg_total_limit ?b) ?es (bg_total ?b + n) = (gone, rest, t)"
      and b': "b' = ?b\<lparr>bg_entries := rest, bg_total := t, bg_evictions := bg_evictions ?b + length gone\<rparr>"
      using assms(3) False by (auto simp: budget_update_def Let_def split: prod.splits)
    from shed_split [OF sh] obtain pre where pre: "?es = pre @ rest" "gone = map fst pre"
      "t = bg_total ?b + n - sum_list (map snd pre)" "t \<le> bg_total_limit ?b \<or> rest = []" by auto
    have "k \<notin> fst ` set (bg_entries ?b)" by (auto simp: budget_discard_def AList.delete_eq)
    then have wf: "dict_wf ?es" using b by (auto simp: budget_ok_def)
    then have wf2: "dict_wf pre" "dict_wf rest" "set (map fst pre) \<inter> set (map fst rest) = {}"
      unfolding pre(1) by auto
    have "sum_list (map snd ?es) = bg_total ?b + n" using b by (simp add: budget_ok_def)
    then have t: "t = sum_list (map snd rest)" using pre(3) unfolding pre(1) by simp
    then have "t \<le> bg_total_limit ?b" using pre(4) b by (auto simp: budget_ok_def)
    moreover have "\<forall>(k, n) \<in> set ?es. 0 \<le> n \<and> n \<le> bg_session_limit ?b"
      using b False assms(2) by (auto simp: budget_ok_def)
    ultimately have "budget_ok b'" using b wf2 t unfolding pre(1) b' by (auto simp: budget_ok_def)
    moreover have all: "map_of ?es x = (if x = k then Some n else map_of (bg_entries b) x)"
      by (auto simp: budget_discard_def map_add_def split: option.split)
    moreover have "map_of rest x = (if x \<in> set gone then None else if x = k then Some n else map_of (bg_entries b) x)"
    proof (cases "x \<in> set gone")
      case True
      then have "x \<notin> fst ` set rest" using wf2(3) pre(2) by auto
      then show ?thesis using True by (simp add: map_of_eq_None_iff)
    next
      case False
      then have "map_of pre x = None" using pre(2) by (simp add: map_of_eq_None_iff)
      then have "map_of ?es x = map_of rest x" unfolding pre(1) by (simp add: map_add_def split: option.split)
      then show ?thesis using False all by simp
    qed
    moreover have "set pre \<subseteq> insert (k, n) (set (bg_entries b))"
      using arg_cong [OF pre(1), of set] by (auto simp: budget_discard_def AList.delete_eq)
    then have "set gone \<subseteq> insert k (fst ` set (bg_entries b))" unfolding pre(2) by force
    ultimately show ?thesis using wf2 pre(2) b' by simp
  qed
  then show "budget_ok b'" "distinct gone"
    "map_of (bg_entries b') x = (if x \<in> set gone then None else if x = k then Some n else map_of (bg_entries b) x)"
    "set gone \<subseteq> insert k (fst ` set (bg_entries b))"
    by simp_all
qed

text \<open>A refresh leaves the budget in order, and every session as it is or with its caches evicted; an
  entry of the budget stands for a session that is not protected and has its events.\<close>

definition cached_ok :: "streams \<Rightarrow> bool" where
  "cached_ok r \<longleftrightarrow>
     budget_ok (sr_budget r)
     \<and> (\<forall>k. map_of (bg_entries (sr_budget r)) k \<noteq> None \<longrightarrow>
          \<not> protected_stream (sr_streams r k) \<and> st_events (sr_streams r k) \<noteq> None)"

lemma discard_entries [simp]: "map_of (bg_entries (budget_discard k b)) x
    = (if x = k then None else map_of (bg_entries b) x)"
  by (simp add: budget_discard_def)

lemma refresh_cases:
  assumes "budget_ok (sr_budget r)" "\<forall>s. 0 \<le> en_size env s"
  obtains gone b where "refresh_budget env k r = fold (\<lambda>g. on_stream g evict_cache) gone (r\<lparr>sr_budget := b\<rparr>)"
    "budget_ok b" "distinct gone"
    "\<And>x. map_of (bg_entries b) x \<noteq> None \<Longrightarrow> x \<notin> set gone \<and>
       (if x = k then \<not> protected_stream (sr_streams r k) \<and>
          (st_events (sr_streams r k) = None \<longrightarrow> map_of (bg_entries (sr_budget r)) k \<noteq> None)
        else map_of (bg_entries (sr_budget r)) x \<noteq> None)"
    "\<And>x. x \<in> set gone \<Longrightarrow> \<not> protected_stream (sr_streams r k)
       \<and> (x = k \<or> map_of (bg_entries (sr_budget r)) x \<noteq> None)"
proof (cases "protected_stream (sr_streams r k)")
  case True
  then show thesis using assms(1)
    by (intro that [of "[]" "budget_discard k (sr_budget r)"])
       (auto simp: refresh_budget_def Let_def discard_ok split: if_splits)
next
  case False
  show thesis
  proof (cases "st_events (sr_streams r k) = None")
    case True
    then show thesis using False assms(1)
      by (intro that [of "[]" "sr_budget r"]) (auto simp: refresh_budget_def Let_def split: if_splits)
  next
    case have_events: False
    obtain gone b where u: "budget_update k (en_size env (sr_streams r k)) (sr_budget r) = (gone, b)" by fastforce
    have "0 \<le> en_size env (sr_streams r k)" using assms(2) by simp
    note upd = update_budget_ok [OF assms(1) this u]
    show thesis
    proof (rule that [of gone b])
      show "refresh_budget env k r = fold (\<lambda>g. on_stream g evict_cache) gone (r\<lparr>sr_budget := b\<rparr>)"
        unfolding refresh_budget_def Let_def u prod.case using False have_events by (simp only: if_False simp_thms)
    next
      fix x assume "x \<in> set gone"
      then show "\<not> protected_stream (sr_streams r k) \<and> (x = k \<or> map_of (bg_entries (sr_budget r)) x \<noteq> None)"
        using False upd(4) by (auto simp: map_of_eq_None_iff)
    qed (use upd(1-3) False have_events in \<open>auto split: if_splits\<close>)
  qed
qed

lemma refresh_cached:
  assumes "budget_ok (sr_budget r)" "\<forall>s. 0 \<le> en_size env s"
    and "\<And>x. x \<noteq> k \<Longrightarrow> map_of (bg_entries (sr_budget r)) x \<noteq> None \<Longrightarrow>
      \<not> protected_stream (sr_streams r x) \<and> st_events (sr_streams r x) \<noteq> None"
    and "st_events (sr_streams r k) \<noteq> None \<or> map_of (bg_entries (sr_budget r)) k = None"
  shows "cached_ok (refresh_budget env k r)"
    and "sr_streams (refresh_budget env k r) x = sr_streams r x
      \<or> sr_streams (refresh_budget env k r) x = evict_cache (sr_streams r x)"
    and "sr_max (refresh_budget env k r) = sr_max r" "sr_generation (refresh_budget env k r) = sr_generation r"
    and "protected_stream (sr_streams r x) \<Longrightarrow> sr_streams (refresh_budget env k r) x = sr_streams r x"
proof -
  from refresh_cases [OF assms(1,2), of k] obtain gone b where g: "refresh_budget env k r
      = fold (\<lambda>g. on_stream g evict_cache) gone (r\<lparr>sr_budget := b\<rparr>)"
    "budget_ok b" "distinct gone" and e: "\<And>x. map_of (bg_entries b) x \<noteq> None \<Longrightarrow> x \<notin> set gone \<and>
       (if x = k then \<not> protected_stream (sr_streams r k) \<and>
          (st_events (sr_streams r k) = None \<longrightarrow> map_of (bg_entries (sr_budget r)) k \<noteq> None)
        else map_of (bg_entries (sr_budget r)) x \<noteq> None)"
    and taken: "\<And>x. x \<in> set gone \<Longrightarrow> \<not> protected_stream (sr_streams r k)
       \<and> (x = k \<or> map_of (bg_entries (sr_budget r)) x \<noteq> None)" by blast
  have s: "sr_streams (refresh_budget env k r) x
      = (if x \<in> set gone then evict_cache (sr_streams r x) else sr_streams r x)" for x
    by (simp add: g(1) fold_evict_distinct [OF g(3)])
  show "cached_ok (refresh_budget env k r)"
  proof -
    have "\<not> protected_stream (sr_streams r x) \<and> st_events (sr_streams r x) \<noteq> None \<and> x \<notin> set gone"
      if "map_of (bg_entries b) x \<noteq> None" for x
    proof (cases "x = k")
      case True
      then show ?thesis using e [OF that] assms(4) by auto
    next
      case False
      then show ?thesis using e [OF that] assms(3) [of x] by auto
    qed
    then show ?thesis using g(2) unfolding cached_ok_def s by (simp add: g(1))
  qed
  show "sr_streams (refresh_budget env k r) x = sr_streams r x
      \<or> sr_streams (refresh_budget env k r) x = evict_cache (sr_streams r x)" by (simp add: s)
  show "sr_streams (refresh_budget env k r) x = sr_streams r x" if "protected_stream (sr_streams r x)"
    using taken [of x] assms(3) [of x] that by (auto simp: s)
  show "sr_max (refresh_budget env k r) = sr_max r" "sr_generation (refresh_budget env k r) = sr_generation r"
    by (simp_all add: g(1))
qed

section \<open>Every operation keeps the budget in order\<close>

lemma fresh_stream [simp]: "st_events new_stream = None" "st_persisted new_stream = None" "st_seq new_stream = 0"
  by (simp_all add: new_stream_def)

definition size_ok :: "stream_env \<Rightarrow> bool" where
  "size_ok env \<longleftrightarrow> (\<forall>s. 0 \<le> en_size env s)"

lemma cached_budget: "cached_ok r \<Longrightarrow> budget_ok (sr_budget r)"
  by (simp add: cached_ok_def)

text \<open>A step on one session that a refresh follows, and a step that only takes protection away.\<close>

lemma refreshed_step:
  assumes "cached_ok r" "size_ok env" "sr_budget r' = sr_budget r"
    and "\<And>x. x \<noteq> k \<Longrightarrow> sr_streams r' x = sr_streams r x"
    and "st_events (sr_streams r' k) = None \<Longrightarrow> st_events (sr_streams r k) = None"
  shows "cached_ok (refresh_budget env k r')"
    "sr_streams (refresh_budget env k r') x = sr_streams r' x
      \<or> sr_streams (refresh_budget env k r') x = evict_cache (sr_streams r' x)"
    "protected_stream (sr_streams r' x) \<Longrightarrow> sr_streams (refresh_budget env k r') x = sr_streams r' x"
proof -
  have b: "budget_ok (sr_budget r')" "\<forall>s. 0 \<le> en_size env s"
    using assms(1-3) by (simp_all add: cached_ok_def size_ok_def)
  have others: "\<not> protected_stream (sr_streams r' x) \<and> st_events (sr_streams r' x) \<noteq> None"
    if "x \<noteq> k" "map_of (bg_entries (sr_budget r')) x \<noteq> None" for x
    using assms(1,3) that assms(4) [OF that(1)] by (simp add: cached_ok_def)
  have here: "st_events (sr_streams r' k) \<noteq> None \<or> map_of (bg_entries (sr_budget r')) k = None"
    using assms(1,3,5) unfolding cached_ok_def by metis
  show "cached_ok (refresh_budget env k r')"
    "sr_streams (refresh_budget env k r') x = sr_streams r' x
      \<or> sr_streams (refresh_budget env k r') x = evict_cache (sr_streams r' x)"
    "protected_stream (sr_streams r' x) \<Longrightarrow> sr_streams (refresh_budget env k r') x = sr_streams r' x"
    using refresh_cached [OF b others here] by blast+
qed

lemma quiet_step:
  assumes "cached_ok r" "sr_budget r' = sr_budget r"
    and "\<And>x. sr_streams r' x \<noteq> sr_streams r x \<Longrightarrow>
      st_events (sr_streams r' x) = st_events (sr_streams r x)
      \<and> (protected_stream (sr_streams r' x) \<longrightarrow> protected_stream (sr_streams r x))"
  shows "cached_ok r'"
  using assms unfolding cached_ok_def by metis

lemma touch_map: "map_of (bg_entries (budget_touch k b)) x = map_of (bg_entries b) x"
  by (auto simp: budget_touch_def map_add_def split: option.split)

lemma touch_ok: "budget_ok b \<Longrightarrow> budget_ok (budget_touch k b)"
proof (cases "map_of (bg_entries b) k")
  case (Some n)
  assume b: "budget_ok b"
  have "k \<notin> fst ` set (AList.delete k (bg_entries b))" by (auto simp: AList.delete_eq)
  moreover have "set (AList.delete k (bg_entries b)) \<subseteq> set (bg_entries b)" by (auto simp: AList.delete_eq)
  moreover have "(k, n) \<in> set (bg_entries b)" using Some by (rule map_of_SomeD)
  ultimately show ?thesis using b Some
    by (auto simp: budget_ok_def budget_touch_def sum_delete)
qed (simp add: budget_touch_def)

lemma buffer_has_events: "st_events (buffer_event m e s) \<noteq> None"
  by (simp add: buffer_event_def Let_def split: prod.split)

lemma promote_parts:
  "st_events (snd (promote_cursor n s)) = st_events s"
  "protected_stream (snd (promote_cursor n s)) = protected_stream s"
  by (simp_all add: promote_cursor_def protected_stream_def split: option.split)

lemma advance_parts:
  "st_events (advance_epoch n s) = st_events s"
  "protected_stream (advance_epoch n s) \<Longrightarrow> protected_stream s"
  by (auto simp: advance_epoch_def protected_stream_def split: option.splits if_splits)

lemma counted_parts:
  "st_events (counted e s) = st_events s"
  "protected_stream (counted e s) \<Longrightarrow> protected_stream s"
proof -
  have "protected_stream (s\<lparr>st_seq := n\<rparr>) = protected_stream s" for n by (simp add: protected_stream_def)
  then show "protected_stream (counted e s) \<Longrightarrow> protected_stream s"
    using advance_parts(2) by (auto simp: counted_def Let_def split: option.splits)
qed (simp add: counted_def Let_def advance_parts split: option.split)

lemma clear_parts:
  "st_events (clear_live s) = st_events s"
  "protected_stream (clear_live s) \<Longrightarrow> protected_stream s"
  by (auto simp: clear_live_def protected_stream_def)

text \<open>The two shapes of a recording.\<close>

lemma record_shapes:
  obtains (rejected) "\<not> accepted env k name d now r"
      "snd (record_event env k name d now r) = on_stream k (counted (next_event k name d now r)) r"
  | (stored) s where "accepted env k name d now r"
      "snd (record_event env k name d now r) = refresh_budget env k s"
      "sr_budget s = sr_budget r" "sr_max s = sr_max r" "sr_generation s = sr_generation r"
      "\<And>x. x \<noteq> k \<Longrightarrow> sr_streams s x = sr_streams r x"
      "replay_part (sr_streams s k) = replay_part (buffer_event (sr_max r) (next_event k name d now r)
         (counted (next_event k name d now r) (sr_streams r k)))"
proof -
  let ?e = "next_event k name d now r"
  let ?r2 = "on_stream k (buffer_event (sr_max r) ?e) (on_stream k (counted ?e) r)"
  show thesis
  proof (cases "accepted env k name d now r")
    case False
    then show thesis by (intro rejected) (auto simp: record_event_def accepted_def Let_def)
  next
    case True
    show thesis
    proof (rule stored [OF True])
      show "snd (record_event env k name d now r)
          = refresh_budget env k (on_stream k (note_task ?e) (record_live env k ?e ?r2))"
        using True by (auto simp: record_event_def accepted_def Let_def)
    qed (simp_all add: record_live_streams)
  qed
qed

lemma replay_part_events: "replay_part s' = replay_part s \<Longrightarrow> st_events s' = st_events s"
  by (drule replay_part_eq) simp

lemma evict_ok: "cached_ok r \<Longrightarrow> cached_ok (evict k r)"
  by (auto simp: cached_ok_def evict_def discard_ok Let_def split: if_splits)

lemma take_streams:
  "sr_budget (snd (take_snapshot env k task turn ended r)) = sr_budget r"
  "sr_max (snd (take_snapshot env k task turn ended r)) = sr_max r"
  "sr_generation (snd (take_snapshot env k task turn ended r)) = sr_generation r"
  "sr_streams (snd (take_snapshot env k task turn ended r)) = sr_streams r
   \<or> sr_streams (snd (take_snapshot env k task turn ended r)) = sr_streams (on_stream k clear_live r)"
  by (simp_all add: take_snapshot_def Let_def split: option.split)

lemma stream_step_cached:
  assumes "cached_ok r" "size_ok env"
  shows "cached_ok (stream_step env a r)"
proof (cases a)
  case (SRecord k name d now)
  show ?thesis
  proof (cases rule: record_shapes [of env k name d now r])
    case rejected
    then show ?thesis using assms(1)
      by (simp add: SRecord) (rule quiet_step, auto simp: on_stream_def counted_parts split: if_splits)
  next
    case (stored s)
    have "st_events (sr_streams s k) \<noteq> None"
      using replay_part_events [OF stored(7)] buffer_has_events by metis
    then have "cached_ok (refresh_budget env k s)"
      by (intro refreshed_step(1) [OF assms stored(3,6)]) simp_all
    then show ?thesis by (simp add: SRecord stored(2))
  qed
next
  case (SPersisted k task reconstructible)
  let ?s = "on_stream k (\<lambda>s. s\<lparr>st_persisted := Some task, st_unpersisted := removeAll task (st_unpersisted s)\<rparr>) r"
  have "cached_ok (refresh_budget env k ?s)" by (rule refreshed_step(1) [OF assms]) simp_all
  then show ?thesis using assms(1) by (simp add: SPersisted mark_terminal_persisted_def)
next
  case (STake k task turn ended)
  have "cached_ok (snd (take_snapshot env k task turn ended r))"
    using take_streams(4) [of env k task turn ended r]
  proof
    assume "sr_streams (snd (take_snapshot env k task turn ended r)) = sr_streams r"
    then show ?thesis by (intro quiet_step [OF assms(1)]) (simp_all add: take_streams)
  next
    assume "sr_streams (snd (take_snapshot env k task turn ended r)) = sr_streams (on_stream k clear_live r)"
    then show ?thesis
      by (intro quiet_step [OF assms(1) take_streams(1)])
         (auto simp: on_stream_def clear_parts dest: clear_parts(2) split: if_splits)
  qed
  then show ?thesis by (simp add: STake)
next
  case (SEvict k)
  then show ?thesis using assms(1) by (simp add: evict_ok)
next
  case (SPromote k since)
  show ?thesis unfolding SPromote stream_step.simps
    by (rule quiet_step [OF assms(1)]) (auto simp: on_stream_def promote_parts split: if_splits)
next
  case (SAdvance k n)
  show ?thesis unfolding SAdvance stream_step.simps
    by (rule quiet_step [OF assms(1)]) (auto simp: on_stream_def advance_parts split: if_splits)
next
  case (SReplay k since gen)
  then show ?thesis using assms(1) by (simp add: replay_since_def Let_def cached_ok_def touch_ok touch_map)
qed

end
