(* ===== verification/Stream_Claims.thy ===== *)
theory Stream_Claims
  imports Stream_Machine
begin

text \<open>
  The properties of the session streams: what a replay delivers and what it leaves out, which caches the
  budget takes, and that the live view neither loses nor repeats text.
\<close>

section \<open>The history of a session\<close>

interpretation tracked: machine "tracked_step env k" for env k .

definition events_of :: "session_stream \<Rightarrow> stream_event list" where
  "events_of s = (case st_events s of Some es \<Rightarrow> es | None \<Rightarrow> [])"

text \<open>The events are recorded in order; what is buffered is a part of them; an event of a model call that
  is missing lies below one of the two floors.\<close>

definition history_ok :: "stream_event list \<Rightarrow> session_stream \<Rightarrow> bool" where
  "history_ok h s \<longleftrightarrow>
     0 \<le> st_seq s \<and> sorted_wrt (<) (map ev_seq h) \<and> (\<forall>e \<in> set h. ev_seq e \<le> st_seq s)
     \<and> subseq (events_of s) h \<and> subseq (st_completed s) h
     \<and> (\<forall>e \<in> set (st_completed s). is_completed_turn_event (ev_name e))
     \<and> (\<forall>(n, e) \<in> set (st_resets s). n = ev_seq e \<and> is_generation_reset (ev_name e))
     \<and> (\<forall>n \<in> set (st_reset_seqs s). n \<le> st_seq s
          \<and> (\<forall>e \<in> set h. ev_seq e = n \<longrightarrow> is_generation_reset (ev_name e)))
     \<and> (\<forall>e \<in> set h. st_floor s < ev_seq e \<longrightarrow> model_call_id (ev_payload e) \<noteq> []
          \<longrightarrow> st_scoped_floor s < ev_seq e \<longrightarrow> e \<in> set (events_of s))"

lemma history_part:
  assumes "replay_part s' = replay_part s"
  shows "history_ok h s' = history_ok h s"
  using replay_part_eq [OF assms] by (simp add: history_ok_def events_of_def)

lemma history_evict: "history_ok h s \<Longrightarrow> history_ok h (evict_cache s)"
  by (auto simp: history_ok_def events_of_def evict_cache_def)

lemma history_new [simp]: "history_ok [] new_stream"
  by (simp add: history_ok_def events_of_def new_stream_def)

lemma history_seq: "history_ok h s \<Longrightarrow> st_seq s \<le> n \<Longrightarrow> history_ok h (s\<lparr>st_seq := n\<rparr>)"
  by (force simp: history_ok_def events_of_def)

section \<open>Trimming\<close>

lemma remove_subseq: "subseq (take i es @ drop (Suc i) es) es"
proof -
  have "subseq (take i es @ drop (Suc i) es) (take i es @ drop i es)"
  proof (rule list_emb_append_mono [OF subseq_order.order_refl])
    show "subseq (drop (Suc i) es) (drop i es)"
      by (metis drop_Suc suffix_drop suffix_imp_subseq tl_drop drop_drop plus_1_eq_Suc)
  qed
  then show ?thesis by simp
qed

lemma remove_set: "i < length es \<Longrightarrow> x \<in> set es \<Longrightarrow> x \<noteq> es ! i \<Longrightarrow> x \<in> set (take i es @ drop (Suc i) es)"
proof -
  assume i: "i < length es" and x: "x \<in> set es" "x \<noteq> es ! i"
  have "es = take i es @ es ! i # drop (Suc i) es" using i by (simp add: id_take_nth_drop)
  then have "x \<in> set (take i es @ es ! i # drop (Suc i) es)" using x(1) by simp
  then show ?thesis using x(2) by simp
qed

definition floor_raised :: "session_stream \<Rightarrow> session_stream \<Rightarrow> bool" where
  "floor_raised s s' \<longleftrightarrow>
     st_scoped_floor s \<le> st_scoped_floor s' \<and> s' = s\<lparr>st_scoped_floor := st_scoped_floor s'\<rparr>"

lemma floor_raised_refl [simp]: "floor_raised s s"
  by (simp add: floor_raised_def)

lemma floor_raised_trans: "floor_raised s t \<Longrightarrow> floor_raised t u \<Longrightarrow> floor_raised s u"
  by (cases s; cases t; cases u) (auto simp: floor_raised_def)

lemma scoped_raised: "floor_raised s (scoped_eviction e s)"
  by (simp add: scoped_eviction_def floor_raised_def)

lemma scoped_counts: "model_call_id (ev_payload e) = [] \<or> ev_seq e \<le> st_scoped_floor (scoped_eviction e s)"
  by (simp add: scoped_eviction_def)

lemma trim_keeps:
  "trim_events m es s = (left, s') \<Longrightarrow>
     subseq left es \<and> floor_raised s s' \<and> length left \<le> m
     \<and> (\<forall>x \<in> set es. x \<in> set left \<or> model_call_id (ev_payload x) = [] \<or> ev_seq x \<le> st_scoped_floor s')"
proof (induction m es s arbitrary: left s' rule: trim_events.induct)
  case (1 m es s)
  show ?case
  proof (cases "length es \<le> m")
    case True
    then show ?thesis using "1.prems" by (subst (asm) trim_events.simps) auto
  next
    case False
    let ?i = "trim_victim es"
    let ?es = "take ?i es @ drop (Suc ?i) es"
    let ?s = "scoped_eviction (es ! ?i) s"
    have i: "?i < length es" using False by (intro trim_victim_less) auto
    have t: "trim_events m ?es ?s = (left, s')"
      using "1.prems" False by (subst (asm) trim_events.simps) (simp add: Let_def)
    from "1.IH" [OF False refl t] have ih: "subseq left ?es" "floor_raised ?s s'" "length left \<le> m"
      and all: "\<forall>x \<in> set ?es. x \<in> set left \<or> model_call_id (ev_payload x) = [] \<or> ev_seq x \<le> st_scoped_floor s'"
      by auto
    have "model_call_id (ev_payload (es ! ?i)) = [] \<or> ev_seq (es ! ?i) \<le> st_scoped_floor s'"
      using ih(2) scoped_counts [of "es ! ?i" s] unfolding floor_raised_def by linarith
    then have "\<forall>x \<in> set es. x \<in> set left \<or> model_call_id (ev_payload x) = [] \<or> ev_seq x \<le> st_scoped_floor s'"
      using all remove_set [OF i] by blast
    then show ?thesis using ih subseq_order.order_trans [OF ih(1) remove_subseq] floor_raised_trans [OF scoped_raised ih(2)]
      by simp
  qed
qed

lemma subseq_snoc: "subseq xs ys \<Longrightarrow> subseq (xs @ [y]) (ys @ [y])"
  by (simp add: list_emb_append_mono)

lemma subseq_prefix: "subseq xs (xs @ ys)"
  by (simp add: prefix_imp_subseq)

text \<open>An event goes into the buffer.\<close>

lemma history_buffer:
  assumes h: "history_ok h s" and e: "st_seq s < ev_seq e"
  shows "history_ok (h @ [e]) (buffer_event m e (s\<lparr>st_seq := ev_seq e\<rparr>))"
proof -
  let ?s0 = "s\<lparr>st_seq := ev_seq e\<rparr>"
  let ?s1 = "(if is_generation_reset (ev_name e)
                then ?s0\<lparr>st_reset_seqs := st_reset_seqs ?s0 @ [ev_seq e],
                         st_resets := AList.update (ev_seq e) e (st_resets ?s0)\<rparr> else ?s0)"
  let ?s2 = "(if is_completed_turn_event (ev_name e)
                then ?s1\<lparr>st_completed := drop (length (st_completed ?s1) + 1 - m) (st_completed ?s1 @ [e])\<rparr>
                else ?s1)"
  obtain left s3 where t: "trim_events m (events_of s @ [e]) ?s2 = (left, s3)" by fastforce
  have b: "buffer_event m e ?s0 = s3\<lparr>st_events := Some left\<rparr>"
    using t by (simp add: buffer_event_def Let_def events_of_def)
  from trim_keeps [OF t] obtain n where n: "s3 = ?s2\<lparr>st_scoped_floor := n\<rparr>" "st_scoped_floor ?s2 \<le> n"
    and left: "subseq left (events_of s @ [e])"
    and kept: "\<forall>x \<in> set (events_of s @ [e]). x \<in> set left \<or> model_call_id (ev_payload x) = [] \<or> ev_seq x \<le> n"
    unfolding floor_raised_def by blast
  have old: "0 \<le> st_seq s" "sorted_wrt (<) (map ev_seq h)" "\<forall>x \<in> set h. ev_seq x \<le> st_seq s"
    "subseq (events_of s) h" "subseq (st_completed s) h"
    "\<forall>x \<in> set (st_completed s). is_completed_turn_event (ev_name x)"
    "\<forall>(n, x) \<in> set (st_resets s). n = ev_seq x \<and> is_generation_reset (ev_name x)"
    using h by (simp_all add: history_ok_def)
  have miss: "\<forall>x \<in> set h. st_floor s < ev_seq x \<longrightarrow> model_call_id (ev_payload x) \<noteq> []
          \<longrightarrow> st_scoped_floor s < ev_seq x \<longrightarrow> x \<in> set (events_of s)" using h by (simp add: history_ok_def)
  have s3: "st_seq s3 = ev_seq e" "st_floor s3 = st_floor s" "st_scoped_floor s \<le> st_scoped_floor s3"
    "st_scoped_floor s3 = n" using n by (simp_all split: if_splits)
  have resets: "\<forall>(n, x) \<in> set (st_resets s3). n = ev_seq x \<and> is_generation_reset (ev_name x)"
    using old(7) by (auto simp: n(1) dest!: subsetD [OF set_update_in])
  have seqs: "\<forall>n \<in> set (st_reset_seqs s). n \<le> st_seq s
          \<and> (\<forall>x \<in> set h. ev_seq x = n \<longrightarrow> is_generation_reset (ev_name x))"
    using h unfolding history_ok_def by blast
  have reset_seqs: "\<forall>n \<in> set (st_reset_seqs s3). n \<le> ev_seq e
          \<and> (\<forall>x \<in> set (h @ [e]). ev_seq x = n \<longrightarrow> is_generation_reset (ev_name x))"
  proof
    fix n assume "n \<in> set (st_reset_seqs s3)"
    then consider "n \<in> set (st_reset_seqs s)" | "n = ev_seq e" "is_generation_reset (ev_name e)"
      by (auto simp: n(1) split: if_splits)
    then show "n \<le> ev_seq e \<and> (\<forall>x \<in> set (h @ [e]). ev_seq x = n \<longrightarrow> is_generation_reset (ev_name x))"
      using seqs old(3) e by cases fastforce+
  qed
  have "subseq (drop j (st_completed s @ [e])) (h @ [e])" for j
    using subseq_order.order_trans [OF suffix_imp_subseq [OF suffix_drop] subseq_snoc [OF old(5)]] .
  then have completed: "subseq (st_completed s3) (h @ [e])"
    "\<forall>x \<in> set (st_completed s3). is_completed_turn_event (ev_name x)"
    using old(5,6) subseq_order.order_trans [OF old(5) subseq_prefix]
    by (auto simp: n(1) simp del: drop_append dest!: in_set_dropD)
  have "subseq left (h @ [e])" using subseq_order.order_trans [OF left subseq_snoc [OF old(4)]] .
  moreover have "\<forall>x \<in> set (h @ [e]). st_floor s3 < ev_seq x \<longrightarrow> model_call_id (ev_payload x) \<noteq> []
          \<longrightarrow> st_scoped_floor s3 < ev_seq x \<longrightarrow> x \<in> set left"
    using miss kept s3 by fastforce
  moreover have "sorted_wrt (<) (map ev_seq (h @ [e]))" "\<forall>x \<in> set (h @ [e]). ev_seq x \<le> ev_seq e"
    using old(2,3) e by (auto simp: sorted_wrt_append)
  ultimately show ?thesis unfolding b using completed resets reset_seqs s3(1,2) old(1) e
    by (simp add: history_ok_def events_of_def)
qed

section \<open>Every operation keeps the history\<close>

lemma next_seq: "ev_seq (next_event k name d now r) = st_seq (sr_streams r k) + 1"
  by (simp add: next_event_def Let_def)

lemma buffer_part:
  "replay_part s' = replay_part s \<Longrightarrow> replay_part (buffer_event m e s') = replay_part (buffer_event m e s)"
proof -
  have buffer: "replay_part (buffer_event m e s) = replay_part (buffer_event m e (replay_part s))" for s
  proof -
    have trim: "trim_events m es (replay_part s) = map_prod (\<lambda>a. a) replay_part (trim_events m es s)" for es s
    proof (induction m es s rule: trim_events.induct)
      case (1 m es s)
      have "scoped_eviction x (replay_part s) = replay_part (scoped_eviction x s)" for x
        by (simp add: scoped_eviction_def replay_part_def)
      then show ?case using 1
        by (subst (1 2) trim_events.simps) (simp add: Let_def)
    qed
    let ?f = "\<lambda>s. if is_generation_reset (ev_name e)
                then s\<lparr>st_reset_seqs := st_reset_seqs s @ [ev_seq e],
                       st_resets := AList.update (ev_seq e) e (st_resets s)\<rparr> else s"
    let ?g = "\<lambda>s. if is_completed_turn_event (ev_name e)
                then s\<lparr>st_completed := drop (length (st_completed s) + 1 - m) (st_completed s @ [e])\<rparr> else s"
    have fg: "?g (?f (replay_part s)) = replay_part (?g (?f s))"
      by (simp add: replay_part_def)
    have ev: "st_events (replay_part s) = st_events s" by (simp add: replay_part_def)
    have "replay_part (t\<lparr>st_events := x\<rparr>) = replay_part (replay_part t\<lparr>st_events := x\<rparr>)" for t x
      by (simp add: replay_part_def)
    then show ?thesis unfolding buffer_event_def Let_def ev fg trim
      by (simp add: prod.case_distrib case_prod_beta)
  qed
  show "replay_part s' = replay_part s \<Longrightarrow> ?thesis" using buffer [of s] buffer [of s'] by simp
qed

lemma other_streams:
  assumes "cached_ok r" "size_ok env" "target a \<noteq> k"
  shows "sr_streams (stream_step env a r) k = sr_streams r k
    \<or> \<not> protected_stream (sr_streams r k) \<and> sr_streams (stream_step env a r) k = evict_cache (sr_streams r k)"
proof (cases a)
  case (SRecord k' name d now)
  then have k: "k \<noteq> k'" using assms(3) by auto
  show ?thesis
  proof (cases rule: record_shapes [of env k' name d now r])
    case rejected
    then show ?thesis using k by (simp add: SRecord)
  next
    case (stored s)
    have "st_events (sr_streams s k') \<noteq> None"
      using replay_part_events [OF stored(7)] buffer_has_events by metis
    then have "st_events (sr_streams s k') = None \<Longrightarrow> st_events (sr_streams r k') = None" by simp
    note refreshed = refreshed_step(2,3) [OF assms(1,2) stored(3,6) this, of k]
    then show ?thesis using stored(6) [OF k] by (auto simp: SRecord stored(2))
  qed
next
  case (SPersisted k' task reconstructible)
  then have k: "k \<noteq> k'" using assms(3) by auto
  let ?s = "on_stream k' (\<lambda>s. s\<lparr>st_persisted := Some task, st_unpersisted := removeAll task (st_unpersisted s)\<rparr>) r"
  have "sr_streams ?s k = sr_streams r k" using k by simp
  moreover have "sr_streams (refresh_budget env k' ?s) k = sr_streams ?s k
      \<or> sr_streams (refresh_budget env k' ?s) k = evict_cache (sr_streams ?s k)"
    by (rule refreshed_step(2) [OF assms(1,2)]) simp_all
  moreover have "protected_stream (sr_streams ?s k) \<Longrightarrow> sr_streams (refresh_budget env k' ?s) k = sr_streams ?s k"
    by (rule refreshed_step(3) [OF assms(1,2)]) simp_all
  ultimately show ?thesis by (auto simp: SPersisted mark_terminal_persisted_def)
next
  case (STake k' task turn ended)
  then have "k \<noteq> k'" using assms(3) by auto
  then show ?thesis using take_streams(4) [of env k' task turn ended r] by (auto simp: STake)
qed (use assms(3) in \<open>auto simp: evict_def Let_def replay_since_def\<close>)

lemma counted_history:
  assumes "history_ok h s" "st_seq s \<le> ev_seq e"
  shows "history_ok h (counted e s)"
  unfolding history_part [OF counted_part] by (rule history_seq [OF assms])

lemma same_or_evicted: "history_ok h s \<Longrightarrow> s' = s \<or> s' = evict_cache s \<Longrightarrow> history_ok h s'"
  using history_evict by blast

definition tracked_ok :: "string \<Rightarrow> streams \<times> stream_event list \<Rightarrow> bool" where
  "tracked_ok k c \<longleftrightarrow> cached_ok (fst c) \<and> history_ok (snd c) (sr_streams (fst c) k)"

lemma tracked_record:
  assumes "cached_ok r" "history_ok h (sr_streams r k)" "size_ok env"
  shows "history_ok (extend_history env k (SRecord k name d now) r h)
    (sr_streams (stream_step env (SRecord k name d now) r) k)"
proof -
  let ?e = "next_event k name d now r"
  show ?thesis
  proof (cases rule: record_shapes [of env k name d now r])
    case rejected
    then show ?thesis using counted_history [OF assms(2), of ?e] by (simp add: extend_history_def next_seq)
  next
    case (stored s)
    have "st_events (sr_streams s k) \<noteq> None"
      using replay_part_events [OF stored(7)] buffer_has_events by metis
    then have "sr_streams (refresh_budget env k s) k = sr_streams s k
      \<or> sr_streams (refresh_budget env k s) k = evict_cache (sr_streams s k)"
      by (intro refreshed_step(2) [OF assms(1,3) stored(3,6)]) simp_all
    moreover have "history_ok (h @ [?e]) (sr_streams s k)"
      unfolding history_part [OF stored(7)] history_part [OF buffer_part [OF counted_part]]
      by (rule history_buffer [OF assms(2)]) (simp add: next_seq)
    ultimately have "history_ok (h @ [?e]) (sr_streams (refresh_budget env k s) k)"
      by (rule same_or_evicted [rotated])
    then show ?thesis using stored(1) by (simp add: extend_history_def stored(2))
  qed
qed

lemma tracked_step_ok:
  assumes "tracked_ok k c" "size_ok env"
  shows "tracked_ok k (tracked_step env k a c)"
proof -
  obtain r h where c: "c = (r, h)" by (cases c)
  have ok: "cached_ok r" "history_ok h (sr_streams r k)" using assms(1) by (simp_all add: tracked_ok_def c)
  have "history_ok (extend_history env k a r h) (sr_streams (stream_step env a r) k)"
  proof (cases "target a \<noteq> k")
    case True
    then have "extend_history env k a r h = h" by (auto simp: extend_history_def split: stream_op.splits)
    then show ?thesis using same_or_evicted [OF ok(2)] other_streams [OF ok(1) assms(2) True] by auto
  next
    case False
    show ?thesis
    proof (cases a)
      case (SRecord k' name d now)
      then show ?thesis using False tracked_record [OF ok assms(2)] by simp
    next
      case (SPersisted k' task reconstructible)
      let ?f = "\<lambda>s. s\<lparr>st_persisted := Some task, st_unpersisted := removeAll task (st_unpersisted s)\<rparr>"
      have "sr_streams (refresh_budget env k (on_stream k ?f r)) k = sr_streams (on_stream k ?f r) k
          \<or> sr_streams (refresh_budget env k (on_stream k ?f r)) k = evict_cache (sr_streams (on_stream k ?f r) k)"
        by (rule refreshed_step(2) [OF ok(1) assms(2)]) simp_all
      moreover have part: "replay_part (?f s) = replay_part s" for s by (simp add: replay_part_def)
      have "history_ok h (?f (sr_streams r k))" unfolding history_part [OF part] by (rule ok(2))
      then have "history_ok h (sr_streams (on_stream k ?f r) k)" unfolding on_stream_same .
      ultimately have "history_ok h (sr_streams (refresh_budget env k (on_stream k ?f r)) k)"
        by (rule same_or_evicted [rotated])
      then show ?thesis using False ok(2)
        by (simp add: SPersisted extend_history_def mark_terminal_persisted_def)
    next
      case (STake k' task turn ended)
      have "history_ok h (clear_live (sr_streams r k))" using ok(2) history_part [OF live_parts(1)] by simp
      then show ?thesis using False ok(2) take_streams(4) [of env k task turn ended r]
        by (auto simp: STake extend_history_def)
    next
      case (SPromote k' since)
      have "history_ok h (snd (promote_cursor since (sr_streams r k)))"
        using ok(2) history_seq by (simp add: promote_cursor_def split: option.split)
      then show ?thesis using False by (simp add: SPromote extend_history_def)
    next
      case (SAdvance k' n)
      have "history_ok h (advance_epoch n (sr_streams r k))" using ok(2) history_part [OF live_parts(8)] by simp
      then show ?thesis using False by (simp add: SAdvance extend_history_def)
    qed (use False ok(2) in \<open>auto simp: extend_history_def evict_def replay_since_def Let_def\<close>)
  qed
  then show ?thesis using stream_step_cached [OF ok(1) assms(2)] by (simp add: tracked_ok_def tracked_step_def c)
qed

lemma new_cached: "new_budget a b = Inr bg \<Longrightarrow> cached_ok (new_streams m gen bg)"
  by (auto simp: new_budget_def checked_Inr cached_ok_def budget_ok_def new_streams_def)

lemma tracked_reachable:
  assumes "new_budget a b = Inr bg" "size_ok env"
  shows "tracked_ok k (tracked.run env k ops (new_streams m gen bg, []))"
proof (rule tracked.run_invariant)
  show "tracked_ok k (new_streams m gen bg, [])"
    using new_cached [OF assms(1)] by (simp add: tracked_ok_def) (simp add: new_streams_def)
qed (rule tracked_step_ok [OF _ assms(2)])

section \<open>What a replay delivers\<close>

definition known_resets :: "session_stream \<Rightarrow> stream_event list" where
  "known_resets s = by_seq (map snd (st_resets s) @ (case st_boundary s of Some b \<Rightarrow> [b] | None \<Rightarrow> []))"

definition is_call_scoped :: "stream_event \<Rightarrow> bool" where
  "is_call_scoped x \<longleftrightarrow> jget ''reset_scope'' (ev_payload x) = JStr ''provider_call''"

definition call_resets :: "session_stream \<Rightarrow> stream_event list" where
  "call_resets s = filter is_call_scoped (map snd (st_resets s))"

text \<open>What a model call wrote and a later reset took back.\<close>

definition superseded :: "session_stream \<Rightarrow> stream_event \<Rightarrow> bool" where
  "superseded s e \<longleftrightarrow> is_stale (replay_epoch e (known_resets s)) e \<or> rolled_back (call_resets s) e"

lemma superseded_lossy: "superseded s e \<Longrightarrow> is_generation_lossy (ev_name e)"
  by (auto simp: superseded_def is_stale_def rolled_back_def)

lemma completed_not_lossy: "is_completed_turn_event n \<Longrightarrow> \<not> is_generation_lossy n"
  by (auto simp: is_completed_turn_event_def completed_turn_events_def committed_event_def
      is_generation_lossy_def generation_lossy_events_def)

lemma reset_not_lossy: "is_generation_reset n \<Longrightarrow> \<not> is_generation_lossy n"
  by (simp add: is_generation_reset_def reset_event_name_def is_generation_lossy_def generation_lossy_events_def)

lemma reset_not_completed: "is_generation_reset n \<Longrightarrow> \<not> is_completed_turn_event n"
  by (simp add: is_generation_reset_def reset_event_name_def is_completed_turn_event_def completed_turn_events_def
      committed_event_def)

text \<open>The outcome of the branches, as they see the events that no model call was made to take back.\<close>

definition standing :: "session_stream \<Rightarrow> stream_event list \<Rightarrow> stream_event list" where
  "standing s es = filter (\<lambda>e. \<not> rolled_back (call_resets s) e) es"

lemma nothing_rolled_back: "call_resets s = [] \<Longrightarrow> standing s es = es"
  by (simp add: standing_def rolled_back_def)

definition answer_seqs :: "session_stream \<Rightarrow> int \<Rightarrow> stream_event list \<Rightarrow> int list" where
  "answer_seqs s since es =
     filter (\<lambda>n. case find (\<lambda>e. ev_seq e = n) (rev es) of Some e \<Rightarrow> \<not> is_call_scoped e | None \<Rightarrow> False)
       (filter (\<lambda>n. since < n) (st_reset_seqs s))"

lemma replay_shapes:
  assumes "replay_streams s since es = (whole, sent, g)"
  obtains (hidden) "\<not> whole" "sent = []"
  | (broken) "\<not> whole" "sent = filter (\<lambda>e. since < ev_seq e) (standing s es)"
  | (plain) "whole \<Longrightarrow> st_scoped_floor s \<le> since"
      "sent = replayed_plain since (known_resets s) (standing s es)"
  | (calls) "whole \<Longrightarrow> st_scoped_floor s \<le> since"
      "sent = replayed_calls since (known_resets s) (standing s es)"
  | (answer) first where "since < ev_seq first" "first \<in> set (standing s es)" "\<not> is_call_scoped first"
      "ev_seq first \<in> set (st_reset_seqs s)"
      "sent = replayed_answer since first (known_resets s) (st_completed s) (standing s es)"
proof -
  let ?es = "standing s es"
  let ?after = "filter (\<lambda>n. since < n) (st_reset_seqs s)"
  have es: "(if call_resets s \<noteq> [] then standing s es else es) = ?es" using nothing_rolled_back by auto
  let ?named = "\<lambda>n. find (\<lambda>e. ev_seq e = n) (rev ?es)"
  have named: "?named n = Some e \<Longrightarrow> ev_seq e = n \<and> e \<in> set ?es" for n e
    by (auto simp: find_Some_iff) (metis length_rev nth_mem set_rev)
  have r: "replay_streams s since es =
     (if es = [] then (False, [], Some (if ?after \<noteq> [] then ResetBoundaryMissed else StreamBufferEmpty))
      else
        let complete = (ev_seq (hd es) - 1 \<le> since \<and> st_scoped_floor s \<le> since);
            missed = (if complete then None else Some BufferWindowMissed);
            first_seq = (case answer_seqs s since ?es of n # _ \<Rightarrow> n | [] \<Rightarrow> hd ?after)
        in if ?after = [] then (complete, replayed_plain since (known_resets s) ?es, missed)
           else if list_ex (\<lambda>n. ?named n = None) ?after
                then (False, filter (\<lambda>e. since < ev_seq e) ?es, Some ResetBoundaryMissed)
                else case ?named first_seq of
                       None \<Rightarrow> (False, filter (\<lambda>e. since < ev_seq e) ?es, Some ResetBoundaryMissed)
                     | Some first \<Rightarrow>
                         if answer_seqs s since ?es = []
                         then (complete, replayed_calls since (known_resets s) ?es, missed)
                         else (True, replayed_answer since first (known_resets s) (st_completed s) ?es, None))"
    unfolding replay_streams_def Let_def known_resets_def [symmetric] is_call_scoped_def [symmetric]
      call_resets_def [symmetric] standing_def [symmetric] es answer_seqs_def [symmetric] ..
  show thesis
  proof (cases "answer_seqs s since ?es")
    case Nil
    then show thesis using assms that(1-4) unfolding r Let_def
      by (auto split: if_splits option.splits)
  next
    case (Cons n ns)
    then have n: "n \<in> set (answer_seqs s since ?es)" by simp
    then obtain e where e: "?named n = Some e" "\<not> is_call_scoped e" "since < n" "n \<in> set (st_reset_seqs s)"
      by (auto simp: answer_seqs_def split: option.splits)
    show thesis using assms that(1-4) that(5) [of e] named [OF e(1)] e unfolding r Let_def Cons
      by (auto split: if_splits)
  qed
qed

abbreviation in_order :: "stream_event list \<Rightarrow> bool" where
  "in_order es \<equiv> sorted_wrt (<) (map ev_seq es)"

lemma in_order_subseq: "subseq xs ys \<Longrightarrow> in_order ys \<Longrightarrow> in_order xs"
  by (rule sorted_subseq [OF subseq_map])

lemma in_order_filter: "in_order es \<Longrightarrow> in_order (filter P es)"
  by (rule in_order_subseq [OF subseq_filter_left])

lemma same_seq: "in_order es \<Longrightarrow> x \<in> set es \<Longrightarrow> y \<in> set es \<Longrightarrow> ev_seq x = ev_seq y \<Longrightarrow> x = y"
  by (induction es) auto

lemma seq_dict_ok:
  "(\<forall>(n, e) \<in> set d. n = ev_seq e) \<and> dict_wf d \<Longrightarrow>
     (\<forall>(n, e) \<in> set (seq_dict es d). n = ev_seq e) \<and> dict_wf (seq_dict es d)
     \<and> set (map snd (seq_dict es d)) \<subseteq> set es \<union> set (map snd d)"
proof (induction es arbitrary: d)
  case (Cons e es)
  let ?d = "AList.update (ev_seq e) e d"
  have "(\<forall>(n, e) \<in> set ?d. n = ev_seq e) \<and> dict_wf ?d"
    using Cons.prems by (auto simp: distinct_update dest!: subsetD [OF set_update_in])
  moreover have "set (map snd ?d) \<subseteq> insert e (set (map snd d))"
    using set_update_in [of "ev_seq e" e d] by fastforce
  moreover have "seq_dict (e # es) d = seq_dict es ?d" by (simp add: seq_dict_def)
  ultimately show ?case using Cons.IH [of ?d] by (simp only: list.set) blast
qed (simp add: seq_dict_def)

lemma by_seq_in_order: "distinct (map ev_seq es) \<Longrightarrow> in_order (by_seq es)"
  by (simp add: by_seq_def strict_sorted_iff distinct_map)

lemma dict_in_order:
  assumes "\<forall>(n, e) \<in> set d. n = ev_seq e" "dict_wf d"
  shows "in_order (by_seq (map snd d))"
proof -
  have "map ev_seq (map snd d) = map fst d" using assms(1) by (auto simp: split_beta)
  then have "distinct (map ev_seq (map snd d))" using assms(2) by (simp only:)
  then show ?thesis by (rule by_seq_in_order)
qed

text \<open>The three shapes of what is delivered are in order and contain only events after the cursor.\<close>

definition sent_ok :: "stream_event list \<Rightarrow> int \<Rightarrow> stream_event list \<Rightarrow> bool" where
  "sent_ok h since sent \<longleftrightarrow> in_order sent \<and> (\<forall>e \<in> set sent. e \<in> set h \<and> since < ev_seq e)"

lemma sent_filter:
  assumes "in_order h" "subseq es h" "\<And>e. P e \<Longrightarrow> since < ev_seq e"
  shows "sent_ok h since (filter P es)"
  using in_order_filter [OF in_order_subseq [OF assms(2,1)]] subseq_set [OF assms(2)] assms(3)
  by (auto simp: sent_ok_def)

lemma sent_answer:
  assumes h: "in_order h" and es: "subseq es h" "subseq completed h" and first: "first \<in> set es" "since < ev_seq first"
  shows "sent_ok h since (replayed_answer since first resets completed es)"
proof -
  define c1 where "c1 = filter (\<lambda>e. (since < ev_seq e \<and> ev_seq e < ev_seq first) \<and> preserve_completed e first) completed"
  define c2 where "c2 = filter (\<lambda>e. (since < ev_seq e \<and> ev_seq e < ev_seq first)
      \<and> is_completed_turn_event (ev_name e) \<and> preserve_completed e first) es"
  let ?d = "seq_dict c2 (seq_dict c1 [])"
  let ?tail = "replayed_plain (ev_seq first) resets es"
  have a: "replayed_answer since first resets completed es = by_seq (map snd ?d) @ [first] @ ?tail"
    by (simp add: replayed_answer_def Let_def c1_def c2_def)
  have d1: "(\<forall>(n, e) \<in> set (seq_dict c1 []). n = ev_seq e) \<and> dict_wf (seq_dict c1 [])
     \<and> set (map snd (seq_dict c1 [])) \<subseteq> set c1"
    using seq_dict_ok [of "[]" c1] by simp
  have d: "(\<forall>(n, e) \<in> set ?d. n = ev_seq e) \<and> dict_wf ?d \<and> set (map snd ?d) \<subseteq> set c2 \<union> set (map snd (seq_dict c1 []))"
    by (rule seq_dict_ok) (use d1 in blast)
  have "set (map snd ?d) \<subseteq> set c1 \<union> set c2" using d d1 by blast
  then have cand: "\<forall>e \<in> set (by_seq (map snd ?d)). e \<in> set h \<and> since < ev_seq e \<and> ev_seq e < ev_seq first"
    using subseq_set [OF es(1)] subseq_set [OF es(2)] by (auto simp: by_seq_def c1_def c2_def)
  have tail: "sent_ok h (ev_seq first) ?tail"
    unfolding replayed_plain_def by (rule sent_filter [OF h es(1)]) blast
  have order: "in_order (by_seq (map snd ?d))" using d by (intro dict_in_order) auto
  show ?thesis unfolding a sent_ok_def
    using order cand tail first subseq_set [OF es(1)]
    by (auto simp: sorted_wrt_append sent_ok_def) (use cand tail in \<open>fastforce simp: sent_ok_def\<close>)+
qed

lemma answer_cases:
  "e \<in> set (replayed_answer since first resets completed es) \<Longrightarrow>
     e = first \<or> e \<in> set (replayed_plain (ev_seq first) resets es) \<or> e \<in> set completed
     \<or> is_completed_turn_event (ev_name e)"
proof -
  define c1 where "c1 = filter (\<lambda>e. (since < ev_seq e \<and> ev_seq e < ev_seq first) \<and> preserve_completed e first) completed"
  define c2 where "c2 = filter (\<lambda>e. (since < ev_seq e \<and> ev_seq e < ev_seq first)
      \<and> is_completed_turn_event (ev_name e) \<and> preserve_completed e first) es"
  have "set (map snd (seq_dict c1 [])) \<subseteq> set c1" "dict_wf (seq_dict c1 [])"
    "\<forall>(n, e) \<in> set (seq_dict c1 []). n = ev_seq e" using seq_dict_ok [of "[]" c1] by simp_all
  then have "set (map snd (seq_dict c2 (seq_dict c1 []))) \<subseteq> set c2 \<union> set c1"
    using seq_dict_ok [of "seq_dict c1 []" c2] by blast
  then have "e \<in> set (map snd (seq_dict c2 (seq_dict c1 []))) \<Longrightarrow>
      e \<in> set completed \<or> is_completed_turn_event (ev_name e)"
    by (auto simp: c1_def c2_def)
  moreover have "replayed_answer since first resets completed es
      = by_seq (map snd (seq_dict c2 (seq_dict c1 []))) @ [first] @ replayed_plain (ev_seq first) resets es"
    by (simp add: replayed_answer_def Let_def c1_def c2_def)
  moreover assume "e \<in> set (replayed_answer since first resets completed es)"
  ultimately show ?thesis by (simp add: by_seq_def) blast
qed

lemma plain_stands:
  "e \<in> set (replayed_plain n (known_resets s) (standing s es)) \<Longrightarrow> \<not> superseded s e"
  using reset_not_lossy superseded_lossy
  by (auto simp: replayed_plain_def standing_def superseded_def)

lemma calls_stand:
  "e \<in> set (replayed_calls n (known_resets s) (standing s es)) \<Longrightarrow> \<not> superseded s e"
  using reset_not_lossy superseded_lossy
  by (auto simp: replayed_calls_def standing_def superseded_def Let_def split: if_splits)

lemma standing_sub: "subseq (standing s es) es"
  by (simp add: standing_def)

text \<open>What a complete answer accounts for.\<close>

definition answered :: "session_stream \<Rightarrow> stream_event list \<Rightarrow> stream_event \<Rightarrow> bool" where
  "answered s sent e \<longleftrightarrow>
     (\<exists>x \<in> set sent. is_generation_reset (ev_name x) \<and> \<not> is_call_scoped x
        \<and> (ev_seq e < ev_seq x \<or> ev_seq e \<le> st_scoped_floor s))"

definition accounts_for :: "session_stream \<Rightarrow> stream_event list \<Rightarrow> stream_event \<Rightarrow> bool" where
  "accounts_for s sent e \<longleftrightarrow>
     e \<in> set sent \<or> superseded s e \<or> is_generation_reset (ev_name e) \<or> answered s sent e"

lemma streams_account:
  assumes h: "history_ok h s" and floor: "st_floor s \<le> since"
    and run: "replay_streams s since (events_of s) = (whole, sent, g)"
  shows "sent_ok h since sent"
    and "whole \<Longrightarrow> e \<in> set sent \<Longrightarrow> \<not> superseded s e"
    and "whole \<Longrightarrow> e \<in> set h \<Longrightarrow> since < ev_seq e \<Longrightarrow> model_call_id (ev_payload e) \<noteq> [] \<Longrightarrow> accounts_for s sent e"
proof -
  let ?es = "standing s (events_of s)"
  have order: "in_order h" and sub: "subseq ?es h" "subseq (st_completed s) h"
    and names: "\<forall>e \<in> set (st_completed s). is_completed_turn_event (ev_name e)"
    and seqs: "\<forall>n \<in> set (st_reset_seqs s). n \<le> st_seq s
          \<and> (\<forall>e \<in> set h. ev_seq e = n \<longrightarrow> is_generation_reset (ev_name e))"
    and miss: "\<forall>e \<in> set h. st_floor s < ev_seq e \<longrightarrow> model_call_id (ev_payload e) \<noteq> []
          \<longrightarrow> st_scoped_floor s < ev_seq e \<longrightarrow> e \<in> set (events_of s)"
    using h subseq_order.order_trans [OF standing_sub] unfolding history_ok_def by blast+
  have there: "superseded s e \<or> e \<in> set ?es"
    if "e \<in> set h" "since < ev_seq e" "model_call_id (ev_payload e) \<noteq> []" "st_scoped_floor s < ev_seq e" for e
  proof -
    have "e \<in> set (events_of s)" using miss that floor by force
    then show ?thesis by (auto simp: standing_def superseded_def)
  qed
  have "sent_ok h since sent
    \<and> (whole \<longrightarrow> e \<in> set sent \<longrightarrow> \<not> superseded s e)
    \<and> (whole \<longrightarrow> e \<in> set h \<longrightarrow> since < ev_seq e \<longrightarrow> model_call_id (ev_payload e) \<noteq> [] \<longrightarrow> accounts_for s sent e)" for e
    using run
  proof (cases rule: replay_shapes)
    case hidden
    then show ?thesis by (simp add: sent_ok_def)
  next
    case broken
    then show ?thesis using sent_filter [OF order sub(1)] by simp
  next
    case plain
    have "sent_ok h since sent"
      unfolding plain replayed_plain_def by (rule sent_filter [OF order sub(1)]) blast
    moreover have "accounts_for s sent e"
      if "whole" "e \<in> set h" "since < ev_seq e" "model_call_id (ev_payload e) \<noteq> []"
      using there that plain(1) unfolding plain(2) accounts_for_def
      by (fastforce simp: replayed_plain_def superseded_def)
    ultimately show ?thesis using plain_stands unfolding plain(2) by blast
  next
    case calls
    have "sent_ok h since sent"
      unfolding calls replayed_calls_def by (rule sent_filter [OF order sub(1)]) blast
    moreover have "accounts_for s sent e"
      if "whole" "e \<in> set h" "since < ev_seq e" "model_call_id (ev_payload e) \<noteq> []"
    proof -
      have "superseded s e \<or> e \<in> set ?es" using there that calls(1) by force
      then show ?thesis using that unfolding calls(2) accounts_for_def
        by (cases "is_generation_reset (ev_name e)") (auto simp: replayed_calls_def superseded_def Let_def)
    qed
    ultimately show ?thesis using calls_stand unfolding calls(2) by blast
  next
    case (answer first)
    have in_h: "first \<in> set h" using answer(2) subseq_set [OF sub(1)] by blast
    then have reset: "is_generation_reset (ev_name first)" using seqs answer(4) by blast
    have sent: "first \<in> set sent" unfolding answer(5) by (simp add: replayed_answer_def Let_def)
    have "accounts_for s sent e"
      if e: "e \<in> set h" "since < ev_seq e" "model_call_id (ev_payload e) \<noteq> []"
    proof (cases "ev_seq e < ev_seq first \<or> ev_seq e \<le> st_scoped_floor s")
      case True
      then show ?thesis using sent reset answer(3) by (auto simp: accounts_for_def answered_def)
    next
      case False
      show ?thesis
      proof (cases "ev_seq e = ev_seq first")
        case True
        then show ?thesis using same_seq [OF order e(1) in_h] sent by (simp add: accounts_for_def)
      next
        case after: False
        have "superseded s e \<or> e \<in> set ?es" using there e False by simp
        then show ?thesis unfolding accounts_for_def answer(5) using False after
          by (auto simp: replayed_answer_def Let_def replayed_plain_def superseded_def)
      qed
    qed
    moreover have "\<not> superseded s e" if "e \<in> set sent"
      using answer_cases [OF that [unfolded answer(5)]] plain_stands names completed_not_lossy superseded_lossy
        reset reset_not_lossy by blast
    ultimately show ?thesis
      using sent_answer [OF order sub answer(2,1)] unfolding answer(5) by blast
  qed
  then show "sent_ok h since sent"
    and "whole \<Longrightarrow> e \<in> set sent \<Longrightarrow> \<not> superseded s e"
    and "whole \<Longrightarrow> e \<in> set h \<Longrightarrow> since < ev_seq e \<Longrightarrow> model_call_id (ev_payload e) \<noteq> [] \<Longrightarrow> accounts_for s sent e"
    by blast+
qed

lemma replay_shape:
  "rr_events (fst (replay_since k (Some since) g r)) = [] \<and>
     (rr_complete (fst (replay_since k (Some since) g r)) \<longrightarrow> st_seq (sr_streams r k) \<le> since)
   \<or> st_floor (sr_streams r k) \<le> since
     \<and> (rr_complete (fst (replay_since k (Some since) g r)), rr_events (fst (replay_since k (Some since) g r)),
          rr_gap (fst (replay_since k (Some since) g r)))
        = replay_streams (sr_streams r k) since (events_of (sr_streams r k))"
proof (cases "replay_streams (sr_streams r k) since (events_of (sr_streams r k))")
  case (fields whole sent gap)
  then show ?thesis by (auto simp: replay_since_def Let_def events_of_def split: option.splits)
qed


definition plain_env :: stream_env where
  "plain_env = \<lparr>en_str = (\<lambda>_. []), en_size = (\<lambda>_. 1), en_build = (\<lambda>_ _ _ _. None), en_check = (\<lambda>_ _ _. None)\<rparr>"

definition small_budget :: cache_budget where
  "small_budget = \<lparr>bg_total_limit = 10, bg_session_limit = 5, bg_entries = [], bg_total = 0, bg_evictions = 0\<rparr>"

lemma plain_size: "size_ok plain_env"
  by (simp add: size_ok_def plain_env_def)

lemma small_new: "new_budget 10 5 = Inr small_budget"
  by (simp add: new_budget_def small_budget_def checked_def)

definition delta_of :: "string \<Rightarrow> int \<Rightarrow> string \<Rightarrow> obj" where
  "delta_of call epoch txt =
     [(''model_call_id'', JStr call), (''generation_epoch'', JInt epoch), (''text'', JStr txt)]"

definition reset_to :: "int \<Rightarrow> obj" where
  "reset_to n = [(''old_generation_epoch'', JInt (n - 1)), (''new_generation_epoch'', JInt n)]"

definition restarted_ops :: "stream_op list" where
  "restarted_ops =
     [SRecord ''s'' text_delta (delta_of ''a'' 0 ''no'') 1, SRecord ''s'' reset_event_name (reset_to 1) 2,
      SRecord ''s'' text_delta (delta_of ''b'' 1 ''yes'') 3,
      SRecord ''s'' ''session.event.tool_result'' [(''model_call_id'', JStr ''b'')] 4]"

lemma trim_code [code]: "trim_events m es s =
     (if length es \<le> m then (es, s)
      else let i = trim_victim es
           in trim_events m (take i es @ drop (Suc i) es) (scoped_eviction (es ! i) s))"
  by (rule trim_events.simps)

text \<open>What a client that has seen nothing of session \<open>s\<close> gets after the operations, and all that was recorded.\<close>

definition answer_after :: "nat \<Rightarrow> stream_op list \<Rightarrow> bool \<times> int list \<times> int list" where
  "answer_after m ops =
     (let (r, h) = fold (tracked_step plain_env ''s'') ops (new_streams m ''g'' small_budget, []);
          a = fst (replay_since ''s'' (Some 0) None r)
      in (rr_complete a, map ev_seq (rr_events a), map ev_seq h))"

lemma restarted_values: "answer_after 5 restarted_ops = (True, [2, 3, 4], [1, 2, 3, 4])"
  by code_simp


text \<open>Two ways in which an answer calls itself complete and is not. With room for two events, a tool start
  of no model call is trimmed behind a turn's end that is kept; the test for a missed window looks only at the
  first event. With room for three, the first words after an answer reset are trimmed, and the branch of an
  answer reset does not look at what was trimmed at all.\<close>

theorem replay_gap_hidden:
  "answer_after 2
     [SRecord ''s'' committed_event [] 1, SRecord ''s'' ''session.event.tool_use_start'' [] 2,
      SRecord ''s'' ''session.event.state_change'' [] 3] = (True, [1, 3], [1, 2, 3])
   \<and> answer_after 3
     [SRecord ''s'' reset_event_name (reset_to 1) 1, SRecord ''s'' text_delta (delta_of ''a'' 1 ''Hello'') 2,
      SRecord ''s'' ''session.event.tool_use_start'' [(''model_call_id'', JStr ''a'')] 3,
      SRecord ''s'' ''session.event.tool_use_start'' [(''model_call_id'', JStr ''a'')] 4]
     = (True, [1, 3, 4], [1, 2, 3, 4])
   \<and> answer_after 2
     [SRecord ''s'' text_delta (delta_of ''a'' 1 ''Hello'') 2,
      SRecord ''s'' ''session.event.tool_use_start'' [(''model_call_id'', JStr ''a'')] 3,
      SRecord ''s'' ''session.event.tool_use_start'' [(''model_call_id'', JStr ''a'')] 4]
     = (False, [2, 3], [1, 2, 3])"
  by code_simp

section \<open>The live view\<close>

definition text_of :: "(json \<Rightarrow> string) \<Rightarrow> stream_event \<Rightarrow> string" where
  "text_of show e = (if ev_name e = text_delta then str_of show (jget_or ''text'' (JStr []) (ev_payload e)) else [])"

definition spoken :: "(json \<Rightarrow> string) \<Rightarrow> stream_event list \<Rightarrow> string" where
  "spoken show es = concat (map (text_of show) es)"

lemma spoken_simps [simp]:
  "spoken show [] = []" "spoken show (e # es) = text_of show e @ spoken show es"
  "spoken show (es @ es') = spoken show es @ spoken show es'"
  by (simp_all add: spoken_def)

lemma jget_or_update: "jget_or f x (AList.update g v d) = (if f = g then v else jget_or f x d)"
  by (simp add: jget_or_def update_conv')

lemma jget_or_put: "f \<noteq> g \<Longrightarrow> jget_or f x (put_if_some g v d) = jget_or f x d"
  by (simp add: put_if_some_def jget_or_update split: option.split)

lemma compacted_name [simp]: "ev_name (compacted show f x e) = ev_name x"
  by (simp add: compacted_def Let_def)

lemma compacted_text:
  "text_of show (compacted show ''text'' x e) = (if ev_name x = text_delta then
     str_of show (jget_or ''text'' (JStr []) (ev_payload x)) @ str_of show (jget_or ''text'' (JStr []) (ev_payload e)) else [])"
  by (simp add: text_of_def compacted_def Let_def jget_or_put jget_or_update str_of_def)

lemma spoken_silent:
  assumes "i < length es" "text_of show (es ! i) = []" "text_of show x = []"
  shows "spoken show (es[i := x]) = spoken show es"
proof -
  have es: "es = take i es @ es ! i # drop (Suc i) es" using assms(1) by (simp add: id_take_nth_drop)
  show ?thesis unfolding upd_conv_take_nth_drop [OF assms(1)]
    by (subst (3) es) (simp add: assms(2,3))
qed

lemma find_there: "find P xs = Some x \<Longrightarrow> x \<in> set xs \<and> P x"
  by (induction xs) (auto split: if_splits)

lemma last_from_Some: "last_from n P es = Some i \<Longrightarrow> i < length es \<and> P (es ! i)"
  by (auto simp: last_from_def dest: find_there)

lemma place_silent:
  assumes "map_option (\<lambda>i. es[i := f i]) (last_from n P es) = Some es'"
    and "\<And>x. P x \<Longrightarrow> ev_name x \<noteq> text_delta" "\<And>i. P (es ! i) \<Longrightarrow> ev_name (f i) \<noteq> text_delta"
  shows "spoken show es' = spoken show es"
proof -
  obtain i where i: "last_from n P es = Some i" "es' = es[i := f i]" using assms(1) by auto
  then show ?thesis using last_from_Some [OF i(1)] assms(2,3)
    by (auto intro: spoken_silent simp: text_of_def)
qed

lemma place_text_spoken:
  assumes "es \<noteq> []" "ev_name e = text_delta"
  shows "spoken show (place_text show e es) = spoken show es @ text_of show e"
proof -
  obtain xs x where es: "es = xs @ [x]" using assms(1) by (cases es rule: rev_cases) auto
  show ?thesis
  proof (cases "ev_name x = text_delta")
    case True
    then show ?thesis using assms(2)
      by (simp add: es place_text_def Let_def compacted_text) (simp add: text_of_def)
  qed (simp add: es place_text_def Let_def assms(2))
qed

lemma place_spoken: "spoken show (place_event show e es) = spoken show es @ text_of show e"
proof (cases "ev_name e = text_delta")
  case True
  then have "place_event show e es = es @ [e] \<or> (es \<noteq> [] \<and> place_event show e es = place_text show e es)"
    by (auto simp: place_event_def Let_def text_delta_def split: option.splits)
  then show ?thesis using place_text_spoken [of es e] True by auto
next
  case False
  then have e: "text_of show e = []" by (simp add: text_of_def)
  define start where "start = (case last_from 0 (\<lambda>x. is_generation_reset (ev_name x)) es of Some i \<Rightarrow> Suc i | None \<Rightarrow> 0)"
  have thinking: "spoken show es' = spoken show es" if "place_thinking show n e es = Some es'" for n es'
    using that unfolding place_thinking_def by (rule place_silent) (use False in auto)
  have delta: "spoken show es' = spoken show es" if "place_tool_delta show n e es = Some es'" for n es'
    using that unfolding place_tool_delta_def Let_def by (rule place_silent) (use False in auto)
  have preview: "spoken show es' = spoken show es" if "place_preview n e es = Some es'" for n es'
    using that unfolding place_preview_def by (rule place_silent) (use False in auto)
  have beat: "spoken show es' = spoken show es" if "place_heartbeat e es = Some es'" for es'
    using that unfolding place_heartbeat_def by (rule place_silent) (use False in auto)
  have activity: "spoken show es' = spoken show es" if "place_activity show e es = Some es'" for es'
    using that unfolding place_activity_def Let_def by (rule place_silent) (use False in auto)
  have "place_event show e es = es @ [e] \<or> spoken show (place_event show e es) = spoken show es"
    unfolding place_event_def Let_def start_def [symmetric]
    using False thinking [of start] delta [of start] preview [of start] beat activity
    by (simp split: option.split)
  then show ?thesis using e by auto
qed

text \<open>The four fields of the live turn.\<close>

definition live_fields ::
  "session_stream \<Rightarrow> stream_event list option \<times> string option option \<times> int option \<times> (string \<times> stream_event list) option" where
  "live_fields s = (st_live s, st_live_task s, st_live_epoch s, st_prefix s)"

lemma trim_live:
  assumes "trim_events m es s = (left, s')"
  shows "live_fields s' = live_fields s"
proof -
  obtain n where "s' = s\<lparr>st_scoped_floor := n\<rparr>" using trim_keeps [OF assms] unfolding floor_raised_def by blast
  then show ?thesis by (simp add: live_fields_def)
qed

lemma buffer_live [simp]: "live_fields (buffer_event m e s) = live_fields s"
proof -
  have "live_fields (s\<lparr>st_events := x\<rparr>) = live_fields s" for s x by (simp add: live_fields_def)
  then show ?thesis unfolding buffer_event_def Let_def
    by (simp split: prod.split) (auto dest!: trim_live simp: live_fields_def)
qed

lemma counted_live [simp]: "live_fields (counted e s) = live_fields s"
  by (simp add: counted_def Let_def advance_epoch_def live_fields_def split: option.split)

lemma note_live [simp]: "live_fields (note_task e s) = live_fields s"
  by (simp add: note_task_def live_fields_def split: option.split)

lemma refresh_live [simp]: "live_fields (sr_streams (refresh_budget env k r) x) = live_fields (sr_streams r x)"
proof -
  have "live_fields (sr_streams (fold (\<lambda>g. on_stream g evict_cache) gone r) x) = live_fields (sr_streams r x)" for gone r
    by (induction gone arbitrary: r) (auto simp: on_stream_def live_fields_def)
  then show ?thesis by (simp add: refresh_budget_def Let_def split: prod.split)
qed

text \<open>What an event of a turn does to the live text.\<close>

definition changes_task :: "stream_event \<Rightarrow> session_stream \<Rightarrow> bool" where
  "changes_task e s \<longleftrightarrow>
     stream_task_id (ev_payload e) \<noteq> None \<and> stream_task_id (ev_payload e) \<noteq> live_task_of s"

definition is_late :: "stream_event \<Rightarrow> session_stream \<Rightarrow> bool" where
  "is_late e s \<longleftrightarrow>
     is_stale (newer_epoch (if changes_task e s then None else st_live_epoch s) (generation_epoch (ev_payload e))) e"

lemma live_of_fields: "live_fields s = live_fields s' \<Longrightarrow>
    live_of s = live_of s' \<and> live_task_of s = live_task_of s' \<and> st_live_epoch s = st_live_epoch s'"
  by (simp add: live_fields_def live_of_def live_task_of_def)

lemma begin_parts:
  "live_of (begin_live e s) = (if changes_task e s then [] else live_of s)"
  "st_live_epoch (begin_live e s) = (if changes_task e s then None else st_live_epoch s)"
  by (auto simp: begin_live_def Let_def changes_task_def clear_live_def live_of_def live_task_of_def)

lemma answer_reset_spoken: "is_generation_reset (ev_name e) \<Longrightarrow> spoken show (live_of (record_answer_reset show e s)) = []"
proof -
  have silent: "ev_name x = text_delta \<Longrightarrow> \<not> (is_completed_turn_event (ev_name x)
      \<or> ev_name x = ''session.event.compaction'' \<or> suffix ''.approval.requested'' (ev_name x)
      \<or> suffix ''.approval.resolved'' (ev_name x) \<or> ev_name x \<in> {''session.event.tool_use_start'',
        ''session.event.tool_use_delta'', ''session.event.tool_use_end''})" for x
    by (simp add: is_completed_turn_event_def completed_turn_events_def committed_event_def text_delta_def
        suffix_to_prefix)
  have none: "(\<And>x. x \<in> set es \<Longrightarrow> ev_name x \<noteq> text_delta) \<Longrightarrow> spoken show es = []" for es
    by (auto simp: spoken_def text_of_def)
  assume "is_generation_reset (ev_name e)"
  then have e: "ev_name e \<noteq> text_delta" by (auto simp: is_generation_reset_def reset_event_name_def text_delta_def)
  show ?thesis
    by (rule none) (use e silent in \<open>auto simp: record_answer_reset_def Let_def live_of_def by_seq_def\<close>)
qed

lemma record_live_fields:
  assumes "accepted env k name d now r" "e = next_event k name d now r"
    and "\<not> is_manual (en_str env) e" "name \<notin> {committed_event, ''session.event.done'', ''session.event.error''}"
  shows "\<exists>s1. live_fields s1 = live_fields (sr_streams r k)
    \<and> live_fields (sr_streams (snd (record_event env k name d now r)) k)
      = live_fields (record_turn_event (en_str env) e (begin_live e s1))"
proof -
  let ?s1 = "buffer_event (sr_max r) e (counted e (sr_streams r k))"
  have "ev_name e = name" by (simp add: assms(2) next_event_def Let_def)
  then have "record_live env k e r' = on_stream k (record_turn_event (en_str env) e) (on_stream k (begin_live e) r')" for r'
    using assms(3,4) by (simp add: record_live_def Let_def)
  then have "live_fields (sr_streams (snd (record_event env k name d now r)) k)
      = live_fields (record_turn_event (en_str env) e (begin_live e ?s1))"
    using assms(1) unfolding record_event_def accepted_def Let_def assms(2) [symmetric]
    by (cases "is_call_reset e") simp_all
  moreover have "live_fields ?s1 = live_fields (sr_streams r k)" by simp
  ultimately show ?thesis by blast
qed


definition greeting :: streams where
  "greeting = fold (stream_step plain_env)
     [SRecord ''s'' text_delta (delta_of ''a'' 1 ''Hel'') 1, SRecord ''s'' ''session.event.thinking'' [(''text'', JStr ''hm'')] 2]
     (new_streams 5 ''g'' small_budget)"


section \<open>The budget\<close>

interpretation stream_registry: machine "stream_step env" for env .

definition limits :: "streams \<Rightarrow> int \<times> int" where
  "limits r = (bg_total_limit (sr_budget r), bg_session_limit (sr_budget r))"

lemma update_limits: "budget_update k n b = (gone, b') \<Longrightarrow>
    bg_total_limit b' = bg_total_limit b \<and> bg_session_limit b' = bg_session_limit b"
  by (auto simp: budget_update_def budget_discard_def Let_def split: if_splits prod.splits)

lemma refresh_limits: "limits (refresh_budget env k r) = limits r"
  by (auto simp: refresh_budget_def limits_def Let_def budget_discard_def dest: update_limits split: prod.split)

lemma step_limits: "limits (stream_step env a r) = limits r"
proof (cases a)
  case (SRecord k name d now)
  show ?thesis
  proof (cases rule: record_shapes [of env k name d now r])
    case rejected
    then show ?thesis by (simp add: SRecord limits_def)
  next
    case (stored s)
    have "limits s = limits r" by (simp add: limits_def stored(3))
    then show ?thesis by (simp add: SRecord stored(2) refresh_limits)
  qed
next
  case (SPersisted k task reconstructible)
  have "limits (on_stream k f r) = limits r" for f by (simp add: limits_def)
  then show ?thesis by (simp add: SPersisted mark_terminal_persisted_def refresh_limits)
qed (auto simp: limits_def take_streams evict_def budget_discard_def replay_since_def Let_def budget_touch_def
    split: option.split)

text \<open>Nothing protects the session: its last task is persisted, and no task, live turn or maintenance of it is
  under way.\<close>

definition idle_stream :: "session_stream \<Rightarrow> bool" where
  "idle_stream s \<longleftrightarrow>
     st_persisted s \<noteq> None \<and> st_unpersisted s = [] \<and> st_live s = None \<and> st_live_task s = None \<and> st_manual s = []"

lemma unprotected_idle: "(\<not> protected_stream s) = idle_stream s"
  by (auto simp: protected_stream_def idle_stream_def)

definition budget_held :: "int \<Rightarrow> int \<Rightarrow> streams \<Rightarrow> bool" where
  "budget_held overall each r \<longleftrightarrow>
     bg_total (sr_budget r) = sum_list (map snd (bg_entries (sr_budget r))) \<and> bg_total (sr_budget r) \<le> overall
     \<and> (\<forall>(x, n) \<in> set (bg_entries (sr_budget r)). 0 \<le> n \<and> n \<le> each
          \<and> idle_stream (sr_streams r x) \<and> st_events (sr_streams r x) \<noteq> None)"

lemma held_ok:
  assumes "cached_ok r" "limits r = (overall, each)"
  shows "budget_held overall each r"
proof -
  have "map_of (bg_entries (sr_budget r)) x \<noteq> None" if "(x, n) \<in> set (bg_entries (sr_budget r))" for x n
    unfolding map_of_eq_None_iff using that by (auto intro: rev_image_eqI)
  then show ?thesis using assms unfolding cached_ok_def budget_ok_def budget_held_def limits_def unprotected_idle by fastforce
qed

text \<open>C21: The budget of the caches. Whatever is done to a fresh registry, what the budget counts is the sum of
  its entries and within its limits, and every entry is a session that has cached events and that nothing
  protects: its last task is persisted, and no task, live turn or maintenance of it is under way. An operation on
  another session leaves a protected session exactly as it is; of one that is not protected it takes at most the
  caches, and then every cursor before the eviction is told of the gap.\<close>

theorem budget_spares_protected:
  assumes "new_budget overall each = Inr bg" "size_ok env"
    and "r = stream_registry.run env ops (new_streams m gen bg)" and "r' = stream_step env a r" "target a \<noteq> k"
  shows "budget_held overall each r
    \<and> (sr_streams r' k = sr_streams r k
       \<or> idle_stream (sr_streams r k) \<and> sr_streams r' k = evict_cache (sr_streams r k)
         \<and> (\<forall>since < st_seq (sr_streams r k). \<not> rr_complete (fst (replay_since k (Some since) g r'))))"
proof -
  have "cached_ok (new_streams m gen bg) \<and> limits (new_streams m gen bg) = (overall, each)"
    using new_cached [OF assms(1)] assms(1) by (auto simp: limits_def new_streams_def new_budget_def checked_Inr)
  then have ok: "cached_ok r \<and> limits r = (overall, each)" unfolding assms(3)
    by (rule stream_registry.run_invariant) (use stream_step_cached assms(2) step_limits in metis)
  have "\<not> rr_complete (fst (replay_since k (Some since) g r'))"
    if "sr_streams r' k = evict_cache (sr_streams r k)" "since < st_seq (sr_streams r k)" for since
    using that by (auto simp: replay_since_def Let_def split: option.split)
  then show ?thesis
    using held_ok ok other_streams [of r env a k] assms(2,5) unfolding assms(4) unprotected_idle by blast
qed

text \<open>Two finished sessions of four units each do not fit into a budget of five.\<close>

definition crowded_env :: stream_env where
  "crowded_env = plain_env\<lparr>en_size := (\<lambda>_. 4)\<rparr>"

definition finish :: "string \<Rightarrow> stream_op list" where
  "finish k = [SRecord k committed_event [(''task_id'', JStr ''t'')] 1, SPersisted k ''t'' True]"

definition tight_budget :: cache_budget where
  "tight_budget = \<lparr>bg_total_limit = 5, bg_session_limit = 5, bg_entries = [], bg_total = 0, bg_evictions = 0\<rparr>"

theorem budget_spares_protected_witness:
  "(let r = fold (stream_step crowded_env) (finish ''a'' @ [hd (finish ''b'')]) (new_streams 5 ''g'' tight_budget);
        r' = stream_step crowded_env (SPersisted ''b'' ''t'' True) r
    in bg_entries (sr_budget r) = [(''a'', 4)] \<and> st_events (sr_streams r' ''a'') = None
       \<and> \<not> rr_complete (fst (replay_since ''a'' (Some 0) None r')))"
proof -
  let ?r = "fold (stream_step crowded_env) (finish ''a'' @ [hd (finish ''b'')]) (new_streams 5 ''g'' tight_budget)"
  let ?r' = "stream_step crowded_env (SPersisted ''b'' ''t'' True) ?r"
  have env: "new_budget 5 5 = Inr tight_budget" "size_ok crowded_env"
    by (simp_all add: new_budget_def tight_budget_def checked_def size_ok_def crowded_env_def)
  have "bg_entries (sr_budget ?r) = [(''a'', 4)] \<and> st_events (sr_streams ?r' ''a'') = None
      \<and> st_events (sr_streams ?r ''a'') \<noteq> None \<and> st_seq (sr_streams ?r ''a'') = 1" by code_simp
  moreover have "budget_held 5 5 ?r \<and> (sr_streams ?r' ''a'' = sr_streams ?r ''a''
       \<or> idle_stream (sr_streams ?r ''a'') \<and> sr_streams ?r' ''a'' = evict_cache (sr_streams ?r ''a'')
         \<and> (\<forall>since < st_seq (sr_streams ?r ''a''). \<not> rr_complete (fst (replay_since ''a'' (Some since) None ?r'))))"
    by (rule budget_spares_protected [OF env stream_registry.run_def [symmetric] refl]) simp
  ultimately show ?thesis unfolding Let_def by (metis zero_less_one)
qed

end
