(* ===== verification/Flow_Budget.thy ===== *)
theory Flow_Budget
  imports Prelude
begin

text \<open>
  The bytes that the gateway may hold for its connections: \<open>TransportBudget\<close> of \<open>gateway/transport_flow.py\<close>,
  shared by all connections, and the reservations of one connection (\<open>reserve_transport_bytes\<close> and
  \<open>release_transport_bytes\<close> of \<open>gateway/websocket.py\<close>) on top of it.
\<close>

section \<open>Limits\<close>

definition connection_buffer_bytes :: int where "connection_buffer_bytes = 50 * 1024 * 1024"
definition global_buffer_bytes :: int where "global_buffer_bytes = 256 * 1024 * 1024"
definition control_buffer_bytes :: int where "control_buffer_bytes = 1024 * 1024"
definition recovery_window_bytes :: int where "recovery_window_bytes = 1024 * 1024"

section \<open>The shared budget\<close>

datatype budget_kind = KNone | KBulk | KRecovery | KControl

record budget =
  bu_limit :: int
  bu_used :: int
  bu_kinds :: "budget_kind \<Rightarrow> int"

definition new_transport_budget :: "int \<Rightarrow> budget" where
  "new_transport_budget limit = \<lparr>bu_limit = limit, bu_used = 0, bu_kinds = (\<lambda>_. 0)\<rparr>"

text \<open>What must stay free for frames of control and of recovery.\<close>

definition budget_headroom :: "budget_kind \<Rightarrow> budget \<Rightarrow> int" where
  "budget_headroom kind b =
     (if kind = KBulk \<or> kind = KRecovery then max 0 (control_buffer_bytes - bu_kinds b KControl) else 0)
     + (if kind = KBulk then max 0 (recovery_window_bytes - bu_kinds b KRecovery) else 0)"

definition budget_reserve :: "int \<Rightarrow> budget_kind \<Rightarrow> budget \<Rightarrow> (py_exc + bool) \<times> budget" where
  "budget_reserve n kind b =
     guarded [(n < 0, ValueError ''transport reservation must be a nonnegative integer'')] b
       (if bu_limit b - budget_headroom kind b < bu_used b + n then (Inr False, b)
        else (Inr True, b\<lparr>bu_used := bu_used b + n,
                          bu_kinds := (bu_kinds b)(kind := bu_kinds b kind + n)\<rparr>))"

definition budget_release :: "int \<Rightarrow> budget_kind \<Rightarrow> budget \<Rightarrow> (py_exc + unit) \<times> budget" where
  "budget_release n kind b =
     guarded [(\<not> (0 \<le> n \<and> n \<le> bu_kinds b kind), ValueError ''transport release exceeds its reservation'')] b
       (Inr (), b\<lparr>bu_used := bu_used b - n, bu_kinds := (bu_kinds b)(kind := bu_kinds b kind - n)\<rparr>)"

section \<open>A connection\<close>

record link =
  ln_bytes :: int
  ln_kinds :: "budget_kind \<Rightarrow> int"
  ln_recovery :: bool
  ln_closing :: bool
  ln_shared :: budget

definition link_kind :: "budget_kind \<Rightarrow> 'a link_scheme \<Rightarrow> budget_kind" where
  "link_kind kind l = (if ln_recovery l then (if kind = KNone then KBulk else kind) else KNone)"

definition link_headroom :: "budget_kind \<Rightarrow> 'a link_scheme \<Rightarrow> int" where
  "link_headroom kind l =
     (if kind = KNone then 0
      else sum_list (map (\<lambda>other. max 0 (control_buffer_bytes - ln_kinds l other))
             (filter (\<lambda>other. other \<noteq> kind) [KControl, KRecovery])))"

definition reserve_bytes :: "int \<Rightarrow> budget_kind \<Rightarrow> 'a link_scheme \<Rightarrow> (py_exc + bool) \<times> 'a link_scheme" where
  "reserve_bytes n kind0 l =
     guarded [(n < 0, ValueError ''transport reservation must be a nonnegative integer'')] l
       (let kind = link_kind kind0 l in
        if ln_closing l \<or> connection_buffer_bytes - link_headroom kind l < ln_bytes l + n then (Inr False, l)
        else case budget_reserve n kind (ln_shared l) of
               (Inl e, b) \<Rightarrow> (Inl e, l\<lparr>ln_shared := b\<rparr>)
             | (Inr False, b) \<Rightarrow> (Inr False, l\<lparr>ln_shared := b\<rparr>)
             | (Inr True, b) \<Rightarrow>
                 (Inr True, l\<lparr>ln_shared := b, ln_bytes := ln_bytes l + n,
                   ln_kinds := (if kind = KNone then ln_kinds l
                                else (ln_kinds l)(kind := ln_kinds l kind + n))\<rparr>))"

definition release_bytes :: "int \<Rightarrow> budget_kind \<Rightarrow> 'a link_scheme \<Rightarrow> (py_exc + unit) \<times> 'a link_scheme" where
  "release_bytes n kind0 l =
     guarded [(\<not> (0 \<le> n \<and> n \<le> ln_bytes l), ValueError ''transport release exceeds connection reservation'')] l
       (let kind = link_kind kind0 l;
            l1 = l\<lparr>ln_bytes := ln_bytes l - n,
                   ln_kinds := (if kind = KNone then ln_kinds l
                                else (ln_kinds l)(kind := ln_kinds l kind - n))\<rparr>
        in case budget_release n kind (ln_shared l) of (r, b) \<Rightarrow> (r, l1\<lparr>ln_shared := b\<rparr>))"

section \<open>What the budget keeps free\<close>

text \<open>Frames of bulk and recovery leave room for control; as long as control keeps to its share, those of bulk
  leave room for recovery too.\<close>

definition budget_kept :: "budget \<Rightarrow> bool" where
  "budget_kept b \<longleftrightarrow>
     (\<forall>kind. 0 \<le> bu_kinds b kind) \<and> bu_kinds b KNone = 0
     \<and> bu_used b = bu_kinds b KBulk + bu_kinds b KRecovery + bu_kinds b KControl
     \<and> bu_used b + max 0 (control_buffer_bytes - bu_kinds b KControl) \<le> bu_limit b"

datatype budget_op = BReserve int budget_kind | BRelease int budget_kind

primrec budget_step :: "budget_op \<Rightarrow> budget \<Rightarrow> budget" where
  "budget_step (BReserve n kind) b = snd (budget_reserve n kind b)"
| "budget_step (BRelease n kind) b = snd (budget_release n kind b)"

primrec has_kind :: "budget_op \<Rightarrow> bool" where
  "has_kind (BReserve n kind) = (kind \<noteq> KNone)"
| "has_kind (BRelease n kind) = True"

interpretation shared_budget: machine budget_step .

lemma reserve_kept: "kind \<noteq> KNone \<Longrightarrow> budget_kept b \<Longrightarrow> budget_kept (snd (budget_reserve n kind b))"
  by (cases kind)
     (auto simp: budget_reserve_def guarded_def budget_kept_def budget_headroom_def)

lemma release_kept: "budget_kept b \<Longrightarrow> budget_kept (snd (budget_release n kind b))"
  by (cases kind) (auto simp: budget_release_def guarded_def budget_kept_def)

lemma budget_run_kept: "budget_kept b \<Longrightarrow> list_all has_kind ops \<Longrightarrow> budget_kept (shared_budget.run ops b)"
proof (induction ops arbitrary: b)
  case (Cons a ops)
  then show ?case by (cases a) (simp_all add: reserve_kept release_kept)
qed simp

end
