(* ===== verification/Flow_Window.thy ===== *)
theory Flow_Window
  imports Flow_Budget Json
begin

text \<open>
  The flow window of one connection (\<open>FlowWindow\<close> of \<open>gateway/transport_flow.py\<close>): which frames may be sent,
  what their bytes are charged to, and which acknowledgements give the bytes back.

  \<^item> The window is the connection's \<open>link\<close> extended by the fields of the object; its callbacks are the
    connection's reservations, as \<open>_enable_flow\<close> passes them. The calls of \<open>on_stage\<close> are a list.
  \<^item> The books of the lanes are a record of their own. \<open>object()\<close> is the next number of a counter. What a
    client sends as an identifier is a JSON value; \<open>uuid4\<close> is an argument.
\<close>

section \<open>Data\<close>

definition flow_window_bytes :: int where "flow_window_bytes = 4 * 1024 * 1024"
definition flow_window_frames :: nat where "flow_window_frames = 128"
definition max_lanes :: nat where "max_lanes = 4"
definition max_lane_epochs :: nat where "max_lane_epochs = 16"
definition recovery_window_frames :: nat where "recovery_window_frames = 16"
definition max_wire_bytes :: int where "max_wire_bytes = 25 * 1024 * 1024"

datatype publication = Reserved | Original | Tombstone
datatype lane_state = LaneActive | LaneRetired | LaneClosed

record delivery =
  dl_size :: int
  dl_recovery :: bool
  dl_lane :: "string option"
  dl_epoch :: "string option"
  dl_sequence :: "int option"
  dl_sent :: bool
  dl_sending :: bool
  dl_acked :: bool
  dl_retired_unsent :: bool
  dl_key :: "string option"
  dl_owner :: "nat option"
  dl_segment :: "int option"
  dl_deadline :: "real option"
  dl_publication :: publication

type_synonym epoch_key = "string \<times> string option"

record lane_book =
  lb_seen :: "string list"
  lb_states :: "(string \<times> lane_state) list"
  lb_epochs :: "(string \<times> string option) list"
  lb_epoch_states :: "(epoch_key \<times> lane_state) list"
  lb_tokens :: "(string \<times> string) list"
  lb_epoch_tokens :: "(epoch_key \<times> string) list"
  lb_finals :: "(string \<times> int) list"
  lb_epoch_finals :: "(epoch_key \<times> int) list"
  lb_ack_ids :: "(string \<times> int) list"
  lb_delivery_acks :: "(string \<times> int) list"
  lb_epoch_acks :: "(epoch_key \<times> int) list"
  lb_next_ids :: "(string \<times> int) list"

definition no_lanes :: lane_book where
  "no_lanes =
     \<lparr>lb_seen = [], lb_states = [], lb_epochs = [], lb_epoch_states = [], lb_tokens = [], lb_epoch_tokens = [],
      lb_finals = [], lb_epoch_finals = [], lb_ack_ids = [], lb_delivery_acks = [], lb_epoch_acks = [],
      lb_next_ids = []\<rparr>"

record flow = link +
  fw_epoch :: string
  fw_recovery_limit :: nat
  fw_lane_mode :: bool
  fw_lane_limit :: nat
  fw_lanes :: lane_book
  fw_closed :: bool
  fw_next_id :: int
  fw_ack_id :: int
  fw_rejection :: "string option"
  fw_staged_id :: int
  fw_deliveries :: "(int \<times> delivery) list"
  fw_staged :: "(int \<times> delivery) list"
  fw_dirty :: "(string \<times> (string option \<times> int)) list"
  fw_global_dirty :: bool
  fw_global_revision :: nat
  fw_dirty_tokens :: "(string \<times> nat) list"
  fw_global_token :: "nat option"
  fw_objects :: nat

definition enable_flow :: "string \<Rightarrow> nat \<Rightarrow> bool \<Rightarrow> nat \<Rightarrow> link \<Rightarrow> flow" where
  "enable_flow epoch recovery_limit lane_mode lane_limit l =
     link.extend l (flow.fields epoch (min recovery_window_frames (max 1 recovery_limit)) lane_mode
       (max 1 lane_limit) no_lanes False 1 0 None 0 [] [] [] False 0 [] None 0)"

abbreviation on_lanes :: "(lane_book \<Rightarrow> lane_book) \<Rightarrow> flow \<Rightarrow> flow" where
  "on_lanes f w \<equiv> w\<lparr>fw_lanes := f (fw_lanes w)\<rparr>"

definition delivery_of :: "int \<Rightarrow> flow \<Rightarrow> delivery option" where
  "delivery_of i w = map_of (fw_deliveries w) i"

definition put_delivery :: "int \<Rightarrow> delivery \<Rightarrow> flow \<Rightarrow> flow" where
  "put_delivery i d w = w\<lparr>fw_deliveries := AList.update i d (fw_deliveries w)\<rparr>"

definition values_of :: "flow \<Rightarrow> delivery list" where
  "values_of w = map snd (fw_deliveries w)"

definition lane_epoch_of :: "string \<Rightarrow> flow \<Rightarrow> string option" where
  "lane_epoch_of lane w = (case map_of (lb_epochs (fw_lanes w)) lane of Some e \<Rightarrow> e | None \<Rightarrow> None)"

section \<open>Admission\<close>

record admission =
  ad_size :: int
  ad_recovery :: bool
  ad_wire :: "int option"
  ad_key :: "string option"
  ad_owner :: "nat option"
  ad_segment :: "int option"
  ad_deadline :: "real option"
  ad_lane :: "string option"
  ad_epoch :: "string option"
  ad_reserved :: bool

text \<open>The test of the lane; a lane whose last epoch is over starts again under a new one.\<close>

definition lane_gate :: "admission \<Rightarrow> flow \<Rightarrow> string option \<times> flow" where
  "lane_gate a w =
     (case ad_lane a of
        None \<Rightarrow> (None, w)
      | Some lane \<Rightarrow>
          if \<not> fw_lane_mode w then (None, w)
          else
            let b = fw_lanes w;
                over = (map_of (lb_states b) lane = Some LaneRetired \<or> map_of (lb_states b) lane = Some LaneClosed)
            in if map_of (lb_epoch_states b) (lane, ad_epoch a) = None
                  \<and> max_lane_epochs \<le> length (lb_epoch_states b)
               then (Some ''lane_epoch_limit'', w)
               else if over \<and> (ad_epoch a = None \<or> ad_epoch a = lane_epoch_of lane w)
               then (Some ''lane_retired'', w)
               else
                 let w1 = (if over
                           then on_lanes (\<lambda>b. b\<lparr>lb_states := AList.update lane LaneActive (lb_states b),
                                  lb_ack_ids := AList.delete lane (lb_ack_ids b),
                                  lb_delivery_acks := AList.delete lane (lb_delivery_acks b),
                                  lb_next_ids := AList.update lane 1 (lb_next_ids b)\<rparr>) w
                           else w)
                 in (if lane \<notin> set (lb_seen b) \<and> fw_lane_limit w \<le> length (lb_seen b)
                     then Some ''lane_limit'' else None, w1))"

definition window_refusal :: "admission \<Rightarrow> flow \<Rightarrow> string option" where
  "window_refusal a w =
     (let size = ad_size a;
          wire = (case ad_wire a of None \<Rightarrow> size | Some n \<Rightarrow> n);
          ordinary = filter (\<lambda>d. \<not> dl_recovery d) (values_of w);
          pieces = filter dl_recovery (values_of w);
          active = remdups (map dl_lane (filter (\<lambda>d. dl_lane d \<noteq> None) ordinary))
      in if \<not> (0 < wire \<and> wire \<le> max_wire_bytes) \<or> \<not> (wire \<le> size \<and> size \<le> max_wire_bytes + 32)
         then Some ''frame_wire_limit''
         else if fw_lane_mode w \<and> ad_lane a \<noteq> None \<and> ad_lane a \<notin> set active \<and> fw_lane_limit w \<le> length active
         then Some ''lane_limit''
         else if ad_recovery a
         then if fw_recovery_limit w \<le> length pieces
                 \<or> recovery_window_bytes < sum_list (map dl_size pieces) + size
                 \<or> ad_key a \<noteq> None \<and> list_ex (\<lambda>d. dl_key d = ad_key a) pieces
              then Some ''recovery_window_exhausted'' else None
         else if flow_window_frames \<le> length ordinary
                 \<or> ordinary \<noteq> [] \<and> flow_window_bytes < sum_list (map dl_size ordinary) + size
         then Some ''connection_window_exhausted'' else None)"

definition setdefault :: "'k \<Rightarrow> 'v \<Rightarrow> ('k \<times> 'v) list \<Rightarrow> ('k \<times> 'v) list" where
  "setdefault k v d = (if map_of d k = None then d @ [(k, v)] else d)"

definition next_lane_sequence :: "string \<Rightarrow> lane_book \<Rightarrow> int" where
  "next_lane_sequence lane b = (case map_of (lb_next_ids b) lane of Some n \<Rightarrow> n | None \<Rightarrow> 1)"

definition enter_lane :: "string \<Rightarrow> string option \<Rightarrow> lane_book \<Rightarrow> lane_book" where
  "enter_lane lane epoch b =
     b\<lparr>lb_next_ids := AList.update lane (next_lane_sequence lane b + 1) (lb_next_ids b),
       lb_seen := (if lane \<in> set (lb_seen b) then lb_seen b else lb_seen b @ [lane]),
       lb_states := setdefault lane LaneActive (lb_states b),
       lb_epochs := AList.update lane epoch (lb_epochs b),
       lb_epoch_states := setdefault (lane, epoch) LaneActive (lb_epoch_states b),
       lb_epoch_acks := setdefault (lane, epoch) 0 (lb_epoch_acks b)\<rparr>"

definition new_delivery :: "admission \<Rightarrow> lane_book \<Rightarrow> delivery" where
  "new_delivery a b =
     \<lparr>dl_size = ad_size a, dl_recovery = ad_recovery a, dl_lane = ad_lane a, dl_epoch = ad_epoch a,
      dl_sequence = map_option (\<lambda>lane. next_lane_sequence lane b) (ad_lane a), dl_sent = False, dl_sending = False,
      dl_acked = False, dl_retired_unsent = False, dl_key = ad_key a, dl_owner = ad_owner a,
      dl_segment = ad_segment a, dl_deadline = ad_deadline a, dl_publication = Reserved\<rparr>"

definition enter_delivery :: "admission \<Rightarrow> flow \<Rightarrow> int \<times> flow" where
  "enter_delivery a w =
     (let i = fw_next_id w;
          b = (case ad_lane a of None \<Rightarrow> fw_lanes w | Some lane \<Rightarrow> enter_lane lane (ad_epoch a) (fw_lanes w))
      in (i, put_delivery i (new_delivery a (fw_lanes w)) (w\<lparr>fw_next_id := i + 1, fw_lanes := b\<rparr>)))"

definition admit_delivery :: "admission \<Rightarrow> flow \<Rightarrow> (py_exc + int option) \<times> flow" where
  "admit_delivery a w0 =
     (let w = w0\<lparr>fw_rejection := None\<rparr>;
          refuse = (\<lambda>why w. (Inr None, w\<lparr>fw_rejection := Some why\<rparr>))
      in if fw_closed w then refuse ''flow_closed'' w
         else case lane_gate a w of
                (Some why, w1) \<Rightarrow> refuse why w1
              | (None, w1) \<Rightarrow>
                  (case window_refusal a w1 of
                     Some why \<Rightarrow> refuse why w1
                   | None \<Rightarrow>
                       (case (if ad_reserved a then (Inr True, w1)
                              else reserve_bytes (ad_size a) (if ad_recovery a then KRecovery else KNone) w1) of
                          (Inl e, w2) \<Rightarrow> (Inl e, w2)
                        | (Inr False, w2) \<Rightarrow> refuse ''transport_reservation_rejected'' w2
                        | (Inr True, w2) \<Rightarrow> (case enter_delivery a w2 of (i, w3) \<Rightarrow> (Inr (Some i), w3)))))"

definition bad_lane :: "string \<Rightarrow> bool" where
  "bad_lane lane \<longleftrightarrow> lane = [] \<or> 4096 < length lane"

definition register_lane_epoch :: "string \<Rightarrow> string option \<Rightarrow> flow \<Rightarrow> (py_exc + unit) \<times> flow" where
  "register_lane_epoch lane epoch w =
     (let b = fw_lanes w;
          current = lane_epoch_of lane w;
          over = (\<lambda>s. s = Some LaneRetired \<or> s = Some LaneClosed);
          state = map_of (lb_epoch_states b) (lane, current)
      in if \<not> fw_lane_mode w then (Inr (), w)
         else guarded
           [(bad_lane lane, ValueError ''Invalid delivery lane''),
            ((case epoch of Some e \<Rightarrow> 4096 < length e | None \<Rightarrow> False), ValueError ''Invalid lane epoch'')] w
           (if current = epoch then (Inr (), w)
            else guarded
              [(current \<noteq> None \<and> \<not> over state \<and> \<not> (state = None \<and> over (map_of (lb_states b) lane)),
                ValueError ''Lane epoch replacement is not retired''),
               (map_of (lb_epoch_states b) (lane, epoch) = None \<and> max_lane_epochs \<le> length (lb_epoch_states b),
                ValueError ''Lane epoch history is full'')] w
              (Inr (), on_lanes (\<lambda>b. b\<lparr>
                 lb_seen := (if lane \<in> set (lb_seen b) then lb_seen b else lb_seen b @ [lane]),
                 lb_epochs := AList.update lane epoch (lb_epochs b),
                 lb_states := AList.update lane LaneActive (lb_states b),
                 lb_epoch_states := setdefault (lane, epoch) LaneActive (lb_epoch_states b),
                 lb_epoch_acks := setdefault (lane, epoch) 0 (lb_epoch_acks b),
                 lb_next_ids := setdefault lane 1 (lb_next_ids b),
                 lb_ack_ids := AList.delete lane (lb_ack_ids b),
                 lb_delivery_acks := AList.delete lane (lb_delivery_acks b)\<rparr>) w)))"

end
