(* ===== verification/Flow_Delivery.thy ===== *)
theory Flow_Delivery
  imports Flow_Window
begin

text \<open>
  The second half of \<open>FlowWindow\<close>: sending, acknowledgements of the connection and of a lane, the end of a
  lane, what is dirty, and closing; and the two requests of \<open>gateway/websocket.py\<close> that apply a batch of them.
\<close>

section \<open>Sending\<close>

definition claim_delivery :: "int \<Rightarrow> publication \<Rightarrow> flow \<Rightarrow> bool \<times> flow" where
  "claim_delivery i p w =
     (case delivery_of i w of
        None \<Rightarrow> (False, w)
      | Some d \<Rightarrow>
          if \<not> dl_recovery d \<or> dl_publication d \<noteq> Reserved \<or> dl_sending d \<or> dl_sent d then (False, w)
          else (True, put_delivery i (d\<lparr>dl_publication := p\<rparr>) w))"

definition missing_delivery :: "int \<Rightarrow> py_exc" where
  "missing_delivery i = KeyError (int_str i)"

definition release_delivery :: "int \<Rightarrow> flow \<Rightarrow> (py_exc + unit) \<times> flow" where
  "release_delivery i w =
     (case delivery_of i w of
        None \<Rightarrow> (Inl (missing_delivery i), w)
      | Some d \<Rightarrow>
          release_bytes (dl_size d) (if dl_recovery d then KRecovery else KNone)
            (w\<lparr>fw_deliveries := AList.delete i (fw_deliveries w)\<rparr>))"

definition confirm_delivery :: "int \<Rightarrow> flow \<Rightarrow> flow" where
  "confirm_delivery i w =
     (case delivery_of i w of
        None \<Rightarrow> w
      | Some d \<Rightarrow>
          if dl_acked d then w
          else
            let d1 = d\<lparr>dl_acked := True\<rparr>; w1 = put_delivery i d1 w
            in if dl_recovery d \<and> dl_publication d = Original
               then w1\<lparr>fw_staged := fw_staged w1 @ [(i, d1)]\<rparr> else w1)"

definition mark_sending :: "int \<Rightarrow> flow \<Rightarrow> (py_exc + unit) \<times> flow" where
  "mark_sending i w =
     (case delivery_of i w of
        None \<Rightarrow> (Inl (missing_delivery i), w)
      | Some d \<Rightarrow> (Inr (), put_delivery i (d\<lparr>dl_sending := True\<rparr>) w))"

definition discard_retired_queued :: "int \<Rightarrow> flow \<Rightarrow> (py_exc + bool) \<times> flow" where
  "discard_retired_queued i w =
     (case delivery_of i w of
        None \<Rightarrow> (Inl (missing_delivery i), w)
      | Some d \<Rightarrow>
          if \<not> dl_retired_unsent d then (Inr False, w)
          else guarded [(dl_sent d \<or> dl_sending d,
                         ValueError ''Retired queued delivery has already started sending'')] w
                 (case release_delivery i w of (r, w1) \<Rightarrow> (map_sum id (\<lambda>_. True) r, w1)))"

definition mark_sent :: "int \<Rightarrow> flow \<Rightarrow> (py_exc + unit) \<times> flow" where
  "mark_sent i w =
     (case delivery_of i w of
        None \<Rightarrow> (Inl (missing_delivery i), w)
      | Some d \<Rightarrow>
          let w1 = put_delivery i (d\<lparr>dl_sent := True, dl_sending := False\<rparr>) w
          in if dl_acked d then release_delivery i w1 else (Inr (), w1))"

definition mark_send_finished :: "int \<Rightarrow> flow \<Rightarrow> (py_exc + unit) \<times> flow" where
  "mark_send_finished i w =
     (case delivery_of i w of
        None \<Rightarrow> (Inr (), w)
      | Some d \<Rightarrow>
          let w1 = put_delivery i (d\<lparr>dl_sending := False\<rparr>) w
          in if fw_closed w \<or> dl_acked d then release_delivery i w1 else (Inr (), w1))"

text \<open>The frame that carries a snapshot piece is published under the reservation of the piece, which grows with it.\<close>

datatype published = Refused string | Suppressed | Published

definition publish_snapshot :: "int \<Rightarrow> int \<Rightarrow> flow \<Rightarrow> (py_exc + published) \<times> flow" where
  "publish_snapshot i bytes w =
     (case delivery_of i w of
        None \<Rightarrow> (Inr (Refused ''snapshot_delivery_missing''), w)
      | Some d \<Rightarrow>
          if \<not> dl_recovery d then (Inr (Refused ''snapshot_delivery_kind_invalid''), w)
          else
            let extra = max 0 (bytes - dl_size d)
            in case (if extra \<noteq> 0 then reserve_bytes extra KRecovery w else (Inr True, w)) of
                 (Inl e, w1) \<Rightarrow> (Inl e, w1)
               | (Inr False, w1) \<Rightarrow> (Inr (Refused ''snapshot_reservation_rejected''), w1)
               | (Inr True, w1) \<Rightarrow>
                   let w2 = put_delivery i (d\<lparr>dl_size := dl_size d + extra\<rparr>) w1
                   in if \<not> ln_recovery w then (Inr Published, w2)
                      else case claim_delivery i Original w2 of
                             (True, w3) \<Rightarrow> (Inr Published, w3)
                           | (False, w3) \<Rightarrow>
                               if extra \<noteq> 0
                               then case release_bytes extra KRecovery (put_delivery i d w3) of
                                      (r, w4) \<Rightarrow> (map_sum id (\<lambda>_. Suppressed) r, w4)
                               else (Inr Suppressed, w3))"

section \<open>Acknowledgements\<close>

definition unsent :: "delivery \<Rightarrow> bool" where
  "unsent d \<longleftrightarrow> \<not> dl_sent d \<and> \<not> dl_sending d"

definition not_current :: py_exc where
  "not_current = ValueError ''Delivery epoch is not current''"

definition includes_unsent :: py_exc where
  "includes_unsent = ValueError ''Acknowledgement includes an unsent delivery''"

definition validate_stage :: "string \<Rightarrow> json \<Rightarrow> flow \<Rightarrow> py_exc + int" where
  "validate_stage epoch v w =
     checked [(epoch \<noteq> fw_epoch w, not_current)]
       (case int_from 1 v of
          None \<Rightarrow> Inl (ValueError ''Invalid staged delivery acknowledgement'')
        | Some i \<Rightarrow>
            (case delivery_of i w of
               None \<Rightarrow> (if i \<le> max (fw_staged_id w) (fw_ack_id w) then Inr i
                        else Inl (ValueError ''Acknowledgement is not a recovery delivery''))
             | Some d \<Rightarrow>
                 checked [(\<not> dl_recovery d, ValueError ''Acknowledgement is not a recovery delivery''),
                          (unsent d, includes_unsent)] (Inr i)))"

text \<open>The body of the loops: confirm a delivery, and give its bytes back unless its write is still going on.\<close>

definition settle_delivery :: "int \<Rightarrow> flow \<Rightarrow> (py_exc + unit) \<times> flow" where
  "settle_delivery i w =
     (let w1 = confirm_delivery i w
      in case delivery_of i w of
           None \<Rightarrow> (Inl (missing_delivery i), w)
         | Some d \<Rightarrow> if dl_sent d then release_delivery i w1 else (Inr (), w1))"

fun settle_all :: "int list \<Rightarrow> flow \<Rightarrow> (py_exc + unit) \<times> flow" where
  "settle_all [] w = (Inr (), w)"
| "settle_all (i # is) w =
     (case settle_delivery i w of
        (Inl e, w1) \<Rightarrow> (Inl e, w1)
      | (Inr _, w1) \<Rightarrow> settle_all is w1)"

definition stage_delivery :: "string \<Rightarrow> json \<Rightarrow> flow \<Rightarrow> (py_exc + unit) \<times> flow" where
  "stage_delivery epoch v w =
     try_res (validate_stage epoch v w) w (\<lambda>i.
       case delivery_of i w of
         None \<Rightarrow> (Inr (), w)
       | Some d \<Rightarrow> settle_delivery i (w\<lparr>fw_staged_id := max (fw_staged_id w) i\<rparr>))"

definition validate_ack :: "string \<Rightarrow> json \<Rightarrow> flow \<Rightarrow> py_exc + int" where
  "validate_ack epoch v w =
     checked [(epoch \<noteq> fw_epoch w, not_current)]
       (case int_from 0 v of
          None \<Rightarrow> Inl (ValueError ''Invalid delivery acknowledgement'')
        | Some i \<Rightarrow>
            if i \<le> fw_ack_id w then Inr i
            else checked
              [(fw_next_id w \<le> i, ValueError ''Acknowledgement is ahead of delivery''),
               (list_ex (\<lambda>(j, d). j \<le> i \<and> unsent d) (fw_deliveries w), includes_unsent)] (Inr i))"

definition acknowledge :: "string \<Rightarrow> json \<Rightarrow> flow \<Rightarrow> (py_exc + unit) \<times> flow" where
  "acknowledge epoch v w =
     try_res (validate_ack epoch v w) w (\<lambda>i.
       if i \<le> fw_ack_id w then (Inr (), w)
       else case settle_all (takeWhile (\<lambda>j. j \<le> i) (map fst (fw_deliveries w))) w of
              (Inl e, w1) \<Rightarrow> (Inl e, w1)
            | (Inr _, w1) \<Rightarrow> (Inr (), w1\<lparr>fw_ack_id := i\<rparr>))"

definition lane_ack_of :: "string \<Rightarrow> flow \<Rightarrow> int" where
  "lane_ack_of lane w = (case map_of (lb_ack_ids (fw_lanes w)) lane of Some n \<Rightarrow> n | None \<Rightarrow> 0)"

definition in_sequence :: "string \<Rightarrow> int \<Rightarrow> delivery \<Rightarrow> bool" where
  "in_sequence lane n d \<longleftrightarrow>
     dl_lane d = Some lane \<and> (case dl_sequence d of Some m \<Rightarrow> m \<le> n | None \<Rightarrow> False)"

definition validate_lane_ack :: "string \<Rightarrow> string \<Rightarrow> json \<Rightarrow> flow \<Rightarrow> py_exc + int" where
  "validate_lane_ack epoch lane v w =
     checked [(epoch \<noteq> fw_epoch w, not_current), (bad_lane lane, ValueError ''Invalid delivery lane'')]
       (case int_from 0 v of
          None \<Rightarrow> Inl (ValueError ''Invalid lane delivery acknowledgement'')
        | Some n \<Rightarrow>
            checked [(list_ex (\<lambda>d. dl_lane d = Some lane \<and> dl_epoch d \<noteq> lane_epoch_of lane w) (values_of w),
                      ValueError ''Lane epoch is not current'')]
              (if n \<le> lane_ack_of lane w then Inr n
               else checked
                 [((case map_of (lb_next_ids (fw_lanes w)) lane of Some m \<Rightarrow> m | None \<Rightarrow> 1) \<le> n,
                   ValueError ''Acknowledgement is ahead of delivery''),
                  (list_ex (\<lambda>d. in_sequence lane n d \<and> unsent d) (values_of w), includes_unsent),
                  (\<not> list_ex (in_sequence lane n) (values_of w),
                   ValueError ''Acknowledgement does not belong to lane'')] (Inr n)))"

definition acknowledge_lane :: "string \<Rightarrow> string \<Rightarrow> json \<Rightarrow> flow \<Rightarrow> (py_exc + unit) \<times> flow" where
  "acknowledge_lane epoch lane v w =
     try_res (validate_lane_ack epoch lane v w) w (\<lambda>n.
       if n \<le> lane_ack_of lane w then (Inr (), w)
       else case settle_all (map fst (filter (\<lambda>(j, d). in_sequence lane n d) (fw_deliveries w))) w of
              (Inl e, w1) \<Rightarrow> (Inl e, w1)
            | (Inr _, w1) \<Rightarrow> (Inr (), on_lanes (\<lambda>b. b\<lparr>lb_ack_ids := AList.update lane n (lb_ack_ids b)\<rparr>) w1))"

text \<open>The epoch that an operation on a lane means when it names none.\<close>

definition meant_epoch :: "string \<Rightarrow> string option \<Rightarrow> flow \<Rightarrow> string option" where
  "meant_epoch lane epoch w = (if epoch = None then lane_epoch_of lane w else epoch)"

definition epoch_ack_of :: "epoch_key \<Rightarrow> flow \<Rightarrow> int" where
  "epoch_ack_of key w = (case map_of (lb_epoch_acks (fw_lanes w)) key of Some n \<Rightarrow> n | None \<Rightarrow> 0)"

definition owned_delivery :: "epoch_key \<Rightarrow> int \<Rightarrow> int \<times> delivery \<Rightarrow> bool" where
  "owned_delivery key i jd \<longleftrightarrow> fst jd \<le> i \<and> (dl_lane (snd jd), dl_epoch (snd jd)) = (Some (fst key), snd key)"

definition validate_lane_delivery ::
  "string \<Rightarrow> string \<Rightarrow> json \<Rightarrow> string option \<Rightarrow> flow \<Rightarrow> py_exc + int" where
  "validate_lane_delivery epoch lane v lane_epoch w =
     checked [(epoch \<noteq> fw_epoch w, not_current), (bad_lane lane, ValueError ''Invalid delivery lane'')]
       (case int_from 0 v of
          None \<Rightarrow> Inl (ValueError ''Invalid lane delivery acknowledgement'')
        | Some i \<Rightarrow>
            let key = (lane, meant_epoch lane lane_epoch w);
                state = map_of (lb_epoch_states (fw_lanes w)) key;
                owned = filter (owned_delivery key i) (fw_deliveries w)
            in checked
                 [(snd key \<noteq> lane_epoch_of lane w, ValueError ''Lane epoch is not current''),
                  (state \<noteq> Some LaneActive \<and> state \<noteq> Some LaneRetired, ValueError ''Lane epoch is not current'')]
                 (if i \<le> epoch_ack_of key w then Inr i
                  else checked
                    [(fw_next_id w \<le> i, ValueError ''Acknowledgement is ahead of delivery''),
                     (owned = [], ValueError ''Acknowledgement does not belong to lane''),
                     (list_ex (\<lambda>(j, d). unsent d) owned, includes_unsent)] (Inr i)))"

definition acknowledge_lane_delivery ::
  "string \<Rightarrow> string \<Rightarrow> json \<Rightarrow> string option \<Rightarrow> flow \<Rightarrow> (py_exc + unit) \<times> flow" where
  "acknowledge_lane_delivery epoch lane v lane_epoch w =
     try_res (validate_lane_delivery epoch lane v lane_epoch w) w (\<lambda>i.
       let key = (lane, meant_epoch lane lane_epoch w)
       in if i \<le> epoch_ack_of key w then (Inr (), w)
          else case settle_all
                      (map fst (filter (owned_delivery key i) (takeWhile (\<lambda>(j, d). j \<le> i) (fw_deliveries w)))) w of
                 (Inl e, w1) \<Rightarrow> (Inl e, w1)
               | (Inr _, w1) \<Rightarrow>
                   (Inr (), on_lanes (\<lambda>b. b\<lparr>lb_epoch_acks := AList.update key i (lb_epoch_acks b),
                      lb_delivery_acks := (if lane_epoch_of lane w1 = snd key
                                           then AList.update lane i (lb_delivery_acks b)
                                           else lb_delivery_acks b)\<rparr>) w1))"

section \<open>The end of a lane\<close>

definition final_matches :: "int option \<Rightarrow> json \<Rightarrow> bool" where
  "final_matches known v = (case known of Some n \<Rightarrow> json_int_eq v n | None \<Rightarrow> v = JNull)"

definition retire_lane ::
  "string \<Rightarrow> string \<Rightarrow> string \<Rightarrow> string option \<Rightarrow> json \<Rightarrow> string option \<Rightarrow> flow \<Rightarrow> (py_exc + string) \<times> flow" where
  "retire_lane fresh epoch lane retire_token final lane_epoch w =
     (let b = fw_lanes w;
          le = meant_epoch lane lane_epoch w;
          key = (lane, le);
          state = map_of (lb_epoch_states b) key;
          known = map_of (lb_epoch_tokens b) key;
          picked = (\<lambda>t. case t of Some s \<Rightarrow> s \<noteq> [] | None \<Rightarrow> False)
      in guarded
        [(epoch \<noteq> fw_epoch w, not_current), (bad_lane lane, ValueError ''Invalid delivery lane''),
         (lane \<notin> set (lb_seen b), ValueError ''Lane is not current''),
         (state = None, ValueError ''Lane epoch is not current'')] w
        (if state \<noteq> Some LaneActive
         then guarded
           [(retire_token \<noteq> None \<and> retire_token \<noteq> known, ValueError ''Lane retire token is not current''),
            (final \<noteq> JNull
               \<and> \<not> json_int_eq final (case map_of (lb_epoch_finals b) key of Some n \<Rightarrow> n | None \<Rightarrow> 0),
             ValueError ''Lane final delivery fence is not current'')] w
           (Inr (if picked known then the known else fresh), w)
         else
           let token = (if picked retire_token then the retire_token else if picked known then the known else fresh);
               w1 = on_lanes (\<lambda>b. b\<lparr>lb_states := AList.update lane LaneRetired (lb_states b),
                       lb_tokens := AList.update lane token (lb_tokens b),
                       lb_epoch_states := AList.update key LaneRetired (lb_epoch_states b),
                       lb_epoch_tokens := AList.update key token (lb_epoch_tokens b)\<rparr>) w;
               mine = (\<lambda>d. dl_lane d = Some lane \<and> dl_epoch d = le);
               last_id = Max (insert 0 (set (map fst (filter (\<lambda>(i, d). mine d) (fw_deliveries w)))))
           in if token = [] \<or> 128 < length token then (Inl (ValueError ''Invalid lane retire token''), w)
              else case (if final = JNull then Some last_id else (case final of JInt n \<Rightarrow> Some n | _ \<Rightarrow> None)) of
                     None \<Rightarrow> (Inl (ValueError ''Invalid lane final delivery id''), w1)
                   | Some n \<Rightarrow>
                       (Inr token,
                        (on_lanes (\<lambda>b. b\<lparr>lb_finals := AList.update lane (max 0 n) (lb_finals b),
                            lb_epoch_finals := AList.update key (max 0 n) (lb_epoch_finals b)\<rparr>) w1)
                        \<lparr>fw_deliveries := map (\<lambda>(i, d). (i, if mine d \<and> unsent d then d\<lparr>dl_retired_unsent := True\<rparr> else d))
                                            (fw_deliveries w)\<rparr>)))"

definition validate_retire ::
  "string \<Rightarrow> string \<Rightarrow> string option \<Rightarrow> json \<Rightarrow> string option \<Rightarrow> flow \<Rightarrow> py_exc + unit" where
  "validate_retire epoch lane token final lane_epoch w =
     (let b = fw_lanes w; key = (lane, meant_epoch lane lane_epoch w)
      in checked
        [(epoch \<noteq> fw_epoch w, not_current),
         (map_of (lb_epoch_states b) key \<noteq> Some LaneRetired, ValueError ''Lane is not retired''),
         (map_of (lb_epoch_tokens b) key \<noteq> token, ValueError ''Lane retire token is not current''),
         (\<not> final_matches (map_of (lb_epoch_finals b) key) final,
          ValueError ''Lane final delivery fence is not current'')] (Inr ()))"

definition forget_epoch :: "epoch_key \<Rightarrow> bool \<Rightarrow> lane_book \<Rightarrow> lane_book" where
  "forget_epoch key current b =
     b\<lparr>lb_states := (if current then AList.update (fst key) LaneClosed (lb_states b) else lb_states b),
       lb_epoch_states := AList.delete key (lb_epoch_states b),
       lb_epoch_tokens := AList.delete key (lb_epoch_tokens b),
       lb_epoch_finals := AList.delete key (lb_epoch_finals b),
       lb_epoch_acks := AList.delete key (lb_epoch_acks b)\<rparr>"

definition confirm_retire ::
  "string \<Rightarrow> string \<Rightarrow> string option \<Rightarrow> json \<Rightarrow> string option \<Rightarrow> flow \<Rightarrow> (py_exc + unit) \<times> flow" where
  "confirm_retire epoch lane token final lane_epoch w =
     try_res (validate_retire epoch lane token final lane_epoch w) w (\<lambda>_.
       let key = (lane, meant_epoch lane lane_epoch w);
           mine = (\<lambda>(i, d). (dl_lane d, dl_epoch d) = (Some lane, snd key) \<and> \<not> dl_retired_unsent d)
       in case settle_all (map fst (filter mine (fw_deliveries w))) w of
            (Inl e, w1) \<Rightarrow> (Inl e, w1)
          | (Inr _, w1) \<Rightarrow> (Inr (), on_lanes (forget_epoch key (lane_epoch_of lane w1 = snd key)) w1))"

definition prune_lanes :: "flow \<Rightarrow> flow" where
  "prune_lanes w =
     (let b = fw_lanes w;
          retained = map (fst \<circ> fst) (lb_epoch_states b) @ List.map_filter dl_lane (values_of w);
          gone = map fst (filter (\<lambda>(lane, s). s = LaneClosed \<and> lane \<notin> set retained) (lb_states b));
          cut = (\<lambda>d. filter (\<lambda>(lane, _). lane \<notin> set gone) d)
      in w\<lparr>fw_lanes := b\<lparr>lb_seen := filter (\<lambda>lane. lane \<notin> set gone) (lb_seen b),
             lb_states := filter (\<lambda>(lane, _). lane \<notin> set gone) (lb_states b),
             lb_epochs := filter (\<lambda>(lane, _). lane \<notin> set gone) (lb_epochs b),
             lb_tokens := filter (\<lambda>(lane, _). lane \<notin> set gone) (lb_tokens b),
             lb_finals := cut (lb_finals b), lb_next_ids := cut (lb_next_ids b),
             lb_ack_ids := cut (lb_ack_ids b), lb_delivery_acks := cut (lb_delivery_acks b)\<rparr>\<rparr>)"

definition lane_for_epoch :: "string \<Rightarrow> flow \<Rightarrow> string option" where
  "lane_for_epoch e w =
     map_option (fst \<circ> fst) (find (\<lambda>((lane, epoch), s). epoch = Some e) (lb_epoch_states (fw_lanes w)))"

section \<open>What is dirty\<close>

definition mark_global_dirty :: "bool \<Rightarrow> flow \<Rightarrow> bool \<times> flow" where
  "mark_global_dirty renew w =
     (let changed = (\<not> fw_global_dirty w \<or> renew)
      in (changed, w\<lparr>fw_global_revision := (if changed then fw_global_revision w + 1 else fw_global_revision w),
                     fw_global_dirty := True, fw_global_token := Some (fw_objects w),
                     fw_objects := fw_objects w + 1\<rparr>))"

definition mark_dirty :: "string option \<Rightarrow> string option \<Rightarrow> int \<Rightarrow> flow \<Rightarrow> bool \<times> flow" where
  "mark_dirty key generation sequence w =
     (case key of
        None \<Rightarrow> mark_global_dirty False w
      | Some k \<Rightarrow>
          if k = [] \<or> 4096 < length k then mark_global_dirty False w
          else if map_of (fw_dirty w) k = None \<and> 128 \<le> length (fw_dirty w) then mark_global_dirty False w
          else
            let prior = map_of (fw_dirty w) k;
                dirty = AList.update k (generation, max sequence (case prior of Some (_, n) \<Rightarrow> n | None \<Rightarrow> 0)) (fw_dirty w)
            in (prior = None,
                w\<lparr>fw_dirty := dirty,
                  fw_dirty_tokens := AList.update k (fw_objects w)
                    (filter (\<lambda>(name, _). map_of dirty name \<noteq> None) (fw_dirty_tokens w)),
                  fw_objects := fw_objects w + 1\<rparr>))"

definition dirty_revision :: "string \<Rightarrow> flow \<Rightarrow> nat option \<times> nat option" where
  "dirty_revision k w =
     (if map_of (fw_dirty w) k \<noteq> None then map_of (fw_dirty_tokens w) k else None,
      if fw_global_dirty w then fw_global_token w else None)"

section \<open>Closing\<close>

fun close_each :: "int list \<Rightarrow> flow \<Rightarrow> (py_exc + unit) \<times> flow" where
  "close_each [] w = (Inr (), w)"
| "close_each (i # is) w =
     (case delivery_of i w of
        None \<Rightarrow> (Inl (missing_delivery i), w)
      | Some d \<Rightarrow>
          if dl_sending d \<and> \<not> dl_sent d then close_each is (put_delivery i (d\<lparr>dl_acked := True\<rparr>) w)
          else case release_delivery i w of
                 (Inl e, w1) \<Rightarrow> (Inl e, w1)
               | (Inr _, w1) \<Rightarrow> close_each is w1)"

definition close_window :: "flow \<Rightarrow> (py_exc + unit) \<times> flow" where
  "close_window w =
     (case close_each (map fst (fw_deliveries w)) (w\<lparr>fw_closed := True\<rparr>) of
        (Inl e, w1) \<Rightarrow> (Inl e, w1)
      | (Inr _, w1) \<Rightarrow> (Inr (), w1\<lparr>fw_dirty := [], fw_dirty_tokens := [], fw_lanes := no_lanes\<rparr>))"

section \<open>Batches\<close>

text \<open>A client's request on the first protocol: everything is validated, then everything is applied.\<close>

fun in_turn :: "('a \<Rightarrow> flow \<Rightarrow> (py_exc + unit) \<times> flow) \<Rightarrow> 'a list \<Rightarrow> flow \<Rightarrow> (py_exc + unit) \<times> flow" where
  "in_turn f [] w = (Inr (), w)"
| "in_turn f (x # xs) w = (case f x w of (Inl e, w1) \<Rightarrow> (Inl e, w1) | (Inr _, w1) \<Rightarrow> in_turn f xs w1)"

fun all_valid :: "('a \<Rightarrow> py_exc + 'b) \<Rightarrow> 'a list \<Rightarrow> py_exc + unit" where
  "all_valid f [] = Inr ()"
| "all_valid f (x # xs) = (case f x of Inl e \<Rightarrow> Inl e | Inr _ \<Rightarrow> all_valid f xs)"

definition flow_update :: "string \<Rightarrow> json \<Rightarrow> json list \<Rightarrow> flow \<Rightarrow> (py_exc + unit) \<times> flow" where
  "flow_update epoch ack staged w =
     try_res (validate_ack epoch ack w) w (\<lambda>_.
       try_res (all_valid (\<lambda>v. validate_stage epoch v w) staged) w (\<lambda>_.
         case acknowledge epoch ack w of
           (Inl e, w1) \<Rightarrow> (Inl e, w1)
         | (Inr _, w1) \<Rightarrow> in_turn (stage_delivery epoch) staged w1))"

text \<open>The second protocol, after the subscription epochs are resolved to lanes; the lanes to discard are those
  that were not confirmed before, each epoch once.\<close>

definition session_flow_update ::
  "(string \<times> string \<times> json) list \<Rightarrow> (string \<times> json) list \<Rightarrow> (string \<times> string \<times> string option \<times> json) list
     \<Rightarrow> flow \<Rightarrow> (py_exc + unit) \<times> flow" where
  "session_flow_update consumed staged discarded w =
     (let here = fw_epoch w in
      try_res (all_valid (\<lambda>(lane, e, v). validate_lane_delivery here lane v (Some e) w) consumed) w (\<lambda>_.
      try_res (all_valid (\<lambda>(e, v). validate_stage e v w) staged) w (\<lambda>_.
      try_res (all_valid (\<lambda>(lane, e, token, final). validate_retire here lane token final (Some e) w) discarded) w (\<lambda>_.
        case in_turn (\<lambda>(lane, e, v). acknowledge_lane_delivery here lane v (Some e)) consumed w of
          (Inl x, w1) \<Rightarrow> (Inl x, w1)
        | (Inr _, w1) \<Rightarrow>
            (case in_turn (\<lambda>(e, v). stage_delivery e v) staged w1 of
               (Inl x, w2) \<Rightarrow> (Inl x, w2)
             | (Inr _, w2) \<Rightarrow>
                 in_turn (\<lambda>(lane, e, token, final). confirm_retire here lane token final (Some e)) discarded w2)))))"

end
