(* ===== verification/Flow_Machine.thy ===== *)
theory Flow_Machine
  imports Flow_Delivery
begin

text \<open>
  The flow window as a machine, among the other parts of its connection, which reserve and release bytes of
  their own, and the other connections, which use the shared budget. The invariant says that every byte
  that the window holds is charged, once, to the connection and to the shared budget.
\<close>

section \<open>The ledger of credit\<close>

definition ledger_of :: "flow \<Rightarrow> (int \<times> int \<times> bool) list" where
  "ledger_of w = map (\<lambda>(i, d). (i, dl_size d, dl_recovery d)) (fw_deliveries w)"

definition piece_kind :: "bool \<Rightarrow> bool \<Rightarrow> budget_kind" where
  "piece_kind recovery piece = (if recovery then if piece then KRecovery else KBulk else KNone)"

definition charge :: "bool \<Rightarrow> budget_kind \<Rightarrow> (int \<times> int \<times> bool) list \<Rightarrow> int" where
  "charge recovery kind es = sum_list (map (\<lambda>(i, n, piece). if piece_kind recovery piece = kind then n else 0) es)"

type_synonym holdings = "budget_kind \<Rightarrow> int"

definition all_of :: "holdings \<Rightarrow> int" where
  "all_of h = h KNone + h KBulk + h KRecovery + h KControl"

definition credit_ok :: "holdings \<Rightarrow> flow \<Rightarrow> bool" where
  "credit_ok h w \<longleftrightarrow>
     dict_wf (ledger_of w) \<and> (\<forall>(i, n, piece) \<in> set (ledger_of w). 0 < n) \<and> (\<forall>kind. 0 \<le> h kind)
     \<and> ln_bytes w = sum_list (map (fst \<circ> snd) (ledger_of w)) + all_of h
     \<and> (ln_recovery w \<longrightarrow> (\<forall>kind. kind \<noteq> KNone \<longrightarrow> ln_kinds w kind = charge True kind (ledger_of w) + h kind))
     \<and> (\<forall>kind. charge (ln_recovery w) kind (ledger_of w) + h kind \<le> bu_kinds (ln_shared w) kind)"

lemma charge_Cons: "charge r kind ((i, n, p) # es) = (if piece_kind r p = kind then n else 0) + charge r kind es"
  by (simp add: charge_def)

lemma charge_nonneg: "\<forall>(i, n, p) \<in> set es. 0 < n \<Longrightarrow> 0 \<le> charge r kind es"
  by (induction es) (auto simp: charge_def)

lemma charge_append: "charge r kind (es @ fs) = charge r kind es + charge r kind fs"
  by (simp add: charge_def)

lemma ledger_delete: "dict_wf es \<Longrightarrow> map_of es i = Some (n, p) \<Longrightarrow>
    charge r kind (AList.delete i es) = charge r kind es - (if piece_kind r p = kind then n else 0)
    \<and> sum_list (map (fst \<circ> snd) (AList.delete i es)) = sum_list (map (fst \<circ> snd) es) - n"
proof (induction es)
  case (Cons e es)
  obtain j m q where e: "e = (j, m, q)" by (cases e)
  have "AList.delete j es = es" if "j \<notin> fst ` set es" using that by (simp add: delete_id)
  then show ?case using Cons by (auto simp: e charge_def split: if_splits)
qed simp

lemma map_delete: "map (\<lambda>(i, d). (i, f d)) (AList.delete k xs) = AList.delete k (map (\<lambda>(i, d). (i, f d)) xs)"
  by (induction xs) auto

lemma ledger_map: "map_of (ledger_of w) i = map_option (\<lambda>d. (dl_size d, dl_recovery d)) (delivery_of i w)"
  by (simp add: ledger_of_def delivery_of_def map_of_map)

lemma ledger_link: "ledger_of (w\<lparr>ln_bytes := a, ln_kinds := b, ln_shared := c\<rparr>) = ledger_of w"
  by (simp add: ledger_of_def)

text \<open>A change of a delivery that keeps its size and what it is leaves the ledger as it is.\<close>

lemma update_present: "map_of xs i = Some d \<Longrightarrow> f d' = f d \<Longrightarrow>
    map (\<lambda>(i, d). (i, f d)) (AList.update i d' xs) = map (\<lambda>(i, d). (i, f d)) xs"
  by (induction xs) auto

lemma put_ledger:
  "delivery_of i w = Some d \<Longrightarrow> dl_size d' = dl_size d \<Longrightarrow> dl_recovery d' = dl_recovery d
    \<Longrightarrow> ledger_of (put_delivery i d' w) = ledger_of w"
  unfolding ledger_of_def put_delivery_def delivery_of_def
  by (simp add: update_present [where f = "\<lambda>d. (dl_size d, dl_recovery d)"])

definition same_link :: "flow \<Rightarrow> flow \<Rightarrow> bool" where
  "same_link w w' \<longleftrightarrow> ledger_of w' = ledger_of w \<and> ln_bytes w' = ln_bytes w \<and> ln_kinds w' = ln_kinds w
     \<and> ln_recovery w' = ln_recovery w \<and> ln_shared w' = ln_shared w \<and> ln_closing w' = ln_closing w"

lemma same_link_refl [simp]: "same_link w w"
  by (simp add: same_link_def)

lemma same_link_trans: "same_link u v \<Longrightarrow> same_link v w \<Longrightarrow> same_link u w"
  by (simp add: same_link_def)

lemma same_credit: "same_link w w' \<Longrightarrow> credit_ok h w' = credit_ok h w"
  by (simp add: same_link_def credit_ok_def)

lemma put_link: "delivery_of i w = Some d \<Longrightarrow> dl_size d' = dl_size d \<Longrightarrow> dl_recovery d' = dl_recovery d
    \<Longrightarrow> same_link w (put_delivery i d' w)"
  by (simp add: same_link_def put_ledger) (simp add: put_delivery_def)

lemma field_link [simp]:
  "same_link w (w\<lparr>fw_staged_id := a\<rparr>)" "same_link w (w\<lparr>fw_ack_id := a\<rparr>)" "same_link w (w\<lparr>fw_staged := b\<rparr>)"
  "same_link w (w\<lparr>fw_lanes := c\<rparr>)" "same_link w (w\<lparr>fw_rejection := r\<rparr>)" "same_link w (w\<lparr>fw_closed := q\<rparr>)"
  by (simp_all add: same_link_def ledger_of_def)

lemma confirm_link: "same_link w (confirm_delivery i w)"
proof (cases "delivery_of i w")
  case (Some d)
  have "same_link w (put_delivery i (d\<lparr>dl_acked := True\<rparr>) w)" by (rule put_link [OF Some]) simp_all
  then show ?thesis using same_link_trans field_link(3) by (simp add: confirm_delivery_def Some Let_def)
qed (simp add: confirm_delivery_def)

section \<open>Giving bytes back\<close>

lemma release_credit:
  assumes ok: "credit_ok h w" and d: "delivery_of i w = Some d"
  shows "fst (release_delivery i w) = Inr ()" "credit_ok h (snd (release_delivery i w))"
    "fw_deliveries (snd (release_delivery i w)) = AList.delete i (fw_deliveries w)"
proof -
  let ?es = "ledger_of w"
  let ?n = "dl_size d" and ?p = "dl_recovery d" and ?r = "ln_recovery w"
  let ?w1 = "w\<lparr>fw_deliveries := AList.delete i (fw_deliveries w)\<rparr>"
  have m: "map_of ?es i = Some (?n, ?p)" using d by (simp add: ledger_map)
  have wf: "dict_wf ?es" and pos: "\<forall>(i, n, piece) \<in> set ?es. 0 < n" and h: "\<forall>kind. 0 \<le> h kind"
    and bytes: "ln_bytes w = sum_list (map (fst \<circ> snd) ?es) + all_of h"
    and kinds: "?r \<longrightarrow> (\<forall>kind. kind \<noteq> KNone \<longrightarrow> ln_kinds w kind = charge True kind ?es + h kind)"
    and shared: "\<forall>kind. charge ?r kind ?es + h kind \<le> bu_kinds (ln_shared w) kind"
    using ok by (simp_all add: credit_ok_def)
  have n: "0 < ?n" using pos map_of_SomeD [OF m] by auto
  have es1: "ledger_of ?w1 = AList.delete i ?es"
    by (simp add: ledger_of_def map_delete [where f = "\<lambda>d. (dl_size d, dl_recovery d)"])
  note del = ledger_delete [OF wf m]
  have pos1: "\<forall>(i, n, piece) \<in> set (AList.delete i ?es). 0 < n" using pos by (auto simp: AList.delete_eq)
  have kind: "link_kind (if ?p then KRecovery else KNone) ?w1 = piece_kind ?r ?p"
    by (simp add: link_kind_def piece_kind_def)
  have rest: "0 \<le> charge ?r kind (AList.delete i ?es)" for kind by (rule charge_nonneg [OF pos1])
  have "0 \<le> sum_list (map (fst \<circ> snd) (AList.delete i ?es))"
    using pos1 by (intro sum_list_nonneg) auto
  moreover have "0 \<le> all_of h" using h by (simp add: all_of_def)
  ultimately have fits: "?n \<le> ln_bytes w" using del bytes by simp
  have room: "?n \<le> bu_kinds (ln_shared w) (piece_kind ?r ?p)"
    using shared h rest [of "piece_kind ?r ?p"] del by (smt (verit, best))
  have res: "release_delivery i w = (Inr (), ?w1\<lparr>ln_bytes := ln_bytes w - ?n,
      ln_kinds := (if piece_kind ?r ?p = KNone then ln_kinds w
                   else (ln_kinds w)(piece_kind ?r ?p := ln_kinds w (piece_kind ?r ?p) - ?n)),
      ln_shared := (ln_shared w)\<lparr>bu_used := bu_used (ln_shared w) - ?n,
        bu_kinds := (bu_kinds (ln_shared w))(piece_kind ?r ?p := bu_kinds (ln_shared w) (piece_kind ?r ?p) - ?n)\<rparr>\<rparr>)"
    using n fits room
    by (simp add: release_delivery_def d release_bytes_def kind Let_def guarded_def budget_release_def)
  then show "fst (release_delivery i w) = Inr ()" by simp
  show "fw_deliveries (snd (release_delivery i w)) = AList.delete i (fw_deliveries w)" unfolding res by simp
  have led: "ledger_of (snd (release_delivery i w)) = AList.delete i ?es"
    unfolding res using es1 by (simp add: ledger_of_def)
  show "credit_ok h (snd (release_delivery i w))"
    unfolding credit_ok_def led
  proof (intro conjI)
    show "dict_wf (AList.delete i ?es)" using wf by (rule dict_wf_del)
    show "\<forall>kind. charge (ln_recovery (snd (release_delivery i w))) kind (AList.delete i ?es) + h kind
        \<le> bu_kinds (ln_shared (snd (release_delivery i w))) kind"
    proof
      fix kind
      show "charge (ln_recovery (snd (release_delivery i w))) kind (AList.delete i ?es) + h kind
          \<le> bu_kinds (ln_shared (snd (release_delivery i w))) kind"
        using spec [OF shared, of kind] del [of ?r kind] unfolding res
        by (cases "kind = piece_kind ?r ?p") simp_all
    qed
    show "ln_recovery (snd (release_delivery i w)) \<longrightarrow>
      (\<forall>kind. kind \<noteq> KNone \<longrightarrow> ln_kinds (snd (release_delivery i w)) kind = charge True kind (AList.delete i ?es) + h kind)"
      using kinds del unfolding res by (auto simp: piece_kind_def)
  qed (use pos1 h bytes del res in simp_all)
qed

text \<open>What the operations on credit leave alone.\<close>

definition books_of :: "flow \<Rightarrow> string \<times> nat \<times> bool \<times> nat \<times> lane_book \<times> bool \<times> int \<times> int \<times> int" where
  "books_of w = (fw_epoch w, fw_recovery_limit w, fw_lane_mode w, fw_lane_limit w, fw_lanes w, fw_closed w,
     fw_next_id w, fw_ack_id w, fw_staged_id w)"

lemma release_bytes_fields:
  "books_of (snd (release_bytes n kind w)) = books_of w" "fw_staged (snd (release_bytes n kind w)) = fw_staged w"
  "ln_recovery (snd (release_bytes n kind w)) = ln_recovery w"
  "fw_deliveries (snd (release_bytes n kind w)) = fw_deliveries w"
  by (simp_all add: release_bytes_def guarded_def Let_def books_of_def split: option.split prod.split)

lemma books_deliveries [simp]: "books_of (w\<lparr>fw_deliveries := x\<rparr>) = books_of w"
  by (simp add: books_of_def)

lemma release_fields [simp]:
  "books_of (snd (release_delivery i w)) = books_of w" "fw_staged (snd (release_delivery i w)) = fw_staged w"
  "ln_recovery (snd (release_delivery i w)) = ln_recovery w"
  by (simp_all add: release_delivery_def release_bytes_fields books_deliveries split: option.split)

lemma put_fields [simp]:
  "books_of (put_delivery i d w) = books_of w" "fw_staged (put_delivery i d w) = fw_staged w"
  "ln_recovery (put_delivery i d w) = ln_recovery w"
  by (simp_all add: put_delivery_def books_of_def)

lemma confirm_fields [simp]:
  "books_of (confirm_delivery i w) = books_of w" "ln_recovery (confirm_delivery i w) = ln_recovery w"
proof -
  have "books_of (w\<lparr>fw_staged := x\<rparr>) = books_of w" for w x by (simp add: books_of_def)
  then show "books_of (confirm_delivery i w) = books_of w"
    by (simp add: confirm_delivery_def Let_def split: option.split)
qed (simp add: confirm_delivery_def Let_def split: option.split)

lemma confirm_deliveries:
  "fw_deliveries (confirm_delivery i w) =
     (case delivery_of i w of None \<Rightarrow> fw_deliveries w
      | Some d \<Rightarrow> if dl_acked d then fw_deliveries w
                  else AList.update i (d\<lparr>dl_acked := True\<rparr>) (fw_deliveries w))"
  by (simp add: confirm_delivery_def put_delivery_def Let_def split: option.split)

text \<open>Exactly what settling some of the deliveries does to the ledger: those that \<open>gone\<close> holds of leave it,
  the others are acknowledged.\<close>

definition settled :: "(delivery \<Rightarrow> bool) \<Rightarrow> int list \<Rightarrow> (int \<times> delivery) list \<Rightarrow> (int \<times> delivery) list" where
  "settled gone is es = List.map_filter (\<lambda>(j, d).
     if j \<in> set is then if gone d then None else Some (j, d\<lparr>dl_acked := True\<rparr>) else Some (j, d)) es"

definition write_done :: "delivery \<Rightarrow> bool" where
  "write_done d \<longleftrightarrow> \<not> (dl_sending d \<and> \<not> dl_sent d)"

lemma settled_Cons: "settled gone is ((j, d) # es) =
    (if j \<in> set is then (if gone d then [] else [(j, d\<lparr>dl_acked := True\<rparr>)]) else [(j, d)]) @ settled gone is es"
  by (simp add: settled_def map_filter_simps)

lemma settled_Nil [simp]: "settled gone is [] = []"
  by (simp add: settled_def map_filter_simps)

lemma settled_none [simp]: "settled gone [] es = es"
  by (induction es) (auto simp: settled_Cons)

lemma acked_same [simp]: "dl_acked d \<Longrightarrow> d\<lparr>dl_acked := True\<rparr> = d"
  by (cases d) simp

lemma settled_absent: "i \<notin> fst ` set es \<Longrightarrow> settled gone [i] es = es"
  by (induction es) (auto simp: settled_Cons)

lemma settled_one: "dict_wf es \<Longrightarrow> map_of es i = Some d \<Longrightarrow>
    settled gone [i] es = (if gone d then AList.delete i es else AList.update i (d\<lparr>dl_acked := True\<rparr>) es)"
proof (induction es)
  case (Cons e es)
  obtain j x where e: "e = (j, x)" by (cases e)
  show ?case
  proof (cases "j = i")
    case True
    then have "i \<notin> fst ` set es" using Cons.prems(1) e by auto
    then show ?thesis using Cons.prems True by (simp add: e settled_Cons settled_absent delete_id)
  qed (use Cons e settled_Cons in auto)
qed simp

lemma settled_settled: "i \<notin> set is \<Longrightarrow> settled gone is (settled gone [i] es) = settled gone (i # is) es"
  by (induction es) (auto simp: settled_Cons)

lemma settled_there: "j \<noteq> i \<Longrightarrow> (j, d) \<in> set es \<Longrightarrow> (j, d) \<in> set (settled gone [i] es)"
  by (induction es) (auto simp: settled_Cons)

lemma settled_iff: "(j, d') \<in> set (settled gone is es) \<longleftrightarrow>
    (\<exists>d. (j, d) \<in> set es \<and> (if j \<in> set is then \<not> gone d \<and> d' = d\<lparr>dl_acked := True\<rparr> else d' = d))"
proof (induction es)
  case (Cons e es)
  obtain i x where e: "e = (i, x)" by (cases e)
  show ?case
    by (cases "i \<in> set is"; cases "gone x") (auto simp: e settled_Cons Cons.IH split: if_splits)
qed simp

lemma update_self: "map_of es i = Some d \<Longrightarrow> AList.update i d es = es"
  by (induction es) auto

lemma delete_update: "AList.delete i (AList.update i d es) = AList.delete i es"
  by (induction es) auto

lemma wf_deliveries: "credit_ok h w \<Longrightarrow> dict_wf (fw_deliveries w)"
  by (simp add: credit_ok_def ledger_of_def split_beta comp_def)

lemma settle_one:
  assumes "credit_ok h w" "delivery_of i w = Some d"
  shows "fst (settle_delivery i w) = Inr ()" "credit_ok h (snd (settle_delivery i w))"
    "fw_deliveries (snd (settle_delivery i w)) = settled dl_sent [i] (fw_deliveries w)"
    "books_of (snd (settle_delivery i w)) = books_of w"
proof -
  let ?w1 = "confirm_delivery i w"
  have ok: "credit_ok h ?w1" using assms(1) same_credit [OF confirm_link] by simp
  have es: "fw_deliveries ?w1 = AList.update i (d\<lparr>dl_acked := True\<rparr>) (fw_deliveries w)"
    using assms(2) update_self [of "fw_deliveries w" i d]
    by (cases "dl_acked d") (simp_all add: confirm_deliveries delivery_of_def)
  have d1: "delivery_of i ?w1 = Some (d\<lparr>dl_acked := True\<rparr>)" by (simp add: delivery_of_def es)
  note one = settled_one [OF wf_deliveries [OF assms(1)] assms(2) [unfolded delivery_of_def]]
  show "fst (settle_delivery i w) = Inr ()" "credit_ok h (snd (settle_delivery i w))"
    "books_of (snd (settle_delivery i w)) = books_of w"
    using release_credit [OF ok d1] ok by (simp_all add: settle_delivery_def Let_def assms(2))
  show "fw_deliveries (snd (settle_delivery i w)) = settled dl_sent [i] (fw_deliveries w)"
    using release_credit(3) [OF ok d1] es one
    by (simp add: settle_delivery_def Let_def assms(2) delete_update)
qed

lemma remaining_there:
  "i \<notin> set is \<Longrightarrow> set is \<subseteq> fst ` set es \<Longrightarrow> set is \<subseteq> fst ` set (settled gone [i] es)"
proof
  fix j assume "i \<notin> set is" "set is \<subseteq> fst ` set es" "j \<in> set is"
  then have "j \<noteq> i" "j \<in> fst ` set es" by auto
  then obtain x where "(j, x) \<in> set es" "j \<noteq> i" by auto
  then show "j \<in> fst ` set (settled gone [i] es)" using settled_there by force
qed

lemma there_delivery: "set (i # is) \<subseteq> fst ` set (fw_deliveries w) \<Longrightarrow> \<exists>d. delivery_of i w = Some d"
  by (auto simp: delivery_of_def dest: weak_map_of_SomeI)

lemma settle_all_ok:
  assumes "credit_ok h w" "distinct is" "set is \<subseteq> fst ` set (fw_deliveries w)"
  shows "fst (settle_all is w) = Inr () \<and> credit_ok h (snd (settle_all is w))
    \<and> fw_deliveries (snd (settle_all is w)) = settled dl_sent is (fw_deliveries w)
    \<and> books_of (snd (settle_all is w)) = books_of w"
  using assms
proof (induction "is" arbitrary: w)
  case (Cons i "is")
  obtain d where d: "delivery_of i w = Some d" using there_delivery [OF Cons.prems(3)] by blast
  obtain r w1 where s: "settle_delivery i w = (r, w1)" by fastforce
  note one = settle_one [OF Cons.prems(1) d, unfolded s fst_conv snd_conv]
  have "set is \<subseteq> fst ` set (fw_deliveries w1)"
    using remaining_there [of i "is" "fw_deliveries w" dl_sent] Cons.prems(2,3) by (simp add: one(3))
  from Cons.IH [OF one(2) _ this] Cons.prems(2) show ?case
    by (simp add: s settled_settled one)
qed simp

lemma close_each_ok:
  assumes "credit_ok h w" "distinct is" "set is \<subseteq> fst ` set (fw_deliveries w)"
  shows "fst (close_each is w) = Inr () \<and> credit_ok h (snd (close_each is w))
    \<and> fw_deliveries (snd (close_each is w)) = settled write_done is (fw_deliveries w)
    \<and> books_of (snd (close_each is w)) = books_of w"
  using assms
proof (induction "is" arbitrary: w)
  case (Cons i "is")
  obtain d where d: "delivery_of i w = Some d" using there_delivery [OF Cons.prems(3)] by blast
  note one = settled_one [OF wf_deliveries [OF Cons.prems(1)] d [unfolded delivery_of_def], of write_done]
  have rest: "set is \<subseteq> fst ` set (settled write_done [i] (fw_deliveries w))"
    using remaining_there [of i "is"] Cons.prems(2,3) by simp
  show ?case
  proof (cases "write_done d")
    case True
    obtain r w1 where s: "release_delivery i w = (r, w1)" by fastforce
    note rel = release_credit [OF Cons.prems(1) d, unfolded s fst_conv snd_conv]
    have "books_of w1 = books_of w" using release_fields(1) [of i w] by (simp add: s)
    moreover have "fw_deliveries w1 = settled write_done [i] (fw_deliveries w)" using rel(3) one True by simp
    moreover have "close_each (i # is) w = close_each is w1"
      using True rel(1) by (auto simp: write_done_def d s)
    ultimately show ?thesis using Cons.IH [OF rel(2)] Cons.prems(2) rest
      by (simp add: settled_settled del: close_each.simps)
  next
    case False
    let ?w1 = "put_delivery i (d\<lparr>dl_acked := True\<rparr>) w"
    have "credit_ok h ?w1" using Cons.prems(1) same_credit [OF put_link [OF d]] by simp
    moreover have "fw_deliveries ?w1 = settled write_done [i] (fw_deliveries w)"
      using one False by (simp add: put_delivery_def)
    moreover have "close_each (i # is) w = close_each is ?w1" using False by (simp add: write_done_def d)
    ultimately show ?thesis using Cons.IH [of ?w1] Cons.prems(2) rest
      by (simp add: settled_settled del: close_each.simps)
  qed
qed simp

section \<open>Taking bytes\<close>

text \<open>Bytes pass from the rest of the connection to a delivery and back.\<close>

lemma ledger_put: "ledger_of (put_delivery i d w) = AList.update i (dl_size d, dl_recovery d) (ledger_of w)"
proof -
  have "map (\<lambda>(i, d). (i, f d)) (AList.update k d es) = AList.update k (f d) (map (\<lambda>(i, d). (i, f d)) es)"
    for k d es and f :: "delivery \<Rightarrow> int \<times> bool"
    by (induction es) auto
  then show ?thesis by (simp add: ledger_of_def put_delivery_def)
qed

lemma charge_new: "i \<notin> fst ` set es \<Longrightarrow>
    charge r kind (AList.update i (n, p) es) = charge r kind es + (if piece_kind r p = kind then n else 0)
    \<and> sum_list (map (fst \<circ> snd) (AList.update i (n, p) es)) = sum_list (map (fst \<circ> snd) es) + n"
  by (simp add: dict_put_new charge_def)

lemma charge_change: "dict_wf es \<Longrightarrow> map_of es i = Some (n, p) \<Longrightarrow>
    charge r kind (AList.update i (m, p) es) = charge r kind es + (if piece_kind r p = kind then m - n else 0)
    \<and> sum_list (map (fst \<circ> snd) (AList.update i (m, p) es)) = sum_list (map (fst \<circ> snd) es) + m - n"
  by (induction es) (auto simp: charge_def split: if_splits)

abbreviation add_to :: "budget_kind \<Rightarrow> int \<Rightarrow> holdings \<Rightarrow> holdings" where
  "add_to kind n h \<equiv> h(kind := h kind + n)"

lemma all_add: "all_of (add_to kind n h) = all_of h + n"
  by (cases kind) (simp_all add: all_of_def)

lemma ledger_reserve: "ledger_of (snd (reserve_bytes n kind w)) = ledger_of w"
  "books_of (snd (reserve_bytes n kind w)) = books_of w"
  "fw_deliveries (snd (reserve_bytes n kind w)) = fw_deliveries w"
  "fw_staged (snd (reserve_bytes n kind w)) = fw_staged w"
  "ln_recovery (snd (reserve_bytes n kind w)) = ln_recovery w"
  by (simp_all add: reserve_bytes_def guarded_def Let_def ledger_of_def books_of_def
      split: option.split prod.split sum.split bool.split)

lemma reserve_shape: "reserve_bytes n kind w = (Inr True, w') \<Longrightarrow>
    0 \<le> n \<and> w' = w\<lparr>ln_bytes := ln_bytes w + n,
      ln_kinds := (if link_kind kind w = KNone then ln_kinds w
                   else (ln_kinds w)(link_kind kind w := ln_kinds w (link_kind kind w) + n)),
      ln_shared := (ln_shared w)\<lparr>bu_used := bu_used (ln_shared w) + n,
        bu_kinds := (bu_kinds (ln_shared w))(link_kind kind w := bu_kinds (ln_shared w) (link_kind kind w) + n)\<rparr>\<rparr>"
  by (auto simp: reserve_bytes_def budget_reserve_def guarded_def Let_def
      split: if_splits prod.splits sum.splits bool.splits)

lemma reserve_refused: "reserve_bytes n kind w = (r, w') \<Longrightarrow> r \<noteq> Inr True \<Longrightarrow> w' = w"
  by (auto simp: reserve_bytes_def budget_reserve_def guarded_def Let_def
      split: if_splits prod.splits sum.splits bool.splits)

lemma reserve_never_raises: "0 \<le> n \<Longrightarrow> fst (reserve_bytes n kind w) \<in> {Inr True, Inr False}"
  by (auto simp: reserve_bytes_def budget_reserve_def guarded_def Let_def
      split: if_splits prod.splits sum.splits bool.splits)

lemma reserve_credit:
  assumes "credit_ok h w" "reserve_bytes n kind w = (Inr True, w')"
  shows "credit_ok (add_to (link_kind kind w) n h) w'"
proof -
  let ?k = "link_kind kind w"
  note s = reserve_shape [OF assms(2)]
  have led: "ledger_of w' = ledger_of w" using ledger_reserve(1) [of n kind w] assms(2) by simp
  have shared: "\<forall>kind. charge (ln_recovery w) kind (ledger_of w) + h kind \<le> bu_kinds (ln_shared w) kind"
    and kinds: "ln_recovery w \<longrightarrow> (\<forall>kind. kind \<noteq> KNone \<longrightarrow> ln_kinds w kind = charge True kind (ledger_of w) + h kind)"
    using assms(1) by (simp_all add: credit_ok_def)
  show ?thesis unfolding credit_ok_def led
  proof (intro conjI)
    show "ln_recovery w' \<longrightarrow> (\<forall>kind. kind \<noteq> KNone \<longrightarrow>
        ln_kinds w' kind = charge True kind (ledger_of w) + (add_to ?k n h) kind)"
      using kinds s by (auto simp: link_kind_def)
    show "\<forall>kind. charge (ln_recovery w') kind (ledger_of w) + (add_to ?k n h) kind \<le> bu_kinds (ln_shared w') kind"
    proof
      fix kind
      show "charge (ln_recovery w') kind (ledger_of w) + (add_to ?k n h) kind \<le> bu_kinds (ln_shared w') kind"
        using spec [OF shared, of kind] s by (cases "kind = ?k") simp_all
    qed
  qed (use assms(1) s all_add [of h ?k n] in \<open>auto simp: credit_ok_def\<close>)
qed

lemma release_credit_of:
  assumes "credit_ok (add_to (link_kind kind w) n h) w" "0 \<le> n" "\<forall>k. 0 \<le> h k"
  shows "fst (release_bytes n kind w) = Inr ()" "credit_ok h (snd (release_bytes n kind w))"
proof -
  let ?k = "link_kind kind w"
  let ?es = "ledger_of w"
  have pos: "\<forall>(i, n, piece) \<in> set ?es. 0 < n"
    and bytes: "ln_bytes w = sum_list (map (fst \<circ> snd) ?es) + (all_of h + n)"
    and kinds: "ln_recovery w \<longrightarrow> (\<forall>kind. kind \<noteq> KNone \<longrightarrow> ln_kinds w kind = charge True kind ?es + (add_to ?k n h) kind)"
    and shared: "\<forall>kind. charge (ln_recovery w) kind ?es + (add_to ?k n h) kind \<le> bu_kinds (ln_shared w) kind"
    using assms(1) by (simp_all add: credit_ok_def all_add)
  have "0 \<le> sum_list (map (fst \<circ> snd) ?es)" using pos by (intro sum_list_nonneg) auto
  moreover have "0 \<le> all_of h" using assms(3) by (simp add: all_of_def)
  ultimately have fits: "n \<le> ln_bytes w" using bytes by simp
  have "0 \<le> h ?k" using assms(3) by simp
  then have room: "n \<le> bu_kinds (ln_shared w) ?k"
    using spec [OF shared, of ?k] charge_nonneg [OF pos, of "ln_recovery w" ?k] unfolding fun_upd_same by linarith
  have res: "release_bytes n kind w = (Inr (), w\<lparr>ln_bytes := ln_bytes w - n,
      ln_kinds := (if ?k = KNone then ln_kinds w else (ln_kinds w)(?k := ln_kinds w ?k - n)),
      ln_shared := (ln_shared w)\<lparr>bu_used := bu_used (ln_shared w) - n,
        bu_kinds := (bu_kinds (ln_shared w))(?k := bu_kinds (ln_shared w) ?k - n)\<rparr>\<rparr>)"
    using assms(2) fits room by (simp add: release_bytes_def Let_def guarded_def budget_release_def)
  then show "fst (release_bytes n kind w) = Inr ()" by simp
  have led: "ledger_of (snd (release_bytes n kind w)) = ?es" unfolding res by (simp add: ledger_of_def)
  show "credit_ok h (snd (release_bytes n kind w))" unfolding credit_ok_def led
  proof (intro conjI)
    show "ln_recovery (snd (release_bytes n kind w)) \<longrightarrow>
      (\<forall>kind'. kind' \<noteq> KNone \<longrightarrow> ln_kinds (snd (release_bytes n kind w)) kind' = charge True kind' ?es + h kind')"
      using kinds unfolding res by (auto simp: link_kind_def)
    show "\<forall>kind'. charge (ln_recovery (snd (release_bytes n kind w))) kind' ?es + h kind'
        \<le> bu_kinds (ln_shared (snd (release_bytes n kind w))) kind'"
    proof
      fix kind'
      show "charge (ln_recovery (snd (release_bytes n kind w))) kind' ?es + h kind'
          \<le> bu_kinds (ln_shared (snd (release_bytes n kind w))) kind'"
        using spec [OF shared, of kind'] unfolding res by (cases "kind' = ?k") simp_all
    qed
  qed (use assms pos bytes res in \<open>auto simp: credit_ok_def\<close>)
qed

end
