(* ===== verification/Flow_World.thy ===== *)
theory Flow_World
  imports Flow_Machine
begin

text \<open>
  The flow window in its connection: every operation of the window, what the rest of the connection reserves
  and gives back, and the shared budget as other connections leave it; the invariant of this machine.
\<close>

section \<open>The machine\<close>

datatype flow_op =
    FAdmit admission
  | FRegister string "string option"
  | FClaim int publication
  | FPublish int int
  | FSending int
  | FDiscard int
  | FSent int
  | FFinished int
  | FStage string json
  | FAck string json
  | FAckLane string string json
  | FAckDelivery string string json "string option"
  | FRetire string string string "string option" json "string option"
  | FConfirm string string "string option" json "string option"
  | FPrune
  | FDirty "string option" "string option" int
  | FGlobalDirty bool
  | FClose

definition outcome :: "(py_exc + 'a) \<times> flow \<Rightarrow> py_exc option \<times> flow" where
  "outcome x = (case fst x of Inl e \<Rightarrow> Some e | Inr _ \<Rightarrow> None, snd x)"

primrec flow_result :: "flow_op \<Rightarrow> flow \<Rightarrow> py_exc option \<times> flow" where
  "flow_result (FAdmit a) w = outcome (admit_delivery a w)"
| "flow_result (FRegister lane e) w = outcome (register_lane_epoch lane e w)"
| "flow_result (FClaim i p) w = (None, snd (claim_delivery i p w))"
| "flow_result (FPublish i n) w = outcome (publish_snapshot i n w)"
| "flow_result (FSending i) w = outcome (mark_sending i w)"
| "flow_result (FDiscard i) w = outcome (discard_retired_queued i w)"
| "flow_result (FSent i) w = outcome (mark_sent i w)"
| "flow_result (FFinished i) w = outcome (mark_send_finished i w)"
| "flow_result (FStage e v) w = outcome (stage_delivery e v w)"
| "flow_result (FAck e v) w = outcome (acknowledge e v w)"
| "flow_result (FAckLane e lane v) w = outcome (acknowledge_lane e lane v w)"
| "flow_result (FAckDelivery e lane v le) w = outcome (acknowledge_lane_delivery e lane v le w)"
| "flow_result (FRetire fresh e lane token final le) w = outcome (retire_lane fresh e lane token final le w)"
| "flow_result (FConfirm e lane token final le) w = outcome (confirm_retire e lane token final le w)"
| "flow_result FPrune w = (None, prune_lanes w)"
| "flow_result (FDirty k g n) w = (None, snd (mark_dirty k g n w))"
| "flow_result (FGlobalDirty renew) w = (None, snd (mark_global_dirty renew w))"
| "flow_result FClose w = outcome (close_window w)"

text \<open>What the rest of the connection holds is kept beside the window. It gives back only what it holds, and a
  frame that was charged before is admitted with bytes that it holds; other connections leave in the shared
  budget what this one has there.\<close>

datatype world_op =
    Window flow_op
  | Charge int budget_kind
  | Refund int budget_kind
  | Elsewhere budget
  | Closing

type_synonym world = "flow \<times> holdings"

definition admission_kind :: "admission \<Rightarrow> flow \<Rightarrow> budget_kind" where
  "admission_kind a w = link_kind (if ad_recovery a then KRecovery else KNone) w"

definition admit_step :: "admission \<Rightarrow> world \<Rightarrow> world" where
  "admit_step a c =
     (case c of (w, h) \<Rightarrow>
        if \<not> ad_reserved a then (snd (admit_delivery a w), h)
        else if h (admission_kind a w) < ad_size a then (w, h)
        else case admit_delivery a w of
               (Inr (Some i), w1) \<Rightarrow> (w1, add_to (admission_kind a w) (- ad_size a) h)
             | (_, w1) \<Rightarrow> (w1, h))"

definition all_kinds :: "budget_kind list" where "all_kinds = [KNone, KBulk, KRecovery, KControl]"

primrec world_step :: "world_op \<Rightarrow> world \<Rightarrow> world" where
  "world_step (Window a) c =
     (case a of FAdmit x \<Rightarrow> admit_step x c | _ \<Rightarrow> (snd (flow_result a (fst c)), snd c))"
| "world_step (Charge n kind) c =
     (case reserve_bytes n kind (fst c) of
        (Inr True, w1) \<Rightarrow> (w1, add_to (link_kind kind (fst c)) n (snd c))
      | (_, w1) \<Rightarrow> (w1, snd c))"
| "world_step (Refund n kind) c =
     (if 0 \<le> n \<and> n \<le> snd c (link_kind kind (fst c))
      then (snd (release_bytes n kind (fst c)), add_to (link_kind kind (fst c)) (- n) (snd c)) else c)"
| "world_step (Elsewhere b) c =
     (if list_all (\<lambda>kind. charge (ln_recovery (fst c)) kind (ledger_of (fst c)) + snd c kind \<le> bu_kinds b kind) all_kinds
      then ((fst c)\<lparr>ln_shared := b\<rparr>, snd c) else c)"
| "world_step Closing c = ((fst c)\<lparr>ln_closing := True\<rparr>, snd c)"

interpretation flow_world: machine world_step .

section \<open>The window is in order\<close>

definition ordinary_of :: "(int \<times> delivery) list \<Rightarrow> int list" where
  "ordinary_of es = map (dl_size \<circ> snd) (filter (\<lambda>e. \<not> dl_recovery (snd e)) es)"

definition window_ok :: "flow \<Rightarrow> bool" where
  "window_ok w \<longleftrightarrow>
     sorted_wrt (<) (map fst (fw_deliveries w)) \<and> (\<forall>i \<in> fst ` set (fw_deliveries w). 0 < i \<and> i < fw_next_id w)
     \<and> 0 < fw_next_id w
     \<and> length (filter (\<lambda>e. dl_recovery (snd e)) (fw_deliveries w)) \<le> fw_recovery_limit w
     \<and> length (ordinary_of (fw_deliveries w)) \<le> flow_window_frames
     \<and> (1 < length (ordinary_of (fw_deliveries w)) \<longrightarrow> sum_list (ordinary_of (fw_deliveries w)) \<le> flow_window_bytes)
     \<and> (\<forall>n \<in> set (ordinary_of (fw_deliveries w)). 0 < n \<and> n \<le> max_wire_bytes + 32)"

text \<open>A step that only takes deliveries out, or changes them without their size, keeps the window in order.\<close>

definition shape_of :: "int \<times> delivery \<Rightarrow> int \<times> int \<times> bool" where
  "shape_of e = (fst e, dl_size (snd e), dl_recovery (snd e))"

lemma ledger_shape: "ledger_of w = map shape_of (fw_deliveries w)"
  by (simp add: ledger_of_def shape_of_def split_beta)

lemma window_ledger:
  "map fst (fw_deliveries w) = map fst (ledger_of w)"
  "ordinary_of (fw_deliveries w) = map (fst \<circ> snd) (filter (\<lambda>e. \<not> snd (snd e)) (ledger_of w))"
  "length (filter (\<lambda>e. dl_recovery (snd e)) (fw_deliveries w)) = length (filter (\<lambda>e. snd (snd e)) (ledger_of w))"
  by (simp_all add: ledger_shape shape_of_def ordinary_of_def filter_map comp_def split_beta)

lemma sum_pos: "\<forall>n \<in> set ns. 0 < n \<Longrightarrow> 0 \<le> sum_list (ns :: int list)"
  by (induction ns) auto

lemma sum_sub: "subseq xs ys \<Longrightarrow> \<forall>n \<in> set ys. 0 < n \<Longrightarrow> sum_list xs \<le> sum_list (ys :: int list)"
  by (induction rule: list_emb.induct) (auto simp: sum_pos)

lemma window_shrinks:
  assumes ok: "window_ok w" and sub: "subseq (ledger_of w') (ledger_of w)"
    and "fw_recovery_limit w' = fw_recovery_limit w" "fw_next_id w' = fw_next_id w"
  shows "window_ok w'"
proof -
  note l = ok [unfolded window_ok_def window_ledger]
  have ids: "subseq (map fst (ledger_of w')) (map fst (ledger_of w))" by (rule subseq_map [OF sub])
  have rec: "length (filter (\<lambda>e. snd (snd e)) (ledger_of w')) \<le> length (filter (\<lambda>e. snd (snd e)) (ledger_of w))"
    by (rule list_emb_length [OF subseq_filter [OF sub]])
  have "subseq (ordinary_of (fw_deliveries w')) (ordinary_of (fw_deliveries w))"
    unfolding window_ledger by (intro subseq_map subseq_filter sub)
  note ord = this
  have in_ids: "i \<in> fst ` set (ledger_of w) " if "i \<in> fst ` set (ledger_of w')" for i
    using subsetD [OF subseq_set [OF ids], of i] that by simp
  have ids': "fst ` set (fw_deliveries w') = fst ` set (ledger_of w')" "fst ` set (fw_deliveries w) = fst ` set (ledger_of w)"
    using window_ledger(1) by (metis list.set_map)+
  show ?thesis unfolding window_ok_def assms(3,4)
  proof (intro conjI)
    show "sorted_wrt (<) (map fst (fw_deliveries w'))"
      using sorted_subseq [OF ids] l unfolding window_ledger by blast
    show "\<forall>i \<in> fst ` set (fw_deliveries w'). 0 < i \<and> i < fw_next_id w"
      using in_ids ok unfolding window_ok_def ids' by blast
    show "length (filter (\<lambda>e. dl_recovery (snd e)) (fw_deliveries w')) \<le> fw_recovery_limit w"
      using rec l unfolding window_ledger by linarith
    show "length (ordinary_of (fw_deliveries w')) \<le> flow_window_frames"
      using list_emb_length [OF ord] ok unfolding window_ok_def by linarith
    show "1 < length (ordinary_of (fw_deliveries w')) \<longrightarrow> sum_list (ordinary_of (fw_deliveries w')) \<le> flow_window_bytes"
      using list_emb_length [OF ord] sum_sub [OF ord] ok unfolding window_ok_def by fastforce
    show "\<forall>n \<in> set (ordinary_of (fw_deliveries w')). 0 < n \<and> n \<le> max_wire_bytes + 32"
      using subseq_set [OF ord] ok unfolding window_ok_def by blast
  qed (use ok in \<open>simp add: window_ok_def\<close>)
qed

section \<open>Bytes pass to a delivery and back\<close>

definition old_size :: "int \<Rightarrow> flow \<Rightarrow> int" where
  "old_size i w = (case delivery_of i w of None \<Rightarrow> 0 | Some d \<Rightarrow> dl_size d)"

lemma kind_of_piece: "link_kind (if p then KRecovery else KNone) w = piece_kind (ln_recovery w) p"
  by (simp add: link_kind_def piece_kind_def)

lemma put_sums:
  assumes "dict_wf (ledger_of w)" "\<forall>d. delivery_of i w = Some d \<longrightarrow> dl_recovery d = dl_recovery d'"
  shows "charge r kind (ledger_of (put_delivery i d' w)) = charge r kind (ledger_of w)
      + (if piece_kind r (dl_recovery d') = kind then dl_size d' - old_size i w else 0)"
    "sum_list (map (fst \<circ> snd) (ledger_of (put_delivery i d' w))) =
      sum_list (map (fst \<circ> snd) (ledger_of w)) + dl_size d' - old_size i w"
proof -
  have "charge r kind (ledger_of (put_delivery i d' w)) = charge r kind (ledger_of w)
      + (if piece_kind r (dl_recovery d') = kind then dl_size d' - old_size i w else 0)
    \<and> sum_list (map (fst \<circ> snd) (ledger_of (put_delivery i d' w))) =
      sum_list (map (fst \<circ> snd) (ledger_of w)) + dl_size d' - old_size i w"
  proof (cases "delivery_of i w")
    case None
    then have "i \<notin> fst ` set (ledger_of w)" using ledger_map [of w i] by (simp add: map_of_eq_None_iff)
    then show ?thesis using charge_new by (simp add: ledger_put old_size_def None)
  next
    case (Some d)
    then have "map_of (ledger_of w) i = Some (dl_size d, dl_recovery d')" using assms(2) by (simp add: ledger_map)
    then show ?thesis using charge_change [OF assms(1)] by (simp add: ledger_put old_size_def Some)
  qed
  then show "charge r kind (ledger_of (put_delivery i d' w)) = charge r kind (ledger_of w)
      + (if piece_kind r (dl_recovery d') = kind then dl_size d' - old_size i w else 0)"
    "sum_list (map (fst \<circ> snd) (ledger_of (put_delivery i d' w))) =
      sum_list (map (fst \<circ> snd) (ledger_of w)) + dl_size d' - old_size i w" by simp_all
qed

lemma put_credit:
  assumes ok: "credit_ok H w" and pos: "0 < dl_size d'"
    and same: "\<forall>d. delivery_of i w = Some d \<longrightarrow> dl_recovery d = dl_recovery d'"
    and k: "k = piece_kind (ln_recovery w) (dl_recovery d')" and h: "0 \<le> H k + old_size i w - dl_size d'"
  shows "credit_ok (add_to k (old_size i w - dl_size d') H) (put_delivery i d' w)"
proof -
  let ?w = "put_delivery i d' w"
  let ?es = "ledger_of w"
  let ?H = "add_to k (old_size i w - dl_size d') H"
  have wf: "dict_wf ?es" and shared: "\<forall>kind. charge (ln_recovery w) kind ?es + H kind \<le> bu_kinds (ln_shared w) kind"
    and bytes: "ln_bytes w = sum_list (map (fst \<circ> snd) ?es) + all_of H"
    and kinds: "ln_recovery w \<longrightarrow> (\<forall>kind. kind \<noteq> KNone \<longrightarrow> ln_kinds w kind = charge True kind ?es + H kind)"
    using ok by (simp_all add: credit_ok_def)
  note sums = put_sums [OF wf same]
  have link: "ln_bytes ?w = ln_bytes w" "ln_kinds ?w = ln_kinds w" "ln_shared ?w = ln_shared w"
    by (simp_all add: put_delivery_def)
  show ?thesis unfolding credit_ok_def link put_fields
  proof (intro conjI)
    show "\<forall>(j, n, piece) \<in> set (ledger_of ?w). 0 < n"
      using ok pos unfolding ledger_put credit_ok_def
      by (auto dest!: subsetD [OF set_update_in])
    show "ln_bytes w = sum_list (map (fst \<circ> snd) (ledger_of ?w)) + all_of ?H"
      using bytes sums(2) all_add [of H k] by simp
    show "\<forall>kind. charge (ln_recovery w) kind (ledger_of ?w) + ?H kind \<le> bu_kinds (ln_shared w) kind"
    proof
      fix kind
      show "charge (ln_recovery w) kind (ledger_of ?w) + ?H kind \<le> bu_kinds (ln_shared w) kind"
        using spec [OF shared, of kind] sums(1) [of "ln_recovery w" kind] k by (cases "kind = k") auto
    qed
    show "ln_recovery w \<longrightarrow> (\<forall>kind. kind \<noteq> KNone \<longrightarrow> ln_kinds w kind = charge True kind (ledger_of ?w) + ?H kind)"
    proof (intro impI allI)
      fix kind assume "ln_recovery w" "kind \<noteq> KNone"
      then show "ln_kinds w kind = charge True kind (ledger_of ?w) + ?H kind"
        using kinds sums(1) [of True kind] k by (cases "kind = k") auto
    qed
    show "\<forall>kind. 0 \<le> ?H kind" using ok h by (auto simp: credit_ok_def)
  qed (use wf in \<open>simp add: ledger_put\<close>)
qed

section \<open>Admission\<close>

lemma gate_shape: "\<exists>b. snd (lane_gate a w) = w\<lparr>fw_lanes := b\<rparr>"
proof -
  have "\<exists>b. w = w\<lparr>fw_lanes := b\<rparr>" by (rule exI [of _ "fw_lanes w"]) simp
  then show ?thesis by (auto simp: lane_gate_def Let_def split: option.split)
qed

lemma refusal_pos: "window_refusal a w = None \<Longrightarrow> 0 < ad_size a \<and> ad_size a \<le> max_wire_bytes + 32"
  by (auto simp: window_refusal_def Let_def split: if_splits option.splits)

lemma admit_cases:
  assumes "admit_delivery a w = (r, w')"
  obtains (refused) b why where "r = Inr None" "w' = w\<lparr>fw_rejection := why, fw_lanes := b\<rparr>"
  | (admitted) b w1 w2 where "w1 = w\<lparr>fw_rejection := None, fw_lanes := b\<rparr>" "window_refusal a w1 = None"
      "\<not> fw_closed w"
      "(if ad_reserved a then Inr True else fst (reserve_bytes (ad_size a) (if ad_recovery a then KRecovery else KNone) w1))
         = Inr True"
      "w2 = (if ad_reserved a then w1 else snd (reserve_bytes (ad_size a) (if ad_recovery a then KRecovery else KNone) w1))"
      "r = Inr (Some (fst (enter_delivery a w2)))" "w' = snd (enter_delivery a w2)"
proof -
  let ?w = "w\<lparr>fw_rejection := None\<rparr>"
  obtain b where b: "snd (lane_gate a ?w) = ?w\<lparr>fw_lanes := b\<rparr>" using gate_shape by blast
  obtain why where gate: "lane_gate a ?w = (why, ?w\<lparr>fw_lanes := b\<rparr>)" using b by (metis prod.collapse)
  let ?w1 = "?w\<lparr>fw_lanes := b\<rparr>"
  show thesis
  proof (cases "fw_closed w")
    case True
    then show thesis using assms
      by (intro refused [of "fw_lanes w" "Some ''flow_closed''"]) (auto simp: admit_delivery_def Let_def)
  next
    case opened: False
    show thesis
    proof (cases "why = None \<and> window_refusal a ?w1 = None")
      case False
      then show thesis using assms opened gate
        by (intro refused [of b "fw_rejection w'"]) (auto simp: admit_delivery_def Let_def split: option.splits)
    next
      case True
      let ?res = "if ad_reserved a then (Inr True, ?w1)
        else reserve_bytes (ad_size a) (if ad_recovery a then KRecovery else KNone) ?w1"
      obtain q w2 where res: "?res = (q, w2)" by fastforce
      have "0 \<le> ad_size a" using refusal_pos True by force
      then have q: "q \<in> {Inr True, Inr False}"
        using res reserve_never_raises [of "ad_size a" _ ?w1] by (metis fst_conv insertI1)
      have adm: "admit_delivery a w = (case (q, w2) of
          (Inl e, w2) \<Rightarrow> (Inl e, w2)
        | (Inr False, w2) \<Rightarrow> (Inr None, w2\<lparr>fw_rejection := Some ''transport_reservation_rejected''\<rparr>)
        | (Inr True, w2) \<Rightarrow> (case enter_delivery a w2 of (i, w3) \<Rightarrow> (Inr (Some i), w3)))"
        using opened gate True unfolding admit_delivery_def Let_def res [symmetric] by simp
      show thesis
      proof (cases "q = Inr True")
        case ok: True
        then show thesis using adm assms True opened res
          by (intro admitted [of ?w1 b w2]) (auto split: if_splits prod.splits)
      next
        case False
        then have "w2 = ?w1" using res reserve_refused by (metis prod.inject)
        then show thesis using False q adm assms by (intro refused [of b "fw_rejection w'"]) auto
      qed
    qed
  qed
qed

lemma refusal_cong:
  assumes "fw_deliveries w' = fw_deliveries w" "books_of w' = books_of w"
  shows "window_refusal a w' = window_refusal a w"
proof -
  have eqs: "fw_lane_mode w' = fw_lane_mode w" "fw_lane_limit w' = fw_lane_limit w"
    "fw_recovery_limit w' = fw_recovery_limit w" using assms(2) by (simp_all add: books_of_def)
  show ?thesis unfolding window_refusal_def values_of_def eqs assms(1) ..
qed

lemma new_parts [simp]:
  "dl_size (new_delivery a b) = ad_size a" "dl_recovery (new_delivery a b) = ad_recovery a"
  "dl_acked (new_delivery a b) = False" "dl_publication (new_delivery a b) = Reserved"
  by (simp_all add: new_delivery_def)

lemma enter_shape:
  assumes "enter_delivery a w = (i, w')"
  shows "i = fw_next_id w \<and> (\<exists>b d. w' = put_delivery i d (w\<lparr>fw_next_id := i + 1, fw_lanes := b\<rparr>)
      \<and> dl_size d = ad_size a \<and> dl_recovery d = ad_recovery a \<and> dl_acked d = False \<and> dl_publication d = Reserved)"
proof -
  let ?b = "case ad_lane a of None \<Rightarrow> fw_lanes w | Some lane \<Rightarrow> enter_lane lane (ad_epoch a) (fw_lanes w)"
  have "i = fw_next_id w" "w' = put_delivery i (new_delivery a (fw_lanes w)) (w\<lparr>fw_next_id := i + 1, fw_lanes := ?b\<rparr>)"
    using assms by (auto simp: enter_delivery_def Let_def)
  then show ?thesis using new_parts by blast
qed

lemma not_there: "window_ok w \<Longrightarrow> fw_next_id w \<notin> fst ` set (fw_deliveries w)"
  by (auto simp: window_ok_def)

lemma enter_window:
  assumes ok: "window_ok w" and "window_refusal a w = None" "enter_delivery a w = (i, w')"
  shows "window_ok w'"
proof -
  obtain b d where w': "w' = put_delivery i d (w\<lparr>fw_next_id := i + 1, fw_lanes := b\<rparr>)"
    and d: "dl_size d = ad_size a" "dl_recovery d = ad_recovery a" and i: "i = fw_next_id w"
    using enter_shape [OF assms(3)] by auto
  have es: "fw_deliveries w' = fw_deliveries w @ [(i, d)]"
    using not_there [OF ok] by (simp add: w' put_delivery_def dict_put_new i)
  have others: "fw_next_id w' = i + 1" "fw_recovery_limit w' = fw_recovery_limit w"
    by (simp_all add: w' put_delivery_def)
  have ord: "ordinary_of (fw_deliveries w) = map dl_size (filter (\<lambda>d. \<not> dl_recovery d) (values_of w))"
    "length (filter (\<lambda>e. dl_recovery (snd e)) (fw_deliveries w)) = length (filter dl_recovery (values_of w))"
    by (simp_all add: ordinary_of_def values_of_def filter_map comp_def)
  have new: "0 < ad_size a" "ad_size a \<le> max_wire_bytes + 32"
    "if ad_recovery a then length (filter dl_recovery (values_of w)) < fw_recovery_limit w
     else length (ordinary_of (fw_deliveries w)) < flow_window_frames
        \<and> (ordinary_of (fw_deliveries w) \<noteq> [] \<longrightarrow>
             sum_list (ordinary_of (fw_deliveries w)) + ad_size a \<le> flow_window_bytes)"
    using assms(2) refusal_pos [OF assms(2)] unfolding ord
    by (auto simp: window_refusal_def Let_def not_le not_less split: if_splits)
  show ?thesis using ok new unfolding window_ok_def others es
    by (auto simp: sorted_wrt_append ordinary_of_def d i values_of_def filter_map comp_def)
qed

lemma enter_credit:
  assumes ok: "credit_ok (add_to (admission_kind a w) (ad_size a) h) w" and win: "window_ok w"
    and "window_refusal a w = None" "enter_delivery a w = (i, w')" "\<forall>k. 0 \<le> h k"
  shows "credit_ok h w'"
proof -
  obtain b d where w': "w' = put_delivery i d (w\<lparr>fw_next_id := i + 1, fw_lanes := b\<rparr>)"
    and d: "dl_size d = ad_size a" "dl_recovery d = ad_recovery a" and i: "i = fw_next_id w"
    using enter_shape [OF assms(4)] by auto
  let ?w1 = "w\<lparr>fw_next_id := i + 1, fw_lanes := b\<rparr>"
  let ?H = "add_to (admission_kind a w) (ad_size a) h"
  have "same_link w ?w1" by (simp add: same_link_def ledger_of_def)
  then have ok1: "credit_ok ?H ?w1" using ok same_credit by blast
  have none: "delivery_of i ?w1 = None"
    using not_there [OF win] by (simp add: delivery_of_def map_of_eq_None_iff i)
  have "admission_kind a w = piece_kind (ln_recovery ?w1) (dl_recovery d)"
    by (simp add: admission_kind_def kind_of_piece d)
  from put_credit [OF ok1 _ _ this, of i] have "credit_ok (add_to (admission_kind a w) (0 - ad_size a) ?H) w'"
    using refusal_pos [OF assms(3)] none assms(5) by (simp add: old_size_def d w')
  moreover have "add_to (admission_kind a w) (0 - ad_size a) ?H = h" by (rule ext) simp
  ultimately show ?thesis by simp
qed

definition world_ok :: "world \<Rightarrow> bool" where
  "world_ok c \<longleftrightarrow> credit_ok (snd c) (fst c) \<and> window_ok (fst c)"

lemma window_same: "window_ok w \<Longrightarrow> fw_deliveries w' = fw_deliveries w \<Longrightarrow> books_of w' = books_of w \<Longrightarrow> window_ok w'"
  by (simp add: window_ok_def books_of_def)

lemma admit_ok:
  assumes "world_ok c"
  shows "world_ok (admit_step a c)"
proof -
  obtain w h where c: "c = (w, h)" by (cases c)
  have ok: "credit_ok h w" "window_ok w" using assms by (simp_all add: world_ok_def c)
  obtain r w' where adm: "admit_delivery a w = (r, w')" by fastforce
  show ?thesis
  proof (cases "ad_reserved a \<and> h (admission_kind a w) < ad_size a")
    case True
    then show ?thesis using assms by (simp add: admit_step_def c)
  next
    case room: False
    from adm show ?thesis
    proof (cases rule: admit_cases)
      case (refused b why)
      have "same_link w w'" by (simp add: same_link_def ledger_of_def refused)
      then have "credit_ok h w'" using ok(1) same_credit by blast
      moreover have "window_ok w'" using ok(2) by (simp add: window_ok_def refused)
      ultimately show ?thesis using room adm refused(1) by (auto simp: admit_step_def c world_ok_def)
    next
      case (admitted b w1 w2)
      let ?k = "admission_kind a w"
      let ?n = "ad_size a"
      have w1: "same_link w w1" by (simp add: same_link_def ledger_of_def admitted(1))
      have k: "link_kind (if ad_recovery a then KRecovery else KNone) w1 = ?k"
        by (simp add: admission_kind_def admitted(1) link_kind_def)
      have ok1: "credit_ok h w1" using ok(1) same_credit [OF w1] by simp
      have win1: "window_ok w1" using ok(2) by (simp add: window_ok_def admitted(1))
      have n: "0 < ?n" using refusal_pos [OF admitted(2)] by simp
      obtain i where i: "enter_delivery a w2 = (i, w')" using admitted(6,7) by (metis prod.collapse)
      let ?h = "if ad_reserved a then add_to ?k (- ?n) h else h"
      have w2: "fw_deliveries w2 = fw_deliveries w1" "books_of w2 = books_of w1" "ln_recovery w2 = ln_recovery w1"
        using admitted(5) ledger_reserve by (auto split: if_splits)
      have k2: "admission_kind a w2 = ?k"
        by (simp add: admission_kind_def link_kind_def w2(3)) (simp add: admitted(1))
      have "credit_ok (add_to ?k ?n ?h) w2"
      proof (cases "ad_reserved a")
        case True
        have "add_to ?k ?n (add_to ?k (- ?n) h) = h" by (rule ext) simp
        then show ?thesis using True ok1 admitted(5) by simp
      next
        case False
        then have "reserve_bytes ?n (if ad_recovery a then KRecovery else KNone) w1 = (Inr True, w2)"
          using admitted(4,5) by (metis prod.collapse)
        from reserve_credit [OF ok1 this] show ?thesis using False k by simp
      qed
      moreover have "\<forall>k. 0 \<le> ?h k" using ok(1) room by (auto simp: credit_ok_def)
      moreover have ref: "window_refusal a w2 = None" using refusal_cong [OF w2(1,2)] admitted(2) by simp
      ultimately have "credit_ok ?h w'"
        using enter_credit [where a = a and w = w2 and h = "?h" and i = i and w' = w'] window_same [OF win1 w2(1,2)] i k2 by metis
      moreover have "window_ok w'" by (rule enter_window [OF window_same [OF win1 w2(1,2)] ref i])
      moreover have "r = Inr (Some i)" using admitted(6) i by simp
      ultimately show ?thesis using room adm by (auto simp: admit_step_def c world_ok_def)
    qed
  qed
qed

section \<open>Every operation keeps the books\<close>

lemma same_ok:
  assumes "world_ok (w, h)" "same_link w w'" "fw_recovery_limit w' = fw_recovery_limit w" "fw_next_id w' = fw_next_id w"
  shows "world_ok (w', h)"
proof -
  have "subseq (ledger_of w') (ledger_of w)" using assms(2) by (simp add: same_link_def)
  then have "window_ok w'" using assms(1,3,4) by (intro window_shrinks [of w w']) (simp_all add: world_ok_def)
  then show ?thesis using assms(1) same_credit [OF assms(2)] by (simp add: world_ok_def)
qed

lemma lanes_ok: "world_ok (w, h) \<Longrightarrow> world_ok (w\<lparr>fw_lanes := b\<rparr>, h)"
  by (erule same_ok) simp_all

lemma put_ok: "world_ok (w, h) \<Longrightarrow> delivery_of i w = Some d \<Longrightarrow> dl_size d' = dl_size d \<Longrightarrow> dl_recovery d' = dl_recovery d
    \<Longrightarrow> world_ok (put_delivery i d' w, h)"
  by (rule same_ok [OF _ put_link]) (simp_all add: put_delivery_def)

lemma delete_sub: "subseq (AList.delete k xs) xs"
  by (simp add: AList.delete_eq)

lemma settled_sub: "subseq (map shape_of (settled gone is es)) (map shape_of es)"
proof (induction es)
  case (Cons e es)
  obtain i d where e: "e = (i, d)" by (cases e)
  show ?case using Cons by (auto simp: e settled_Cons shape_of_def)
qed simp

lemma shrunk_ok:
  assumes "world_ok (w, h)" "credit_ok h w'" "subseq (map shape_of (fw_deliveries w')) (map shape_of (fw_deliveries w))"
    "books_of w' = books_of w"
  shows "world_ok (w', h)"
  using assms window_shrinks [of w w'] by (simp add: world_ok_def ledger_shape books_of_def)

lemma release_ok:
  assumes "world_ok (w, h)" "delivery_of i w = Some d"
  shows "fst (release_delivery i w) = Inr ()" "world_ok (snd (release_delivery i w), h)"
proof -
  have c: "credit_ok h w" using assms(1) by (simp add: world_ok_def)
  note rel = release_credit [OF c assms(2)]
  show "fst (release_delivery i w) = Inr ()" by (rule rel(1))
  show "world_ok (snd (release_delivery i w), h)"
    by (rule shrunk_ok [OF assms(1) rel(2)]) (simp_all add: rel(3) subseq_map [OF delete_sub])
qed

lemma settle_ok:
  assumes "world_ok (w, h)" "distinct is" "set is \<subseteq> fst ` set (fw_deliveries w)"
  shows "fst (settle_all is w) = Inr ()" "world_ok (snd (settle_all is w), h)"
    "fw_deliveries (snd (settle_all is w)) = settled dl_sent is (fw_deliveries w)"
    "books_of (snd (settle_all is w)) = books_of w"
proof -
  have c: "credit_ok h w" using assms(1) by (simp add: world_ok_def)
  note all = settle_all_ok [OF c assms(2,3)]
  then show "fst (settle_all is w) = Inr ()" "books_of (snd (settle_all is w)) = books_of w"
    "fw_deliveries (snd (settle_all is w)) = settled dl_sent is (fw_deliveries w)" by simp_all
  show "world_ok (snd (settle_all is w), h)" using all settled_sub shrunk_ok [OF assms(1)] by simp
qed

lemma settle_one_ok:
  assumes "world_ok (w, h)" "delivery_of i w = Some d"
  shows "fst (settle_delivery i w) = Inr ()" "world_ok (snd (settle_delivery i w), h)"
    "fw_deliveries (snd (settle_delivery i w)) = settled dl_sent [i] (fw_deliveries w)"
    "books_of (snd (settle_delivery i w)) = books_of w"
proof -
  have c: "credit_ok h w" using assms(1) by (simp add: world_ok_def)
  note one = settle_one [OF c assms(2)]
  show "fst (settle_delivery i w) = Inr ()" "books_of (snd (settle_delivery i w)) = books_of w"
    "fw_deliveries (snd (settle_delivery i w)) = settled dl_sent [i] (fw_deliveries w)" using one by simp_all
  show "world_ok (snd (settle_delivery i w), h)" using one settled_sub shrunk_ok [OF assms(1)] by simp
qed

lemma wf_ids: "world_ok (w, h) \<Longrightarrow> dict_wf (fw_deliveries w)"
  using wf_deliveries by (simp add: world_ok_def) blast

text \<open>The ids that the acknowledgements settle are ids of the ledger, each once.\<close>

lemma acked_ids:
  assumes "world_ok (w, h)"
  shows "distinct (takeWhile P (map fst (fw_deliveries w)))"
    "set (takeWhile P (map fst (fw_deliveries w))) \<subseteq> fst ` set (fw_deliveries w)"
    "distinct (map fst (filter Q (fw_deliveries w)))" "set (map fst (filter Q (fw_deliveries w))) \<subseteq> fst ` set (fw_deliveries w)"
    "distinct (map fst (filter Q (takeWhile R (fw_deliveries w))))"
    "set (map fst (filter Q (takeWhile R (fw_deliveries w)))) \<subseteq> fst ` set (fw_deliveries w)"
proof -
  note wf = wf_ids [OF assms]
  show "distinct (takeWhile P (map fst (fw_deliveries w)))" using wf by (rule distinct_takeWhile)
  show "set (takeWhile P (map fst (fw_deliveries w))) \<subseteq> fst ` set (fw_deliveries w)"
    by (auto dest: set_takeWhileD)
  show "distinct (map fst (filter Q (fw_deliveries w)))" using wf by (rule distinct_map_filter)
  show "distinct (map fst (filter Q (takeWhile R (fw_deliveries w))))"
    using wf by (intro distinct_map_filter) (auto simp: distinct_map distinct_takeWhile dest!: set_takeWhileD intro: inj_on_subset)
qed (auto dest: set_takeWhileD)

lemma resize_window:
  assumes "window_ok w" "delivery_of i w = Some d" "dl_recovery d" "dl_recovery d'"
  shows "window_ok (put_delivery i d' w)"
proof -
  have m: "map_of es i = Some d \<Longrightarrow> map fst (AList.update i d' es) = map fst es
      \<and> ordinary_of (AList.update i d' es) = ordinary_of es
      \<and> length (filter (\<lambda>e. dl_recovery (snd e)) (AList.update i d' es)) = length (filter (\<lambda>e. dl_recovery (snd e)) es)" for es
    using assms(3,4) by (induction es) (auto simp: ordinary_of_def split: if_splits)
  have "fst ` set (AList.update i d' (fw_deliveries w)) = fst ` set (fw_deliveries w)"
    using m [OF assms(2) [unfolded delivery_of_def]] by (metis list.set_map)
  then show ?thesis using assms(1) m [OF assms(2) [unfolded delivery_of_def]]
    by (simp add: window_ok_def put_delivery_def)
qed

lemma claim_ok: "world_ok (w, h) \<Longrightarrow> world_ok (snd (claim_delivery i p w), h)"
  by (auto simp: claim_delivery_def intro: put_ok split: option.split)

lemma reserve_window: "window_ok w \<Longrightarrow> window_ok (snd (reserve_bytes n kind w))"
  by (rule window_same) (simp_all add: ledger_reserve)

lemma delivery_cong: "fw_deliveries w' = fw_deliveries w \<Longrightarrow> delivery_of i w' = delivery_of i w"
  by (simp add: delivery_of_def)

lemma add_back: "add_to k (- n) (add_to k n h) = h" "add_to k n (add_to k (- n) h) = h" "add_to k 0 h = h"
  by (rule ext, simp)+

lemma sizes_pos: "world_ok (w, h) \<Longrightarrow> delivery_of i w = Some d \<Longrightarrow> 0 < dl_size d"
  using map_of_SomeD [of "ledger_of w" i] by (force simp: world_ok_def credit_ok_def ledger_map)

lemma held_nonneg: "world_ok (w, h) \<Longrightarrow> \<forall>k. 0 \<le> h k"
  by (simp add: world_ok_def credit_ok_def)

lemma put_self: "delivery_of i w = Some d \<Longrightarrow> put_delivery i d w = w"
  using update_self [of "fw_deliveries w" i d] by (simp add: put_delivery_def delivery_of_def)

lemma recovery_kind: "link_kind KRecovery w = piece_kind (ln_recovery w) True"
  by (simp add: link_kind_def piece_kind_def)

text \<open>A piece grows by bytes that were just reserved, and shrinks again when it may not be published.\<close>

lemma grown_ok:
  assumes "world_ok (w, h)" "delivery_of i w = Some d" "dl_recovery d" "0 < extra"
    and res: "reserve_bytes extra KRecovery w = (Inr True, w1)"
  shows "world_ok (put_delivery i (d\<lparr>dl_size := dl_size d + extra\<rparr>) w1, h)"
proof -
  let ?k = "link_kind KRecovery w" and ?d = "d\<lparr>dl_size := dl_size d + extra\<rparr>"
  have w1: "fw_deliveries w1 = fw_deliveries w" "books_of w1 = books_of w" "ln_recovery w1 = ln_recovery w"
    using ledger_reserve [of extra KRecovery w] res by simp_all
  have d1: "delivery_of i w1 = Some d" using delivery_cong [OF w1(1)] assms(2) by simp
  have k: "?k = piece_kind (ln_recovery w1) True" by (simp add: w1(3) recovery_kind)
  have c1: "credit_ok (add_to ?k extra h) w1" using reserve_credit [OF _ res] assms(1) by (simp add: world_ok_def)
  have win1: "window_ok w1" using window_same [OF _ w1(1,2)] assms(1) by (simp add: world_ok_def)
  have "credit_ok (add_to ?k (old_size i w1 - dl_size ?d) (add_to ?k extra h)) (put_delivery i ?d w1)"
    by (rule put_credit [OF c1])
      (use sizes_pos [OF assms(1,2)] held_nonneg [OF assms(1)] assms(3,4) d1 k in \<open>auto simp: old_size_def\<close>)
  then show ?thesis
    using resize_window [OF win1 d1 assms(3), of ?d] assms(3) add_back(1) [of h ?k extra]
    by (simp add: world_ok_def old_size_def d1)
qed

lemma shrunk_back_ok:
  assumes ok: "world_ok (w, h)" and d: "delivery_of i w = Some (d\<lparr>dl_size := dl_size d + extra\<rparr>)"
    and "dl_recovery d" "0 < extra" "0 < dl_size d"
  shows "fst (release_bytes extra KRecovery (put_delivery i d w)) = Inr ()"
    "world_ok (snd (release_bytes extra KRecovery (put_delivery i d w)), h)"
proof -
  let ?w = "put_delivery i d w"
  have "credit_ok (add_to (link_kind KRecovery w) (old_size i w - dl_size d) h) ?w"
    by (rule put_credit)
      (use ok assms held_nonneg [OF ok] in \<open>auto simp: old_size_def world_ok_def recovery_kind\<close>)
  then have c: "credit_ok (add_to (link_kind KRecovery ?w) extra h) ?w"
    using d by (simp add: old_size_def recovery_kind)
  have "window_ok ?w" using ok resize_window [OF _ d] assms(3) by (simp add: world_ok_def)
  then have "window_ok (snd (release_bytes extra KRecovery ?w))"
    by (rule window_same) (rule release_bytes_fields)+
  then show "world_ok (snd (release_bytes extra KRecovery ?w), h)"
    using release_credit_of(2) [OF c _ held_nonneg [OF ok]] assms(4) by (simp add: world_ok_def)
  show "fst (release_bytes extra KRecovery ?w) = Inr ()"
    using release_credit_of(1) [OF c _ held_nonneg [OF ok]] assms(4) by simp
qed

lemma publish_ok:
  assumes ok: "world_ok (w, h)"
  shows "world_ok (snd (publish_snapshot i bytes w), h) \<and> fst (publish_snapshot i bytes w) \<in> range Inr"
proof (cases "delivery_of i w")
  case None
  then show ?thesis using ok by (simp add: publish_snapshot_def)
next
  case (Some d)
  define extra where "extra = max 0 (bytes - dl_size d)"
  let ?grown = "d\<lparr>dl_size := dl_size d + extra\<rparr>"
  have plain: "world_ok (snd (claim_delivery i Original u), h)" "world_ok (u, h)" if "world_ok (u, h)" for u
    using that claim_ok by simp_all
  have unclaimed: "claim_delivery i Original u = (False, u)" if "\<not> fst (claim_delivery i Original u)" for u
    using that by (auto simp: claim_delivery_def split: option.splits if_splits)
  consider "\<not> dl_recovery d" | "dl_recovery d" "extra = 0" | "dl_recovery d" "0 < extra"
    unfolding extra_def by linarith
  then show ?thesis
  proof cases
    case 1
    then show ?thesis using ok by (simp add: publish_snapshot_def Some)
  next
    case 2
    have "put_delivery i ?grown w = w" using 2 put_self [OF Some] by simp
    then have "publish_snapshot i bytes w \<in> {Inr Published, Inr Suppressed} \<times> {w, snd (claim_delivery i Original w)}"
      using 2 by (simp add: publish_snapshot_def Some Let_def flip: extra_def) (simp split: bool.split prod.split)
    then show ?thesis using plain [OF ok] by auto
  next
    case 3
    obtain r w1 where res: "reserve_bytes extra KRecovery w = (r, w1)" by fastforce
    have "r \<in> {Inr True, Inr False}" using reserve_never_raises [of extra KRecovery w] 3 res by simp
    then consider "r = Inr False" "w1 = w" | "r = Inr True" using reserve_refused [OF res] by auto
    then show ?thesis
    proof cases
      case 1
      then show ?thesis using ok 3 res by (simp add: publish_snapshot_def Some Let_def flip: extra_def)
    next
      case 2
      let ?w2 = "put_delivery i ?grown w1"
      have ok2: "world_ok (?w2, h)" using grown_ok [OF ok Some 3] res 2 by simp
      have d2: "delivery_of i ?w2 = Some ?grown" by (simp add: delivery_of_def put_delivery_def)
      note undone = shrunk_back_ok [OF ok2 d2 3 sizes_pos [OF ok Some]]
      have "publish_snapshot i bytes w \<in> {Inr Published, Inr Suppressed} \<times>
          {?w2, snd (claim_delivery i Original ?w2), snd (release_bytes extra KRecovery (put_delivery i d ?w2))}"
        using 3 res 2 unclaimed [of ?w2] undone(1)
        by (simp add: publish_snapshot_def Some Let_def flip: extra_def)
          (auto split: bool.splits prod.splits)
      then show ?thesis using plain [OF ok2] undone(2) by auto
    qed
  qed
qed

lemma sent_ok_step:
  assumes "world_ok (w, h)" "delivery_of i w = Some d" "dl_size d' = dl_size d" "dl_recovery d' = dl_recovery d"
  shows "world_ok (snd (release_delivery i (put_delivery i d' w)), h)"
proof -
  have "delivery_of i (put_delivery i d' w) = Some d'" by (simp add: delivery_of_def put_delivery_def)
  then show ?thesis using release_ok(2) [OF put_ok [OF assms]] by simp
qed

lemma stage_ok: "world_ok (w, h) \<Longrightarrow> world_ok (snd (stage_delivery e v w), h)"
proof -
  assume ok: "world_ok (w, h)"
  have "world_ok (w\<lparr>fw_staged_id := n\<rparr>, h)" for n by (rule same_ok [OF ok]) simp_all
  moreover have "delivery_of i (w\<lparr>fw_staged_id := n\<rparr>) = delivery_of i w" for i n by (simp add: delivery_of_def)
  ultimately show ?thesis using ok settle_one_ok(2)
    by (auto simp: stage_delivery_def try_res_def split: sum.split option.split)
qed

text \<open>The acknowledgements: what is settled, then a field of the books.\<close>

lemma settled_then:
  assumes "world_ok (w, h)" "distinct is" "set is \<subseteq> fst ` set (fw_deliveries w)"
    and "\<And>u. world_ok (u, h) \<Longrightarrow> world_ok (g u, h)"
  shows "world_ok (snd (case settle_all is w of (Inl e, w1) \<Rightarrow> (Inl e, w1) | (Inr x, w1) \<Rightarrow> (Inr (), g w1)), h)"
proof -
  obtain r w1 where s: "settle_all is w = (r, w1)" by fastforce
  note settle = settle_ok [OF assms(1-3), unfolded s fst_conv snd_conv]
  show ?thesis using settle(2) assms(4) by (simp add: s settle(1))
qed

lemma ack_ok: "world_ok (w, h) \<Longrightarrow> world_ok (snd (acknowledge e v w), h)"
proof -
  assume ok: "world_ok (w, h)"
  have step: "world_ok (u, h) \<Longrightarrow> world_ok (u\<lparr>fw_ack_id := n\<rparr>, h)" for u n by (erule same_ok) simp_all
  show ?thesis
    unfolding acknowledge_def using ok
    by (auto simp: try_res_def split: sum.split intro!: settled_then [OF ok acked_ids(1,2) [OF ok]] step)
qed

lemma ack_lane_ok: "world_ok (w, h) \<Longrightarrow> world_ok (snd (acknowledge_lane e lane v w), h)"
proof -
  assume ok: "world_ok (w, h)"
  show ?thesis
    unfolding acknowledge_lane_def using ok
    by (auto simp: try_res_def split: sum.split intro!: settled_then [OF ok acked_ids(3,4) [OF ok]] lanes_ok)
qed

lemma ack_delivery_ok: "world_ok (w, h) \<Longrightarrow> world_ok (snd (acknowledge_lane_delivery e lane v le w), h)"
proof -
  assume ok: "world_ok (w, h)"
  show ?thesis
    unfolding acknowledge_lane_delivery_def using ok
    by (auto simp: try_res_def Let_def split: sum.split intro!: settled_then [OF ok acked_ids(5,6) [OF ok]] lanes_ok)
qed

lemma confirm_ok: "world_ok (w, h) \<Longrightarrow> world_ok (snd (confirm_retire e lane token final le w), h)"
proof -
  assume ok: "world_ok (w, h)"
  show ?thesis
    unfolding confirm_retire_def using ok
    by (auto simp: try_res_def Let_def split: sum.split intro!: settled_then [OF ok acked_ids(3,4) [OF ok]] lanes_ok)
qed

lemma flag_ok: "world_ok (w, h) \<Longrightarrow>
    world_ok (w\<lparr>fw_lanes := b, fw_deliveries := map (\<lambda>(i, d). (i, if P d then d\<lparr>dl_retired_unsent := True\<rparr> else d)) (fw_deliveries w)\<rparr>, h)"
  by (erule same_ok) (auto simp: same_link_def ledger_of_def split_beta)

lemma retire_ok: "world_ok (w, h) \<Longrightarrow> world_ok (snd (retire_lane fresh e lane token final le w), h)"
  by (auto simp: retire_lane_def guarded_def Let_def lanes_ok flag_ok split: option.split)

lemma register_ok: "world_ok (w, h) \<Longrightarrow> world_ok (snd (register_lane_epoch lane e w), h)"
  by (auto simp: register_lane_epoch_def guarded_def Let_def lanes_ok split: option.split)

lemma dirty_ok:
  assumes "world_ok (w, h)"
  shows "world_ok (snd (mark_global_dirty renew w), h)" "world_ok (snd (mark_dirty k g n w), h)"
proof -
  have "world_ok (w\<lparr>fw_dirty := a, fw_dirty_tokens := b, fw_objects := c\<rparr>, h)" for a b c
    by (rule same_ok [OF assms]) (simp_all add: same_link_def ledger_of_def)
  moreover show "world_ok (snd (mark_global_dirty renew w), h)" for renew
    by (rule same_ok [OF assms]) (simp_all add: mark_global_dirty_def Let_def same_link_def ledger_of_def)
  ultimately show "world_ok (snd (mark_dirty k g n w), h)"
    by (simp add: mark_dirty_def Let_def split: option.split)
qed

lemma close_ok:
  assumes ok: "world_ok (w, h)"
  shows "fst (close_window w) = Inr ()" "world_ok (snd (close_window w), h)"
    "fw_deliveries (snd (close_window w)) = settled write_done (map fst (fw_deliveries w)) (fw_deliveries w)"
    "fw_closed (snd (close_window w))"
proof -
  let ?w = "w\<lparr>fw_closed := True\<rparr>"
  have ok1: "world_ok (?w, h)" by (rule same_ok [OF ok]) simp_all
  have c: "credit_ok h ?w" using ok1 by (simp add: world_ok_def)
  obtain r w1 where cl: "close_each (map fst (fw_deliveries w)) ?w = (r, w1)" by fastforce
  note each = close_each_ok [OF c wf_ids [OF ok1], unfolded flow.simps cl fst_conv snd_conv]
  have e: "r = Inr ()" "credit_ok h w1" "books_of w1 = books_of ?w"
    "fw_deliveries w1 = settled write_done (map fst (fw_deliveries w)) (fw_deliveries w)" using each cl by simp_all
  have "world_ok (w1, h)"
    using shrunk_ok [OF ok1 e(2)] e settled_sub by simp
  then have "world_ok (w1\<lparr>fw_dirty := [], fw_dirty_tokens := [], fw_lanes := no_lanes\<rparr>, h)"
    by (rule same_ok) (simp_all add: same_link_def ledger_of_def)
  then show "fst (close_window w) = Inr ()" "world_ok (snd (close_window w), h)"
    "fw_deliveries (snd (close_window w)) = settled write_done (map fst (fw_deliveries w)) (fw_deliveries w)"
    "fw_closed (snd (close_window w))"
    using e by (simp_all add: close_window_def cl books_of_def)
qed

lemma discard_keeps: "world_ok (w, h) \<Longrightarrow> world_ok (snd (discard_retired_queued i w), h)"
proof (cases "delivery_of i w")
  case (Some d)
  assume ok: "world_ok (w, h)"
  have "snd (discard_retired_queued i w) \<in> {w, snd (release_delivery i w)}"
    by (simp add: discard_retired_queued_def Some guarded_def split: prod.split)
  then show ?thesis using ok release_ok(2) [OF ok Some] by auto
qed (simp add: discard_retired_queued_def)

lemma write_ok:
  assumes "world_ok (w, h)"
  shows "world_ok (snd (mark_sending i w), h)" "world_ok (snd (mark_sent i w), h)"
    "world_ok (snd (mark_send_finished i w), h)"
  using assms put_ok [OF assms] sent_ok_step [OF assms]
  by (simp_all add: mark_sending_def mark_sent_def mark_send_finished_def Let_def split: option.split)

lemma outcome_snd [simp]: "snd (outcome x) = snd x"
  by (simp add: outcome_def)

lemma flow_result_ok:
  assumes "world_ok (w, h)" "\<forall>x. a \<noteq> FAdmit x"
  shows "world_ok (snd (flow_result a w), h)"
  using assms
  by (cases a) (simp_all add: claim_ok publish_ok stage_ok ack_ok ack_lane_ok ack_delivery_ok confirm_ok
      retire_ok register_ok dirty_ok close_ok(2) discard_keeps write_ok lanes_ok prune_lanes_def Let_def)

lemma charge_ok:
  assumes ok: "world_ok (w, h)"
  shows "world_ok (world_step (Charge n kind) (w, h))"
proof -
  obtain r w1 where res: "reserve_bytes n kind w = (r, w1)" by fastforce
  have w1: "fw_deliveries w1 = fw_deliveries w" "books_of w1 = books_of w"
    using ledger_reserve [of n kind w] res by simp_all
  have win: "window_ok w1" using window_same [OF _ w1] ok by (simp add: world_ok_def)
  show ?thesis
  proof (cases "r = Inr True")
    case True
    then show ?thesis using reserve_credit [OF _ res [unfolded True]] ok win res by (simp add: world_ok_def)
  next
    case False
    then have "w1 = w" using reserve_refused [OF res] by simp
    then show ?thesis using ok res False by (auto split: sum.split bool.split)
  qed
qed

lemma refund_ok:
  assumes ok: "world_ok (w, h)"
  shows "world_ok (world_step (Refund n kind) (w, h))"
proof (cases "0 \<le> n \<and> n \<le> h (link_kind kind w)")
  case True
  let ?k = "link_kind kind w"
  have c: "credit_ok (add_to ?k n (add_to ?k (- n) h)) w" using ok by (simp add: world_ok_def add_back)
  have "\<forall>k. 0 \<le> (add_to ?k (- n) h) k" using True held_nonneg [OF ok] by simp
  then have "credit_ok (add_to ?k (- n) h) (snd (release_bytes n kind w))"
    using release_credit_of(2) [OF c] True by blast
  moreover have "window_ok w" using ok by (simp add: world_ok_def)
  then have "window_ok (snd (release_bytes n kind w))" by (rule window_same) (rule release_bytes_fields)+
  ultimately show ?thesis using True by (simp add: world_ok_def)
qed (use ok in auto)

lemma elsewhere_ok:
  assumes "world_ok (w, h)"
  shows "world_ok (world_step (Elsewhere b) (w, h))"
proof -
  have every: "list_all P all_kinds \<longleftrightarrow> (\<forall>kind. P kind)" for P
  proof -
    have "(\<forall>kind. P kind) = (P KNone \<and> P KBulk \<and> P KRecovery \<and> P KControl)" by (metis budget_kind.exhaust)
    then show ?thesis by (simp add: all_kinds_def)
  qed
  have "window_ok (w\<lparr>ln_shared := b\<rparr>) = window_ok w" by (simp add: window_ok_def)
  then show ?thesis using assms by (auto simp: world_ok_def credit_ok_def every ledger_of_def)
qed

lemma closing_ok: "world_ok (w, h) \<Longrightarrow> world_ok (world_step Closing (w, h))"
  by (simp add: world_ok_def credit_ok_def window_ok_def ledger_of_def)

lemma world_step_ok: "world_ok c \<Longrightarrow> world_ok (world_step a c)"
proof (cases c)
  case (Pair w h)
  assume "world_ok c"
  then have ok: "world_ok (w, h)" by (simp add: Pair)
  show ?thesis
  proof (cases a)
    case (Window x)
    then show ?thesis using ok admit_ok [OF ok] flow_result_ok [OF ok, of x] by (cases x) (simp_all add: Pair)
  qed (use ok charge_ok refund_ok elsewhere_ok closing_ok Pair in \<open>simp_all del: world_step.simps\<close>)
qed

end
