(* ===== verification/Flow_Claims.thy ===== *)
theory Flow_Claims
  imports Flow_World
begin

text \<open>
  The properties of the flow window and its budgets: no byte is lost or given back twice, the limits hold,
  credit comes back only after the bytes are written, frames of control always find room, and which batches
  of acknowledgements are all or nothing.
\<close>

section \<open>Credit is conserved\<close>

text \<open>A connection before its window is enabled, with what its parts hold.\<close>

definition link_ok :: "holdings \<Rightarrow> link \<Rightarrow> bool" where
  "link_ok h l \<longleftrightarrow>
     (\<forall>kind. 0 \<le> h kind) \<and> ln_bytes l = all_of h
     \<and> (ln_recovery l \<longrightarrow> (\<forall>kind. kind \<noteq> KNone \<longrightarrow> ln_kinds l kind = h kind))
     \<and> (\<forall>kind. h kind \<le> bu_kinds (ln_shared l) kind)"

lemma enable_fields:
  "ln_bytes (enable_flow e rl lm ll l) = ln_bytes l" "ln_kinds (enable_flow e rl lm ll l) = ln_kinds l"
  "ln_recovery (enable_flow e rl lm ll l) = ln_recovery l" "ln_shared (enable_flow e rl lm ll l) = ln_shared l"
  "fw_deliveries (enable_flow e rl lm ll l) = []" "fw_next_id (enable_flow e rl lm ll l) = 1"
  "fw_recovery_limit (enable_flow e rl lm ll l) = min recovery_window_frames (max 1 rl)"
  "fw_staged (enable_flow e rl lm ll l) = []" "fw_lanes (enable_flow e rl lm ll l) = no_lanes"
  "fw_lane_mode (enable_flow e rl lm ll l) = lm" "fw_epoch (enable_flow e rl lm ll l) = e"
  by (simp_all add: enable_flow_def link.defs flow.defs)

lemma enable_ok: "link_ok h l \<Longrightarrow> world_ok (enable_flow e rl lm ll l, h)"
  by (simp add: world_ok_def credit_ok_def window_ok_def ledger_of_def enable_fields link_ok_def charge_def
      ordinary_of_def)

lemma reachable_ok:
  assumes "link_ok h0 l" "flow_world.run ops (enable_flow e rl lm ll l, h0) = (w, h)"
  shows "world_ok (w, h)"
  using flow_world.run_invariant [of world_ok, OF enable_ok [OF assms(1)] world_step_ok] assms(2) by metis

definition release_errors :: "py_exc list" where
  "release_errors =
     [ValueError ''transport release exceeds connection reservation'',
      ValueError ''transport release exceeds its reservation'']"

definition kind_bytes :: "budget_kind \<Rightarrow> flow \<Rightarrow> int" where
  "kind_bytes kind w =
     sum_list (map dl_size (filter (\<lambda>d. link_kind (if dl_recovery d then KRecovery else KNone) w = kind) (values_of w)))"

lemma charge_values: "charge (ln_recovery w) kind (ledger_of w) = kind_bytes kind w"
proof -
  have "sum_list (map (\<lambda>(i, n, p). if piece_kind r p = kind then n else 0) (map (\<lambda>(i, d). (i, dl_size d, dl_recovery d)) es))
      = sum_list (map dl_size (filter (\<lambda>d. piece_kind r (dl_recovery d) = kind) (map snd es)))" for r es
    by (induction es) auto
  then show ?thesis by (simp add: charge_def kind_bytes_def ledger_of_def values_of_def kind_of_piece)
qed

lemma bytes_values: "sum_list (map (fst \<circ> snd) (ledger_of w)) = sum_list (map dl_size (values_of w))"
  by (simp add: ledger_of_def values_of_def comp_def split_beta)

section \<open>Which errors there are\<close>

lemma settled_error:
  assumes "world_ok (w, h)" "distinct is" "set is \<subseteq> fst ` set (fw_deliveries w)"
  shows "fst (case settle_all is w of (Inl e, w1) \<Rightarrow> (Inl e, w1) | (Inr x, w1) \<Rightarrow> (Inr (), g w1)) = Inr ()"
proof -
  obtain r w1 where s: "settle_all is w = (r, w1)" by fastforce
  show ?thesis using settle_ok(1) [OF assms] by (simp add: s)
qed

text \<open>An acknowledgement that is valid takes effect.\<close>

lemma ack_valid:
  assumes "world_ok (w, h)"
  shows "fst (acknowledge e v w) = map_sum id (\<lambda>_. ()) (validate_ack e v w)"
  by (cases "validate_ack e v w")
     (auto simp: acknowledge_def try_res_def intro!: settled_error [OF assms acked_ids(1,2) [OF assms]])

lemma lane_valid:
  assumes "world_ok (w, h)"
  shows "fst (acknowledge_lane e lane v w) = map_sum id (\<lambda>_. ()) (validate_lane_ack e lane v w)"
  by (cases "validate_lane_ack e lane v w")
     (auto simp: acknowledge_lane_def try_res_def intro!: settled_error [OF assms acked_ids(3,4) [OF assms]])

lemma delivery_valid:
  assumes "world_ok (w, h)"
  shows "fst (acknowledge_lane_delivery e lane v le w) = map_sum id (\<lambda>_. ()) (validate_lane_delivery e lane v le w)"
  by (cases "validate_lane_delivery e lane v le w")
     (auto simp: acknowledge_lane_delivery_def try_res_def Let_def
       intro!: settled_error [OF assms acked_ids(5,6) [OF assms]])

lemma retire_valid:
  assumes "world_ok (w, h)"
  shows "fst (confirm_retire e lane token final le w) = validate_retire e lane token final le w"
  by (cases "validate_retire e lane token final le w")
     (auto simp: confirm_retire_def try_res_def Let_def intro!: settled_error [OF assms acked_ids(3,4) [OF assms]])

lemma stage_valid:
  assumes "world_ok (w, h)"
  shows "fst (stage_delivery e v w) = map_sum id (\<lambda>_. ()) (validate_stage e v w)"
proof (cases "validate_stage e v w")
  case (Inr i)
  let ?w = "w\<lparr>fw_staged_id := max (fw_staged_id w) i\<rparr>"
  have "world_ok (?w, h)" by (rule same_ok [OF assms]) simp_all
  moreover have "delivery_of i ?w = delivery_of i w" by (simp add: delivery_of_def)
  ultimately show ?thesis using settle_one_ok(1)
    by (auto simp: stage_delivery_def try_res_def Inr split: option.split)
qed (simp add: stage_delivery_def try_res_def)

definition raises_release :: "py_exc option \<Rightarrow> bool" where
  "raises_release x \<longleftrightarrow> (case x of Some e \<Rightarrow> e \<in> set release_errors | None \<Rightarrow> False)"

lemma validators_quiet:
  "validate_ack e v w = Inl x \<Longrightarrow> x \<notin> set release_errors"
  "validate_stage e v w = Inl x \<Longrightarrow> x \<notin> set release_errors"
  "validate_lane_ack e lane v w = Inl x \<Longrightarrow> x \<notin> set release_errors"
  "validate_lane_delivery e lane v le w = Inl x \<Longrightarrow> x \<notin> set release_errors"
  "validate_retire e lane token final le w = Inl x \<Longrightarrow> x \<notin> set release_errors"
  by (auto simp: validate_ack_def validate_stage_def validate_lane_ack_def validate_lane_delivery_def validate_retire_def
      checked_def release_errors_def not_current_def includes_unsent_def Let_def split: option.splits if_splits)

lemma quiet_valid: "\<not> raises_release (fst (outcome x))"
  if "fst x = map_sum id (\<lambda>_. ()) r" "\<And>e. r = Inl e \<Longrightarrow> e \<notin> set release_errors"
  using that by (cases r) (auto simp: outcome_def raises_release_def)

lemma admit_quiet: "fst (admit_delivery a w) \<in> range Inr"
proof -
  obtain r w' where adm: "admit_delivery a w = (r, w')" by fastforce
  then show ?thesis by (cases rule: admit_cases) (simp_all add: adm)
qed

lemma write_quiet:
  assumes "world_ok (w, h)"
  shows "fst (mark_sending i w) \<in> {Inr (), Inl (missing_delivery i)}" "fst (mark_sent i w) \<in> {Inr (), Inl (missing_delivery i)}"
    "fst (mark_send_finished i w) = Inr ()"
    "fst (discard_retired_queued i w) \<in> {Inr True, Inr False, Inl (missing_delivery i),
       Inl (ValueError ''Retired queued delivery has already started sending'')}"
proof -
  have there: "fst (release_delivery i (put_delivery i d' w)) = Inr ()"
    if "delivery_of i w = Some d" "dl_size d' = dl_size d" "dl_recovery d' = dl_recovery d" for d d'
    by (rule release_ok(1) [OF put_ok [OF assms that]]) (simp add: delivery_of_def put_delivery_def)
  show "fst (mark_sending i w) \<in> {Inr (), Inl (missing_delivery i)}" "fst (mark_sent i w) \<in> {Inr (), Inl (missing_delivery i)}"
    "fst (mark_send_finished i w) = Inr ()"
    using there by (auto simp: mark_sending_def mark_sent_def mark_send_finished_def Let_def split: option.split)
  show "fst (discard_retired_queued i w) \<in> {Inr True, Inr False, Inl (missing_delivery i),
       Inl (ValueError ''Retired queued delivery has already started sending'')}"
    using release_ok(1) [OF assms]
    by (auto simp: discard_retired_queued_def guarded_def split: option.split prod.split) (metis fst_conv map_sum.simps(2))
qed

lemma no_release_error:
  assumes ok: "world_ok (w, h)"
  shows "\<not> raises_release (fst (flow_result a w))"
proof (cases a)
  case (FAdmit x)
  then show ?thesis using admit_quiet [of x w] by (auto simp: outcome_def raises_release_def)
next
  case (FPublish i n)
  then show ?thesis using publish_ok [OF ok, of i n] by (auto simp: outcome_def raises_release_def)
next
  case (FStage e v)
  then show ?thesis using quiet_valid [OF stage_valid [OF ok] validators_quiet(2)] by simp
next
  case (FAck e v)
  then show ?thesis using quiet_valid [OF ack_valid [OF ok] validators_quiet(1)] by simp
next
  case (FAckLane e lane v)
  then show ?thesis using quiet_valid [OF lane_valid [OF ok] validators_quiet(3)] by simp
next
  case (FAckDelivery e lane v le)
  then show ?thesis using quiet_valid [OF delivery_valid [OF ok] validators_quiet(4)] by simp
next
  case (FConfirm e lane token final le)
  have "\<not> raises_release (fst (outcome (confirm_retire e lane token final le w)))"
    using retire_valid [OF ok, of e lane token final le] validators_quiet(5) [of e lane token final le w]
    by (auto simp: outcome_def raises_release_def split: sum.split)
  then show ?thesis by (simp add: FConfirm)
next
  case (FRetire fresh e lane token final le)
  have "\<not> raises_release (fst (outcome (retire_lane fresh e lane token final le w)))"
    by (simp add: retire_lane_def guarded_def Let_def outcome_def raises_release_def release_errors_def not_current_def
        split: option.split json.split sum.split)
  then show ?thesis by (simp add: FRetire)
next
  case (FRegister lane e)
  have "\<not> raises_release (fst (outcome (register_lane_epoch lane e w)))"
    by (simp add: register_lane_epoch_def guarded_def Let_def outcome_def raises_release_def release_errors_def
        split: option.split sum.split)
  then show ?thesis by (simp add: FRegister)
next
  case FClose
  then show ?thesis using close_ok(1) [OF ok] by (simp add: outcome_def raises_release_def)
next
  case (FSending i)
  then show ?thesis using write_quiet(1) [OF ok, of i] by (auto simp: outcome_def raises_release_def release_errors_def missing_delivery_def)
next
  case (FSent i)
  then show ?thesis using write_quiet(2) [OF ok, of i] by (auto simp: outcome_def raises_release_def release_errors_def missing_delivery_def)
next
  case (FFinished i)
  then show ?thesis using write_quiet(3) [OF ok, of i] by (auto simp: outcome_def raises_release_def)
next
  case (FDiscard i)
  then show ?thesis using write_quiet(4) [OF ok, of i] by (auto simp: outcome_def raises_release_def release_errors_def missing_delivery_def)
qed (auto simp: raises_release_def)


section \<open>When a delivery leaves the window\<close>

text \<open>What must hold of a delivery for an operation to take it out of the window, and give its bytes back.\<close>

definition up_to :: "int \<Rightarrow> json \<Rightarrow> (int \<Rightarrow> bool) \<Rightarrow> bool" where
  "up_to low v P = (case int_from low v of Some n \<Rightarrow> P n | None \<Rightarrow> False)"

primrec may_leave :: "flow_op \<Rightarrow> flow \<Rightarrow> int \<Rightarrow> delivery \<Rightarrow> bool" where
  "may_leave (FAdmit a) w i d = False"
| "may_leave (FRegister lane e) w i d = False"
| "may_leave (FClaim j p) w i d = False"
| "may_leave (FPublish j n) w i d = False"
| "may_leave (FSending j) w i d = False"
| "may_leave (FDiscard j) w i d = (i = j \<and> dl_retired_unsent d \<and> unsent d)"
| "may_leave (FSent j) w i d = (i = j \<and> dl_acked d)"
| "may_leave (FFinished j) w i d = (i = j \<and> (fw_closed w \<or> dl_acked d))"
| "may_leave (FStage e v) w i d = (e = fw_epoch w \<and> up_to 1 v (\<lambda>n. i = n) \<and> dl_recovery d \<and> dl_sent d)"
| "may_leave (FAck e v) w i d =
     (e = fw_epoch w \<and> dl_sent d
      \<and> up_to 0 v (\<lambda>n. i \<le> n \<and> list_all (\<lambda>(j, x). j \<le> n \<longrightarrow> \<not> unsent x) (fw_deliveries w)))"
| "may_leave (FAckLane e lane v) w i d =
     (e = fw_epoch w \<and> dl_sent d \<and> up_to 0 v (\<lambda>n. in_sequence lane n d) \<and> dl_epoch d = lane_epoch_of lane w)"
| "may_leave (FAckDelivery e lane v le) w i d =
     (e = fw_epoch w \<and> dl_sent d \<and> up_to 0 v (\<lambda>n. i \<le> n)
      \<and> dl_lane d = Some lane \<and> dl_epoch d = lane_epoch_of lane w)"
| "may_leave (FRetire fresh e lane token final le) w i d = False"
| "may_leave (FConfirm e lane token final le) w i d =
     (e = fw_epoch w \<and> dl_sent d \<and> dl_lane d = Some lane \<and> dl_epoch d = meant_epoch lane le w
      \<and> map_of (lb_epoch_tokens (fw_lanes w)) (lane, dl_epoch d) = token
      \<and> map_of (lb_epoch_states (fw_lanes w)) (lane, dl_epoch d) = Some LaneRetired)"
| "may_leave FPrune w i d = False"
| "may_leave (FDirty k g n) w i d = False"
| "may_leave (FGlobalDirty renew) w i d = False"
| "may_leave FClose w i d = write_done d"

lemma not_settled: "(i, d) \<in> set es \<Longrightarrow> map_of (settled gone is es) i = None \<Longrightarrow> i \<in> set is \<and> gone d"
proof (rule ccontr)
  assume there: "(i, d) \<in> set es" and "map_of (settled gone is es) i = None" "\<not> (i \<in> set is \<and> gone d)"
  then have "(i, if i \<in> set is then d\<lparr>dl_acked := True\<rparr> else d) \<in> set (settled gone is es)"
    unfolding settled_iff by auto
  then show False using \<open>map_of (settled gone is es) i = None\<close> by (auto simp: map_of_eq_None_iff rev_image_eqI)
qed

lemma delivery_in: "delivery_of i w = Some d \<Longrightarrow> (i, d) \<in> set (fw_deliveries w)"
  by (simp add: delivery_of_def map_of_SomeD)

lemma in_delivery: "world_ok (w, h) \<Longrightarrow> (i, d) \<in> set (fw_deliveries w) \<Longrightarrow> delivery_of i w = Some d"
  using wf_ids by (simp add: delivery_of_def)

lemma gone_settled:
  assumes "world_ok (w, h)" "distinct is" "set is \<subseteq> fst ` set (fw_deliveries w)" "delivery_of i w = Some d"
    and "delivery_of i (snd (case settle_all is w of (Inl e, w1) \<Rightarrow> (Inl e, w1) | (Inr x, w1) \<Rightarrow> (Inr (), g w1))) = None"
    and "\<And>u. fw_deliveries (g u) = fw_deliveries u"
  shows "i \<in> set is \<and> dl_sent d"
proof -
  obtain r w1 where s: "settle_all is w = (r, w1)" by fastforce
  have w1: "r = Inr ()" "fw_deliveries w1 = settled dl_sent is (fw_deliveries w)"
    using settle_ok [OF assms(1-3)] by (simp_all add: s)
  then have "map_of (settled dl_sent is (fw_deliveries w)) i = None"
    using assms(5,6) by (simp add: s delivery_of_def)
  then show ?thesis using not_settled delivery_in [OF assms(4)] by metis
qed

lemma put_delivery_of: "delivery_of i (put_delivery j d w) = (if i = j then Some d else delivery_of i w)"
  by (simp add: delivery_of_def put_delivery_def)

lemma delete_delivery_of:
  "world_ok (w, h) \<Longrightarrow> delivery_of j w \<noteq> None \<Longrightarrow>
    delivery_of i (snd (release_delivery j w)) = (if i = j then None else delivery_of i w)"
proof -
  assume ok: "world_ok (w, h)" and "delivery_of j w \<noteq> None"
  then obtain d where d: "delivery_of j w = Some d" by blast
  have "credit_ok h w" using ok by (simp add: world_ok_def)
  from release_credit(3) [OF this d] show ?thesis by (simp add: delivery_of_def map_of_delete)
qed

lemma fields_delivery_of [simp]:
  "delivery_of i (w\<lparr>fw_lanes := b\<rparr>) = delivery_of i w" "delivery_of i (w\<lparr>fw_ack_id := n\<rparr>) = delivery_of i w"
  "delivery_of i (w\<lparr>fw_staged_id := n\<rparr>) = delivery_of i w"
  by (simp_all add: delivery_of_def)

lemma kept_ops:
  assumes "world_ok (w, h)" "delivery_of i w = Some d"
  shows "delivery_of i (snd (admit_delivery x w)) \<noteq> None"
    "delivery_of i (snd (claim_delivery j p w)) \<noteq> None" "delivery_of i (snd (mark_sending j w)) \<noteq> None"
    "delivery_of i (snd (publish_snapshot j n w)) \<noteq> None"
proof -
  have res: "delivery_of k (snd (reserve_bytes n kind u)) = delivery_of k u"
    "delivery_of k (snd (release_bytes n kind u)) = delivery_of k u" for n kind u k
    by (simp_all add: delivery_of_def ledger_reserve release_bytes_fields)
  show "delivery_of i (snd (claim_delivery j p w)) \<noteq> None" "delivery_of i (snd (mark_sending j w)) \<noteq> None"
    using assms(2) by (auto simp: claim_delivery_def mark_sending_def put_delivery_of split: option.split)
  have claim: "delivery_of k (snd (claim_delivery j p u)) = None \<longleftrightarrow> delivery_of k u = None" for u p k
    by (auto simp: claim_delivery_def put_delivery_of split: option.split)
  have put: "delivery_of i u \<noteq> None \<Longrightarrow> delivery_of i (put_delivery j x u) \<noteq> None" for j x u
    by (simp add: put_delivery_of)
  show "delivery_of i (snd (publish_snapshot j n w)) \<noteq> None"
    using assms(2) claim put_delivery_of
    by (simp add: publish_snapshot_def Let_def prod.case_eq_if res del: not_None_eq split: option.split sum.split bool.split)
  obtain r w' where adm: "admit_delivery x w = (r, w')" by fastforce
  then show "delivery_of i (snd (admit_delivery x w)) \<noteq> None"
  proof (cases rule: admit_cases)
    case (refused b why)
    then show ?thesis using assms(2) by (simp add: adm delivery_of_def)
  next
    case (admitted b w1 w2)
    have "delivery_of i w2 \<noteq> None" using assms(2) res(1) admitted(1,5) by (auto simp: delivery_of_def)
    then show ?thesis using admitted(7) put by (auto simp: adm enter_delivery_def Let_def delivery_of_def)
  qed
qed

lemma left_by_writing:
  assumes "world_ok (w, h)" "delivery_of i w = Some d"
  shows "delivery_of i (snd (mark_sent j w)) = None \<Longrightarrow> i = j \<and> dl_acked d"
    "delivery_of i (snd (mark_send_finished j w)) = None \<Longrightarrow> i = j \<and> (fw_closed w \<or> dl_acked d)"
    "delivery_of i (snd (discard_retired_queued j w)) = None \<Longrightarrow> i = j \<and> dl_retired_unsent d \<and> unsent d"
proof -
  have rel: "delivery_of i (snd (release_delivery j (put_delivery j x' w))) = (if i = j then None else Some d)"
    if "delivery_of j w = Some x" "dl_size x' = dl_size x" "dl_recovery x' = dl_recovery x" for x x'
    using delete_delivery_of [OF put_ok [OF assms(1) that], of j i] assms(2) by (simp add: put_delivery_of)
  show "delivery_of i (snd (mark_sent j w)) = None \<Longrightarrow> i = j \<and> dl_acked d"
    "delivery_of i (snd (mark_send_finished j w)) = None \<Longrightarrow> i = j \<and> (fw_closed w \<or> dl_acked d)"
    using rel assms(2)
    by (auto simp: mark_sent_def mark_send_finished_def Let_def put_delivery_of split: option.splits if_splits)
  show "delivery_of i (snd (discard_retired_queued j w)) = None \<Longrightarrow> i = j \<and> dl_retired_unsent d \<and> unsent d"
    using delete_delivery_of [OF assms(1), of j i] assms(2)
    by (auto simp: discard_retired_queued_def guarded_def unsent_def split: option.splits if_splits prod.splits)
qed

lemma left_by_acks:
  assumes ok: "world_ok (w, h)" and d: "delivery_of i w = Some d"
  shows "delivery_of i (snd (acknowledge e v w)) = None \<Longrightarrow> may_leave (FAck e v) w i d"
    "delivery_of i (snd (acknowledge_lane e lane v w)) = None \<Longrightarrow> may_leave (FAckLane e lane v) w i d"
    "delivery_of i (snd (acknowledge_lane_delivery e lane v le w)) = None \<Longrightarrow> may_leave (FAckDelivery e lane v le) w i d"
    "delivery_of i (snd (confirm_retire e lane token final le w)) = None \<Longrightarrow> may_leave (FConfirm e lane token final le) w i d"
proof -
  note gone = gone_settled [OF ok _ _ d]
  show "may_leave (FAck e v) w i d" if left: "delivery_of i (snd (acknowledge e v w)) = None"
  proof -
    obtain n where n: "validate_ack e v w = Inr n" "\<not> n \<le> fw_ack_id w"
      using left d by (auto simp: acknowledge_def try_res_def split: sum.splits if_splits)
    then have "i \<in> set (takeWhile (\<lambda>j. j \<le> n) (map fst (fw_deliveries w))) \<and> dl_sent d"
      using left gone [OF acked_ids(1,2) [OF ok], where g = "\<lambda>u. u\<lparr>fw_ack_id := n\<rparr>"] by (simp add: acknowledge_def try_res_def)
    then show ?thesis using n
      by (auto simp: up_to_def validate_ack_def checked_def Let_def list_all_iff list_ex_iff dest!: set_takeWhileD
          split: option.splits if_splits)
  qed
  show "may_leave (FAckLane e lane v) w i d" if left: "delivery_of i (snd (acknowledge_lane e lane v w)) = None"
  proof -
    obtain n where n: "validate_lane_ack e lane v w = Inr n" "\<not> n \<le> lane_ack_of lane w"
      using left d by (auto simp: acknowledge_lane_def try_res_def split: sum.splits if_splits)
    then have "i \<in> set (map fst (filter (\<lambda>(j, d). in_sequence lane n d) (fw_deliveries w))) \<and> dl_sent d"
      using left gone [OF acked_ids(3,4) [OF ok], where g = "on_lanes (\<lambda>b. b\<lparr>lb_ack_ids := AList.update lane n (lb_ack_ids b)\<rparr>)"]
      by (simp add: acknowledge_lane_def try_res_def)
    then have "in_sequence lane n d" "dl_sent d" using in_delivery [OF ok] d by auto
    then show ?thesis using n delivery_in [OF d]
      by (auto simp: up_to_def validate_lane_ack_def checked_def Let_def list_ex_iff values_of_def in_sequence_def
          split: option.splits if_splits)
  qed
  show "may_leave (FAckDelivery e lane v le) w i d" if left: "delivery_of i (snd (acknowledge_lane_delivery e lane v le w)) = None"
  proof -
    let ?key = "(lane, meant_epoch lane le w)"
    obtain n where n: "validate_lane_delivery e lane v le w = Inr n" "\<not> n \<le> epoch_ack_of ?key w"
      using left d by (auto simp: acknowledge_lane_delivery_def try_res_def Let_def split: sum.splits if_splits)
    then have "i \<in> set (map fst (filter (owned_delivery ?key n) (takeWhile (\<lambda>(j, d). j \<le> n) (fw_deliveries w)))) \<and> dl_sent d"
      using left gone [OF acked_ids(5,6) [OF ok], where g = "\<lambda>u. on_lanes (\<lambda>b. b\<lparr>lb_epoch_acks := AList.update ?key n (lb_epoch_acks b),
          lb_delivery_acks := (if lane_epoch_of lane u = snd ?key then AList.update lane n (lb_delivery_acks b)
                               else lb_delivery_acks b)\<rparr>) u"]
      by (simp add: acknowledge_lane_delivery_def try_res_def Let_def)
    then obtain x where x: "(i, x) \<in> set (fw_deliveries w)" "owned_delivery ?key n (i, x)" "dl_sent d"
      by (auto dest!: set_takeWhileD)
    moreover have "x = d" using in_delivery [OF ok x(1)] d by simp
    ultimately show ?thesis using n
      by (auto simp: up_to_def validate_lane_delivery_def checked_def Let_def owned_delivery_def split: option.splits if_splits)
  qed
  show "may_leave (FConfirm e lane token final le) w i d" if left: "delivery_of i (snd (confirm_retire e lane token final le w)) = None"
  proof -
    let ?key = "(lane, meant_epoch lane le w)"
    let ?mine = "\<lambda>(i, d). (dl_lane d, dl_epoch d) = (Some lane, snd ?key) \<and> \<not> dl_retired_unsent d"
    have n: "validate_retire e lane token final le w = Inr ()"
      using left d by (auto simp: confirm_retire_def try_res_def Let_def split: sum.splits)
    then have "i \<in> set (map fst (filter ?mine (fw_deliveries w))) \<and> dl_sent d"
      using left gone [OF acked_ids(3,4) [OF ok], where g = "\<lambda>u. on_lanes (forget_epoch ?key (lane_epoch_of lane u = snd ?key)) u"]
      by (simp add: confirm_retire_def try_res_def Let_def)
    then have "dl_lane d = Some lane" "dl_epoch d = snd ?key" "dl_sent d" using in_delivery [OF ok] d by auto
    then show ?thesis using n by (auto simp: validate_retire_def checked_def Let_def split: if_splits)
  qed
qed

lemma stage_leaves:
  assumes ok: "world_ok (w, h)" and d: "delivery_of i w = Some d"
    and left: "delivery_of i (snd (stage_delivery e v w)) = None"
  shows "may_leave (FStage e v) w i d"
proof -
  obtain n where n: "validate_stage e v w = Inr n"
    using left d by (auto simp: stage_delivery_def try_res_def split: sum.splits)
  then obtain x where x: "delivery_of n w = Some x"
    using left d by (auto simp: stage_delivery_def try_res_def split: option.splits)
  let ?w = "w\<lparr>fw_staged_id := max (fw_staged_id w) n\<rparr>"
  have ok1: "world_ok (?w, h)" by (rule same_ok [OF ok]) simp_all
  have "fw_deliveries (snd (settle_delivery n ?w)) = settled dl_sent [n] (fw_deliveries w)"
    using settle_one_ok(3) [OF ok1, of n x] x by simp
  then have "map_of (settled dl_sent [n] (fw_deliveries w)) i = None"
    using left n x by (simp add: stage_delivery_def try_res_def delivery_of_def)
  then have "i \<in> set [n] \<and> dl_sent d" by (rule not_settled [OF delivery_in [OF d]])
  then have "i = n" "dl_sent d" by simp_all
  then show ?thesis using n d x
    by (auto simp: up_to_def validate_stage_def checked_def Let_def split: option.splits if_splits)
qed

lemma flow_leaves:
  assumes ok: "world_ok (w, h)" and d: "delivery_of i w = Some d"
    and left: "delivery_of i (snd (flow_result a w)) = None"
  shows "may_leave a w i d"
proof (cases a)
  case FClose
  then show ?thesis using left not_settled [OF delivery_in [OF d], of write_done] close_ok(3) [OF ok]
    by (fastforce simp: delivery_of_def)
next
  case (FStage e v)
  then show ?thesis using stage_leaves [OF ok d] left by simp
next
  case (FRetire fresh e lane token final le)
  have ids: "map fst (fw_deliveries (snd (retire_lane fresh e lane token final le w))) = map fst (fw_deliveries w)"
    by (simp add: retire_lane_def guarded_def Let_def comp_def split_beta split: option.split)
  have "i \<in> set (map fst (fw_deliveries w))" using delivery_in [OF d] by force
  then have "delivery_of i (snd (retire_lane fresh e lane token final le w)) \<noteq> None"
    unfolding ids [symmetric] delivery_of_def map_of_eq_None_iff by simp
  then show ?thesis using left FRetire by simp
next
  case (FDirty k g n)
  have "delivery_of i (snd (mark_dirty k g n w)) = Some d"
    using d by (simp add: mark_dirty_def mark_global_dirty_def Let_def delivery_of_def split: option.split)
  then show ?thesis using left FDirty by simp
next
  case (FAdmit x)
  then show ?thesis using left kept_ops(1) [OF ok d, of x] by simp
next
  case (FClaim j p)
  then show ?thesis using left kept_ops(2) [OF ok d, of j p] by simp
next
  case (FSending j)
  then show ?thesis using left kept_ops(3) [OF ok d, of j] by simp
next
  case (FPublish j n)
  then show ?thesis using left kept_ops(4) [OF ok d, of j n] by simp
next
  case (FSent j)
  then show ?thesis using left left_by_writing(1) [OF ok d, of j] by simp
next
  case (FFinished j)
  then show ?thesis using left left_by_writing(2) [OF ok d, of j] by simp
next
  case (FDiscard j)
  then show ?thesis using left left_by_writing(3) [OF ok d, of j] by simp
next
  case (FAck e v)
  then show ?thesis using left left_by_acks(1) [OF ok d, of e v] by simp
next
  case (FAckLane e lane v)
  then show ?thesis using left left_by_acks(2) [OF ok d, of e lane v] by simp
next
  case (FAckDelivery e lane v le)
  then show ?thesis using left left_by_acks(3) [OF ok d, of e lane v le] by simp
next
  case (FConfirm e lane token final le)
  then show ?thesis using left left_by_acks(4) [OF ok d, of e lane token final le] by (metis flow_result.simps(14) outcome_snd)
next
  case (FRegister lane e)
  have "delivery_of i (snd (register_lane_epoch lane e w)) = Some d"
    using d by (simp add: register_lane_epoch_def guarded_def Let_def split: option.split)
  then show ?thesis using left FRegister by simp
qed (use left d in \<open>simp_all add: prune_lanes_def mark_global_dirty_def Let_def delivery_of_def\<close>)

section \<open>Nothing that is settled is kept\<close>

definition no_leak :: "flow \<Rightarrow> bool" where
  "no_leak w \<longleftrightarrow> (\<forall>d \<in> snd ` set (fw_deliveries w). \<not> (dl_sent d \<and> dl_acked d))"

lemma leak_same: "no_leak w \<Longrightarrow> fw_deliveries w' = fw_deliveries w \<Longrightarrow> no_leak w'"
  by (simp add: no_leak_def)

lemma leak_put: "no_leak w \<Longrightarrow> \<not> (dl_sent d \<and> dl_acked d) \<Longrightarrow> no_leak (put_delivery i d w)"
  by (auto simp: no_leak_def put_delivery_def dest!: subsetD [OF set_update_in])

lemma leak_of: "no_leak w \<Longrightarrow> delivery_of i w = Some d \<Longrightarrow> \<not> (dl_sent d \<and> dl_acked d)"
  using delivery_in [of i w d] unfolding no_leak_def by force

lemma leak_settled: "no_leak w \<Longrightarrow> fw_deliveries w' = settled gone is (fw_deliveries w) \<Longrightarrow> (\<And>d. \<not> gone d \<Longrightarrow> \<not> dl_sent d)
    \<Longrightarrow> no_leak w'"
  by (fastforce simp: no_leak_def settled_iff image_iff split: if_splits)

lemma leak_settle:
  assumes "world_ok (w, h)" "distinct is" "set is \<subseteq> fst ` set (fw_deliveries w)" "no_leak w"
    and "\<And>u. fw_deliveries (g u) = fw_deliveries u"
  shows "no_leak (snd (case settle_all is w of (Inl e, w1) \<Rightarrow> (Inl e, w1) | (Inr x, w1) \<Rightarrow> (Inr (), g w1)))"
proof -
  obtain r w1 where s: "settle_all is w = (r, w1)" by fastforce
  have "r = Inr ()" "fw_deliveries w1 = settled dl_sent is (fw_deliveries w)"
    using settle_ok [OF assms(1-3)] by (simp_all add: s)
  then show ?thesis using leak_settled [OF assms(4), of "g w1" dl_sent "is"] assms(5) by (simp add: s)
qed

lemma leak_acks:
  assumes ok: "world_ok (w, h)" and l: "no_leak w"
  shows "no_leak (snd (acknowledge e v w))" "no_leak (snd (acknowledge_lane e lane v w))"
    "no_leak (snd (acknowledge_lane_delivery e lane v le w))" "no_leak (snd (confirm_retire e lane token final le w))"
    "no_leak (snd (stage_delivery e v w))"
proof -
  note settle = leak_settle [OF ok _ _ l]
  show "no_leak (snd (acknowledge e v w))" using l
    by (auto simp: acknowledge_def try_res_def split: sum.split intro!: settle [OF acked_ids(1,2) [OF ok]])
  show "no_leak (snd (acknowledge_lane e lane v w))" using l
    by (auto simp: acknowledge_lane_def try_res_def split: sum.split intro!: settle [OF acked_ids(3,4) [OF ok]])
  show "no_leak (snd (acknowledge_lane_delivery e lane v le w))" using l
    by (auto simp: acknowledge_lane_delivery_def try_res_def Let_def split: sum.split intro!: settle [OF acked_ids(5,6) [OF ok]])
  show "no_leak (snd (confirm_retire e lane token final le w))" using l
    by (auto simp: confirm_retire_def try_res_def Let_def split: sum.split intro!: settle [OF acked_ids(3,4) [OF ok]])
  have "no_leak (snd (settle_delivery i (w\<lparr>fw_staged_id := n\<rparr>)))" if "delivery_of i w = Some d" for i d n
  proof -
    have "world_ok (w\<lparr>fw_staged_id := n\<rparr>, h)" by (rule same_ok [OF ok]) simp_all
    from settle_one_ok(3) [OF this, of i d] that show ?thesis by (intro leak_settled [OF l]) simp_all
  qed
  then show "no_leak (snd (stage_delivery e v w))" using l
    by (simp add: stage_delivery_def try_res_def split: sum.split option.split)
qed

lemma leak_writing:
  assumes ok: "world_ok (w, h)" and l: "no_leak w"
  shows "no_leak (snd (mark_sending i w))" "no_leak (snd (mark_sent i w))" "no_leak (snd (mark_send_finished i w))"
    "no_leak (snd (discard_retired_queued i w))" "no_leak (snd (claim_delivery i p w))"
proof -
  show "no_leak (snd (mark_sending i w))" "no_leak (snd (claim_delivery i p w))"
    using leak_of [OF l, of i] leak_put [OF l] l
    by (simp_all add: mark_sending_def claim_delivery_def split: option.split)
  have rel: "no_leak (snd (release_delivery i (put_delivery i d' w)))"
    if "delivery_of i w = Some d" "dl_size d' = dl_size d" "dl_recovery d' = dl_recovery d" for d d'
  proof -
    have "credit_ok h (put_delivery i d' w)" using put_ok [OF ok that] by (simp add: world_ok_def)
    from release_credit(3) [OF this, of i d']
    have "fw_deliveries (snd (release_delivery i (put_delivery i d' w))) = AList.delete i (fw_deliveries w)"
      by (simp add: put_delivery_of) (simp add: put_delivery_def delete_update)
    then show ?thesis using l by (auto simp: no_leak_def AList.delete_eq)
  qed
  show "no_leak (snd (mark_sent i w))" "no_leak (snd (mark_send_finished i w))"
    using leak_of [OF l, of i] leak_put [OF l] rel l
    by (simp_all add: mark_sent_def mark_send_finished_def Let_def split: option.split)
  show "no_leak (snd (discard_retired_queued i w))"
    using l rel put_self [of i w]
    by (auto simp: discard_retired_queued_def guarded_def split: option.split prod.split) (metis snd_conv)
qed

lemma leak_publish:
  assumes l: "no_leak w"
  shows "no_leak (snd (publish_snapshot i n w))"
proof -
  have res: "no_leak (snd (reserve_bytes m kind u)) = no_leak u" "no_leak (snd (release_bytes m kind u)) = no_leak u"
    for m kind u by (simp_all add: no_leak_def ledger_reserve release_bytes_fields)
  have claim: "no_leak u \<Longrightarrow> no_leak (snd (claim_delivery j p u))" for j p u
    using leak_of [of u j] leak_put [of u] by (simp add: claim_delivery_def split: option.split)
  show ?thesis using l res claim leak_put leak_of [OF l, of i]
    by (simp add: publish_snapshot_def Let_def prod.case_eq_if split: option.split sum.split bool.split)
qed

lemma leak_admit:
  assumes l: "no_leak w"
  shows "no_leak (snd (admit_delivery x w))"
proof -
  obtain r w' where adm: "admit_delivery x w = (r, w')" by fastforce
  then show ?thesis
  proof (cases rule: admit_cases)
    case (refused b why)
    then show ?thesis using l by (simp add: adm no_leak_def)
  next
    case (admitted b w1 w2)
    have "no_leak w2" using l admitted(1,5) by (auto simp: no_leak_def ledger_reserve)
    then have "no_leak (w2\<lparr>fw_next_id := m, fw_lanes := k\<rparr>)" for m k by (rule leak_same) simp
    then show ?thesis using admitted(7) by (simp add: adm enter_delivery_def Let_def leak_put new_delivery_def)
  qed
qed

lemma leak_step:
  assumes ok: "world_ok (w, h)" and l: "no_leak w"
  shows "no_leak (fst (world_step a (w, h)))"
proof -
  have result: "no_leak (snd (flow_result x w))" for x
  proof (cases x)
    case (FRetire fresh e lane token final le)
    have "\<forall>d \<in> snd ` set (map (\<lambda>(i, d). (i, if P d then d\<lparr>dl_retired_unsent := True\<rparr> else d)) (fw_deliveries w)).
        \<not> (dl_sent d \<and> dl_acked d)" for P using l by (auto simp: no_leak_def split: if_splits)
    then have "no_leak (w\<lparr>fw_lanes := b, fw_deliveries :=
        map (\<lambda>(i, d). (i, if P d then d\<lparr>dl_retired_unsent := True\<rparr> else d)) (fw_deliveries w)\<rparr>)" for b P
      unfolding no_leak_def by simp
    moreover have "no_leak (w\<lparr>fw_lanes := b\<rparr>)" for b by (rule leak_same [OF l]) simp
    ultimately have "no_leak (snd (retire_lane fresh e lane token final le w))" using l
      by (auto simp: retire_lane_def guarded_def Let_def split: option.split)
    then show ?thesis by (simp add: FRetire)
  next
    case FClose
    have "no_leak (snd (close_window w))"
      by (rule leak_settled [OF l close_ok(3) [OF ok]]) (simp add: write_done_def)
    then show ?thesis by (simp add: FClose)
  next
    case (FRegister lane e)
    have "no_leak (snd (register_lane_epoch lane e w))"
      by (rule leak_same [OF l]) (simp add: register_lane_epoch_def guarded_def Let_def split: option.split)
    then show ?thesis by (simp add: FRegister)
  next
    case (FDirty k g n)
    have "no_leak (snd (mark_dirty k g n w))"
      by (rule leak_same [OF l]) (simp add: mark_dirty_def mark_global_dirty_def Let_def split: option.split)
    then show ?thesis by (simp add: FDirty)
  next
    case FPrune
    have "no_leak (prune_lanes w)" by (rule leak_same [OF l]) (simp add: prune_lanes_def Let_def)
    then show ?thesis by (simp add: FPrune)
  next
    case (FGlobalDirty renew)
    have "no_leak (snd (mark_global_dirty renew w))"
      by (rule leak_same [OF l]) (simp add: mark_global_dirty_def Let_def)
    then show ?thesis by (simp add: FGlobalDirty)
  qed (simp_all add: leak_acks [OF ok l] leak_writing [OF ok l] leak_publish [OF l] leak_admit [OF l])
  show ?thesis
  proof (cases a)
    case (Window x)
    show ?thesis
    proof (cases x)
      case (FAdmit y)
      have "fst (admit_step y (w, h)) \<in> {w, snd (admit_delivery y w)}"
        by (simp add: admit_step_def split: prod.split sum.split option.split)
      then show ?thesis using l leak_admit [OF l, of y] Window FAdmit by auto
    qed (use result [of x] Window in simp_all)
  next
    case (Charge n kind)
    then show ?thesis using ledger_reserve(3) [of n kind w] leak_same [OF l]
      by (auto split: prod.split sum.split bool.split)
  next
    case (Refund n kind)
    then show ?thesis using l leak_same [OF l] release_bytes_fields(4) by simp
  qed (use l leak_same [OF l] in simp_all)
qed

lemma reachable_no_leak:
  assumes "link_ok h0 l" "flow_world.run ops (enable_flow e rl lm ll l, h0) = (w, h)"
  shows "no_leak w"
proof -
  have "world_ok c \<and> no_leak (fst c) \<Longrightarrow> world_ok (world_step a c) \<and> no_leak (fst (world_step a c))" for a c
    using world_step_ok leak_step by (metis prod.collapse)
  moreover have "world_ok (enable_flow e rl lm ll l, h0) \<and> no_leak (fst (enable_flow e rl lm ll l, h0))"
    using enable_ok [OF assms(1)] by (simp add: no_leak_def enable_fields)
  ultimately have "no_leak (fst (flow_world.run ops (enable_flow e rl lm ll l, h0)))"
    using flow_world.run_invariant [of "\<lambda>c. world_ok c \<and> no_leak (fst c)"] by blast
  then show ?thesis by (simp add: assms(2))
qed

section \<open>A batch of the first protocol\<close>

text \<open>What an acknowledgement leaves of the others in its batch: their deliveries are as they were, or they are
  gone and lie below the marks.\<close>

definition later :: "flow \<Rightarrow> flow \<Rightarrow> bool" where
  "later w w' \<longleftrightarrow>
     fw_epoch w' = fw_epoch w \<and> max (fw_staged_id w) (fw_ack_id w) \<le> max (fw_staged_id w') (fw_ack_id w')
     \<and> (\<forall>i. case delivery_of i w' of
          None \<Rightarrow> delivery_of i w = None \<or> i \<le> max (fw_staged_id w') (fw_ack_id w')
        | Some d' \<Rightarrow> (\<exists>d. delivery_of i w = Some d \<and> dl_recovery d' = dl_recovery d \<and> unsent d' = unsent d))"

lemma stage_still_valid: "later w w' \<Longrightarrow> validate_stage e v w = Inr i \<Longrightarrow> validate_stage e v w' = Inr i"
proof -
  assume l: "later w w'" and v: "validate_stage e v w = Inr i"
  have at: "case delivery_of i w' of
      None \<Rightarrow> delivery_of i w = None \<or> i \<le> max (fw_staged_id w') (fw_ack_id w')
    | Some d' \<Rightarrow> (\<exists>d. delivery_of i w = Some d \<and> dl_recovery d' = dl_recovery d \<and> unsent d' = unsent d)"
    using l unfolding later_def by blast
  have marks: "fw_epoch w' = fw_epoch w" "max (fw_staged_id w) (fw_ack_id w) \<le> max (fw_staged_id w') (fw_ack_id w')"
    using l by (simp_all add: later_def)
  have key: "e = fw_epoch w" "v = JInt i" "1 \<le> i" using v
    by (auto simp: validate_stage_def checked_def split: option.splits if_splits)
  show ?thesis
  proof (cases "delivery_of i w'")
    case None
    have "i \<le> max (fw_staged_id w) (fw_ack_id w)" if "delivery_of i w = None"
      using v that key by (simp add: validate_stage_def checked_def split: if_splits)
    then have "i \<le> max (fw_staged_id w') (fw_ack_id w')" using at None marks(2) by auto
    then show ?thesis using key marks(1) None by (simp add: validate_stage_def checked_def)
  next
    case (Some d')
    then obtain d where d: "delivery_of i w = Some d" "dl_recovery d' = dl_recovery d" "unsent d' = unsent d"
      using at by auto
    then have "dl_recovery d" "\<not> unsent d" using v key
      by (auto simp: validate_stage_def checked_def split: if_splits)
    then show ?thesis using key marks(1) Some d by (simp add: validate_stage_def checked_def)
  qed
qed

lemma stages_still_valid: "later w w' \<Longrightarrow> all_valid (\<lambda>v. validate_stage e v w) vs = Inr u
    \<Longrightarrow> all_valid (\<lambda>v. validate_stage e v w') vs = Inr ()"
  by (induction vs) (auto simp: stage_still_valid split: sum.splits)

lemma settled_later:
  assumes ok: "world_ok (w, h)" and es: "fw_deliveries w' = settled dl_sent is (fw_deliveries w)"
    and "fw_epoch w' = fw_epoch w" "max (fw_staged_id w) (fw_ack_id w) \<le> max (fw_staged_id w') (fw_ack_id w')"
    and below: "\<And>i. i \<in> set is \<Longrightarrow> i \<le> max (fw_staged_id w') (fw_ack_id w')" and ok': "world_ok (w', h)"
  shows "later w w'"
proof -
  have "case delivery_of i w' of
      None \<Rightarrow> delivery_of i w = None \<or> i \<le> max (fw_staged_id w') (fw_ack_id w')
    | Some d' \<Rightarrow> (\<exists>d. delivery_of i w = Some d \<and> dl_recovery d' = dl_recovery d \<and> unsent d' = unsent d)" for i
  proof (cases "delivery_of i w'")
    case None
    then show ?thesis using not_settled [of i _ "fw_deliveries w" dl_sent "is"] delivery_in [of i w] es below
      by (cases "delivery_of i w") (auto simp: delivery_of_def)
  next
    case (Some d')
    have "(i, d') \<in> set (settled dl_sent is (fw_deliveries w))" using delivery_in [OF Some] es by simp
    then obtain d where "(i, d) \<in> set (fw_deliveries w)" "d' = d\<lparr>dl_acked := True\<rparr> \<or> d' = d"
      by (auto simp: settled_iff split: if_splits)
    then show ?thesis using in_delivery [OF ok] by (auto simp: Some unsent_def)
  qed
  then show ?thesis using assms(3,4) by (simp add: later_def)
qed

lemma books_fields: "books_of w' = books_of w \<Longrightarrow>
    fw_epoch w' = fw_epoch w \<and> fw_staged_id w' = fw_staged_id w \<and> fw_ack_id w' = fw_ack_id w"
  by (simp add: books_of_def)

lemma ack_later:
  assumes ok: "world_ok (w, h)" and v: "validate_ack e v w = Inr n"
  shows "later w (snd (acknowledge e v w))" "fst (acknowledge e v w) = Inr ()"
proof -
  let ?is = "takeWhile (\<lambda>j. j \<le> n) (map fst (fw_deliveries w))"
  show "fst (acknowledge e v w) = Inr ()" by (simp add: ack_valid [OF ok] v)
  have refl: "later w w" by (simp add: later_def split: option.split)
  obtain r w1 where s: "settle_all ?is w = (r, w1)" by fastforce
  note settle = settle_ok [OF ok acked_ids(1,2) [OF ok, of "\<lambda>j. j \<le> n"], unfolded s fst_conv snd_conv]
  have "later w (w1\<lparr>fw_ack_id := n\<rparr>)" if "\<not> n \<le> fw_ack_id w"
  proof (rule settled_later [OF ok])
    show "world_ok (w1\<lparr>fw_ack_id := n\<rparr>, h)" by (rule same_ok [OF settle(2)]) simp_all
  qed (use settle that books_fields [OF settle(4)] in \<open>auto dest!: set_takeWhileD\<close>)
  then show "later w (snd (acknowledge e v w))"
    using refl settle(1) by (simp add: acknowledge_def try_res_def v s)
qed

lemma stage_later:
  assumes ok: "world_ok (w, h)" and v: "validate_stage e v w = Inr n"
  shows "later w (snd (stage_delivery e v w))" "fst (stage_delivery e v w) = Inr ()"
proof -
  show "fst (stage_delivery e v w) = Inr ()" by (simp add: stage_valid [OF ok] v)
  have refl: "later w w" by (simp add: later_def split: option.split)
  let ?w = "w\<lparr>fw_staged_id := max (fw_staged_id w) n\<rparr>"
  have ok1: "world_ok (?w, h)" by (rule same_ok [OF ok]) simp_all
  have "later w (snd (settle_delivery n ?w))" if "delivery_of n w = Some d" for d
  proof -
    note one = settle_one_ok [OF ok1, of n d]
    show ?thesis by (rule settled_later [OF ok]) (use one that books_fields [OF one(4)] in auto)
  qed
  then show "later w (snd (stage_delivery e v w))"
    using refl by (simp add: stage_delivery_def try_res_def v split: option.split)
qed

lemma stages_apply:
  assumes "world_ok (w, h)" "all_valid (\<lambda>v. validate_stage e v w) vs = Inr u"
  shows "fst (in_turn (stage_delivery e) vs w) = Inr ()"
  using assms
proof (induction vs arbitrary: w u)
  case (Cons v vs)
  obtain n where v: "validate_stage e v w = Inr n" and vs: "all_valid (\<lambda>v. validate_stage e v w) vs = Inr u"
    using Cons.prems(2) by (auto split: sum.splits)
  obtain r w1 where st: "stage_delivery e v w = (r, w1)" by fastforce
  note stage = stage_later [OF Cons.prems(1) v, unfolded st fst_conv snd_conv]
  have "all_valid (\<lambda>v. validate_stage e v w1) vs = Inr ()"
    using stages_still_valid [OF stage(1) vs] .
  from Cons.IH [OF _ this] stage_ok [OF Cons.prems(1), of e v] show ?case by (simp add: st stage(2))
qed simp

section \<open>Properties\<close>

text \<open>C12: However a window is used, together with what the rest of its connection reserves and with the other
  connections, the connection's reservation is the bytes of the deliveries in the window and what the rest
  holds, the shared budget covers both in every kind, no operation ever gives back more than was reserved,
  no delivery that was sent and acknowledged is still charged, and closing always succeeds and leaves only the frames whose write is under way.\<close>

theorem credit_conserved:
  assumes "link_ok h0 l" "flow_world.run ops (enable_flow e rl lm ll l, h0) = (w, h)"
  shows "ln_bytes w = sum_list (map dl_size (values_of w)) + all_of h
    \<and> (\<forall>kind. 0 \<le> h kind \<and> kind_bytes kind w + h kind \<le> bu_kinds (ln_shared w) kind)
    \<and> (\<forall>a. \<not> raises_release (fst (flow_result a w)))
    \<and> list_all (\<lambda>d. \<not> (dl_sent d \<and> dl_acked d)) (values_of w)
    \<and> fst (close_window w) = Inr ()
    \<and> list_all (\<lambda>d. dl_sending d \<and> \<not> dl_sent d) (values_of (snd (close_window w)))"
proof -
  note ok = reachable_ok [OF assms]
  then have c: "credit_ok h w" by (simp add: world_ok_def)
  then have "ln_bytes w = sum_list (map dl_size (values_of w)) + all_of h"
    "\<forall>kind. 0 \<le> h kind \<and> kind_bytes kind w + h kind \<le> bu_kinds (ln_shared w) kind"
    by (simp_all add: credit_ok_def bytes_values charge_values)
  moreover have "list_all (\<lambda>d. dl_sending d \<and> \<not> dl_sent d) (values_of (snd (close_window w)))"
    unfolding values_of_def close_ok(3) [OF ok] by (auto simp: list_all_iff settled_iff write_done_def image_iff split: if_splits) (metis fst_conv)+
  moreover have "list_all (\<lambda>d. \<not> (dl_sent d \<and> dl_acked d)) (values_of w)"
    using reachable_no_leak [OF assms] by (simp add: no_leak_def values_of_def list_all_iff)
  ultimately show ?thesis using no_release_error [OF ok] close_ok(1) [OF ok] by blast
qed

definition no_hold :: holdings where "no_hold = (\<lambda>_. 0)"

definition fresh_link :: link where
  "fresh_link = \<lparr>ln_bytes = 0, ln_kinds = (\<lambda>_. 0), ln_recovery = True, ln_closing = False,
     ln_shared = new_transport_budget global_buffer_bytes\<rparr>"

definition plain_admission :: "int \<Rightarrow> admission" where
  "plain_admission n = \<lparr>ad_size = n, ad_recovery = False, ad_wire = None, ad_key = None, ad_owner = None,
     ad_segment = None, ad_deadline = None, ad_lane = None, ad_epoch = None, ad_reserved = False\<rparr>"

definition sample_run :: "world_op list" where
  "sample_run = [Charge 30 KControl, Window (FAdmit (plain_admission 100)), Window (FAdmit (plain_admission 50)),
     Window (FSending 1), Window (FSent 1), Window (FSending 2), Window (FAck ''c'' (JInt 2))]"

lemma fresh_ok: "link_ok no_hold fresh_link"
  by (simp add: link_ok_def no_hold_def fresh_link_def all_of_def new_transport_budget_def)

definition sample_start :: flow where "sample_start = enable_flow ''c'' 4 False 4 fresh_link"

lemma credit_conserved_witness:
  "ln_bytes (fst (flow_world.run sample_run (sample_start, no_hold))) = 80
   \<and> kind_bytes KBulk (fst (flow_world.run sample_run (sample_start, no_hold))) = 50"
proof -
  let ?last = "flow_world.run sample_run (sample_start, no_hold)"
  have "map dl_size (values_of (fst ?last)) = [50]" "all_of (snd ?last) = 30" "kind_bytes KBulk (fst ?last) = 50"
    unfolding flow_world.run_def by code_simp+
  then show ?thesis
    using credit_conserved [OF fresh_ok prod.collapse [symmetric], of sample_run "''c''" 4 False 4]
    by (simp add: sample_start_def)
qed



text \<open>C17: Bytes come back only for frames that are written. A delivery leaves the window, in any reachable state
  and by any operation, only if it was sent and an acknowledgement of its own epoch covers it (of the
  connection, of its lane, of its lane epoch, or the confirmed end of that epoch under its token), or its
  write has just ended and it had been acknowledged before, or its lane was retired before its write
  began, or the window closes and no write of it is under way.\<close>

theorem credit_returned_after_send:
  assumes "link_ok h0 l" "flow_world.run ops (enable_flow e rl lm ll l, h0) = (w, h)"
    and "delivery_of i w = Some d" "delivery_of i (snd (flow_result a w)) = None"
  shows "may_leave a w i d"
  by (rule flow_leaves [OF reachable_ok [OF assms(1,2)] assms(3,4)])

lemma credit_returned_after_send_witness:
  "\<exists>d. delivery_of 2 (fst (flow_world.run sample_run (sample_start, no_hold))) = Some d \<and> dl_acked d"
proof -
  let ?w = "fst (flow_world.run sample_run (sample_start, no_hold))"
  have "delivery_of 2 ?w \<noteq> None" "delivery_of 2 (snd (flow_result (FSent 2) ?w)) = None"
    unfolding flow_world.run_def by code_simp+
  then obtain d where d: "delivery_of 2 ?w = Some d" "delivery_of 2 (snd (flow_result (FSent 2) ?w)) = None" by blast
  from d show ?thesis
    using credit_returned_after_send [OF fresh_ok prod.collapse [symmetric], of 2 sample_run "''c''" 4 False 4 d "FSent 2"]
    by (simp add: sample_start_def)
qed

lemma run_limit: "bu_limit (shared_budget.run ops b) = bu_limit b"
proof (induction ops arbitrary: b)
  case (Cons a ops)
  then show ?case by (cases a) (simp_all add: budget_reserve_def budget_release_def guarded_def)
qed simp

text \<open>C23: As long as every reservation names its kind, which the gateway does for connections with recovery,
  a frame of control that keeps within the control buffer is never refused by the shared budget, whatever
  the others hold.\<close>

theorem control_never_starved:
  assumes "list_all has_kind ops" "control_buffer_bytes \<le> limit" "0 \<le> n"
    and "bu_kinds (shared_budget.run ops (new_transport_budget limit)) KControl + n \<le> control_buffer_bytes"
  shows "fst (budget_reserve n KControl (shared_budget.run ops (new_transport_budget limit))) = Inr True"
proof -
  have "budget_kept (shared_budget.run ops (new_transport_budget limit))"
    by (rule budget_run_kept) (use assms in \<open>simp_all add: budget_kept_def new_transport_budget_def control_buffer_bytes_def\<close>)
  moreover have "bu_limit (shared_budget.run ops (new_transport_budget limit)) = limit" by (simp add: run_limit new_transport_budget_def)
  ultimately show ?thesis using assms
    by (auto simp: budget_reserve_def guarded_def budget_kept_def budget_headroom_def)
qed

lemma control_never_starved_witness:
  "fst (budget_reserve 1000 KControl
     (shared_budget.run [BReserve 2000000 KBulk, BReserve 900000 KRecovery, BReserve 5000000 KBulk]
       (new_transport_budget 3000000))) = Inr True"
  by (rule control_never_starved)
    (simp_all add: control_buffer_bytes_def budget_reserve_def guarded_def budget_headroom_def new_transport_budget_def)

text \<open>C22: A batch of the first protocol is all or nothing: when the request is refused, no byte has come
  back and the window is as it was.\<close>

theorem flow_update_atomic:
  assumes "link_ok h0 l" "flow_world.run ops (enable_flow e rl lm ll l, h0) = (w, h)"
    and "fst (flow_update epoch ack staged w) = Inl x"
  shows "snd (flow_update epoch ack staged w) = w"
proof -
  note ok = reachable_ok [OF assms(1,2)]
  have "fst (flow_update epoch ack staged w) = Inr ()"
    if v: "validate_ack epoch ack w = Inr n" and vs: "all_valid (\<lambda>v. validate_stage epoch v w) staged = Inr u" for n u
  proof -
    obtain r w1 where a: "acknowledge epoch ack w = (r, w1)" by fastforce
    note ack = ack_later [OF ok v, unfolded a fst_conv snd_conv]
    have ok1: "world_ok (w1, h)" using ack_ok [OF ok, of epoch ack] by (simp add: a)
    from stages_apply [OF ok1 stages_still_valid [OF ack(1) vs]] show ?thesis
      by (simp add: flow_update_def try_res_def v vs a ack(2))
  qed
  then show ?thesis using assms(3)
    by (cases "validate_ack epoch ack w"; cases "all_valid (\<lambda>v. validate_stage epoch v w) staged")
      (auto simp: flow_update_def try_res_def)
qed

lemma flow_update_atomic_witness:
  "snd (flow_update ''c'' (JInt 2) [JInt 1, JInt 2] (fst (flow_world.run sample_run (sample_start, no_hold))))
     = fst (flow_world.run sample_run (sample_start, no_hold))
   \<and> fw_deliveries (fst (flow_world.run sample_run (sample_start, no_hold))) \<noteq> []"
proof -
  let ?last = "flow_world.run sample_run (sample_start, no_hold)"
  have "fst (flow_update ''c'' (JInt 2) [JInt 1, JInt 2] (fst ?last)) =
      Inl (ValueError ''Acknowledgement is not a recovery delivery'')" "fw_deliveries (fst ?last) \<noteq> []"
    unfolding flow_world.run_def by code_simp+
  then show ?thesis
    using flow_update_atomic [OF fresh_ok prod.collapse [symmetric], of "''c''" "JInt 2" "[JInt 1, JInt 2]" sample_run "''c''" 4 False 4]
    by (simp add: sample_start_def)
qed

definition lane_admission :: "string \<Rightarrow> string \<Rightarrow> admission" where
  "lane_admission lane e = (plain_admission 100)\<lparr>ad_lane := Some lane, ad_epoch := Some e\<rparr>"

definition two_lanes :: flow where
  "two_lanes = fst (fold world_step
     [Window (FAdmit (lane_admission ''a'' ''e1'')), Window (FAdmit (lane_admission ''b'' ''e2'')),
      Window (FSending 1), Window (FSent 1), Window (FSending 2), Window (FSent 2)]
     (enable_flow ''c'' 4 True 4 fresh_link, no_hold))"

text \<open>A batch of the second protocol is not all or nothing. Two acknowledgements of one lane, each of which
  is valid when the batch is, may be refused together: the first takes back the delivery that the second
  needs, and its bytes are given back although the request fails.\<close>

theorem session_update_half_applied:
  "let batch = [(''a'', ''e1'', JInt 1), (''a'', ''e1'', JInt 2)];
       (r, w) = session_flow_update batch [] [] two_lanes
   in all_valid (\<lambda>(lane, e, v). validate_lane_delivery ''c'' lane v (Some e) two_lanes) batch = Inr ()
      \<and> r = Inl (ValueError ''Acknowledgement does not belong to lane'')
      \<and> ln_bytes two_lanes = 200 \<and> ln_bytes w = 100"
  by code_simp

text \<open>A frame that is refused for its size still opens a retired lane again: after it, frames of the retired epoch
  are admitted, which were refused before.\<close>

definition retired_lane :: flow where
  "retired_lane = fst (fold world_step
     [Window (FAdmit (lane_admission ''a'' ''e1'')), Window (FSending 1), Window (FSent 1),
      Window (FRetire ''t'' ''c'' ''a'' None JNull (Some ''e1''))]
     (enable_flow ''c'' 4 True 4 fresh_link, no_hold))"

theorem refused_frame_reopens_lane:
  "let old = lane_admission ''a'' ''e1'';
       big = (lane_admission ''a'' ''e2'')\<lparr>ad_size := 30 * 1024 * 1024\<rparr>;
       (r, w) = admit_delivery big retired_lane
   in fst (admit_delivery old retired_lane) = Inr None \<and> r = Inr None
      \<and> fw_rejection w = Some ''frame_wire_limit'' \<and> fst (admit_delivery old w) = Inr (Some 2)"
  by code_simp

end
