(* ===== verification/Spec2Isabelle.thy ===== *)
theory Spec2Isabelle
  imports Prelude Turn_Claims Provider_Retry Health Scheduler Session_Progress Plan_Forms Approval_Claims Access_Claims Stream_Claims Flow_Claims
begin

text \<open>
  OpenSquilla is a personal agent server: a gateway admits the requests of clients and channels, a turn
  runner drives a language model and its tools through one turn, a session store in SQLite keeps what
  must survive a restart, and a scheduler starts turns at their time. This library models the parts that
  decide, whose code lies under \<open>src/opensquilla\<close>. Each is a group of definitions in the
  order of its source file, executable, with its errors as values; what the code reads from outside (a clock,
  a random identifier, the answer of a remote service) is an argument.

  \<^bold>\<open>How the parts meet.\<close> A request reaches the gateway, which finds out who sends it and whether a handler may
  see it; the events of a session go to its clients through a stream that can replay them, as frames that wait
  for credit. A turn calls a provider through the ledger of the turn, which admits one attempt at a time; a
  failed attempt is classified, retried, or handed to the next model, and the health ledger says which
  deployments to leave alone. A turn may work for a Goal or a plan run of its session, and the
  session store settles what the turn did for them. A tool that needs consent asks through the
  approval queue. Cron jobs start such turns under a reservation.

  \<^bold>\<open>Shared theories.\<close>
  \<^item> \<open>Prelude\<close>: Python's operations on text, exceptions, rows of guards, dictionaries in insertion order,
    tables with \<open>UPDATE\<close> and \<open>DELETE\<close>, and the locales of the interfaces: \<open>machine\<close> (operations on a state
    and their runs), \<open>invariant_machine\<close>, \<open>one_way\<close> (a condition that stays once it holds) and
    \<open>counting\<close> (a number that never falls). Every component with state interprets them on its own operations.
  \<^item> \<open>Regex\<close>: the regular expressions that the code uses, by the end positions of their matches.
    \<open>Py_Text\<close>: splitting, replacement and \<open>int\<close>. \<open>Json\<close>: decoded JSON with dictionary reads.

  \<^bold>\<open>Access to the gateway.\<close>
  \<^item> \<open>Access_Policy\<close>: \<open>gateway/scopes.py\<close>, the table of methods, scope implication, \<open>authorize_call\<close>, loopback
    tests; \<open>gateway/rpc/ingress.py\<close>, the bounded traversal \<open>visit\<close> and its two limits, which are the code's.
  \<^item> \<open>Guest_Policy\<close>: \<open>gateway/guest_rpc_policy.py\<close>, the methods and session keys of anonymous peers.
  \<^item> \<open>Token_Store\<close>: \<open>gateway/token_store.py\<close>, the table of named tokens as a machine, and the limiter of
    failed attempts with its sliding window.
  \<^item> \<open>Gateway_Access\<close>: the resolvers of \<open>gateway/auth.py\<close> and the registry of \<open>gateway/rpc/registry.py\<close>,
    whose \<open>_dispatch\<close> is \<open>admit_call\<close> up to the handler. \<open>Access_Claims\<close> composes them: what a peer can
    reach follows from its address and its credentials alone.

  \<^bold>\<open>The streams of a session\<close> (\<open>gateway/session_streams.py\<close>, \<open>gateway/replay_budget.py\<close>).
  \<^item> \<open>Streams\<close>: events, what the code reads from their payloads, and the budget of the replay caches.
    \<open>Stream_Registry\<close>: one record for what the dictionaries of the registry hold under one session key;
    recording with trimming, the live view and its resets, snapshots of finished tasks, replay.
  \<^item> \<open>Stream_Machine\<close>: the operations as a machine, with the list of events that a session recorded beside
    it, and the invariant of the budget. \<open>Stream_Claims\<close>: what a replay accounts for, the live text, what an
    eviction may take. \<open>retained_bytes\<close> and the functions of \<open>terminal_activity.py\<close> are arguments. Trimming
    recurses on the length of the buffer.

  \<^bold>\<open>The flow of frames\<close> (\<open>gateway/transport_flow.py\<close>, and of \<open>gateway/websocket.py\<close> the reservations of a
  connection, the publication of a snapshot piece and the two batches of acknowledgements).
  \<^item> \<open>Flow_Budget\<close>: the shared budget and the reservations of one connection. \<open>Flow_Window\<close>, \<open>Flow_Delivery\<close>:
    one function for each method of \<open>FlowWindow\<close>, on the connection's record extended by the window's fields.
  \<^item> \<open>Flow_Machine\<close>, \<open>Flow_World\<close>: every operation of the window, what the rest of the connection charges and
    refunds, and other connections, as one machine; its invariant is that every byte is charged once.
    \<open>Flow_Claims\<close>: credit is conserved and comes back only for written frames, limits, room for frames of
    control, and which batches are all or nothing.

  \<^bold>\<open>The ledger of a turn\<close> (\<open>contracts/turn_execution.py\<close>).
  \<^item> \<open>Turn_Data\<close>: leases, attempt ledgers, snapshots, the publication, tool buffers, and the values that the
    code types as \<open>Any\<close>. \<open>Turn_Context\<close>, \<open>Turn_Generation\<close>: one function for each method of
    \<open>TurnExecutionContext\<close>, from the state to a result or an exception and the next state. The
    tool buffers live in a store, because their opener keeps a reference. The event that a reset announces
    leaves out its two constant fields, the kind and the flag that completed tools are preserved.
  \<^item> \<open>Turn_Machine\<close>, \<open>Turn_Invariants\<close>, \<open>Turn_Reachable\<close>, \<open>Turn_Runs\<close>: the context as a machine, its
    invariants by groups of fields, the states it can reach when \<open>uuid4\<close> does not repeat itself, and what a
    state promises about later ones. \<open>Turn_Claims\<close>: the properties.

  \<^bold>\<open>Providers.\<close>
  \<^item> \<open>Failures\<close>: \<open>provider/failures.py\<close> with its tables and patterns, the decision of \<open>provider/recovery.py\<close>
    and the recoveries of \<open>engine/runtime_recovery.py\<close>. \<open>Provider_Retry\<close>: Retry-After hints and cooldowns
    (\<open>provider/retry_after.py\<close>), the retry loop of one stream, \<open>engine/fallback.py\<close>. The loop recurses on
    the list of the world's answers; the theorem that it ends gives the number of answers it can consume.
  \<^item> \<open>Health\<close>: \<open>engine/routing/health.py\<close> and the pool of \<open>provider/credentials.py\<close>.

  \<^bold>\<open>Scheduled jobs.\<close>
  \<^item> \<open>Cron\<close>: \<open>scheduler/parser.py\<close> and the search for the next run; \<open>Scheduler\<close>: the outcome of a
    run, backoff, and the reservation protocol of the job table.
    The search for the next run steps through minutes with the bound of the code, four years of minutes.

  \<^bold>\<open>Goals and plans of a session.\<close>
  \<^item> \<open>Session_Key\<close>: \<open>agent_ids.py\<close> and \<open>session_key.py\<close>. \<open>Goal_Data\<close>: \<open>session/goals.py\<close>; \<open>Plan_Data\<close>,
    \<open>Plan_Forms\<close>: \<open>session/plans.py\<close>; records, limits, normalizers and codecs with their round trips.
  \<^item> \<open>Session_Ledger\<close>: the tables of \<open>session/storage.py\<close> that Goals and plans use, with the constraints
    that SQLite checks. \<open>Goal_Commands\<close>, \<open>Goal_Tasks\<close>, \<open>Plan_Runs\<close>, \<open>Session_Recovery\<close>: one function for
    each transaction, from the ledger to an error or a value and the next ledger.
  \<^item> \<open>Session_Machine\<close>, \<open>Session_Invariants\<close>, \<open>Session_Reachable\<close>: all transactions, with anything
    that the rest of the program may do to the rows between them, as one machine, and its invariant.
    \<open>Session_Moves\<close>: the abstract lifecycle of a Goal and the proof that every transaction refines it;
    \<open>Run_Moves\<close>: the same for plan runs. \<open>Session_Receipts\<close>: idempotent commands.
    \<open>Session_Claims\<close>, \<open>Session_Progress\<close>: the properties.

  \<^bold>\<open>Approvals\<close> (\<open>application/approval_queue.py\<close>). \<open>Approvals\<close>: the queue and its operations;
  \<open>Approval_Moves\<close>: a step relation on one row that every operation follows; \<open>Approval_Claims\<close>: the
  properties, by induction over runs.

  \<^bold>\<open>Conventions.\<close> A text is a list of the code points 0 to 255. A clock in floating point is a real number;
  no property rests on rounding. A method under a lock and a transaction under the writer lock are one step.
  JSON columns are the values they decode to. Functions of third parties (SHA-256, \<open>uuid5\<close>, the zone
  database, the \<open>ipaddress\<close> module, \<open>str\<close> of containers) are parameters; a theorem that rests on
  their behaviour states it as a hypothesis. The messages of Goal and plan errors are left out.

  \<^bold>\<open>Not modelled.\<close> The agent loop and the turn runner (\<open>engine/agent.py\<close>, \<open>engine/runtime.py\<close>) and the
  task runtime, which order asynchronous calls around the decisions modelled here; provider adapters,
  channels, tools, skills and the sandbox, which talk to other programs and to the host; retrieval
  and the router's model inference, whose results are numbers of trained models; transcripts,
  compaction and search in the session store; the handlers of the gateway, and the queues of its connections
  around the windows modelled here; the command line, onboarding and the web interface. The sources name each of them in the manifest.
\<close>

end
